(* ===== verification/Prelude.thy ===== *)
theory Prelude
  imports Complex_Main "HOL-Library.AList"
begin

text \<open>
  Shared vocabulary of the development: Python exceptions as values, the state and
  exception monad in which every effectful method of the bot is written, the rules that
  push an invariant through such a method, and the few pieces of the Python standard
  library the program relies on (insertion-ordered dicts, bounded deques, asyncio queues,
  \<open>round\<close>).  Floating-point numbers are modelled by real numbers throughout.
\<close>

section \<open>Collections of facts\<close>

named_theorems keeps_intros \<open>introduction rules: an effectful method keeps an invariant\<close>
named_theorems eff_simps \<open>unfolding rules of the state and exception monad\<close>

section \<open>Exceptions\<close>

text \<open>
  The exceptions the source raises or handles.  The \<open>ccxt\<close> classes carry the names the
  source imports; \<open>TimeoutError\<close> is \<open>asyncio.TimeoutError\<close>; \<open>OtherError\<close> stands for any other \<open>Exception\<close> of a library call.
\<close>

datatype exn =
    ValueError string
  | RuntimeError string
  | ImportError string
  | KeyError string
  | ZeroDivisionError
  | FileNotFoundError string
  | HTTPException nat string
  | NetworkError
  | RequestTimeout
  | DDoSProtection
  | RateLimitExceeded
  | AuthenticationError
  | OrderNotFound
  | NotSupported
  | ExchangeError
  | TimeoutError
  | OtherError string

type_synonym 'a result = "exn + 'a"

definition bindR :: "'a result \<Rightarrow> ('a \<Rightarrow> 'b result) \<Rightarrow> 'b result" where
  "bindR r f = (case r of Inl e \<Rightarrow> Inl e | Inr x \<Rightarrow> f x)"

lemma bindR_simps [simp]: "bindR (Inl e) f = Inl e" "bindR (Inr x) f = f x"
  by (simp_all add: bindR_def)

lemma bindR_eq_Inr: "bindR r f = Inr y \<longleftrightarrow> (\<exists>x. r = Inr x \<and> f x = Inr y)"
  by (cases r) simp_all

section \<open>Methods with effects\<close>

text \<open>
  A method that reads and writes the object's state and may raise is a function from the
  state to a result and the new state.  State changes made before a \<open>raise\<close> persist, as in
  Python.
\<close>

type_synonym ('s, 'a) eff = "'s \<Rightarrow> 'a result \<times> 's"

definition ret :: "'a \<Rightarrow> ('s, 'a) eff" where
  "ret x s = (Inr x, s)"

definition raiseE :: "exn \<Rightarrow> ('s, 'a) eff" where
  "raiseE e s = (Inl e, s)"

definition bindE :: "('s, 'a) eff \<Rightarrow> ('a \<Rightarrow> ('s, 'b) eff) \<Rightarrow> ('s, 'b) eff" where
  "bindE m f s = (case m s of (Inl e, s') \<Rightarrow> (Inl e, s') | (Inr x, s') \<Rightarrow> f x s')"

definition seqE :: "('s, 'a) eff \<Rightarrow> ('s, 'b) eff \<Rightarrow> ('s, 'b) eff" where
  "seqE m n = bindE m (\<lambda>_. n)"

definition getsE :: "('s \<Rightarrow> 'a) \<Rightarrow> ('s, 'a) eff" where
  "getsE f s = (Inr (f s), s)"

definition modE :: "('s \<Rightarrow> 's) \<Rightarrow> ('s, unit) eff" where
  "modE f s = (Inr (), f s)"

text \<open>\<open>try: m  except Exception as e: h(e)\<close>\<close>

definition catchE :: "('s, 'a) eff \<Rightarrow> (exn \<Rightarrow> ('s, 'a) eff) \<Rightarrow> ('s, 'a) eff" where
  "catchE m h s = (case m s of (Inl e, s') \<Rightarrow> h e s' | (Inr x, s') \<Rightarrow> (Inr x, s'))"

text \<open>\<open>for x in xs: f(x)\<close>, and the loop that appends what each call returns unless it is None.\<close>

fun for_each :: "('a \<Rightarrow> ('s, unit) eff) \<Rightarrow> 'a list \<Rightarrow> ('s, unit) eff" where
  "for_each f [] = ret ()"
| "for_each f (x # xs) = seqE (f x) (for_each f xs)"

fun for_collect :: "('a \<Rightarrow> ('s, 'b option) eff) \<Rightarrow> 'a list \<Rightarrow> ('s, 'b list) eff" where
  "for_collect f [] = ret []"
| "for_collect f (x # xs) =
     bindE (f x) (\<lambda>r. bindE (for_collect f xs) (\<lambda>ys.
       ret (case r of None \<Rightarrow> ys | Some y \<Rightarrow> y # ys)))"

lemmas [eff_simps] = ret_def raiseE_def bindE_def seqE_def getsE_def modE_def catchE_def

lemma bindE_cong_state:
  "m s = m' s \<Longrightarrow> (\<And>x s'. m' s = (Inr x, s') \<Longrightarrow> f x s' = f' x s') \<Longrightarrow> bindE m f s = bindE m' f' s"
  by (auto simp: bindE_def split: sum.splits prod.splits)

lemma for_each_append:
  "for_each f (xs @ ys) = seqE (for_each f xs) (for_each f ys)"
  by (induction xs) (auto simp: eff_simps fun_eq_iff split: sum.splits prod.splits)

text \<open>A sequence of calls that does not raise decomposes into its calls.\<close>

lemma bindE_eq_Inr:
  "bindE m f s = (Inr y, s') \<longleftrightarrow> (\<exists>x s1. m s = (Inr x, s1) \<and> f x s1 = (Inr y, s'))"
  by (auto simp: bindE_def split: sum.split prod.split)

lemma seqE_eq_Inr:
  "seqE m n s = (Inr y, s') \<longleftrightarrow> (\<exists>x s1. m s = (Inr x, s1) \<and> n s1 = (Inr y, s'))"
  by (simp add: seqE_def bindE_eq_Inr)

lemma for_each_Inr:
  "for_each f (x # xs) s = (Inr y, s') \<longleftrightarrow>
     (\<exists>s1. f x s = (Inr (), s1) \<and> for_each f xs s1 = (Inr y, s'))"
  by (simp add: seqE_eq_Inr)

subsection \<open>Invariants of methods\<close>

definition keeps :: "('s \<Rightarrow> bool) \<Rightarrow> ('s, 'a) eff \<Rightarrow> bool" where
  "keeps P m \<longleftrightarrow> (\<forall>s. P s \<longrightarrow> P (snd (m s)))"

lemma keepsI: "(\<And>s. P s \<Longrightarrow> P (snd (m s))) \<Longrightarrow> keeps P m"
  by (simp add: keeps_def)

lemma keepsD: "keeps P m \<Longrightarrow> P s \<Longrightarrow> P (snd (m s))"
  by (simp add: keeps_def)

lemma keepsE: "keeps P m \<Longrightarrow> m s = (r, s') \<Longrightarrow> P s \<Longrightarrow> P s'"
  by (metis keepsD snd_conv)

lemma keeps_ret [keeps_intros]: "keeps P (ret x)"
  by (simp add: keeps_def ret_def)

lemma keeps_raise [keeps_intros]: "keeps P (raiseE e)"
  by (simp add: keeps_def raiseE_def)

lemma keeps_gets [keeps_intros]: "keeps P (getsE f)"
  by (simp add: keeps_def getsE_def)

lemma keeps_bind [keeps_intros]:
  "keeps P m \<Longrightarrow> (\<And>x. keeps P (f x)) \<Longrightarrow> keeps P (bindE m f)"
  by (auto simp: keeps_def bindE_def split: sum.split prod.split)

lemma keeps_seq [keeps_intros]: "keeps P m \<Longrightarrow> keeps P n \<Longrightarrow> keeps P (seqE m n)"
  by (simp add: seqE_def keeps_bind)

lemma keeps_catch [keeps_intros]:
  "keeps P m \<Longrightarrow> (\<And>e. keeps P (h e)) \<Longrightarrow> keeps P (catchE m h)"
  by (auto simp: keeps_def catchE_def split: sum.split prod.split)

lemma keeps_mod: "(\<And>s. P s \<Longrightarrow> P (f s)) \<Longrightarrow> keeps P (modE f)"
  by (simp add: keeps_def modE_def)

lemma keeps_if [keeps_intros]:
  "(b \<Longrightarrow> keeps P m) \<Longrightarrow> (\<not> b \<Longrightarrow> keeps P n) \<Longrightarrow> keeps P (if b then m else n)"
  by simp

lemma keeps_option [keeps_intros]:
  "keeps P m \<Longrightarrow> (\<And>x. keeps P (f x)) \<Longrightarrow> keeps P (case z of None \<Rightarrow> m | Some x \<Rightarrow> f x)"
  by (cases z) simp_all

lemma keeps_for_each [keeps_intros]:
  "(\<And>x. x \<in> set xs \<Longrightarrow> keeps P (f x)) \<Longrightarrow> keeps P (for_each f xs)"
  by (induction xs) (auto intro: keeps_intros)

lemma keeps_for_collect [keeps_intros]:
  "(\<And>x. x \<in> set xs \<Longrightarrow> keeps P (f x)) \<Longrightarrow> keeps P (for_collect f xs)"
  by (induction xs) (auto intro!: keeps_intros)

lemma keeps_conj: "keeps P m \<Longrightarrow> keeps Q m \<Longrightarrow> keeps (\<lambda>s. P s \<and> Q s) m"
  by (simp add: keeps_def)

subsection \<open>Methods that agree while a condition holds\<close>

definition agree :: "('s \<Rightarrow> bool) \<Rightarrow> ('s, 'a) eff \<Rightarrow> ('s, 'a) eff \<Rightarrow> bool" where
  "agree P m n \<longleftrightarrow> (\<forall>s. P s \<longrightarrow> m s = n s \<and> P (snd (m s)))"

named_theorems agree_intros \<open>introduction rules: two methods agree while a condition holds\<close>

lemma agreeI: "(\<And>s. P s \<Longrightarrow> m s = n s \<and> P (snd (m s))) \<Longrightarrow> agree P m n"
  unfolding agree_def by blast

lemma agreeD: "agree P m n \<Longrightarrow> P s \<Longrightarrow> m s = n s"
  by (simp add: agree_def)

lemma agree_keeps: "keeps P m \<Longrightarrow> agree P m m"
  by (simp add: agree_def keeps_def)

lemma agree_bind [agree_intros]:
  "agree P m n \<Longrightarrow> (\<And>x. agree P (f x) (g x)) \<Longrightarrow> agree P (bindE m f) (bindE n g)"
  by (simp add: agree_def bindE_def split: sum.split prod.split) (metis snd_conv)

lemma agree_gets [agree_intros]:
  "(\<And>s. P s \<Longrightarrow> agree P (f (q s)) (g (q s))) \<Longrightarrow> agree P (bindE (getsE q) f) (bindE (getsE q) g)"
  unfolding agree_def bindE_def getsE_def prod.case sum.case by blast

lemma agree_seq [agree_intros]:
  "agree P m n \<Longrightarrow> agree P m' n' \<Longrightarrow> agree P (seqE m m') (seqE n n')"
  by (simp add: seqE_def agree_bind)

lemma agree_for_each [agree_intros]:
  "(\<And>x. agree P (f x) (g x)) \<Longrightarrow> agree P (for_each f xs) (for_each g xs)"
  by (induction xs) (auto intro: agree_intros agree_keeps keeps_intros)

lemma agree_for_collect [agree_intros]:
  "(\<And>x. agree P (f x) (g x)) \<Longrightarrow> agree P (for_collect f xs) (for_collect g xs)"
  by (induction xs) (auto intro!: agree_bind agree_keeps keeps_intros)

lemma agree_if [agree_intros]:
  "(b \<Longrightarrow> agree P m n) \<Longrightarrow> (\<not> b \<Longrightarrow> agree P m' n') \<Longrightarrow>
   agree P (if b then m else m') (if b then n else n')"
  by simp

lemma agree_option [agree_intros]:
  "agree P m n \<Longrightarrow> (\<And>x. agree P (f x) (g x)) \<Longrightarrow>
   agree P (case z of None \<Rightarrow> m | Some x \<Rightarrow> f x) (case z of None \<Rightarrow> n | Some x \<Rightarrow> g x)"
  by (cases z) simp_all

section \<open>The parts of the standard library the program uses\<close>

subsection \<open>Dicts\<close>

text \<open>
  A dict is an association list in insertion order: assigning to a present key keeps its
  position, a new key goes to the end.  \<open>AList.update\<close> and \<open>AList.delete\<close> do that.
\<close>

abbreviation dict_get :: "('k \<times> 'v) list \<Rightarrow> 'k \<Rightarrow> 'v option" where
  "dict_get \<equiv> map_of"

abbreviation dict_keys :: "('k \<times> 'v) list \<Rightarrow> 'k list" where
  "dict_keys \<equiv> map fst"

abbreviation dict_values :: "('k \<times> 'v) list \<Rightarrow> 'v list" where
  "dict_values \<equiv> map snd"

definition dict_wf :: "('k \<times> 'v) list \<Rightarrow> bool" where
  "dict_wf d \<longleftrightarrow> distinct (dict_keys d)"

lemma dict_wf_Nil [simp]: "dict_wf []"
  by (simp add: dict_wf_def)

lemma dict_wf_update [simp]: "dict_wf d \<Longrightarrow> dict_wf (AList.update k v d)"
  by (simp add: dict_wf_def distinct_update)

lemma dict_wf_delete [simp]: "dict_wf d \<Longrightarrow> dict_wf (AList.delete k d)"
  by (simp add: dict_wf_def distinct_delete)

lemma set_update_wf:
  "dict_wf d \<Longrightarrow> set (AList.update k v d) = insert (k, v) {p \<in> set d. fst p \<noteq> k}"
  by (induction d) (auto simp: dict_wf_def rev_image_eqI)

lemma set_delete: "set (AList.delete k d) = {p \<in> set d. fst p \<noteq> k}"
  by (auto simp: AList.delete_eq)

lemma update_fresh: "k \<notin> set (dict_keys d) \<Longrightarrow> AList.update k v d = d @ [(k, v)]"
  by (induction d) auto

lemma delete_absent: "k \<notin> set (dict_keys d) \<Longrightarrow> AList.delete k d = d"
  by (force simp: AList.delete_eq filter_id_conv)

subsection \<open>Deques with a maximal length\<close>

definition deque_append :: "nat \<Rightarrow> 'a \<Rightarrow> 'a list \<Rightarrow> 'a list" where
  "deque_append maxlen x xs = (let ys = xs @ [x] in drop (length ys - maxlen) ys)"

lemma length_deque_append [simp]:
  "length (deque_append n x xs) = min n (Suc (length xs))"
  by (simp add: deque_append_def Let_def)

lemma set_deque_append: "set (deque_append n x xs) \<subseteq> insert x (set xs)"
  by (auto simp: deque_append_def Let_def dest: in_set_dropD)

lemma deque_append_room: "length xs < n \<Longrightarrow> deque_append n x xs = xs @ [x]"
  by (simp add: deque_append_def Let_def)

lemma deque_append_full: "0 < n \<Longrightarrow> length xs = n \<Longrightarrow> deque_append n x xs = tl xs @ [x]"
  by (cases xs) (auto simp: deque_append_def Let_def)

subsection \<open>Rounding\<close>

text \<open>\<open>round(x)\<close>: to the nearest integer, ties to the even one.\<close>

definition py_round :: "real \<Rightarrow> int" where
  "py_round x =
     (let f = \<lfloor>x\<rfloor>; d = x - of_int f
      in if d < 1 / 2 then f else if d > 1 / 2 then f + 1 else if even f then f else f + 1)"

text \<open>\<open>int(x)\<close> cuts towards zero.\<close>

definition py_int :: "real \<Rightarrow> int" where
  "py_int x = (if 0 \<le> x then \<lfloor>x\<rfloor> else \<lceil>x\<rceil>)"

text \<open>\<open>round(x, n)\<close>\<close>

definition py_round_n :: "nat \<Rightarrow> real \<Rightarrow> real" where
  "py_round_n n x = of_int (py_round (x * 10 ^ n)) / 10 ^ n"

lemma py_round_error: "\<bar>of_int (py_round x) - x\<bar> \<le> 1 / 2"
proof -
  have "of_int \<lfloor>x\<rfloor> \<le> x" "x < of_int \<lfloor>x\<rfloor> + 1"
    by linarith+
  then show ?thesis
    by (auto simp: py_round_def Let_def)
qed

lemma py_round_of_int [simp]: "py_round (of_int n) = n"
  by (simp add: py_round_def Let_def)

lemma py_round_mono: "x \<le> y \<Longrightarrow> py_round x \<le> py_round y"
proof -
  assume le: "x \<le> y"
  show ?thesis
  proof (cases "\<lfloor>x\<rfloor> = \<lfloor>y\<rfloor>")
    case True
    with le show ?thesis by (auto simp: py_round_def Let_def)
  next
    case False
    with le have "\<lfloor>x\<rfloor> + 1 \<le> \<lfloor>y\<rfloor>"
      using floor_mono [OF le] by linarith
    moreover have "py_round x \<le> \<lfloor>x\<rfloor> + 1" "\<lfloor>y\<rfloor> \<le> py_round y"
      by (auto simp: py_round_def Let_def)
    ultimately show ?thesis by linarith
  qed
qed

lemma py_round_nonneg: "0 \<le> x \<Longrightarrow> 0 \<le> py_round x"
  using py_round_mono [of 0 x] py_round_of_int [of 0] by simp

section \<open>Lists\<close>

lemma sum_list_nonneg_map: "(\<And>x. x \<in> set xs \<Longrightarrow> 0 \<le> f x) \<Longrightarrow> 0 \<le> (\<Sum>x\<leftarrow>xs. f x :: real)"
  by (induction xs) auto

lemma sum_list_pos: "xs \<noteq> [] \<Longrightarrow> (\<And>x. x \<in> set xs \<Longrightarrow> 0 < x) \<Longrightarrow> 0 < sum_list (xs :: real list)"
  by (induction xs) (auto, metis add_pos_pos sum_list.Nil add_0_right)

lemma sum_list_divide: "(\<Sum>x\<leftarrow>xs. f x / c) = (\<Sum>x\<leftarrow>xs. f x) / (c :: real)"
  by (induction xs) (auto simp: add_divide_distrib)

lemma sum_list_scale: "sum_list (map (\<lambda>x. x * c) xs) = sum_list xs * (c :: real)"
  by (induction xs) (auto simp: algebra_simps)

lemma sum_list_le_map:
  "(\<And>x. x \<in> set xs \<Longrightarrow> f x \<le> g x) \<Longrightarrow> (\<Sum>x\<leftarrow>xs. f x) \<le> (\<Sum>x\<leftarrow>xs. g x :: real)"
  by (induction xs) (auto intro: add_mono)

end
