(* ===== verification/AsyncQueue.thy ===== *)
theory AsyncQueue
  imports Prelude
begin

text \<open>
  \<open>asyncio.Queue\<close> as the bot uses it: non-blocking \<open>put_nowait\<close> and \<open>get_nowait\<close>, and the
  two idioms built on them in the source: "put, drop the item if the queue is full"
  (orchestrator to bots, orchestrator to regime master, regime master to bots) and "drain,
  keep only the newest" (\<open>ExchangeBot._drain_regime_queue\<close>).  The locale states what a
  bounded channel promises; its clients are proved once and hold for the asyncio queue.
\<close>

record 'a aqueue =
  q_maxsize :: nat
  q_items :: "'a list"

definition new_queue :: "nat \<Rightarrow> 'a aqueue" where
  "new_queue n = \<lparr>q_maxsize = n, q_items = []\<rparr>"

text \<open>\<open>None\<close> is \<open>asyncio.QueueFull\<close>; \<open>maxsize = 0\<close> means unbounded.\<close>

definition put_nowait :: "'a \<Rightarrow> 'a aqueue \<Rightarrow> 'a aqueue option" where
  "put_nowait x q =
     (if 0 < q_maxsize q \<and> q_maxsize q \<le> length (q_items q) then None
      else Some (q\<lparr>q_items := q_items q @ [x]\<rparr>))"

text \<open>\<open>None\<close> is \<open>asyncio.QueueEmpty\<close>.\<close>

definition get_nowait :: "'a aqueue \<Rightarrow> ('a \<times> 'a aqueue) option" where
  "get_nowait q = (case q_items q of [] \<Rightarrow> None | x # xs \<Rightarrow> Some (x, q\<lparr>q_items := xs\<rparr>))"

text \<open>\<open>try: q.put_nowait(x)  except asyncio.QueueFull: pass\<close>\<close>

definition offer :: "('a \<Rightarrow> 'q \<Rightarrow> 'q option) \<Rightarrow> 'a \<Rightarrow> 'q \<Rightarrow> 'q" where
  "offer put x q = (case put x q of None \<Rightarrow> q | Some q' \<Rightarrow> q')"

text \<open>Offering a sequence of items, one after the other.\<close>

definition offer_all :: "('a \<Rightarrow> 'q \<Rightarrow> 'q option) \<Rightarrow> 'a list \<Rightarrow> 'q \<Rightarrow> 'q" where
  "offer_all put xs q = foldl (\<lambda>q x. offer put x q) q xs"

section \<open>The contract of a bounded channel\<close>

locale bounded_channel =
  fixes put :: "'a \<Rightarrow> 'q \<Rightarrow> 'q option"
    and get :: "'q \<Rightarrow> ('a \<times> 'q) option"
    and items :: "'q \<Rightarrow> 'a list"
    and cap :: "'q \<Rightarrow> nat"
  assumes put_full: "put x q = None \<longleftrightarrow> 0 < cap q \<and> cap q \<le> length (items q)"
    and put_items: "put x q = Some q' \<Longrightarrow> items q' = items q @ [x]"
    and put_cap: "put x q = Some q' \<Longrightarrow> cap q' = cap q"
    and get_empty: "get q = None \<longleftrightarrow> items q = []"
    and get_items: "get q = Some (x, q') \<Longrightarrow> items q = x # items q'"
    and get_cap: "get q = Some (x, q') \<Longrightarrow> cap q' = cap q"
begin

lemma offer_cap [simp]: "cap (offer put x q) = cap q"
  by (auto simp: offer_def put_cap split: option.split)

lemma offer_items:
  "items (offer put x q) =
     (if 0 < cap q \<and> cap q \<le> length (items q) then items q else items q @ [x])"
  using put_full [of x q] by (auto simp: offer_def put_items split: option.split)

lemma offer_bounded: "length (items q) \<le> cap q \<Longrightarrow> 0 < cap q \<Longrightarrow> length (items (offer put x q)) \<le> cap q"
  by (auto simp: offer_items)

lemma offer_all_cap [simp]: "cap (offer_all put xs q) = cap q"
  by (induction xs arbitrary: q) (auto simp: offer_all_def)

text \<open>A full channel keeps what it holds and loses the newest items.\<close>

lemma offer_all_items:
  "0 < cap q \<Longrightarrow> length (items q) \<le> cap q \<Longrightarrow>
   items (offer_all put xs q) = take (cap q) (items q @ xs)"
proof (induction xs arbitrary: q)
  case Nil
  then show ?case by (simp add: offer_all_def)
next
  case (Cons x xs)
  have step: "offer_all put (x # xs) q = offer_all put xs (offer put x q)"
    by (simp add: offer_all_def)
  have "length (items (offer put x q)) \<le> cap (offer put x q)"
    using offer_bounded Cons.prems by simp
  then have "items (offer_all put (x # xs) q) = take (cap q) (items (offer put x q) @ xs)"
    using Cons.IH [of "offer put x q"] Cons.prems by (simp add: step)
  also have "\<dots> = take (cap q) (items q @ x # xs)"
    by (auto simp: offer_items take_Cons')
  finally show ?case .
qed

end

interpretation aq: bounded_channel put_nowait get_nowait q_items q_maxsize
  by unfold_locales
    (auto simp: put_nowait_def get_nowait_def split: if_splits list.splits)

section \<open>Draining a queue\<close>

text \<open>
  \<open>while True: try: latest = q.get_nowait()  except asyncio.QueueEmpty: break\<close>
\<close>

function drain :: "'a option \<Rightarrow> 'a aqueue \<Rightarrow> 'a option \<times> 'a aqueue" where
  "drain latest q =
     (case get_nowait q of None \<Rightarrow> (latest, q) | Some (x, q') \<Rightarrow> drain (Some x) q')"
  by pat_completeness auto
termination
  by (relation "measure (\<lambda>(_, q). length (q_items q))") (auto dest: aq.get_items)

declare drain.simps [simp del]

lemma drain_result:
  "drain latest q =
     (if q_items q = [] then latest else Some (last (q_items q)), q\<lparr>q_items := []\<rparr>)"
proof (induction latest q rule: drain.induct)
  case (1 latest q)
  show ?case
  proof (cases "q_items q")
    case Nil
    then show ?thesis by (simp add: drain.simps [of latest q] get_nowait_def)
  next
    case (Cons x xs)
    then have "get_nowait q = Some (x, q\<lparr>q_items := xs\<rparr>)" by (simp add: get_nowait_def)
    with "1.IH" [OF this refl] Cons show ?thesis
      by (simp add: drain.simps [of latest q])
  qed
qed

end
