(* ===== verification/ExchangeBase.thy ===== *)
theory ExchangeBase
  imports Prelude
begin

text \<open>
  \<open>exchange/base.py\<close> and \<open>exchange/ws_connector.py\<close>: the shared data structures, the order
  book, and the abstract connector.  The exchange behind a connector, the clock, the random
  identifiers and the database server are outside the repository: they are the fields of
  \<open>env\<close>, functions on an unspecified world \<open>'w\<close>.  Every definition that reaches them takes
  an \<open>env\<close>, so a theorem about the definition holds for every exchange and every clock.
\<close>

section \<open>Data\<close>

record ticker =
  tk_bid :: real
  tk_ask :: real
  tk_mid :: real
  tk_last :: real
  tk_timestamp :: real

record candle =
  cd_timestamp :: real
  cd_open :: real
  cd_high :: real
  cd_low :: real
  cd_close :: real
  cd_volume :: real

record balance =
  bal_usd :: real
  bal_token :: real
  bal_quote_currency :: string

text \<open>Sides and statuses are strings in the source and stay strings here.\<close>

record order =
  ord_id :: string
  ord_exchange :: string
  ord_symbol :: string
  ord_side :: string
  ord_price :: real
  ord_amount :: real
  ord_amount_usd :: real
  ord_status :: string
  ord_timestamp :: real
  ord_filled_amount :: real
  ord_filled_price :: real
  ord_fee :: real
  ord_fee_currency :: string

record fill =
  fl_id :: string
  fl_order_id :: string
  fl_exchange :: string
  fl_symbol :: string
  fl_side :: string
  fl_filled_price :: real
  fl_filled_amount :: real
  fl_fee :: real
  fl_fee_currency :: string
  fl_timestamp :: real
  fl_pnl_usd :: real

section \<open>The order book\<close>

record order_book =
  ob_exchange :: string
  ob_bids :: "(real \<times> real) list"
  ob_asks :: "(real \<times> real) list"
  ob_timestamp :: real

definition best_bid :: "order_book \<Rightarrow> real option" where
  "best_bid b = (case ob_bids b of [] \<Rightarrow> None | (p, _) # _ \<Rightarrow> Some p)"

definition best_ask :: "order_book \<Rightarrow> real option" where
  "best_ask b = (case ob_asks b of [] \<Rightarrow> None | (p, _) # _ \<Rightarrow> Some p)"

definition book_mid :: "order_book \<Rightarrow> real option" where
  "book_mid b =
     (case best_bid b of
        None \<Rightarrow> None
      | Some bid \<Rightarrow> (case best_ask b of None \<Rightarrow> None | Some ask \<Rightarrow> Some ((bid + ask) / 2)))"

section \<open>The abstract connector and the rest of the environment\<close>

text \<open>
  \<open>BaseConnector\<close>: one field per abstract method; each may change the world and may raise.
\<close>

record 'w connector =
  is_connected :: "'w \<Rightarrow> bool"
  cn_connect :: "'w \<Rightarrow> unit result \<times> 'w"
  cn_disconnect :: "'w \<Rightarrow> unit result \<times> 'w"
  cn_reconnect :: "'w \<Rightarrow> unit result \<times> 'w"
  fetch_ticker :: "'w \<Rightarrow> ticker result \<times> 'w"
  fetch_candles :: "string \<Rightarrow> nat \<Rightarrow> 'w \<Rightarrow> candle list result \<times> 'w"
  fetch_balance :: "'w \<Rightarrow> balance result \<times> 'w"
  create_limit_order :: "string \<Rightarrow> real \<Rightarrow> real \<Rightarrow> 'w \<Rightarrow> order result \<times> 'w"
  cancel_order :: "string \<Rightarrow> 'w \<Rightarrow> unit result \<times> 'w"
  cancel_all_orders :: "'w \<Rightarrow> unit result \<times> 'w"
  fetch_open_orders :: "'w \<Rightarrow> order list result \<times> 'w"
  fetch_fills :: "real option \<Rightarrow> 'w \<Rightarrow> fill list result \<times> 'w"

text \<open>
  The clock (\<open>time.time\<close>), the monotonic clock, \<open>asyncio.sleep\<close>, the eight hex digits taken
  from \<open>uuid4\<close>, and whether the next database statement fails.
\<close>

record 'w env = "'w connector" +
  read_clock :: "'w \<Rightarrow> real \<times> 'w"
  read_monotonic :: "'w \<Rightarrow> real \<times> 'w"
  do_sleep :: "real \<Rightarrow> 'w \<Rightarrow> 'w"
  uuid_hex8 :: "'w \<Rightarrow> string \<times> 'w"
  db_fault :: "'w \<Rightarrow> exn option \<times> 'w"

section \<open>Calls to the environment\<close>

record 'w sys =
  world :: 'w

definition envE :: "('w \<Rightarrow> 'a \<times> 'w) \<Rightarrow> (('w, 'z) sys_scheme, 'a) eff" where
  "envE f s = (let (x, w) = f (world s) in (Inr x, s\<lparr>world := w\<rparr>))"

definition callE :: "('w \<Rightarrow> 'a result \<times> 'w) \<Rightarrow> (('w, 'z) sys_scheme, 'a) eff" where
  "callE f s = (let (r, w) = f (world s) in (r, s\<lparr>world := w\<rparr>))"

definition now_s :: "'w env \<Rightarrow> (('w, 'z) sys_scheme, real) eff" where
  "now_s env = envE (read_clock env)"

text \<open>Whatever does not read the world survives a call.\<close>

definition world_free :: "(('w, 'z) sys_scheme \<Rightarrow> bool) \<Rightarrow> bool" where
  "world_free P \<longleftrightarrow> (\<forall>s w. P s \<longrightarrow> P (s\<lparr>world := w\<rparr>))"

lemma world_freeI: "(\<And>s w. P s \<Longrightarrow> P (s\<lparr>world := w\<rparr>)) \<Longrightarrow> world_free P"
  by (simp add: world_free_def)

lemma world_freeD: "world_free P \<Longrightarrow> P s \<Longrightarrow> P (s\<lparr>world := w\<rparr>)"
  by (simp add: world_free_def)

lemma keeps_envE [keeps_intros]: "world_free P \<Longrightarrow> keeps P (envE f)"
  by (auto simp: keeps_def envE_def split: prod.split dest: world_freeD)

lemma keeps_callE [keeps_intros]: "world_free P \<Longrightarrow> keeps P (callE f)"
  by (auto simp: keeps_def callE_def split: prod.split dest: world_freeD)

lemma keeps_now_s [keeps_intros]: "world_free P \<Longrightarrow> keeps P (now_s env)"
  by (simp add: now_s_def keeps_envE)

lemmas [eff_simps] = envE_def callE_def now_s_def

lemma envE_Inr: "\<exists>x w. envE f s = (Inr x, s\<lparr>world := w\<rparr>)"
  by (auto simp: envE_def split: prod.split)

lemma now_s_Inr: "\<exists>t w. now_s env s = (Inr t, s\<lparr>world := w\<rparr>)"
  by (simp add: now_s_def envE_Inr)

section \<open>Facts about books\<close>

lemma book_mid_between:
  assumes "book_mid b = Some m" and "best_bid b = Some x" and "best_ask b = Some y" and "x \<le> y"
  shows "x \<le> m" and "m \<le> y"
  using assms by (auto simp: book_mid_def)

section \<open>A sample environment\<close>

text \<open>
  A world in which every call succeeds: the state counts the calls that create something, the
  clock stands at 1000 and a limit order is accepted as requested.  The witnesses run on it.
\<close>

definition sample_order :: "string \<Rightarrow> string \<Rightarrow> real \<Rightarrow> real \<Rightarrow> order" where
  "sample_order i side p a =
     \<lparr>ord_id = i, ord_exchange = ''kucoin'', ord_symbol = ''ALKIMI/USDT'', ord_side = side,
      ord_price = p, ord_amount = a, ord_amount_usd = p * a, ord_status = ''open'',
      ord_timestamp = 1000, ord_filled_amount = 0, ord_filled_price = 0, ord_fee = 0,
      ord_fee_currency = ''''\<rparr>"

definition sample_env :: "nat env" where
  "sample_env =
     \<lparr>is_connected = (\<lambda>_. True), cn_connect = (\<lambda>w. (Inr (), w)), cn_disconnect = (\<lambda>w. (Inr (), w)),
      cn_reconnect = (\<lambda>w. (Inr (), w)),
      fetch_ticker = (\<lambda>w. (Inr \<lparr>tk_bid = 99, tk_ask = 101, tk_mid = 100, tk_last = 100,
                              tk_timestamp = 1000\<rparr>, w)),
      fetch_candles = (\<lambda>_ _ w. (Inr [], w)),
      fetch_balance = (\<lambda>w. (Inr \<lparr>bal_usd = 1000, bal_token = 1000, bal_quote_currency = ''USDT''\<rparr>, w)),
      create_limit_order = (\<lambda>side p a w. (Inr (sample_order (replicate w CHR ''x'') side p a), Suc w)),
      cancel_order = (\<lambda>_ w. (Inr (), w)), cancel_all_orders = (\<lambda>w. (Inr (), w)),
      fetch_open_orders = (\<lambda>w. (Inr [], w)), fetch_fills = (\<lambda>_ w. (Inr [], w)),
      read_clock = (\<lambda>w. (1000, w)), read_monotonic = (\<lambda>w. (1000, w)), do_sleep = (\<lambda>_ w. w),
      uuid_hex8 = (\<lambda>w. (replicate w CHR ''f'', Suc w)), db_fault = (\<lambda>w. (None, w))\<rparr>"

end
