(* ===== verification/RateLimiter.thy ===== *)
theory RateLimiter
  imports ExchangeBase
begin

text \<open>
  \<open>safety/rate_limiter.py\<close>: the token bucket.  \<open>refill\<close> and \<open>acquire_at\<close> are the arithmetic of
  one acquisition given the clock readings it makes; \<open>acquire\<close> is the method, which takes them
  from the environment and sleeps when the bucket is empty.  The lock of the source makes each
  acquisition atomic, so a run is a sequence of acquisitions.
\<close>

section \<open>State and operations\<close>

record rate_limiter =
  rl_max :: nat
  rl_tokens :: real
  rl_last_refill :: real

definition new_rate_limiter :: "nat \<Rightarrow> real \<Rightarrow> rate_limiter" where
  "new_rate_limiter m now = \<lparr>rl_max = m, rl_tokens = real m, rl_last_refill = now\<rparr>"

definition refill :: "real \<Rightarrow> rate_limiter \<Rightarrow> rate_limiter" where
  "refill now r =
     r\<lparr>rl_tokens := min (real (rl_max r)) (rl_tokens r + (now - rl_last_refill r) * real (rl_max r)),
       rl_last_refill := now\<rparr>"

definition wait_time :: "rate_limiter \<Rightarrow> real" where
  "wait_time r = (1 - rl_tokens r) / real (rl_max r)"

definition take_token :: "rate_limiter \<Rightarrow> rate_limiter" where
  "take_token r = r\<lparr>rl_tokens := rl_tokens r - 1\<rparr>"

text \<open>\<open>t1\<close> is the clock at the first refill, \<open>t2\<close> the clock after the sleep, if there is one.\<close>

definition acquire_at :: "real \<Rightarrow> real \<Rightarrow> rate_limiter \<Rightarrow> rate_limiter" where
  "acquire_at t1 t2 r =
     (let r1 = refill t1 r in take_token (if rl_tokens r1 < 1 then refill t2 r1 else r1))"

record 'w lim_sys = "'w sys" +
  limiter :: rate_limiter

definition acquire :: "'w env \<Rightarrow> (('w, 'z) lim_sys_scheme, unit) eff" where
  "acquire env =
     bindE (envE (read_monotonic env)) (\<lambda>t1.
     seqE (modE (\<lambda>s. s\<lparr>limiter := refill t1 (limiter s)\<rparr>))
     (bindE (getsE limiter) (\<lambda>r1.
     seqE (if rl_tokens r1 < 1
           then seqE (envE (\<lambda>w. ((), do_sleep env (wait_time r1) w)))
                  (bindE (envE (read_monotonic env)) (\<lambda>t2.
                     modE (\<lambda>s. s\<lparr>limiter := refill t2 (limiter s)\<rparr>)))
           else ret ())
       (modE (\<lambda>s. s\<lparr>limiter := take_token (limiter s)\<rparr>)))))"

section \<open>The method never raises and only touches the bucket and the world\<close>

lemma acquire_result:
  "\<exists>r w. acquire env s = (Inr (), s\<lparr>limiter := r, world := w\<rparr>)"
proof -
  have eq: "acquire env s =
      (fst (acquire env s), s\<lparr>limiter := limiter (snd (acquire env s)), world := world (snd (acquire env s))\<rparr>)"
    and "fst (acquire env s) = Inr ()"
    by (simp_all add: acquire_def eff_simps split: prod.splits)
  then show ?thesis by metis
qed

lemma acquire_arith:
  "\<exists>t1 t2. limiter (snd (acquire env s)) = acquire_at t1 t2 (limiter s)"
  by (auto simp: acquire_def eff_simps acquire_at_def Let_def split: prod.splits)

definition limiter_free :: "(('w, 'z) lim_sys_scheme \<Rightarrow> bool) \<Rightarrow> bool" where
  "limiter_free P \<longleftrightarrow> (\<forall>s r w. P s \<longrightarrow> P (s\<lparr>limiter := r, world := w\<rparr>))"

lemma limiter_freeI: "(\<And>s r w. P s \<Longrightarrow> P (s\<lparr>limiter := r, world := w\<rparr>)) \<Longrightarrow> limiter_free P"
  by (simp add: limiter_free_def)

lemma keeps_acquire [keeps_intros]: "limiter_free P \<Longrightarrow> keeps P (acquire env)"
proof (rule keepsI)
  fix s assume "limiter_free P" "P s"
  moreover obtain r w where "acquire env s = (Inr (), s\<lparr>limiter := r, world := w\<rparr>)"
    using acquire_result [of env s] by blast
  ultimately show "P (snd (acquire env s))" by (simp add: limiter_free_def)
qed

section \<open>The rate bound\<close>

text \<open>
  What the clock and the sleep promise for one acquisition: the monotonic clock does not run
  backwards, and a sleep lasts at least as long as asked.
\<close>

definition well_timed :: "rate_limiter \<Rightarrow> real \<Rightarrow> real \<Rightarrow> bool" where
  "well_timed r t1 t2 \<longleftrightarrow> rl_last_refill r \<le> t1 \<and>
     (rl_tokens (refill t1 r) < 1 \<longrightarrow> t1 + wait_time (refill t1 r) \<le> t2)"

definition bucket_ok :: "rate_limiter \<Rightarrow> bool" where
  "bucket_ok r \<longleftrightarrow> 1 \<le> rl_max r \<and> 0 \<le> rl_tokens r \<and> rl_tokens r \<le> real (rl_max r)"

lemma acquire_at_max [simp]: "rl_max (acquire_at t1 t2 r) = rl_max r"
  by (simp add: acquire_at_def take_token_def refill_def Let_def)

lemma refill_gain:
  "rl_last_refill r \<le> t \<Longrightarrow>
   rl_tokens (refill t r) - real (rl_max r) * rl_last_refill (refill t r)
     \<le> rl_tokens r - real (rl_max r) * rl_last_refill r"
  by (simp add: refill_def algebra_simps)

lemma acquire_at_step:
  assumes "bucket_ok r" and "well_timed r t1 t2"
  shows "bucket_ok (acquire_at t1 t2 r)"
    and "rl_tokens (acquire_at t1 t2 r) - real (rl_max r) * rl_last_refill (acquire_at t1 t2 r)
           \<le> rl_tokens r - real (rl_max r) * rl_last_refill r - 1"
proof -
  let ?r1 = "refill t1 r"
  have m: "1 \<le> rl_max r" "0 < real (rl_max r)" using assms(1) by (auto simp: bucket_ok_def)
  have ge: "0 \<le> (t1 - rl_last_refill r) * real (rl_max r)"
    using assms(2) by (simp add: well_timed_def)
  have r1: "0 \<le> rl_tokens ?r1" "rl_tokens ?r1 \<le> real (rl_max r)" "rl_max ?r1 = rl_max r"
    "rl_last_refill ?r1 = t1"
    using assms(1) ge by (auto simp: refill_def bucket_ok_def)
  show "bucket_ok (acquire_at t1 t2 r)"
  proof (cases "rl_tokens ?r1 < 1")
    case True
    then have "wait_time ?r1 \<le> t2 - t1" using assms(2) by (simp add: well_timed_def)
    then have "1 - rl_tokens ?r1 \<le> (t2 - t1) * real (rl_max r)"
      using m(2) by (simp add: wait_time_def r1 pos_divide_le_eq)
    with True m r1 show ?thesis
      by (simp add: acquire_at_def Let_def bucket_ok_def take_token_def refill_def [of t2])
  next
    case False
    with m r1 show ?thesis
      by (simp add: acquire_at_def Let_def bucket_ok_def take_token_def)
  qed
  have g1: "rl_tokens ?r1 - real (rl_max r) * t1 \<le> rl_tokens r - real (rl_max r) * rl_last_refill r"
    using refill_gain [of r t1] assms(2) by (simp add: well_timed_def r1)
  show "rl_tokens (acquire_at t1 t2 r) - real (rl_max r) * rl_last_refill (acquire_at t1 t2 r)
           \<le> rl_tokens r - real (rl_max r) * rl_last_refill r - 1"
  proof (cases "rl_tokens ?r1 < 1")
    case True
    then have "t1 + wait_time ?r1 \<le> t2" using assms(2) by (simp add: well_timed_def)
    moreover have "0 \<le> wait_time ?r1" using True m by (simp add: wait_time_def r1)
    ultimately have "rl_last_refill ?r1 \<le> t2" by (simp add: r1)
    from refill_gain [OF this] g1 True show ?thesis
      by (simp add: acquire_at_def Let_def take_token_def r1)
  next
    case False
    with g1 show ?thesis by (simp add: acquire_at_def Let_def take_token_def r1)
  qed
qed

fun acquires :: "(real \<times> real) list \<Rightarrow> rate_limiter \<Rightarrow> rate_limiter" where
  "acquires [] r = r"
| "acquires ((t1, t2) # ts) r = acquires ts (acquire_at t1 t2 r)"

fun run_well_timed :: "(real \<times> real) list \<Rightarrow> rate_limiter \<Rightarrow> bool" where
  "run_well_timed [] r = True"
| "run_well_timed ((t1, t2) # ts) r = (well_timed r t1 t2 \<and> run_well_timed ts (acquire_at t1 t2 r))"

lemma acquires_max [simp]: "rl_max (acquires ts r) = rl_max r"
  by (induction ts r rule: acquires.induct) auto

lemma acquires_run:
  "bucket_ok r \<Longrightarrow> run_well_timed ts r \<Longrightarrow>
   bucket_ok (acquires ts r) \<and>
   rl_tokens (acquires ts r) - real (rl_max r) * rl_last_refill (acquires ts r)
     \<le> rl_tokens r - real (rl_max r) * rl_last_refill r - real (length ts)"
proof (induction ts r rule: acquires.induct)
  case (2 t1 t2 ts r)
  have "bucket_ok (acquire_at t1 t2 r)"
    and step: "rl_tokens (acquire_at t1 t2 r) - real (rl_max r) * rl_last_refill (acquire_at t1 t2 r)
           \<le> rl_tokens r - real (rl_max r) * rl_last_refill r - 1"
    using acquire_at_step [of r t1 t2] 2 by auto
  with "2.IH" "2.prems" show ?case by simp
qed simp

text \<open>
  C33. The limiter limits: over any well-timed sequence of acquisitions the number of requests let
  through is at most the burst \<open>max\<close> plus \<open>max\<close> per second of the time elapsed between the first
  and the last refill, and the bucket never goes negative.
\<close>

theorem rate_limit_holds:
  assumes "bucket_ok r" and "run_well_timed ts r"
  shows "real (length ts) \<le>
           real (rl_max r) + real (rl_max r) * (rl_last_refill (acquires ts r) - rl_last_refill r)
         \<and> 0 \<le> rl_tokens (acquires ts r)"
proof -
  have "rl_tokens (acquires ts r) - real (rl_max r) * rl_last_refill (acquires ts r)
     \<le> rl_tokens r - real (rl_max r) * rl_last_refill r - real (length ts)"
    and "bucket_ok (acquires ts r)"
    using acquires_run [OF assms] by auto
  then show ?thesis
    using assms(1) by (auto simp: bucket_ok_def algebra_simps)
qed

definition sample_acquisitions :: "(real \<times> real) list" where
  "sample_acquisitions = [(0, 0), (0, 0), (0, 1 / 2)]"

theorem rate_limit_holds_witness:
  "real (length sample_acquisitions) \<le>
     real (rl_max (new_rate_limiter 2 0)) + real (rl_max (new_rate_limiter 2 0)) *
       (rl_last_refill (acquires sample_acquisitions (new_rate_limiter 2 0))
        - rl_last_refill (new_rate_limiter 2 0))
   \<and> 0 \<le> rl_tokens (acquires sample_acquisitions (new_rate_limiter 2 0))"
  by (rule rate_limit_holds)
    (simp_all add: sample_acquisitions_def bucket_ok_def new_rate_limiter_def well_timed_def
      wait_time_def acquire_at_def refill_def take_token_def Let_def)

end
