(* ===== verification/Database.thy ===== *)
theory Database
  imports RateLimiter
begin

text \<open>
  \<open>db/database.py\<close> and \<open>db/queries.py\<close>: the connection state of the wrapper and the effect of
  every named query on the tables.  A table with a text primary key is an association list in
  insertion order, a table with a serial key is a list.  The server is outside the repository:
  whether a statement fails is read from the environment (\<open>db_fault\<close>), and a failed statement
  changes nothing.  SQL leaves the order of rows with equal sort keys open; the model keeps
  their insertion order.
\<close>

section \<open>Rows and connection state\<close>

record order_row =
  or_exchange :: string
  or_symbol :: string
  or_side :: string
  or_price :: real
  or_amount :: real
  or_amount_usd :: real
  or_status :: string
  or_placed_at :: real
  or_updated_at :: real

record fill_row =
  fr_order_id :: string
  fr_exchange :: string
  fr_symbol :: string
  fr_side :: string
  fr_price :: real
  fr_amount :: real
  fr_fee :: real
  fr_fee_currency :: string
  fr_filled_at :: real
  fr_pnl_usd :: "real option"

record snapshot_row =
  sr_exchange :: string
  sr_usd :: real
  sr_token :: real
  sr_global_mid :: real
  sr_volatility :: real
  sr_aggressiveness :: real
  sr_skew_factor :: real
  sr_snapshot_at :: real

record feature_row =
  ft_timestamp :: real
  ft_vol_simple :: real
  ft_vol_zz :: "real option"
  ft_zz_regime :: "string option"
  ft_hmm_regime :: "string option"
  ft_hmm_confidence :: "real option"
  ft_aggressiveness :: real
  ft_global_mid :: real
  ft_buy_spread_l1 :: "real option"
  ft_sell_spread_l1 :: "real option"
  ft_skew_factor :: real
  ft_fill_rate_1m :: real
  ft_pnl_1h :: "real option"

record database =
  db_pool :: bool
  db_batching :: bool
  db_batch_conn :: bool
  db_batch_txn :: bool
  t_orders :: "(string \<times> order_row) list"
  t_fills :: "(string \<times> fill_row) list"
  t_snapshots :: "snapshot_row list"
  t_features :: "feature_row list"

record 'w db_sys = "'w lim_sys" +
  db :: database

definition new_database :: database where
  "new_database =
     \<lparr>db_pool = False, db_batching = False, db_batch_conn = False, db_batch_txn = False,
      t_orders = [], t_fills = [], t_snapshots = [], t_features = []\<rparr>"

section \<open>Connection and batches\<close>

abbreviation mod_db :: "(database \<Rightarrow> database) \<Rightarrow> (('w, 'z) db_sys_scheme, unit) eff" where
  "mod_db f \<equiv> modE (\<lambda>s. s\<lparr>db := f (db s)\<rparr>)"

text \<open>A call to the server that may raise.\<close>

definition server_call :: "'w env \<Rightarrow> (('w, 'z) db_sys_scheme, unit) eff" where
  "server_call env =
     bindE (envE (db_fault env)) (\<lambda>f. case f of None \<Rightarrow> ret () | Some e \<Rightarrow> raiseE e)"

definition need_pool :: "(('w, 'z) db_sys_scheme, unit) eff" where
  "need_pool =
     bindE (getsE (\<lambda>s. db_pool (db s))) (\<lambda>ok.
       if ok then ret ()
       else raiseE (RuntimeError ''Database not connected. Call await db.connect() first.''))"

definition begin_batch :: "'w env \<Rightarrow> (('w, 'z) db_sys_scheme, unit) eff" where
  "begin_batch env =
     seqE need_pool (seqE (server_call env) (seqE (mod_db (\<lambda>d. d\<lparr>db_batch_conn := True\<rparr>))
       (seqE (mod_db (\<lambda>d. d\<lparr>db_batch_txn := True\<rparr>)) (seqE (server_call env)
         (mod_db (\<lambda>d. d\<lparr>db_batching := True\<rparr>))))))"

definition end_batch :: "'w env \<Rightarrow> (('w, 'z) db_sys_scheme, unit) eff" where
  "end_batch env =
     seqE (mod_db (\<lambda>d. d\<lparr>db_batching := False\<rparr>))
     (seqE
       (bindE (getsE (\<lambda>s. db_batch_txn (db s))) (\<lambda>t.
          if t then seqE (server_call env) (mod_db (\<lambda>d. d\<lparr>db_batch_txn := False\<rparr>)) else ret ()))
       (bindE (getsE (\<lambda>s. db_batch_conn (db s))) (\<lambda>c.
          if c then seqE need_pool (seqE (server_call env) (mod_db (\<lambda>d. d\<lparr>db_batch_conn := False\<rparr>)))
          else ret ())))"

text \<open>
  \<open>connect\<close> opens a pool, in place of one that may be there, and runs the statements of
  \<open>db/migrations.py\<close>; each creates something that may exist already, so the rows stay.
\<close>

definition schema_statements :: "string list" where
  "schema_statements =
     [''schema'', ''orders'', ''idx_orders_exchange'', ''idx_orders_status'', ''idx_orders_placed_at'',
      ''fills'', ''idx_fills_exchange'', ''idx_fills_filled_at'',
      ''inventory_snapshots'', ''idx_snapshots_exchange'', ''idx_snapshots_at'',
      ''rl_features'', ''idx_rl_features_ts'', ''add hmm columns'']"

definition connect_db :: "'w env \<Rightarrow> (('w, 'z) db_sys_scheme, unit) eff" where
  "connect_db env =
     seqE (server_call env) (seqE (mod_db (\<lambda>d. d\<lparr>db_pool := True\<rparr>))
       (for_each (\<lambda>_. server_call env) schema_statements))"

definition disconnect_db :: "'w env \<Rightarrow> (('w, 'z) db_sys_scheme, unit) eff" where
  "disconnect_db env =
     seqE
       (bindE (getsE (\<lambda>s. db_batch_conn (db s))) (\<lambda>c. if c then end_batch env else ret ()))
       (bindE (getsE (\<lambda>s. db_pool (db s))) (\<lambda>p.
          if p then seqE (server_call env) (mod_db (\<lambda>d. d\<lparr>db_pool := False\<rparr>)) else ret ()))"

text \<open>\<open>_executor\<close> picks the batch connection or the pool; a statement then runs or raises.\<close>

definition executor_ready :: "(('w, 'z) db_sys_scheme, unit) eff" where
  "executor_ready =
     bindE (getsE (\<lambda>s. db_batching (db s) \<and> db_batch_conn (db s))) (\<lambda>b.
       if b then ret () else need_pool)"

definition execute :: "'w env \<Rightarrow> (database \<Rightarrow> database) \<Rightarrow> (('w, 'z) db_sys_scheme, unit) eff" where
  "execute env f = seqE executor_ready (seqE (server_call env) (mod_db f))"

definition fetch :: "'w env \<Rightarrow> (database \<Rightarrow> 'a) \<Rightarrow> (('w, 'z) db_sys_scheme, 'a) eff" where
  "fetch env q = seqE executor_ready (seqE (server_call env) (getsE (\<lambda>s. q (db s))))"

definition cleanup ::
  "'w env \<Rightarrow> real \<Rightarrow> real \<Rightarrow> real \<Rightarrow> (('w, 'z) db_sys_scheme, unit) eff" where
  "cleanup env order_days fill_days feature_days =
     bindE (now_s env) (\<lambda>now.
     seqE (execute env (\<lambda>d. d\<lparr>t_orders :=
        filter (\<lambda>(_, r). \<not> or_placed_at r < now - order_days * 86400) (t_orders d)\<rparr>))
     (seqE (execute env (\<lambda>d. d\<lparr>t_fills :=
        filter (\<lambda>(_, r). \<not> fr_filled_at r < now - fill_days * 86400) (t_fills d)\<rparr>))
       (execute env (\<lambda>d. d\<lparr>t_features :=
        filter (\<lambda>r. \<not> ft_timestamp r < now - feature_days * 86400) (t_features d)\<rparr>))))"

section \<open>Queries\<close>

definition row_of_order :: "order \<Rightarrow> real \<Rightarrow> order_row" where
  "row_of_order o' now =
     \<lparr>or_exchange = ord_exchange o', or_symbol = ord_symbol o', or_side = ord_side o',
      or_price = ord_price o', or_amount = ord_amount o', or_amount_usd = ord_amount_usd o',
      or_status = ord_status o', or_placed_at = ord_timestamp o', or_updated_at = now\<rparr>"

text \<open>\<open>INSERT ... ON CONFLICT (id) DO UPDATE\<close>, \<open>UPDATE ... WHERE id\<close>, \<open>... DO NOTHING\<close>\<close>

definition sql_upsert_order :: "order \<Rightarrow> real \<Rightarrow> database \<Rightarrow> database" where
  "sql_upsert_order o' now d =
     d\<lparr>t_orders := AList.update (ord_id o') (row_of_order o' now) (t_orders d)\<rparr>"

definition sql_set_status :: "string \<Rightarrow> string \<Rightarrow> real \<Rightarrow> database \<Rightarrow> database" where
  "sql_set_status i st now d =
     d\<lparr>t_orders := map (\<lambda>(k, r). (k, if k = i then r\<lparr>or_status := st, or_updated_at := now\<rparr> else r))
         (t_orders d)\<rparr>"

definition row_of_fill :: "fill \<Rightarrow> real option \<Rightarrow> fill_row" where
  "row_of_fill f pnl =
     \<lparr>fr_order_id = fl_order_id f, fr_exchange = fl_exchange f, fr_symbol = fl_symbol f,
      fr_side = fl_side f, fr_price = fl_filled_price f, fr_amount = fl_filled_amount f,
      fr_fee = fl_fee f, fr_fee_currency = fl_fee_currency f, fr_filled_at = fl_timestamp f,
      fr_pnl_usd = pnl\<rparr>"

definition sql_insert_fill :: "fill \<Rightarrow> real option \<Rightarrow> database \<Rightarrow> database" where
  "sql_insert_fill f pnl d =
     (if fl_id f \<in> set (dict_keys (t_fills d)) then d
      else d\<lparr>t_fills := t_fills d @ [(fl_id f, row_of_fill f pnl)]\<rparr>)"

definition insert_order :: "'w env \<Rightarrow> order \<Rightarrow> (('w, 'z) db_sys_scheme, unit) eff" where
  "insert_order env o' = bindE (now_s env) (\<lambda>now. execute env (sql_upsert_order o' now))"

definition update_order_status ::
  "'w env \<Rightarrow> string \<Rightarrow> string \<Rightarrow> (('w, 'z) db_sys_scheme, unit) eff" where
  "update_order_status env i st = bindE (now_s env) (\<lambda>now. execute env (sql_set_status i st now))"

definition newest_first :: "('a \<Rightarrow> real) \<Rightarrow> (string \<times> 'a) list \<Rightarrow> (string \<times> 'a) list" where
  "newest_first key = sort_key (\<lambda>(_, r). - key r)"

definition get_open_orders ::
  "'w env \<Rightarrow> string \<Rightarrow> (('w, 'z) db_sys_scheme, (string \<times> order_row) list) eff" where
  "get_open_orders env ex =
     fetch env (\<lambda>d. newest_first or_placed_at
       (filter (\<lambda>(_, r). or_exchange r = ex \<and> or_status r = ''open'') (t_orders d)))"

text \<open>
  The limit of a query is an int of the caller: the server refuses one below zero, the driver one
  that does not fit into a signed 64-bit integer.
\<close>

definition fetch_limited ::
  "'w env \<Rightarrow> int \<Rightarrow> (database \<Rightarrow> 'a list) \<Rightarrow> (('w, 'z) db_sys_scheme, 'a list) eff" where
  "fetch_limited env limit q =
     bindE (fetch env q) (\<lambda>rows.
       if limit < 0 \<or> 2 ^ 63 \<le> limit then raiseE (OtherError ''InvalidLimit'') else ret (take (nat limit) rows))"

definition get_orders ::
  "'w env \<Rightarrow> string option \<Rightarrow> int \<Rightarrow> (('w, 'z) db_sys_scheme, (string \<times> order_row) list) eff" where
  "get_orders env ex limit =
     fetch_limited env limit (\<lambda>d. newest_first or_placed_at
       (case ex of
          None \<Rightarrow> t_orders d
        | Some e \<Rightarrow> if e = [] then t_orders d else filter (\<lambda>(_, r). or_exchange r = e) (t_orders d)))"

definition insert_fill ::
  "'w env \<Rightarrow> fill \<Rightarrow> real option \<Rightarrow> (('w, 'z) db_sys_scheme, unit) eff" where
  "insert_fill env f pnl = execute env (sql_insert_fill f pnl)"

text \<open>Both filters are dropped when the argument is falsy: an empty name, a timestamp of zero.\<close>

definition get_fills ::
  "'w env \<Rightarrow> string option \<Rightarrow> real option \<Rightarrow> int \<Rightarrow>
   (('w, 'z) db_sys_scheme, (string \<times> fill_row) list) eff" where
  "get_fills env ex since limit =
     fetch_limited env limit (\<lambda>d. newest_first fr_filled_at
       (filter (\<lambda>(_, r).
           (case ex of None \<Rightarrow> True | Some e \<Rightarrow> e = [] \<or> fr_exchange r = e) \<and>
           (case since of None \<Rightarrow> True | Some t \<Rightarrow> t = 0 \<or> t \<le> fr_filled_at r)) (t_fills d)))"

definition insert_inventory_snapshot ::
  "'w env \<Rightarrow> string \<Rightarrow> real \<Rightarrow> real \<Rightarrow> real \<Rightarrow> real \<Rightarrow> real \<Rightarrow> real \<Rightarrow> (('w, 'z) db_sys_scheme, unit) eff"
where
  "insert_inventory_snapshot env ex usd token mid vol agg skew =
     bindE (now_s env) (\<lambda>now.
       execute env (\<lambda>d. d\<lparr>t_snapshots := t_snapshots d @
         [\<lparr>sr_exchange = ex, sr_usd = usd, sr_token = token, sr_global_mid = mid,
           sr_volatility = vol, sr_aggressiveness = agg, sr_skew_factor = skew,
           sr_snapshot_at = now\<rparr>]\<rparr>))"

text \<open>The row is passed without its timestamp, which the query fills in.\<close>

definition insert_rl_features :: "'w env \<Rightarrow> feature_row \<Rightarrow> (('w, 'z) db_sys_scheme, unit) eff" where
  "insert_rl_features env row =
     bindE (now_s env) (\<lambda>now.
       execute env (\<lambda>d. d\<lparr>t_features := t_features d @ [row\<lparr>ft_timestamp := now\<rparr>]\<rparr>))"

definition sql_recent_pnl :: "real \<Rightarrow> database \<Rightarrow> real" where
  "sql_recent_pnl since d =
     (\<Sum>(_, r)\<leftarrow>t_fills d. if since \<le> fr_filled_at r then (case fr_pnl_usd r of None \<Rightarrow> 0 | Some p \<Rightarrow> p) else 0)"

definition get_recent_pnl :: "'w env \<Rightarrow> real \<Rightarrow> (('w, 'z) db_sys_scheme, real) eff" where
  "get_recent_pnl env window_s =
     bindE (now_s env) (\<lambda>now. fetch env (sql_recent_pnl (now - window_s)))"

definition get_fill_rate :: "'w env \<Rightarrow> real \<Rightarrow> (('w, 'z) db_sys_scheme, real) eff" where
  "get_fill_rate env window_s =
     bindE (now_s env) (\<lambda>now.
     bindE (fetch env (\<lambda>d. length (filter (\<lambda>(_, r). now - window_s \<le> fr_filled_at r) (t_fills d))))
       (\<lambda>n. if n = 0 then ret 0
            else if window_s = 0 then raiseE ZeroDivisionError
            else ret (real n / (window_s / 60))))"

section \<open>What a statement can change\<close>

text \<open>A predicate on the state that holds whatever the database and the world become.\<close>

definition db_free :: "(('w, 'z) db_sys_scheme \<Rightarrow> bool) \<Rightarrow> bool" where
  "db_free P \<longleftrightarrow> (\<forall>s d w. P s \<longrightarrow> P (s\<lparr>db := d, world := w\<rparr>))"

lemma db_freeI: "(\<And>s d w. P s \<Longrightarrow> P (s\<lparr>db := d, world := w\<rparr>)) \<Longrightarrow> db_free P"
  by (simp add: db_free_def)

lemma db_free_world: "db_free P \<Longrightarrow> world_free P"
proof (rule world_freeI)
  fix s :: "('a, 'b) db_sys_scheme" and w
  assume "db_free P" "P s"
  then have "P (s\<lparr>db := db s, world := w\<rparr>)" unfolding db_free_def by blast
  then show "P (s\<lparr>world := w\<rparr>)" by simp
qed

lemma keeps_server_call [keeps_intros]: "world_free P \<Longrightarrow> keeps P (server_call env)"
  by (auto simp: server_call_def intro!: keeps_intros)

lemma keeps_mod_db:
  assumes "db_free P"
  shows "keeps P (mod_db f)"
proof (rule keeps_mod)
  fix s :: "('a, 'b) db_sys_scheme"
  assume "P s"
  with assms have "P (s\<lparr>db := f (db s), world := world s\<rparr>)" unfolding db_free_def by blast
  then show "P (s\<lparr>db := f (db s)\<rparr>)" by simp
qed

lemma keeps_executor_ready [keeps_intros]: "keeps P executor_ready"
  by (auto simp: executor_ready_def need_pool_def intro!: keeps_intros)

lemma keeps_execute [keeps_intros]: "db_free P \<Longrightarrow> keeps P (execute env f)"
  by (auto simp: execute_def intro!: keeps_intros keeps_mod_db db_free_world)

lemma keeps_fetch [keeps_intros]: "db_free P \<Longrightarrow> keeps P (fetch env q)"
  by (auto simp: fetch_def intro!: keeps_intros db_free_world)

lemma keeps_update_order_status [keeps_intros]: "db_free P \<Longrightarrow> keeps P (update_order_status env i st)"
  by (auto simp: update_order_status_def intro!: keeps_intros db_free_world)

lemma keeps_insert_order [keeps_intros]: "db_free P \<Longrightarrow> keeps P (insert_order env o')"
  by (auto simp: insert_order_def intro!: keeps_intros db_free_world)

lemma keeps_insert_fill [keeps_intros]: "db_free P \<Longrightarrow> keeps P (insert_fill env f pnl)"
  by (auto simp: insert_fill_def intro!: keeps_intros db_free_world)

lemma keeps_insert_inventory_snapshot [keeps_intros]:
  "db_free P \<Longrightarrow> keeps P (insert_inventory_snapshot env ex usd token mid vol agg skew)"
  by (auto simp: insert_inventory_snapshot_def intro!: keeps_intros db_free_world)

lemma keeps_insert_rl_features [keeps_intros]: "db_free P \<Longrightarrow> keeps P (insert_rl_features env row)"
  by (auto simp: insert_rl_features_def intro!: keeps_intros db_free_world)

lemma keeps_get_recent_pnl [keeps_intros]: "db_free P \<Longrightarrow> keeps P (get_recent_pnl env t)"
  by (auto simp: get_recent_pnl_def intro!: keeps_intros db_free_world)

lemma keeps_get_fill_rate [keeps_intros]: "db_free P \<Longrightarrow> keeps P (get_fill_rate env t)"
  by (auto simp: get_fill_rate_def intro!: keeps_intros db_free_world)

text \<open>A statement either raises, leaving the tables alone, or takes effect.\<close>

lemma execute_cases:
  obtains (failed) e w where "execute env f s = (Inl e, s\<lparr>world := w\<rparr>)"
  | (ran) w where "execute env f s = (Inr (), s\<lparr>db := f (db s), world := w\<rparr>)"
proof -
  let ?w = "snd (db_fault env (world s))"
  have self: "s = s\<lparr>world := world s\<rparr>" by simp
  consider "\<not> (db_batching (db s) \<and> db_batch_conn (db s)) \<and> \<not> db_pool (db s)"
    | "(db_batching (db s) \<and> db_batch_conn (db s)) \<or> db_pool (db s)" by blast
  then show ?thesis
  proof cases
    case 1
    then have "execute env f s =
        (Inl (RuntimeError ''Database not connected. Call await db.connect() first.''), s)"
      by (auto simp: execute_def executor_ready_def need_pool_def eff_simps)
    with self show ?thesis by (metis failed)
  next
    case 2
    then have ready: "executor_ready s = (Inr (), s)"
      by (auto simp: executor_ready_def need_pool_def eff_simps)
    obtain x w where call: "db_fault env (world s) = (x, w)" by fastforce
    show ?thesis
    proof (cases x)
      case None
      then have "execute env f s = (Inr (), s\<lparr>db := f (db s), world := w\<rparr>)"
        by (simp add: execute_def server_call_def eff_simps ready call)
      then show ?thesis by (rule ran)
    next
      case (Some e)
      then have "execute env f s = (Inl e, s\<lparr>world := w\<rparr>)"
        by (simp add: execute_def server_call_def eff_simps ready call)
      then show ?thesis by (rule failed)
    qed
  qed
qed

section \<open>The contract of the order table\<close>

text \<open>
  What the order manager needs of the table: a lookup of a row's status after an insertion and
  after a status update.
\<close>

definition status_of :: "database \<Rightarrow> string \<Rightarrow> string option" where
  "status_of d i = map_option or_status (dict_get (t_orders d) i)"

locale order_store =
  fixes put :: "'o \<Rightarrow> 'st \<Rightarrow> 'st"
    and set_status :: "string \<Rightarrow> string \<Rightarrow> 't \<Rightarrow> 'st \<Rightarrow> 'st"
    and status :: "'st \<Rightarrow> string \<Rightarrow> string option"
    and ident :: "'o \<Rightarrow> string"
    and initial :: "'o \<Rightarrow> string"
  assumes status_put: "status (put x d) i = (if i = ident x then Some (initial x) else status d i)"
    and status_set: "status (set_status k st t d) i =
      (if i = k then map_option (\<lambda>_. st) (status d i) else status d i)"
begin

lemma closed_all:
  "status (fold (\<lambda>(k, t). set_status k st t) ks d) i =
     (if i \<in> fst ` set ks then map_option (\<lambda>_. st) (status d i) else status d i)"
  by (induction ks arbitrary: d) (auto simp: status_set option.map_comp comp_def)

lemma no_open_left:
  "st \<noteq> ''open'' \<Longrightarrow> k \<in> fst ` set ks \<Longrightarrow>
   status (fold (\<lambda>(k, t). set_status k st t) ks d) k \<noteq> Some ''open''"
  by (simp add: closed_all)

lemma reopen: "status (put x (set_status (ident x) st t d)) (ident x) = Some (initial x)"
  by (simp add: status_put)

end

lemma map_of_set_status:
  "map_of (map (\<lambda>(k, r). (k, if k = i then f r else r)) xs) j =
     (if j = i then map_option f (map_of xs j) else map_of xs j)"
  by (induction xs) auto

interpretation orders: order_store
  "\<lambda>(o', now). sql_upsert_order o' now" sql_set_status status_of
  "\<lambda>(o', now). ord_id o'" "\<lambda>(o', now). ord_status o'"
proof unfold_locales
  fix x d i
  show "status_of ((\<lambda>(o', now). sql_upsert_order o' now) x d) i =
      (if i = (\<lambda>(o', now). ord_id o') x then Some ((\<lambda>(o', now). ord_status o') x) else status_of d i)"
    by (auto simp: status_of_def sql_upsert_order_def row_of_order_def update_conv split: prod.split)
next
  fix k st now d i
  show "status_of (sql_set_status k st now d) i =
      (if i = k then map_option (\<lambda>_. st) (status_of d i) else status_of d i)"
    by (simp add: status_of_def sql_set_status_def map_of_set_status option.map_comp comp_def)
qed

text \<open>The tables keep their keys unique.\<close>

definition tables_ok :: "database \<Rightarrow> bool" where
  "tables_ok d \<longleftrightarrow> dict_wf (t_orders d) \<and> dict_wf (t_fills d)"

lemma tables_ok_upsert [simp]: "tables_ok d \<Longrightarrow> tables_ok (sql_upsert_order o' now d)"
  by (simp add: tables_ok_def sql_upsert_order_def)

lemma tables_ok_set_status [simp]: "tables_ok d \<Longrightarrow> tables_ok (sql_set_status i st now d)"
  by (simp add: tables_ok_def sql_set_status_def dict_wf_def comp_def case_prod_unfold)

lemma tables_ok_insert_fill [simp]: "tables_ok d \<Longrightarrow> tables_ok (sql_insert_fill f pnl d)"
  by (auto simp: tables_ok_def sql_insert_fill_def dict_wf_def)

text \<open>A fill is recorded once: a second insertion of the same id changes nothing.\<close>

lemma insert_fill_once: "sql_insert_fill g p' (sql_insert_fill f p d) = sql_insert_fill f p d"
  if "fl_id g = fl_id f"
  using that by (auto simp: sql_insert_fill_def)

lemma insert_fill_keeps_old:
  "dict_get (t_fills d) i = Some r \<Longrightarrow> dict_get (t_fills (sql_insert_fill f p d)) i = Some r"
  by (auto simp: sql_insert_fill_def)

end
