(* ===== verification/ConfigSchema.thy ===== *)
theory ConfigSchema
  imports Prelude
begin

text \<open>
  \<open>config/schema.py\<close>: the configuration models with their defaults, field constraints and
  validators.  A model is validated from a JSON object; a field that the object leaves out
  takes its default, and pydantic neither constrains nor validates a default.  How pydantic
  turns a JSON value into a float, an int, a bool or a string is its own business and is a
  parameter (\<open>coercions\<close>).
\<close>

section \<open>Validation from JSON\<close>

datatype json =
    JNull
  | JBool bool
  | JNum real
  | JStr string
  | JArr "json list"
  | JObj "(string \<times> json) list"

record coercions =
  as_float :: "json \<Rightarrow> real option"
  as_int :: "json \<Rightarrow> int option"
  as_bool :: "json \<Rightarrow> bool option"
  as_str :: "json \<Rightarrow> string option"

text \<open>A field given in the object is converted and checked; a missing one is the default.\<close>

definition field ::
  "(json \<Rightarrow> 'a option) \<Rightarrow> ('a \<Rightarrow> bool) \<Rightarrow> string \<Rightarrow> 'a \<Rightarrow> (string \<times> json) list \<Rightarrow> 'a result" where
  "field conv ok name dflt obj =
     (case dict_get obj name of
        None \<Rightarrow> Inr dflt
      | Some j \<Rightarrow> (case conv j of
          None \<Rightarrow> Inl (ValueError name)
        | Some v \<Rightarrow> if ok v then Inr v else Inl (ValueError name)))"

definition required ::
  "(json \<Rightarrow> 'a option) \<Rightarrow> string \<Rightarrow> (string \<times> json) list \<Rightarrow> 'a result" where
  "required conv name obj =
     (case dict_get obj name of
        None \<Rightarrow> Inl (ValueError name)
      | Some j \<Rightarrow> (case conv j of None \<Rightarrow> Inl (ValueError name) | Some v \<Rightarrow> Inr v))"

text \<open>\<open>T | None\<close>\<close>

definition opt :: "(json \<Rightarrow> 'a option) \<Rightarrow> json \<Rightarrow> 'a option option" where
  "opt conv j = (if j = JNull then Some None else map_option Some (conv j))"

definition opt_ok :: "('a \<Rightarrow> bool) \<Rightarrow> 'a option \<Rightarrow> bool" where
  "opt_ok ok x = (case x of None \<Rightarrow> True | Some v \<Rightarrow> ok v)"

definition between :: "'a::linorder \<Rightarrow> 'a \<Rightarrow> 'a \<Rightarrow> bool" where
  "between lo hi v \<longleftrightarrow> lo \<le> v \<and> v \<le> hi"

lemma field_given:
  "field conv ok name dflt obj = Inr v \<Longrightarrow> dict_get obj name = Some j \<Longrightarrow> conv j = Some v \<and> ok v"
  by (auto simp: field_def split: option.splits if_splits)

lemma field_ok: "field conv ok name dflt obj = Inr v \<Longrightarrow> ok dflt \<Longrightarrow> ok v"
  by (auto simp: field_def split: option.splits if_splits)

section \<open>Spread, depth, HMM, volatility and safety\<close>

record spread_config =
  buy_min_pct :: real
  buy_max_pct :: real
  sell_min_pct :: real
  sell_max_pct :: real
  sp_curve_strength :: real
  buy_levels :: "int option"
  sell_levels :: "int option"
  buy_curve_strength :: "real option"
  sell_curve_strength :: "real option"
  buy_min_step :: real
  sell_min_step :: real
  tick_size :: real

definition validate_spread :: "coercions \<Rightarrow> (string \<times> json) list \<Rightarrow> spread_config result" where
  "validate_spread c obj =
     bindR (field (as_float c) (\<lambda>v. v < 0) ''buy_min_pct'' (- 5) obj) (\<lambda>bmin.
     bindR (field (as_float c) (\<lambda>v. v < 0) ''buy_max_pct'' (- 0.1) obj) (\<lambda>bmax.
     bindR (field (as_float c) (\<lambda>_. True) ''sell_min_pct'' 0.3 obj) (\<lambda>smin.
     bindR (field (as_float c) (\<lambda>_. True) ''sell_max_pct'' 7 obj) (\<lambda>smax.
     bindR (field (as_float c) (between 0.5 10) ''curve_strength'' 4 obj) (\<lambda>cs.
     bindR (field (opt (as_int c)) (opt_ok (between 3 30)) ''buy_levels'' None obj) (\<lambda>bl.
     bindR (field (opt (as_int c)) (opt_ok (between 3 30)) ''sell_levels'' None obj) (\<lambda>sl.
     bindR (field (opt (as_float c)) (opt_ok (between 0.5 10)) ''buy_curve_strength'' None obj) (\<lambda>bcs.
     bindR (field (opt (as_float c)) (opt_ok (between 0.5 10)) ''sell_curve_strength'' None obj) (\<lambda>scs.
     bindR (field (as_float c) (\<lambda>v. 0 \<le> v) ''buy_min_step'' 0 obj) (\<lambda>bms.
     bindR (field (as_float c) (\<lambda>v. 0 \<le> v) ''sell_min_step'' 0 obj) (\<lambda>sms.
     bindR (field (as_float c) (\<lambda>v. 0 < v) ''tick_size'' 0.0001 obj) (\<lambda>tick.
       Inr \<lparr>buy_min_pct = bmin, buy_max_pct = bmax, sell_min_pct = smin, sell_max_pct = smax,
            sp_curve_strength = cs, buy_levels = bl, sell_levels = sl, buy_curve_strength = bcs,
            sell_curve_strength = scs, buy_min_step = bms, sell_min_step = sms,
            tick_size = tick\<rparr>))))))))))))"

record depth_config =
  dp_levels :: int
  total_budget_usd :: real
  dp_curve_strength :: real
  min_order_usd :: real
  min_step_usd :: real

definition validate_depth :: "coercions \<Rightarrow> (string \<times> json) list \<Rightarrow> depth_config result" where
  "validate_depth c obj =
     bindR (field (as_int c) (between 3 30) ''levels'' 15 obj) (\<lambda>lv.
     bindR (field (as_float c) (\<lambda>v. 0 < v) ''total_budget_usd'' 1000 obj) (\<lambda>tb.
     bindR (field (as_float c) (between 0.5 10) ''curve_strength'' 4 obj) (\<lambda>cs.
     bindR (field (as_float c) (\<lambda>v. 0 < v) ''min_order_usd'' 5 obj) (\<lambda>mo.
     bindR (field (as_float c) (\<lambda>v. 0 \<le> v) ''min_step_usd'' 0 obj) (\<lambda>ms.
       Inr \<lparr>dp_levels = lv, total_budget_usd = tb, dp_curve_strength = cs, min_order_usd = mo,
            min_step_usd = ms\<rparr>)))))"

record hmm_config =
  hmm_enabled :: bool
  hmm_lookback :: int
  hmm_min_observations :: int
  refit_interval :: int
  crash_buy_agg_floor :: real
  crash_sell_agg_ceiling :: real
  crash_buy_depth_multiplier :: real
  crash_sell_depth_factor :: real
  recovery_buy_agg_boost :: real
  recovery_sell_agg_dampen :: real

definition default_hmm_config :: hmm_config where
  "default_hmm_config =
     \<lparr>hmm_enabled = True, hmm_lookback = 30, hmm_min_observations = 10, refit_interval = 100,
      crash_buy_agg_floor = 0.6, crash_sell_agg_ceiling = 0.1,
      crash_buy_depth_multiplier = 1.5, crash_sell_depth_factor = 0.3,
      recovery_buy_agg_boost = 1.2, recovery_sell_agg_dampen = 0.7\<rparr>"

definition validate_hmm :: "coercions \<Rightarrow> (string \<times> json) list \<Rightarrow> hmm_config result" where
  "validate_hmm c obj =
     bindR (field (as_bool c) (\<lambda>_. True) ''enabled'' True obj) (\<lambda>en.
     bindR (field (as_int c) (between 10 120) ''hmm_lookback'' 30 obj) (\<lambda>lb.
     bindR (field (as_int c) (between 3 30) ''hmm_min_observations'' 10 obj) (\<lambda>mo.
     bindR (field (as_int c) (between 50 500) ''refit_interval'' 100 obj) (\<lambda>ri.
     bindR (field (as_float c) (between 0.1 1) ''crash_buy_agg_floor'' 0.6 obj) (\<lambda>bf.
     bindR (field (as_float c) (between 0 0.5) ''crash_sell_agg_ceiling'' 0.1 obj) (\<lambda>sc.
     bindR (field (as_float c) (between 1 3) ''crash_buy_depth_multiplier'' 1.5 obj) (\<lambda>bd.
     bindR (field (as_float c) (between 0 1) ''crash_sell_depth_factor'' 0.3 obj) (\<lambda>sd.
     bindR (field (as_float c) (between 1 2) ''recovery_buy_agg_boost'' 1.2 obj) (\<lambda>rb.
     bindR (field (as_float c) (between 0.3 1) ''recovery_sell_agg_dampen'' 0.7 obj) (\<lambda>rs.
       Inr \<lparr>hmm_enabled = en, hmm_lookback = lb, hmm_min_observations = mo,
            refit_interval = ri, crash_buy_agg_floor = bf, crash_sell_agg_ceiling = sc,
            crash_buy_depth_multiplier = bd, crash_sell_depth_factor = sd,
            recovery_buy_agg_boost = rb, recovery_sell_agg_dampen = rs\<rparr>))))))))))"

record volatility_config =
  window_minutes :: int
  low_threshold :: real
  high_threshold :: real
  vol_power :: real
  base_aggressiveness :: real
  trending_threshold :: real
  choppy_threshold :: real
  hmm :: hmm_config

text \<open>
  \<open>high_must_exceed_low\<close> sees the low threshold of \<open>info.data\<close>, given or default; being a
  field validator it does not run when \<open>high_threshold\<close> is left to its default.
\<close>

definition as_obj :: "json \<Rightarrow> (string \<times> json) list option" where
  "as_obj j = (case j of JObj o' \<Rightarrow> Some o' | _ \<Rightarrow> None)"

text \<open>A nested model: a missing one is \<open>Model()\<close>, all defaults.\<close>

definition submodel ::
  "((string \<times> json) list \<Rightarrow> 'a result) \<Rightarrow> string \<Rightarrow> (string \<times> json) list \<Rightarrow> 'a result" where
  "submodel validate name obj =
     (case dict_get obj name of
        None \<Rightarrow> validate []
      | Some j \<Rightarrow> (case as_obj j of None \<Rightarrow> Inl (ValueError name) | Some o' \<Rightarrow> validate o'))"

definition validate_volatility :: "coercions \<Rightarrow> (string \<times> json) list \<Rightarrow> volatility_config result" where
  "validate_volatility c obj =
     bindR (field (as_int c) (between 1 60) ''window_minutes'' 10 obj) (\<lambda>wm.
     bindR (field (as_float c) (\<lambda>v. 0 < v) ''low_threshold'' 0.001 obj) (\<lambda>lo.
     bindR (field (as_float c) (\<lambda>v. 0 < v \<and> lo < v) ''high_threshold'' 0.003 obj) (\<lambda>hi.
     bindR (field (as_float c) (between 1 5) ''power'' 2 obj) (\<lambda>pw.
     bindR (field (as_float c) (between 0 1) ''base_aggressiveness'' 1 obj) (\<lambda>ba.
     bindR (field (as_float c) (\<lambda>v. 0 < v) ''trending_threshold'' 0.0015 obj) (\<lambda>tt.
     bindR (field (as_float c) (\<lambda>v. 0 \<le> v) ''choppy_threshold'' 0.0005 obj) (\<lambda>ct.
     bindR (submodel (validate_hmm c) ''hmm'' obj) (\<lambda>h.
       Inr \<lparr>window_minutes = wm, low_threshold = lo, high_threshold = hi, vol_power = pw,
            base_aggressiveness = ba, trending_threshold = tt, choppy_threshold = ct,
            hmm = h\<rparr>))))))))"

record safety_config =
  min_balance_usd :: real
  min_balance_token :: real
  max_requests_per_second :: int
  heartbeat_interval_s :: real
  max_missed_heartbeats :: int
  max_daily_loss_pct :: real
  max_drawdown_pct :: real
  alert_webhook_url :: "string option"

definition validate_safety :: "coercions \<Rightarrow> (string \<times> json) list \<Rightarrow> safety_config result" where
  "validate_safety c obj =
     bindR (field (as_float c) (\<lambda>v. 0 \<le> v) ''min_balance_usd'' 50 obj) (\<lambda>mu.
     bindR (field (as_float c) (\<lambda>v. 0 \<le> v) ''min_balance_token'' 100 obj) (\<lambda>mt.
     bindR (field (as_int c) (between 1 30) ''max_requests_per_second'' 8 obj) (\<lambda>mr.
     bindR (field (as_float c) (\<lambda>v. 1 \<le> v) ''heartbeat_interval_s'' 5 obj) (\<lambda>hb.
     bindR (field (as_int c) (\<lambda>v. 1 \<le> v) ''max_missed_heartbeats'' 3 obj) (\<lambda>mm.
     bindR (field (as_float c) (\<lambda>v. 0 < v \<and> v \<le> 100) ''max_daily_loss_pct'' 10 obj) (\<lambda>dl.
     bindR (field (as_float c) (\<lambda>v. 0 < v \<and> v \<le> 100) ''max_drawdown_pct'' 15 obj) (\<lambda>dd.
     bindR (field (opt (as_str c)) (\<lambda>_. True) ''alert_webhook_url'' None obj) (\<lambda>wh.
       Inr \<lparr>min_balance_usd = mu, min_balance_token = mt, max_requests_per_second = mr,
            heartbeat_interval_s = hb, max_missed_heartbeats = mm, max_daily_loss_pct = dl,
            max_drawdown_pct = dd, alert_webhook_url = wh\<rparr>))))))))"

section \<open>Exchanges, weights and the whole configuration\<close>

definition exchange_names :: "string list" where
  "exchange_names = [''kucoin'', ''gate'', ''mexc'', ''kraken'', ''binance'']"

record exchange_bot_config =
  xc_exchange :: string
  xc_symbol :: string
  xc_quote_currency :: string
  xc_enabled :: bool
  xc_spread :: spread_config
  xc_depth :: depth_config
  xc_safety :: safety_config
  xc_ccxt_options :: "(string \<times> json) list"
  xc_use_cpp_connector :: "bool option"

definition validate_exchange :: "coercions \<Rightarrow> (string \<times> json) list \<Rightarrow> exchange_bot_config result" where
  "validate_exchange c obj =
     bindR (required (as_str c) ''exchange'' obj) (\<lambda>ex.
     bindR (if ex \<in> set exchange_names then Inr () else Inl (ValueError ''exchange'')) (\<lambda>_.
     bindR (required (as_str c) ''symbol'' obj) (\<lambda>sym.
     bindR (field (as_str c) (\<lambda>q. q = ''USDT'' \<or> q = ''USD'') ''quote_currency'' ''USDT'' obj) (\<lambda>qc.
     bindR (field (as_bool c) (\<lambda>_. True) ''enabled'' True obj) (\<lambda>en.
     bindR (submodel (validate_spread c) ''spread'' obj) (\<lambda>sp.
     bindR (submodel (validate_depth c) ''depth'' obj) (\<lambda>dp.
     bindR (submodel (validate_safety c) ''safety'' obj) (\<lambda>sf.
     bindR (field as_obj (\<lambda>_. True) ''ccxt_options'' [] obj) (\<lambda>co.
     bindR (field (opt (as_bool c)) (\<lambda>_. True) ''use_cpp_connector'' None obj) (\<lambda>cpp.
       Inr \<lparr>xc_exchange = ex, xc_symbol = sym, xc_quote_currency = qc, xc_enabled = en,
            xc_spread = sp, xc_depth = dp, xc_safety = sf, xc_ccxt_options = co,
            xc_use_cpp_connector = cpp\<rparr>))))))))))"

record global_mid_weights =
  w_kucoin :: real
  w_gate :: real
  w_mexc :: real
  w_kraken :: real
  w_binance :: real

text \<open>
  \<open>weights_must_sum_to_one\<close> is attached to the field \<open>binance\<close>: it runs when \<open>binance\<close> is given.
\<close>

definition validate_weights :: "coercions \<Rightarrow> (string \<times> json) list \<Rightarrow> global_mid_weights result" where
  "validate_weights c obj =
     bindR (field (as_float c) (between 0 1) ''kucoin'' 0.45 obj) (\<lambda>k.
     bindR (field (as_float c) (between 0 1) ''gate'' 0.45 obj) (\<lambda>g.
     bindR (field (as_float c) (between 0 1) ''mexc'' 0.05 obj) (\<lambda>m.
     bindR (field (as_float c) (between 0 1) ''kraken'' 0.05 obj) (\<lambda>r.
     bindR (field (as_float c) (\<lambda>v. between 0 1 v \<and> \<not> \<bar>k + g + m + r + v - 1\<bar> > 0.001)
              ''binance'' 0 obj) (\<lambda>b.
       Inr \<lparr>w_kucoin = k, w_gate = g, w_mexc = m, w_kraken = r, w_binance = b\<rparr>)))))"

definition weights_as_dict :: "global_mid_weights \<Rightarrow> (string \<times> real) list" where
  "weights_as_dict w =
     [(''kucoin'', w_kucoin w), (''gate'', w_gate w), (''mexc'', w_mexc w),
      (''kraken'', w_kraken w), (''binance'', w_binance w)]"

record initial_balance =
  ib_usd :: real
  ib_token :: real

definition validate_balance :: "coercions \<Rightarrow> (string \<times> json) list \<Rightarrow> initial_balance result" where
  "validate_balance c obj =
     bindR (field (as_float c) (\<lambda>v. 0 \<le> v) ''usd'' 0 obj) (\<lambda>u.
     bindR (field (as_float c) (\<lambda>v. 0 \<le> v) ''token'' 0 obj) (\<lambda>t.
       Inr \<lparr>ib_usd = u, ib_token = t\<rparr>))"

text \<open>A list of models, and a dict from exchange names to models.\<close>

fun validate_items :: "((string \<times> json) list \<Rightarrow> 'a result) \<Rightarrow> json list \<Rightarrow> 'a list result" where
  "validate_items v [] = Inr []"
| "validate_items v (j # js) =
     (case as_obj j of
        None \<Rightarrow> Inl (ValueError ''model'')
      | Some o' \<Rightarrow> bindR (v o') (\<lambda>x. bindR (validate_items v js) (\<lambda>xs. Inr (x # xs))))"

fun validate_entries ::
  "((string \<times> json) list \<Rightarrow> 'a result) \<Rightarrow> (string \<times> json) list \<Rightarrow> (string \<times> 'a) list result" where
  "validate_entries v [] = Inr []"
| "validate_entries v ((k, j) # kvs) =
     (if k \<in> set exchange_names then
        (case as_obj j of
           None \<Rightarrow> Inl (ValueError k)
         | Some o' \<Rightarrow> bindR (v o') (\<lambda>x. bindR (validate_entries v kvs) (\<lambda>xs. Inr ((k, x) # xs))))
      else Inl (ValueError k))"

record bot_config =
  bc_dry_run :: bool
  bc_weights :: global_mid_weights
  bc_volatility :: volatility_config
  bc_exchanges :: "exchange_bot_config list"
  bc_initial_balances :: "(string \<times> initial_balance) list"

text \<open>
  \<open>BotConfig.model_validate\<close>.  The length constraint on \<open>exchanges\<close> applies to a list that is given;
  the default, no exchange, is not checked.
\<close>

definition validate_exchanges :: "coercions \<Rightarrow> (string \<times> json) list \<Rightarrow> exchange_bot_config list result" where
  "validate_exchanges c obj =
     (case dict_get obj ''exchanges'' of
        None \<Rightarrow> Inr []
      | Some (JArr js) \<Rightarrow>
          if js = [] then Inl (ValueError ''exchanges'') else validate_items (validate_exchange c) js
      | Some _ \<Rightarrow> Inl (ValueError ''exchanges''))"

definition validate_balances :: "coercions \<Rightarrow> (string \<times> json) list \<Rightarrow> (string \<times> initial_balance) list result" where
  "validate_balances c obj =
     (case dict_get obj ''initial_balances'' of
        None \<Rightarrow> Inr []
      | Some (JObj kvs) \<Rightarrow> validate_entries (validate_balance c) kvs
      | Some _ \<Rightarrow> Inl (ValueError ''initial_balances''))"

definition validate_bot_config :: "coercions \<Rightarrow> json \<Rightarrow> bot_config result" where
  "validate_bot_config c j =
     (case as_obj j of
        None \<Rightarrow> Inl (ValueError ''BotConfig'')
      | Some obj \<Rightarrow>
          bindR (field (as_bool c) (\<lambda>_. True) ''dry_run'' True obj) (\<lambda>dry.
          bindR (submodel (validate_weights c) ''global_mid_weights'' obj) (\<lambda>w.
          bindR (submodel (validate_volatility c) ''volatility'' obj) (\<lambda>v.
          bindR (validate_exchanges c obj) (\<lambda>exs.
          bindR (validate_balances c obj) (\<lambda>ibs.
            Inr \<lparr>bc_dry_run = dry, bc_weights = w, bc_volatility = v, bc_exchanges = exs,
                 bc_initial_balances = ibs\<rparr>))))))"

definition get_exchange_config :: "bot_config \<Rightarrow> string \<Rightarrow> exchange_bot_config option" where
  "get_exchange_config cfg name = find (\<lambda>ex. xc_exchange ex = name) (bc_exchanges cfg)"

definition enabled_exchanges :: "bot_config \<Rightarrow> exchange_bot_config list" where
  "enabled_exchanges cfg = filter xc_enabled (bc_exchanges cfg)"

section \<open>What validation guarantees\<close>

text \<open>The ranges that the engines rely on.\<close>

definition spread_ok :: "spread_config \<Rightarrow> bool" where
  "spread_ok s \<longleftrightarrow> buy_min_pct s < 0 \<and> buy_max_pct s < 0 \<and> between 0.5 10 (sp_curve_strength s)
     \<and> opt_ok (between 3 30) (buy_levels s) \<and> opt_ok (between 3 30) (sell_levels s)
     \<and> opt_ok (between 0.5 10) (buy_curve_strength s)
     \<and> opt_ok (between 0.5 10) (sell_curve_strength s)
     \<and> 0 \<le> buy_min_step s \<and> 0 \<le> sell_min_step s \<and> 0 < tick_size s"

definition depth_ok :: "depth_config \<Rightarrow> bool" where
  "depth_ok d \<longleftrightarrow> between 3 30 (dp_levels d) \<and> 0 < total_budget_usd d
     \<and> between 0.5 10 (dp_curve_strength d) \<and> 0 < min_order_usd d \<and> 0 \<le> min_step_usd d"

definition hmm_ok :: "hmm_config \<Rightarrow> bool" where
  "hmm_ok h \<longleftrightarrow> between 10 120 (hmm_lookback h) \<and> between 3 30 (hmm_min_observations h)
     \<and> between 50 500 (refit_interval h)
     \<and> between 0.1 1 (crash_buy_agg_floor h) \<and> between 0 0.5 (crash_sell_agg_ceiling h)
     \<and> between 1 3 (crash_buy_depth_multiplier h) \<and> between 0 1 (crash_sell_depth_factor h)
     \<and> between 1 2 (recovery_buy_agg_boost h) \<and> between 0.3 1 (recovery_sell_agg_dampen h)"

definition safety_ok :: "safety_config \<Rightarrow> bool" where
  "safety_ok s \<longleftrightarrow> 0 \<le> min_balance_usd s \<and> 0 \<le> min_balance_token s
     \<and> between 1 30 (max_requests_per_second s) \<and> 1 \<le> heartbeat_interval_s s
     \<and> 1 \<le> max_missed_heartbeats s \<and> 0 < max_daily_loss_pct s \<and> max_daily_loss_pct s \<le> 100
     \<and> 0 < max_drawdown_pct s \<and> max_drawdown_pct s \<le> 100"

lemma field_bindE:
  assumes "bindR (field conv ok name dflt obj) f = Inr y" and "ok dflt"
  obtains x where "ok x" and "f x = Inr y"
  using assms by (auto simp: bindR_eq_Inr dest: field_ok)

lemma validate_spread_ok: "validate_spread c obj = Inr s \<Longrightarrow> spread_ok s"
  unfolding validate_spread_def
  by (erule field_bindE, simp add: between_def opt_ok_def)+
    (auto simp: spread_ok_def)

lemma validate_depth_ok: "validate_depth c obj = Inr d \<Longrightarrow> depth_ok d"
  unfolding validate_depth_def
  by (erule field_bindE, simp add: between_def)+ (auto simp: depth_ok_def)

lemma validate_hmm_ok: "validate_hmm c obj = Inr h \<Longrightarrow> hmm_ok h"
  unfolding validate_hmm_def
  by (erule field_bindE, simp add: between_def)+ (auto simp: hmm_ok_def)

lemma validate_safety_ok: "validate_safety c obj = Inr s \<Longrightarrow> safety_ok s"
  unfolding validate_safety_def
  by (erule field_bindE, simp add: between_def)+ (auto simp: safety_ok_def)

section \<open>The default configuration\<close>

text \<open>What the models are with nothing given; the witnesses run on it.\<close>

definition sample_spread :: spread_config where
  "sample_spread =
     \<lparr>buy_min_pct = - 5, buy_max_pct = - 0.1, sell_min_pct = 0.3, sell_max_pct = 7,
      sp_curve_strength = 4, buy_levels = None, sell_levels = None, buy_curve_strength = None,
      sell_curve_strength = None, buy_min_step = 0, sell_min_step = 0, tick_size = 0.0001\<rparr>"

lemma sample_spread_ok: "spread_ok sample_spread"
  by (simp add: spread_ok_def sample_spread_def between_def opt_ok_def)

definition sample_depth :: depth_config where
  "sample_depth =
     \<lparr>dp_levels = 15, total_budget_usd = 1000, dp_curve_strength = 4, min_order_usd = 5,
      min_step_usd = 0\<rparr>"

lemma sample_depth_ok: "depth_ok sample_depth"
  by (simp add: depth_ok_def sample_depth_def between_def)

definition sample_safety :: safety_config where
  "sample_safety =
     \<lparr>min_balance_usd = 50, min_balance_token = 100, max_requests_per_second = 8,
      heartbeat_interval_s = 5, max_missed_heartbeats = 3, max_daily_loss_pct = 10,
      max_drawdown_pct = 15, alert_webhook_url = None\<rparr>"

lemma sample_safety_ok: "safety_ok sample_safety"
  by (simp add: safety_ok_def sample_safety_def between_def)

definition sample_exchange :: exchange_bot_config where
  "sample_exchange =
     \<lparr>xc_exchange = ''kucoin'', xc_symbol = ''ALKIMI/USDT'', xc_quote_currency = ''USDT'',
      xc_enabled = True, xc_spread = sample_spread, xc_depth = sample_depth,
      xc_safety = sample_safety, xc_ccxt_options = [], xc_use_cpp_connector = None\<rparr>"

lemma default_models:
  "validate_spread c [] = Inr sample_spread" "validate_depth c [] = Inr sample_depth"
  "validate_safety c [] = Inr sample_safety"
  by (simp_all add: validate_spread_def validate_depth_def validate_safety_def field_def
    sample_spread_def sample_depth_def sample_safety_def)

end
