(* ===== verification/LiveFeed.thy ===== *)
theory LiveFeed
  imports AsyncQueue Database ConfigSchema
begin

text \<open>
  \<open>api/websocket.py\<close>: the broadcaster of bot events.  The set of client queues is a list of
  queues with an identity.  A message is the JSON object the source dumps to a string, kept as
  its three fields; \<open>payload\<close> is its \<open>data\<close>.
\<close>

section \<open>State\<close>

record message =
  msg_event :: string
  msg_data :: json
  msg_timestamp :: real

record live_feed =
  lf_clients :: "(nat \<times> message aqueue) list"
  lf_next :: nat

record 'w feed_sys = "'w db_sys" +
  feed :: live_feed

definition new_live_feed :: live_feed where
  "new_live_feed = \<lparr>lf_clients = [], lf_next = 0\<rparr>"

definition client_count :: "live_feed \<Rightarrow> nat" where
  "client_count f = length (lf_clients f)"

datatype event_type =
    TICK_UPDATE | ORDER_PLACED | ORDER_FILLED | ORDER_CANCELED | INVENTORY_UPDATE
  | AGGRESSIVENESS_CHANGE | EMERGENCY_STOP | HEARTBEAT | CONFIG_RELOADED | BOT_STARTED | BOT_STOPPED

fun event_value :: "event_type \<Rightarrow> string" where
  "event_value TICK_UPDATE = ''tick_update''"
| "event_value ORDER_PLACED = ''order_placed''"
| "event_value ORDER_FILLED = ''order_filled''"
| "event_value ORDER_CANCELED = ''order_canceled''"
| "event_value INVENTORY_UPDATE = ''inventory_update''"
| "event_value AGGRESSIVENESS_CHANGE = ''aggressiveness_change''"
| "event_value EMERGENCY_STOP = ''emergency_stop''"
| "event_value HEARTBEAT = ''heartbeat''"
| "event_value CONFIG_RELOADED = ''config_reloaded''"
| "event_value BOT_STARTED = ''bot_started''"
| "event_value BOT_STOPPED = ''bot_stopped''"

definition all_events :: "event_type list" where
  "all_events = [TICK_UPDATE, ORDER_PLACED, ORDER_FILLED, ORDER_CANCELED, INVENTORY_UPDATE,
     AGGRESSIVENESS_CHANGE, EMERGENCY_STOP, HEARTBEAT, CONFIG_RELOADED, BOT_STARTED, BOT_STOPPED]"

text \<open>\<open>EventType(name)\<close>, None where it raises \<open>ValueError\<close>\<close>

definition event_of :: "string \<Rightarrow> event_type option" where
  "event_of name = find (\<lambda>e. event_value e = name) all_events"

section \<open>Clients\<close>

definition subscribe :: "live_feed \<Rightarrow> nat \<times> live_feed" where
  "subscribe f =
     (lf_next f, f\<lparr>lf_clients := lf_clients f @ [(lf_next f, new_queue 100)], lf_next := Suc (lf_next f)\<rparr>)"

definition unsubscribe :: "nat \<Rightarrow> live_feed \<Rightarrow> live_feed" where
  "unsubscribe c f = f\<lparr>lf_clients := AList.delete c (lf_clients f)\<rparr>"

section \<open>Broadcasting\<close>

text \<open>Every client gets the message; one whose queue is full is dropped from the set.\<close>

fun deliver :: "message \<Rightarrow> (nat \<times> message aqueue) list \<Rightarrow> (nat \<times> message aqueue) list" where
  "deliver m [] = []"
| "deliver m ((c, q) # qs) =
     (case put_nowait m q of None \<Rightarrow> deliver m qs | Some q' \<Rightarrow> (c, q') # deliver m qs)"

definition broadcast :: "'w env \<Rightarrow> event_type \<Rightarrow> json \<Rightarrow> (('w, 'z) feed_sys_scheme, unit) eff" where
  "broadcast env ev data =
     bindE (getsE (\<lambda>s. lf_clients (feed s))) (\<lambda>cs.
       if cs = [] then ret ()
       else bindE (now_s env) (\<lambda>t.
         modE (\<lambda>s. s\<lparr>feed := feed s\<lparr>lf_clients :=
           deliver \<lparr>msg_event = event_value ev, msg_data = data, msg_timestamp = t\<rparr> (lf_clients (feed s))\<rparr>\<rparr>)))"

text \<open>The generic \<open>emit\<close>: an unknown name is sent raw, and a full client keeps its place.\<close>

definition emit :: "'w env \<Rightarrow> string \<Rightarrow> json \<Rightarrow> (('w, 'z) feed_sys_scheme, unit) eff" where
  "emit env name data =
     (case event_of name of
        Some ev \<Rightarrow> broadcast env ev data
      | None \<Rightarrow> bindE (getsE (\<lambda>s. lf_clients (feed s))) (\<lambda>cs.
          if cs = [] then ret ()
          else bindE (now_s env) (\<lambda>t.
            modE (\<lambda>s. s\<lparr>feed := feed s\<lparr>lf_clients :=
              map (\<lambda>(c, q). (c, offer put_nowait
                    \<lparr>msg_event = name, msg_data = data, msg_timestamp = t\<rparr> q))
                (lf_clients (feed s))\<rparr>\<rparr>))))"

definition opt_field :: "string \<Rightarrow> json option \<Rightarrow> (string \<times> json) list" where
  "opt_field k v = (case v of None \<Rightarrow> [] | Some j \<Rightarrow> [(k, j)])"

definition intended :: "real list \<Rightarrow> real list \<Rightarrow> json" where
  "intended prices amounts =
     JArr (map (\<lambda>(p, a). JObj [(''price'', JNum (py_round_n 6 p)), (''usd'', JNum (py_round_n 2 a))])
       (zip prices amounts))"

definition tick_payload ::
  "string \<Rightarrow> real \<Rightarrow> real \<Rightarrow> real \<Rightarrow> real \<Rightarrow> nat \<Rightarrow> nat \<Rightarrow> string option \<Rightarrow> string option \<Rightarrow>
   real option \<Rightarrow> (real list \<times> real list) option \<Rightarrow> (real list \<times> real list) option \<Rightarrow> json" where
  "tick_payload ex mid vol agg skew n_open n_placed regime hmm_regime hmm_conf buys sells = JObj (
     [(''exchange'', JStr ex), (''global_mid'', JNum mid), (''volatility'', JNum (py_round_n 6 vol)),
      (''aggressiveness'', JNum (py_round_n 4 agg)), (''skew_factor'', JNum (py_round_n 4 skew)),
      (''open_orders'', JNum (real n_open)), (''placed_count'', JNum (real n_placed))]
     @ opt_field ''regime'' (map_option JStr regime)
     @ (case hmm_regime of None \<Rightarrow> []
        | Some h \<Rightarrow> [(''hmm_regime'', JStr h),
            (''hmm_regime_confidence'', JNum (py_round_n 4 (case hmm_conf of None \<Rightarrow> 0 | Some c \<Rightarrow> c)))])
     @ opt_field ''intended_buy_orders'' (map_option (\<lambda>(p, a). intended p a) buys)
     @ opt_field ''intended_sell_orders'' (map_option (\<lambda>(p, a). intended p a) sells))"

definition emit_emergency_stop :: "'w env \<Rightarrow> string \<Rightarrow> string \<Rightarrow> (('w, 'z) feed_sys_scheme, unit) eff" where
  "emit_emergency_stop env ex reason =
     broadcast env EMERGENCY_STOP (JObj [(''exchange'', JStr ex), (''reason'', JStr reason)])"

definition emit_config_reloaded :: "'w env \<Rightarrow> (('w, 'z) feed_sys_scheme, unit) eff" where
  "emit_config_reloaded env = broadcast env CONFIG_RELOADED (JObj [(''msg'', JStr ''Bot config updated'')])"

definition emit_bot_started :: "'w env \<Rightarrow> string \<Rightarrow> (('w, 'z) feed_sys_scheme, unit) eff" where
  "emit_bot_started env ex = broadcast env BOT_STARTED (JObj [(''exchange'', JStr ex)])"

definition emit_bot_stopped :: "'w env \<Rightarrow> string \<Rightarrow> (('w, 'z) feed_sys_scheme, unit) eff" where
  "emit_bot_stopped env ex = broadcast env BOT_STOPPED (JObj [(''exchange'', JStr ex)])"

section \<open>Behaviour\<close>

lemma event_of_value [simp]: "event_of (event_value e) = Some e"
  by (cases e) (simp_all add: event_of_def all_events_def)

lemma deliver_spec:
  "deliver m cs = map (\<lambda>(c, q). (c, q\<lparr>q_items := q_items q @ [m]\<rparr>))
     (filter (\<lambda>(c, q). q_maxsize q = 0 \<or> length (q_items q) < q_maxsize q) cs)"
  by (induction m cs rule: deliver.induct) (auto simp: put_nowait_def split: option.splits)

text \<open>Client numbers stay unique and below the next one, and no queue exceeds its bound.\<close>

definition feed_ok :: "live_feed \<Rightarrow> bool" where
  "feed_ok f \<longleftrightarrow> dict_wf (lf_clients f) \<and> (\<forall>(c, q) \<in> set (lf_clients f).
     c < lf_next f \<and> q_maxsize q = 100 \<and> length (q_items q) \<le> 100)"

lemma feed_ok_new: "feed_ok new_live_feed"
  by (simp add: feed_ok_def new_live_feed_def)

lemma feed_ok_subscribe: "feed_ok f \<Longrightarrow> feed_ok (snd (subscribe f))"
  by (fastforce simp: feed_ok_def subscribe_def new_queue_def dict_wf_def)

lemma feed_ok_unsubscribe: "feed_ok f \<Longrightarrow> feed_ok (unsubscribe c f)"
  by (auto simp: feed_ok_def unsubscribe_def set_delete)

lemma dict_wf_deliver: "dict_wf cs \<Longrightarrow> dict_wf (deliver m cs)"
  by (simp add: dict_wf_def deliver_spec comp_def case_prod_unfold distinct_map_filter)

lemma feed_ok_deliver: "feed_ok f \<Longrightarrow> feed_ok (f\<lparr>lf_clients := deliver m (lf_clients f)\<rparr>)"
  using dict_wf_deliver [of "lf_clients f" m] by (auto simp: feed_ok_def deliver_spec)

lemma broadcast_run:
  "\<exists>t w. broadcast env ev data s = (Inr (), s\<lparr>feed := feed s\<lparr>lf_clients :=
       deliver \<lparr>msg_event = event_value ev, msg_data = data, msg_timestamp = t\<rparr> (lf_clients (feed s))\<rparr>,
     world := w\<rparr>)"
proof (cases "lf_clients (feed s) = []")
  case True
  then have "feed s\<lparr>lf_clients := []\<rparr> = feed s" by (cases "feed s") simp
  with True show ?thesis by (intro exI [of _ 0] exI [of _ "world s"]) (simp add: broadcast_def eff_simps)
next
  case False
  obtain t w where "read_clock env (world s) = (t, w)" by fastforce
  with False show ?thesis
    by (intro exI [of _ t] exI [of _ w]) (simp add: broadcast_def eff_simps)
qed

text \<open>
  Broadcasting never raises and one slow client cannot disturb another: a client with fewer
  than a hundred pending messages receives the event as its last message, a client with a full
  queue leaves the set, and nobody else changes.
\<close>

theorem broadcast_isolates_clients:
  assumes "feed_ok (feed s)" and "(c, q) \<in> set (lf_clients (feed s))"
  shows "case broadcast env ev data s of (r, s') \<Rightarrow>
     r = Inr () \<and> feed_ok (feed s') \<and>
     (case dict_get (lf_clients (feed s')) c of
        Some q' \<Rightarrow> length (q_items q) < 100 \<and> (\<exists>m. msg_event m = event_value ev \<and> msg_data m = data \<and>
                      q_items q' = q_items q @ [m])
      | None \<Rightarrow> length (q_items q) = 100)"
proof -
  obtain t w where b: "broadcast env ev data s = (Inr (), s\<lparr>feed := feed s\<lparr>lf_clients :=
       deliver \<lparr>msg_event = event_value ev, msg_data = data, msg_timestamp = t\<rparr> (lf_clients (feed s))\<rparr>,
     world := w\<rparr>)"
    using broadcast_run [of env ev data s] by blast
  let ?m = "\<lparr>msg_event = event_value ev, msg_data = data, msg_timestamp = t\<rparr>"
  let ?cs = "deliver ?m (lf_clients (feed s))"
  have ok: "feed_ok (feed s\<lparr>lf_clients := ?cs\<rparr>)" by (rule feed_ok_deliver [OF assms(1)])
  have wf: "dict_wf (lf_clients (feed s))" and cap: "q_maxsize q = 100" "length (q_items q) \<le> 100"
    using assms by (auto simp: feed_ok_def)
  show ?thesis
  proof (cases "length (q_items q) < 100")
    case True
    then have "(c, q\<lparr>q_items := q_items q @ [?m]\<rparr>) \<in> set ?cs"
      using assms(2) cap by (force simp: deliver_spec)
    then have "dict_get ?cs c = Some (q\<lparr>q_items := q_items q @ [?m]\<rparr>)"
      using dict_wf_deliver [OF wf] by (simp add: dict_wf_def)
    with True ok show ?thesis by (auto simp: b)
  next
    case False
    have "c \<notin> fst ` set ?cs"
    proof
      assume "c \<in> fst ` set ?cs"
      then obtain q2 where "(c, q2) \<in> set (lf_clients (feed s))"
        and "q_maxsize q2 = 0 \<or> length (q_items q2) < q_maxsize q2"
        by (auto simp: deliver_spec)
      moreover from this(1) assms(2) wf have "q2 = q"
        unfolding dict_wf_def by (rule eq_key_imp_eq_value [rotated])
      ultimately show False using False cap by simp
    qed
    then have "dict_get ?cs c = None" by (simp add: map_of_eq_None_iff)
    with False cap ok show ?thesis by (auto simp: b)
  qed
qed

definition sample_feed :: live_feed where
  "sample_feed = snd (subscribe new_live_feed)"

theorem broadcast_isolates_clients_witness:
  "case broadcast sample_env BOT_STARTED JNull
      \<lparr>world = 0, limiter = new_rate_limiter 8 1000, db = new_database, feed = sample_feed\<rparr> of (r, s') \<Rightarrow>
     r = Inr () \<and> feed_ok (feed s') \<and>
     (case dict_get (lf_clients (feed s')) 0 of
        Some q' \<Rightarrow> length (q_items (new_queue 100 :: message aqueue)) < 100 \<and>
          (\<exists>m. msg_event m = event_value BOT_STARTED \<and> msg_data m = JNull \<and>
               q_items q' = q_items (new_queue 100) @ [m])
      | None \<Rightarrow> length (q_items (new_queue 100 :: message aqueue)) = 100)"
  by (rule broadcast_isolates_clients)
    (simp_all add: sample_feed_def feed_ok_subscribe [OF feed_ok_new], simp add: subscribe_def new_live_feed_def)

section \<open>What the feed promises\<close>

text \<open>
  The specification: a mailbox per client, and the numbers given out so far.  A client joins with a
  number nobody ever had and an empty mailbox; a message is put into every mailbox with room and takes
  the others away.
\<close>

datatype feed_op = Join | Leave nat | Publish event_type json

type_synonym mail = "nat set \<times> (nat \<rightharpoonup> message list)"

definition post_all :: "message \<Rightarrow> (nat \<rightharpoonup> message list) \<Rightarrow> nat \<rightharpoonup> message list" where
  "post_all m M = (\<lambda>c. case M c of None \<Rightarrow> None | Some ms \<Rightarrow> if length ms < 100 then Some (ms @ [m]) else None)"

inductive mail_step :: "mail \<Rightarrow> feed_op \<Rightarrow> mail \<Rightarrow> bool" where
  join: "c \<notin> used \<Longrightarrow> mail_step (used, M) Join (insert c used, M(c \<mapsto> []))"
| leave: "mail_step (used, M) (Leave c) (used, M(c := None))"
| publish: "msg_event m = event_value ev \<Longrightarrow> msg_data m = data \<Longrightarrow>
    mail_step (used, M) (Publish ev data) (used, post_all m M)"

inductive mail_run :: "mail \<Rightarrow> feed_op list \<Rightarrow> mail \<Rightarrow> bool" where
  stop: "mail_run A [] A"
| step: "mail_step A x B \<Longrightarrow> mail_run B xs C \<Longrightarrow> mail_run A (x # xs) C"

text \<open>What a client that stays is sent.\<close>

fun published :: "feed_op list \<Rightarrow> (string \<times> json) list" where
  "published [] = []"
| "published (Publish ev data # xs) = (event_value ev, data) # published xs"
| "published (x # xs) = published xs"

text \<open>Once its number is used and its mailbox is gone, a client never has one again.\<close>

lemma gone_for_good:
  "mail_run A xs B \<Longrightarrow> c \<in> fst A \<Longrightarrow> snd A c = None \<Longrightarrow> c \<in> fst B \<and> snd B c = None"
proof (induction rule: mail_run.induct)
  case (step A x B xs C)
  from step.hyps(1) step.prems have "c \<in> fst B" "snd B c = None"
    by (cases rule: mail_step.cases; auto simp: post_all_def)+
  then show ?case by (rule step.IH)
qed simp

lemma mailbox_step:
  assumes "mail_step A x B" "c \<in> fst A" "snd A c = Some ms" "x \<noteq> Leave c"
  shows "c \<in> fst B \<and> (snd B c = None \<or>
    (\<exists>new. snd B c = Some (ms @ new) \<and> map (\<lambda>m. (msg_event m, msg_data m)) new = published [x]))"
  using assms by (cases rule: mail_step.cases) (auto simp: post_all_def)

text \<open>
  A client that is still there has received, in order and after what it had, exactly what was
  published meanwhile.
\<close>

lemma staying_client_gets_all:
  assumes "mail_run A xs B" "c \<in> fst A" "snd A c = Some ms" "Leave c \<notin> set xs" "snd B c = Some ms'"
  shows "\<exists>new. ms' = ms @ new \<and> map (\<lambda>m. (msg_event m, msg_data m)) new = published xs"
  using assms
proof (induction arbitrary: ms rule: mail_run.induct)
  case (step A x B xs C)
  have "x \<noteq> Leave c" using step.prems(3) by auto
  from mailbox_step [OF step.hyps(1) step.prems(1,2) this]
  have B: "c \<in> fst B" "snd B c = None \<or>
    (\<exists>new. snd B c = Some (ms @ new) \<and> map (\<lambda>m. (msg_event m, msg_data m)) new = published [x])"
    by blast+
  moreover have "snd B c \<noteq> None" using gone_for_good [OF step.hyps(2) B(1)] step.prems(4) by auto
  ultimately obtain new where new: "snd B c = Some (ms @ new)" "map (\<lambda>m. (msg_event m, msg_data m)) new = published [x]"
    by blast
  moreover obtain new' where "ms' = (ms @ new) @ new'" "map (\<lambda>m. (msg_event m, msg_data m)) new' = published xs"
    using step.IH [OF B(1) new(1)] step.prems by auto
  moreover have "published (x # xs) = published [x] @ published xs" by (cases x) simp_all
  ultimately show ?case by (intro exI [of _ "new @ new'"]) simp
qed simp

text \<open>The operations of the code, and the mailboxes a state of it stands for.\<close>

fun feed_call :: "'w env \<Rightarrow> feed_op \<Rightarrow> (('w, 'z) feed_sys_scheme, unit) eff" where
  "feed_call env Join = modE (\<lambda>s. s\<lparr>feed := snd (subscribe (feed s))\<rparr>)"
| "feed_call env (Leave c) = modE (\<lambda>s. s\<lparr>feed := unsubscribe c (feed s)\<rparr>)"
| "feed_call env (Publish ev data) = broadcast env ev data"

definition mailboxes :: "live_feed \<Rightarrow> nat \<rightharpoonup> message list" where
  "mailboxes f = map_option q_items \<circ> dict_get (lf_clients f)"

definition feed_view :: "live_feed \<Rightarrow> mail" where
  "feed_view f = ({..<lf_next f}, mailboxes f)"

lemma mailboxes_subscribe:
  assumes "feed_ok f"
  shows "lf_next f \<notin> dom (mailboxes f)" and "mailboxes (snd (subscribe f)) = (mailboxes f)(lf_next f \<mapsto> [])"
proof -
  have fresh: "lf_next f \<notin> fst ` set (lf_clients f)" using assms by (auto simp: feed_ok_def)
  then have none: "map_of (lf_clients f) (lf_next f) = None" by (simp add: map_of_eq_None_iff)
  then show "lf_next f \<notin> dom (mailboxes f)" by (simp add: mailboxes_def domIff)
  from none show "mailboxes (snd (subscribe f)) = (mailboxes f)(lf_next f \<mapsto> [])"
    by (auto simp: mailboxes_def subscribe_def new_queue_def map_add_def fun_eq_iff split: option.split)
qed

lemma mailboxes_unsubscribe: "mailboxes (unsubscribe c f) = (mailboxes f)(c := None)"
  by (auto simp: mailboxes_def unsubscribe_def delete_conv' fun_eq_iff)

lemma map_of_deliver:
  "dict_wf cs \<Longrightarrow> map_of (deliver m cs) c = Option.bind (map_of cs c) (put_nowait m)"
proof (induction m cs rule: deliver.induct)
  case (2 m c' q qs)
  moreover have "map_of qs c' = None" using 2(3) by (simp add: dict_wf_def map_of_eq_None_iff)
  ultimately show ?case by (auto simp: dict_wf_def split: option.split)
qed simp

lemma mailboxes_deliver:
  assumes "feed_ok f"
  shows "mailboxes (f\<lparr>lf_clients := deliver m (lf_clients f)\<rparr>) = post_all m (mailboxes f)"
proof
  fix c
  have "q_maxsize q = 100" if "map_of (lf_clients f) c = Some q" for q
    using assms map_of_SomeD [OF that] by (auto simp: feed_ok_def)
  then show "mailboxes (f\<lparr>lf_clients := deliver m (lf_clients f)\<rparr>) c = post_all m (mailboxes f) c"
    using assms by (auto simp: mailboxes_def post_all_def map_of_deliver feed_ok_def put_nowait_def split: option.split)
qed

lemma feed_call_simulates:
  assumes "feed_ok (feed s)"
  shows "\<exists>s'. feed_call env x s = (Inr (), s') \<and> feed_ok (feed s') \<and>
    mail_step (feed_view (feed s)) x (feed_view (feed s'))"
proof (cases x)
  case Join
  have "feed_view (snd (subscribe (feed s))) =
      (insert (lf_next (feed s)) {..<lf_next (feed s)}, (mailboxes (feed s))(lf_next (feed s) \<mapsto> []))"
    using mailboxes_subscribe [OF assms] by (auto simp: feed_view_def subscribe_def)
  with Join feed_ok_subscribe [OF assms] show ?thesis
    using mail_step.join [of "lf_next (feed s)" "{..<lf_next (feed s)}" "mailboxes (feed s)"]
    by (simp add: modE_def feed_view_def)
next
  case (Leave c)
  with feed_ok_unsubscribe [OF assms] show ?thesis
    by (simp add: modE_def feed_view_def mailboxes_unsubscribe mail_step.leave)
      (simp add: unsubscribe_def mail_step.leave)
next
  case (Publish ev data)
  with broadcast_run [of env ev data s] feed_ok_deliver [OF assms] mailboxes_deliver [OF assms] show ?thesis
    by (auto simp: feed_view_def intro!: mail_step.publish)
qed

text \<open>
  C38. The feed refines the mailboxes: any sequence of joins, leaves and broadcasts runs without an
  exception, and what the clients' queues hold afterwards is what the same sequence leaves in the
  mailboxes; there a client that stays receives exactly the broadcasts since it joined, in order,
  whatever the others do (\<open>staying_client_gets_all\<close>).
\<close>

theorem feed_refines_mailboxes:
  assumes "feed_ok (feed s)"
  shows "case for_each (feed_call env) xs s of (r, s') \<Rightarrow>
     r = Inr () \<and> feed_ok (feed s') \<and> mail_run (feed_view (feed s)) xs (feed_view (feed s'))"
  using assms
proof (induction xs arbitrary: s)
  case Nil
  then show ?case by (simp add: ret_def mail_run.stop)
next
  case (Cons x xs)
  obtain s1 where s1: "feed_call env x s = (Inr (), s1)" "feed_ok (feed s1)"
    "mail_step (feed_view (feed s)) x (feed_view (feed s1))"
    using feed_call_simulates [OF Cons.prems] by blast
  with Cons.IH [OF s1(2)] show ?case
    by (auto simp: seqE_def bindE_def intro: mail_run.step split: prod.splits)
qed

theorem feed_refines_mailboxes_witness:
  "case for_each (feed_call sample_env) [Join, Publish BOT_STARTED JNull, Leave 0]
      \<lparr>world = 0, limiter = new_rate_limiter 8 1000, db = new_database, feed = sample_feed\<rparr> of (r, s') \<Rightarrow>
     r = Inr () \<and> feed_ok (feed s') \<and>
     mail_run (feed_view sample_feed) [Join, Publish BOT_STARTED JNull, Leave 0] (feed_view (feed s'))"
  using feed_refines_mailboxes [of "\<lparr>world = 0, limiter = new_rate_limiter 8 1000, db = new_database, feed = sample_feed\<rparr>"
      "[Join, Publish BOT_STARTED JNull, Leave 0]" sample_env]
  by (simp add: sample_feed_def feed_ok_subscribe [OF feed_ok_new])

section \<open>What a broadcast leaves alone\<close>

definition feed_free :: "(('w, 'z) feed_sys_scheme \<Rightarrow> bool) \<Rightarrow> bool" where
  "feed_free P \<longleftrightarrow> (\<forall>s f w. P s \<longrightarrow> P (s\<lparr>feed := f, world := w\<rparr>))"

lemma feed_freeI: "(\<And>s f w. P s \<Longrightarrow> P (s\<lparr>feed := f, world := w\<rparr>)) \<Longrightarrow> feed_free P"
  by (simp add: feed_free_def)

lemma keeps_broadcast [keeps_intros]: "feed_free P \<Longrightarrow> keeps P (broadcast env ev data)"
proof (rule keepsI)
  fix s :: "('a, 'b) feed_sys_scheme"
  assume "feed_free P" "P s"
  moreover obtain f w where "broadcast env ev data s = (Inr (), s\<lparr>feed := f, world := w\<rparr>)"
    using broadcast_run [of env ev data s] by blast
  ultimately show "P (snd (broadcast env ev data s))" by (simp add: feed_free_def)
qed

end
