(* ===== verification/OrderManager.thy ===== *)
theory OrderManager
  imports LiveFeed
begin

text \<open>
  \<open>core/order_manager.py\<close>: the diff-and-repost logic of one exchange.  The methods are written
  over the state of the order manager with what it shares with the bot: the world behind the
  connector, the rate limiter and the database.  The two dicts are association lists in
  insertion order.
\<close>

section \<open>State\<close>

record order_grid =
  buy_prices :: "real list"
  buy_amounts :: "real list"
  sell_prices :: "real list"
  sell_amounts :: "real list"
  grid_mid :: real
  grid_aggressiveness :: real

record 'w om = "'w feed_sys" +
  om_config :: exchange_bot_config
  live_mode :: bool
  dry_run :: bool
  open_orders :: "(string \<times> order) list"
  order_created_at :: "(string \<times> real) list"
  last_grid :: "order_grid option"
  max_order_age :: real

definition init_order_manager ::
  "exchange_bot_config \<Rightarrow> bool \<Rightarrow> ('w, 'z) om_scheme \<Rightarrow> ('w, 'z) om_scheme" where
  "init_order_manager cfg live s =
     s\<lparr>om_config := cfg, live_mode := live, dry_run := \<not> live, open_orders := [],
       order_created_at := [], last_grid := None, max_order_age := 300\<rparr>"

abbreviation open_order_list :: "('w, 'z) om_scheme \<Rightarrow> order list" where
  "open_order_list s \<equiv> dict_values (open_orders s)"

definition open_order_count :: "('w, 'z) om_scheme \<Rightarrow> nat" where
  "open_order_count s = length (open_orders s)"

section \<open>Order comparison logic\<close>

definition PRICE_TOLERANCE_PCT :: real where
  "PRICE_TOLERANCE_PCT = 0.03"

definition order_near :: "real \<Rightarrow> real \<Rightarrow> bool" where
  "order_near price desired \<longleftrightarrow>
     \<bar>price - desired\<bar> / max desired (1 / 10 ^ 8) * 100 \<le> PRICE_TOLERANCE_PCT"

definition find_stale_orders :: "order_grid \<Rightarrow> ('w, 'z) om_scheme \<Rightarrow> order list" where
  "find_stale_orders g s =
     filter (\<lambda>o'. \<not> list_ex (\<lambda>desired. order_near (ord_price o') desired)
                   (buy_prices g @ sell_prices g)) (open_order_list s)"

definition has_order_near :: "real \<Rightarrow> real list \<Rightarrow> bool" where
  "has_order_near target prices \<longleftrightarrow> list_ex (\<lambda>price. order_near price target) prices"

definition find_missing_levels :: "order_grid \<Rightarrow> ('w, 'z) om_scheme \<Rightarrow> (string \<times> real \<times> real) list" where
  "find_missing_levels g s =
     (let op = map ord_price (open_order_list s);
          missing = (\<lambda>side levels.
            map (\<lambda>(p, a). (side, p, a)) (filter (\<lambda>(p, a). \<not> has_order_near p op) levels))
      in missing ''buy'' (zip (buy_prices g) (buy_amounts g))
         @ missing ''sell'' (zip (sell_prices g) (sell_amounts g)))"

section \<open>Exchange operations\<close>

definition drop_stale_id :: "'w env \<Rightarrow> string \<Rightarrow> (('w, 'z) om_scheme, unit) eff" where
  "drop_stale_id env oid =
     seqE (modE (\<lambda>s. s\<lparr>open_orders := AList.delete oid (open_orders s)\<rparr>))
          (update_order_status env oid ''filled'')"

definition adopt_order :: "string \<times> order \<Rightarrow> (('w, 'z) om_scheme, unit) eff" where
  "adopt_order = (\<lambda>(oid, o').
     modE (\<lambda>s. if oid \<in> set (dict_keys (open_orders s)) then s
               else s\<lparr>open_orders := AList.update oid o' (open_orders s)\<rparr>))"

definition sync_with_exchange :: "'w env \<Rightarrow> (('w, 'z) om_scheme, unit) eff" where
  "sync_with_exchange env =
     bindE (callE (fetch_open_orders env)) (\<lambda>live_orders.
       let live_map = fold (\<lambda>o' m. AList.update (ord_id o') o' m) live_orders []
       in bindE (getsE (\<lambda>s. filter (\<lambda>oid. oid \<notin> set (dict_keys live_map)) (dict_keys (open_orders s))))
            (\<lambda>stale_ids. seqE (for_each (drop_stale_id env) stale_ids)
                              (for_each adopt_order live_map)))"

definition sync_open_orders :: "'w env \<Rightarrow> (('w, 'z) om_scheme, unit) eff" where
  "sync_open_orders env =
     seqE (acquire env)
       (bindE (getsE dry_run) (\<lambda>dry.
          if dry then ret () else catchE (sync_with_exchange env) (\<lambda>_. ret ())))"

definition cancel_one :: "'w env \<Rightarrow> order \<Rightarrow> (('w, 'z) om_scheme, unit) eff" where
  "cancel_one env o' =
     seqE (acquire env)
     (seqE (bindE (getsE dry_run) (\<lambda>dry. if dry then ret () else callE (cancel_order env (ord_id o'))))
     (seqE (modE (\<lambda>s. s\<lparr>open_orders := AList.delete (ord_id o') (open_orders s),
                       order_created_at := AList.delete (ord_id o') (order_created_at s)\<rparr>))
       (update_order_status env (ord_id o') ''canceled'')))"

definition aged_ids :: "real \<Rightarrow> ('w, 'z) om_scheme \<Rightarrow> string list" where
  "aged_ids now s =
     map fst (filter (\<lambda>(oid, created_at).
       now - created_at > max_order_age s \<and> oid \<in> set (dict_keys (open_orders s)))
       (order_created_at s))"

definition cancel_aged :: "'w env \<Rightarrow> string \<Rightarrow> (('w, 'z) om_scheme, unit) eff" where
  "cancel_aged env oid =
     bindE (getsE (\<lambda>s. dict_get (open_orders s) oid)) (\<lambda>found.
       case found of None \<Rightarrow> ret () | Some o' \<Rightarrow> cancel_one env o')"

definition cancel_stale_by_age :: "'w env \<Rightarrow> (('w, 'z) om_scheme, unit) eff" where
  "cancel_stale_by_age env =
     bindE (getsE max_order_age) (\<lambda>age.
       if age \<le> 0 then ret ()
       else bindE (now_s env) (\<lambda>now. bindE (getsE (aged_ids now)) (for_each (cancel_aged env))))"

definition track_order :: "'w env \<Rightarrow> order \<Rightarrow> (('w, 'z) om_scheme, unit) eff" where
  "track_order env o' =
     seqE (modE (\<lambda>s. s\<lparr>open_orders := AList.update (ord_id o') o' (open_orders s)\<rparr>))
     (bindE (now_s env) (\<lambda>now.
     seqE (modE (\<lambda>s. s\<lparr>order_created_at := AList.update (ord_id o') now (order_created_at s)\<rparr>))
       (insert_order env o')))"

definition dry_order :: "exchange_bot_config \<Rightarrow> string \<Rightarrow> string \<Rightarrow> real \<Rightarrow> real \<Rightarrow> real \<Rightarrow> order" where
  "dry_order cfg hex side price amount ts =
     \<lparr>ord_id = ''DRY-'' @ hex, ord_exchange = xc_exchange cfg, ord_symbol = xc_symbol cfg,
      ord_side = side, ord_price = price, ord_amount = amount, ord_amount_usd = price * amount,
      ord_status = ''open'', ord_timestamp = ts, ord_filled_amount = 0, ord_filled_price = 0,
      ord_fee = 0, ord_fee_currency = ''''\<rparr>"

definition place_one ::
  "'w env \<Rightarrow> string \<Rightarrow> real \<Rightarrow> real \<Rightarrow> (('w, 'z) om_scheme, order option) eff" where
  "place_one env side price token_amount =
     (if token_amount \<le> 0 \<or> price \<le> 0 then ret None
      else seqE (acquire env)
        (bindE (getsE dry_run) (\<lambda>dry.
           if dry then
             bindE (getsE om_config) (\<lambda>cfg.
             bindE (envE (uuid_hex8 env)) (\<lambda>hex.
             bindE (now_s env) (\<lambda>ts.
               let o' = dry_order cfg hex side price token_amount ts
               in seqE (track_order env o') (ret (Some o')))))
           else
             catchE
               (bindE (callE (create_limit_order env side price token_amount)) (\<lambda>o'.
                  seqE (track_order env o') (ret (Some o'))))
               (\<lambda>_. ret None))))"

definition diff_and_repost :: "'w env \<Rightarrow> order_grid \<Rightarrow> (('w, 'z) om_scheme, order list) eff" where
  "diff_and_repost env g =
     seqE (sync_open_orders env)
     (seqE (cancel_stale_by_age env)
     (bindE (getsE (find_stale_orders g)) (\<lambda>to_cancel.
     bindE (getsE (find_missing_levels g)) (\<lambda>to_place.
     seqE (for_each (cancel_one env) to_cancel)
     (bindE (for_collect (\<lambda>(side, p, a). place_one env side p a) to_place) (\<lambda>placed.
     seqE (modE (\<lambda>s. s\<lparr>last_grid := Some g\<rparr>)) (ret placed)))))))"

definition cancel_all :: "'w env \<Rightarrow> (('w, 'z) om_scheme, unit) eff" where
  "cancel_all env =
     seqE (bindE (getsE dry_run) (\<lambda>dry.
             if dry then ret () else seqE (acquire env) (callE (cancel_all_orders env))))
     (bindE (getsE (\<lambda>s. dict_keys (open_orders s))) (\<lambda>ids.
      seqE (for_each (\<lambda>oid. update_order_status env oid ''canceled'') ids)
        (modE (\<lambda>s. s\<lparr>open_orders := [], order_created_at := []\<rparr>))))"

section \<open>What each operation leaves alone\<close>

text \<open>
  Everything of the order manager's own state, and of whatever a bot adds to it; acquisitions,
  calls to the connector and database statements leave all of it as it is.
\<close>

definition om_frame where
  "om_frame s = (om_config s, live_mode s, dry_run s, open_orders s, order_created_at s,
     last_grid s, max_order_age s, om.more s)"

lemma db_free_om [keeps_intros]: "db_free (\<lambda>s. om_frame s = F)"
  by (simp add: db_free_def om_frame_def)

lemma world_free_om [keeps_intros]: "world_free (\<lambda>s. om_frame s = F)"
  by (simp add: world_free_def om_frame_def)

lemma limiter_free_om [keeps_intros]: "limiter_free (\<lambda>s. om_frame s = F)"
  by (simp add: limiter_free_def om_frame_def)

lemma frame_of_keeps: "(\<And>F. keeps (\<lambda>s. om_frame s = F) m) \<Longrightarrow> om_frame (snd (m s)) = om_frame s"
  by (simp add: keeps_def)

lemma frame_acquire: "om_frame (snd (acquire env s)) = om_frame s"
  by (rule frame_of_keeps) (intro keeps_intros)

lemma frame_callE: "om_frame (snd (callE f s)) = om_frame s"
  by (rule frame_of_keeps) (intro keeps_intros)

lemma frame_update_order_status: "om_frame (snd (update_order_status env i st s)) = om_frame s"
  by (rule frame_of_keeps) (intro keeps_intros)

lemma frame_insert_order: "om_frame (snd (insert_order env o' s)) = om_frame s"
  by (rule frame_of_keeps) (intro keeps_intros)

lemmas om_frames = frame_acquire frame_callE frame_update_order_status frame_insert_order

text \<open>A predicate on the order manager's own state alone.\<close>

definition om_only where
  "om_only P \<longleftrightarrow> (\<forall>s s'. om_frame s = om_frame s' \<longrightarrow> P s \<longrightarrow> P s')"

lemma om_onlyI: "(\<And>s s'. om_frame s = om_frame s' \<Longrightarrow> P s \<Longrightarrow> P s') \<Longrightarrow> om_only P"
  unfolding om_only_def by blast

lemma om_only_db [keeps_intros]: "om_only P \<Longrightarrow> db_free P"
  unfolding om_only_def db_free_def by (auto simp: om_frame_def)

lemma om_only_world [keeps_intros]: "om_only P \<Longrightarrow> world_free P"
  unfolding om_only_def world_free_def by (auto simp: om_frame_def)

lemma om_only_limiter [keeps_intros]: "om_only P \<Longrightarrow> limiter_free P"
  unfolding om_only_def limiter_free_def by (auto simp: om_frame_def)

section \<open>Invariants of the two dicts\<close>

definition om_ok :: "('w, 'z) om_scheme \<Rightarrow> bool" where
  "om_ok s \<longleftrightarrow> dict_wf (open_orders s) \<and> dict_wf (order_created_at s)
     \<and> (\<forall>(k, o') \<in> set (open_orders s). k = ord_id o')"

lemma om_only_ok [keeps_intros]: "om_only om_ok"
  by (rule om_onlyI) (simp add: om_ok_def om_frame_def)

lemma om_ok_init: "om_ok (init_order_manager cfg live s)"
  by (simp add: om_ok_def init_order_manager_def)

lemma om_ok_delete:
  "om_ok s \<Longrightarrow> om_ok (s\<lparr>open_orders := AList.delete k (open_orders s)\<rparr>)"
  "om_ok s \<Longrightarrow> om_ok (s\<lparr>open_orders := AList.delete k (open_orders s),
     order_created_at := AList.delete k (order_created_at s)\<rparr>)"
  by (auto simp: om_ok_def set_delete)

lemma om_ok_update:
  "om_ok s \<Longrightarrow> om_ok (s\<lparr>open_orders := AList.update (ord_id o') o' (open_orders s)\<rparr>)"
  "om_ok s \<Longrightarrow> om_ok (s\<lparr>order_created_at := AList.update k t (order_created_at s)\<rparr>)"
  by (auto simp: om_ok_def set_update_wf)

lemma keeps_cancel_one:
  assumes "om_only P"
    and "\<And>s. P s \<Longrightarrow> P (s\<lparr>open_orders := AList.delete (ord_id o') (open_orders s),
                       order_created_at := AList.delete (ord_id o') (order_created_at s)\<rparr>)"
  shows "keeps P (cancel_one env o')"
  unfolding cancel_one_def by (intro keeps_intros keeps_mod assms)

lemma keeps_track_order:
  assumes "om_only P"
    and "\<And>s. P s \<Longrightarrow> P (s\<lparr>open_orders := AList.update (ord_id o') o' (open_orders s)\<rparr>)"
    and "\<And>s t. P s \<Longrightarrow> P (s\<lparr>order_created_at := AList.update (ord_id o') t (order_created_at s)\<rparr>)"
  shows "keeps P (track_order env o')"
  unfolding track_order_def by (intro keeps_intros keeps_mod assms)

lemma keeps_ok_cancel_one [keeps_intros]: "keeps om_ok (cancel_one env o')"
  by (intro keeps_cancel_one keeps_intros om_ok_delete)

lemma keeps_ok_track_order [keeps_intros]: "keeps om_ok (track_order env o')"
  by (intro keeps_track_order keeps_intros om_ok_update)

lemma keeps_ok_place_one [keeps_intros]: "keeps om_ok (place_one env side p a)"
  unfolding place_one_def Let_def by (intro keeps_intros)

lemma keeps_ok_cancel_stale [keeps_intros]: "keeps om_ok (cancel_stale_by_age env)"
  unfolding cancel_stale_by_age_def cancel_aged_def by (intro keeps_intros)

lemma fold_live_map:
  assumes "\<forall>(k, o') \<in> set m0. k = ord_id o'" and "dict_wf m0"
  shows "\<forall>(k, o') \<in> set (fold (\<lambda>o' m. AList.update (ord_id o') o' m) os m0). k = ord_id o'"
  using assms
proof (induction os arbitrary: m0)
  case (Cons o' os)
  show ?case
    unfolding fold_simps by (rule Cons.IH) (use Cons.prems in \<open>auto simp: set_update_wf\<close>)
qed simp

lemma keeps_ok_adopt: "k = ord_id o' \<Longrightarrow> keeps om_ok (adopt_order (k, o'))"
  by (auto simp: adopt_order_def intro!: keeps_mod om_ok_update)

lemma keeps_ok_drop [keeps_intros]: "keeps om_ok (drop_stale_id env oid)"
  unfolding drop_stale_id_def by (intro keeps_intros keeps_mod om_ok_delete)

lemma keeps_ok_sync [keeps_intros]: "keeps om_ok (sync_open_orders env)"
  unfolding sync_open_orders_def sync_with_exchange_def Let_def
  using fold_live_map [of "[]"] by (intro keeps_intros) (fastforce intro!: keeps_ok_adopt)+

lemma keeps_ok_diff [keeps_intros]: "keeps om_ok (diff_and_repost env g)"
  unfolding diff_and_repost_def
  by (intro keeps_intros keeps_mod) (auto simp: om_ok_def intro!: keeps_intros)

lemma keeps_ok_cancel_all [keeps_intros]: "keeps om_ok (cancel_all env)"
  unfolding cancel_all_def
  by (intro keeps_intros keeps_mod) (auto simp: om_ok_def)

section \<open>The dry run\<close>

lemma om_only_dry [keeps_intros]: "om_only dry_run"
  by (rule om_onlyI) (simp add: om_frame_def)

lemma keeps_dry_cancel_one [keeps_intros]: "keeps dry_run (cancel_one env o')"
  by (intro keeps_cancel_one keeps_intros) simp

lemma keeps_dry_track_order [keeps_intros]: "keeps dry_run (track_order env o')"
  by (intro keeps_track_order keeps_intros) simp_all

text \<open>The same environment with another exchange behind it.\<close>

definition other_exchange where
  "other_exchange env create cancel cancel_every list_open =
     env\<lparr>create_limit_order := create, cancel_order := cancel, cancel_all_orders := cancel_every,
         fetch_open_orders := list_open\<rparr>"

lemma other_env: "acquire (other_exchange env a b c d) = acquire env"
  "update_order_status (other_exchange env a b c d) = update_order_status env"
  "envE (uuid_hex8 (other_exchange env a b c d)) = envE (uuid_hex8 env)"
  "track_order (other_exchange env a b c d) = track_order env"
  "now_s (other_exchange env a b c d) = now_s env"
  by (simp_all add: acquire_def other_exchange_def update_order_status_def fun_eq_iff track_order_def
    insert_order_def now_s_def execute_def server_call_def cong: if_cong)

lemma agree_cancel: "agree dry_run (cancel_one (other_exchange env a b c d) o') (cancel_one env o')"
  unfolding cancel_one_def other_env
  by (intro agree_intros) (auto intro!: agree_keeps keeps_intros keeps_mod)

lemma agree_place: "agree dry_run (place_one (other_exchange env a b c d) sd p x) (place_one env sd p x)"
  unfolding place_one_def other_env Let_def
  by (intro agree_intros) (auto intro!: agree_keeps keeps_intros keeps_mod simp: Let_def)

lemma agree_sync: "agree dry_run (sync_open_orders (other_exchange env a b c d)) (sync_open_orders env)"
  unfolding sync_open_orders_def other_env
  by (intro agree_intros) (auto intro!: agree_keeps keeps_intros keeps_mod)

lemma agree_aged: "agree dry_run (cancel_stale_by_age (other_exchange env a b c d)) (cancel_stale_by_age env)"
  unfolding cancel_stale_by_age_def other_env cancel_aged_def
  by (intro agree_intros agree_cancel) (auto intro!: agree_keeps keeps_intros)

lemma agree_diff: "agree dry_run (diff_and_repost (other_exchange env a b c d) g) (diff_and_repost env g)"
  unfolding diff_and_repost_def case_prod_unfold
  by (intro agree_intros agree_sync agree_aged agree_cancel agree_place)
    (auto intro!: agree_keeps keeps_intros keeps_mod)

lemma agree_cancel_all: "agree dry_run (cancel_all (other_exchange env a b c d)) (cancel_all env)"
  unfolding cancel_all_def other_env
  by (intro agree_intros) (auto intro!: agree_keeps keeps_intros keeps_mod)

text \<open>
  C3. A dry run cannot reach the exchange: whatever the methods of the connector that place,
  cancel or list orders do, \<open>diff_and_repost\<close> and \<open>cancel_all\<close> of a dry-run order manager behave
  the same, in their result, their state and the world they leave.
\<close>

theorem dry_run_never_trades:
  assumes "dry_run s"
  shows "diff_and_repost (env\<lparr>create_limit_order := a, cancel_order := b, cancel_all_orders := c,
           fetch_open_orders := d\<rparr>) g s = diff_and_repost env g s \<and>
         cancel_all (env\<lparr>create_limit_order := a, cancel_order := b, cancel_all_orders := c,
           fetch_open_orders := d\<rparr>) s = cancel_all env s"
  using agreeD [OF agree_diff assms] agreeD [OF agree_cancel_all assms]
  unfolding other_exchange_def by blast

definition sample_sys :: "(nat, unit) om_scheme" where
  "sample_sys =
     \<lparr>world = 0, limiter = new_rate_limiter 8 1000,
      db = new_database\<lparr>db_pool := True\<rparr>, feed = new_live_feed, om_config = sample_exchange, live_mode = False,
      dry_run = True, open_orders = [], order_created_at = [], last_grid = None,
      max_order_age = 300\<rparr>"

lemma sample_sys_simps [simp]:
  "dry_run sample_sys" "open_orders sample_sys = []" "om_ok sample_sys"
  "order_created_at sample_sys = []" "max_order_age sample_sys = 300"
  by (simp_all add: sample_sys_def om_ok_def)

definition sample_grid :: order_grid where
  "sample_grid =
     \<lparr>buy_prices = [99, 98], buy_amounts = [1, 2], sell_prices = [101], sell_amounts = [3],
      grid_mid = 100, grid_aggressiveness = 1 / 2\<rparr>"

theorem dry_run_never_trades_witness:
  "diff_and_repost (sample_env\<lparr>create_limit_order := (\<lambda>_ _ _ w. (Inl NetworkError, w)),
       cancel_order := (\<lambda>_ w. (Inl NetworkError, w)), cancel_all_orders := (\<lambda>w. (Inl NetworkError, w)),
       fetch_open_orders := (\<lambda>w. (Inl NetworkError, w))\<rparr>) sample_grid sample_sys
     = diff_and_repost sample_env sample_grid sample_sys \<and>
   cancel_all (sample_env\<lparr>create_limit_order := (\<lambda>_ _ _ w. (Inl NetworkError, w)),
       cancel_order := (\<lambda>_ w. (Inl NetworkError, w)), cancel_all_orders := (\<lambda>w. (Inl NetworkError, w)),
       fetch_open_orders := (\<lambda>w. (Inl NetworkError, w))\<rparr>) sample_sys
     = cancel_all sample_env sample_sys"
  by (rule dry_run_never_trades) simp

section \<open>Calls that do not raise\<close>

lemma om_frame_world: "om_frame (s\<lparr>world := w\<rparr>) = om_frame s"
  by (simp add: om_frame_def)

lemma om_frame_acquire_eq: "acquire env s = (r, s') \<Longrightarrow> om_frame s' = om_frame s"
  using frame_acquire [of env s] by simp

lemma om_frame_callE_eq: "callE f s = (r, s') \<Longrightarrow> om_frame s' = om_frame s"
  using frame_callE [of f s] by simp

lemma om_frame_status_eq: "update_order_status env i st s = (r, s') \<Longrightarrow> om_frame s' = om_frame s"
  using frame_update_order_status [of env i st s] by simp

lemma om_frame_insert_eq: "insert_order env o' s = (r, s') \<Longrightarrow> om_frame s' = om_frame s"
  using frame_insert_order [of env o' s] by simp

lemmas om_frame_eqs = om_frame_acquire_eq om_frame_callE_eq om_frame_status_eq om_frame_insert_eq

lemma cancel_one_Inr:
  assumes "cancel_one env o' s = (Inr x, s')"
  shows "om_frame s' = om_frame (s\<lparr>open_orders := AList.delete (ord_id o') (open_orders s),
     order_created_at := AList.delete (ord_id o') (order_created_at s)\<rparr>)"
  using assms
  apply (auto simp: cancel_one_def seqE_eq_Inr bindE_eq_Inr getsE_def modE_def ret_def split: if_splits
      dest!: om_frame_eqs)
   apply (auto simp: om_frame_def)
  done

lemma track_order_Inr:
  assumes "track_order env o' s = (Inr x, s')"
  shows "\<exists>now. om_frame s' = om_frame (s\<lparr>open_orders := AList.update (ord_id o') o' (open_orders s),
     order_created_at := AList.update (ord_id o') now (order_created_at s)\<rparr>)"
  using assms
  apply (auto simp: track_order_def seqE_eq_Inr bindE_eq_Inr getsE_def modE_def ret_def now_s_def envE_def split: if_splits prod.splits
      dest!: om_frame_eqs)
  apply (auto simp: om_frame_def)
  done

lemma cancel_list_Inr:
  assumes "for_each (cancel_one env) os s = (Inr x, s')"
  shows "om_frame s' = om_frame (s\<lparr>open_orders := filter (\<lambda>(k, _). k \<notin> ord_id ` set os) (open_orders s),
     order_created_at := filter (\<lambda>(k, _). k \<notin> ord_id ` set os) (order_created_at s)\<rparr>)"
  using assms
proof (induction os arbitrary: s)
  case Nil
  then show ?case by (simp add: ret_def case_prod_unfold)
next
  case (Cons o' os)
  then obtain s1 where c: "cancel_one env o' s = (Inr (), s1)"
    and r: "for_each (cancel_one env) os s1 = (Inr x, s')"
    by (auto simp: seqE_eq_Inr)
  from Cons.IH [OF r] cancel_one_Inr [OF c] show ?case
    by (auto simp: om_frame_def AList.delete_eq intro!: filter_cong)
qed

lemma place_one_dry:
  assumes "place_one env sd p a s = (Inr r, s')" and "dry_run s"
  shows "(r = None \<and> (p \<le> 0 \<or> a \<le> 0) \<and> s' = s) \<or>
    (\<exists>o' now. r = Some o' \<and> ord_price o' = p \<and> ord_amount o' = a \<and> ord_side o' = sd \<and> 0 < p \<and> 0 < a \<and>
      om_frame s' = om_frame (s\<lparr>open_orders := AList.update (ord_id o') o' (open_orders s),
         order_created_at := AList.update (ord_id o') now (order_created_at s)\<rparr>))"
proof (cases "a \<le> 0 \<or> p \<le> 0")
  case True
  with assms show ?thesis by (auto simp: place_one_def ret_def)
next
  case False
  with assms(1) obtain s1 where acq: "acquire env s = (Inr (), s1)"
    and rest: "bindE (getsE dry_run) (\<lambda>dry. if dry then
             bindE (getsE om_config) (\<lambda>cfg.
             bindE (envE (uuid_hex8 env)) (\<lambda>hex.
             bindE (now_s env) (\<lambda>ts.
               let o' = dry_order cfg hex sd p a ts
               in seqE (track_order env o') (ret (Some o')))))
           else catchE
               (bindE (callE (create_limit_order env sd p a)) (\<lambda>o'.
                  seqE (track_order env o') (ret (Some o'))))
               (\<lambda>_. ret None)) s1 = (Inr r, s')"
    by (auto simp: place_one_def seqE_eq_Inr)
  have f1: "om_frame s1 = om_frame s" using om_frame_eqs(1) [OF acq] .
  with assms(2) have dry: "dry_run s1" by (simp add: om_frame_def)
  from rest dry have "\<exists>hex ts w. track_order env (dry_order (om_config s1) hex sd p a ts) (s1\<lparr>world := w\<rparr>) = (Inr (), s')
    \<and> r = Some (dry_order (om_config s1) hex sd p a ts)"
    by (force simp: bindE_eq_Inr seqE_eq_Inr getsE_def ret_def Let_def now_s_def envE_def
        split: prod.splits)
  then obtain hex ts s2 where
    f2: "om_frame s2 = om_frame s1" and
    t: "track_order env (dry_order (om_config s1) hex sd p a ts) s2 = (Inr (), s')"
    and r: "r = Some (dry_order (om_config s1) hex sd p a ts)"
    using om_frame_world by metis
  from track_order_Inr [OF t] obtain now where
    "om_frame s' = om_frame (s2\<lparr>open_orders := AList.update (ord_id (the r)) (the r) (open_orders s2),
     order_created_at := AList.update (ord_id (the r)) now (order_created_at s2)\<rparr>)" by (auto simp: r)
  with f1 f2 have "om_frame s' = om_frame (s\<lparr>open_orders := AList.update (ord_id (the r)) (the r) (open_orders s),
     order_created_at := AList.update (ord_id (the r)) now (order_created_at s)\<rparr>)"
    by (simp add: om_frame_def)
  then show ?thesis using False r
    by (auto simp: dry_order_def)
qed

lemma place_list_dry:
  assumes "for_collect (\<lambda>(sd, p, a). place_one env sd p a) xs s = (Inr placed, s')"
    and "dry_run s" and "distinct (map ord_id placed)"
    and "ord_id ` set placed \<inter> set (dict_keys (open_orders s)) = {}"
  shows "open_orders s' = open_orders s @ map (\<lambda>o'. (ord_id o', o')) placed \<and> dry_run s'
    \<and> map (\<lambda>o'. (ord_side o', ord_price o', ord_amount o')) placed = filter (\<lambda>(_, p, a). 0 < p \<and> 0 < a) xs"
  using assms
proof (induction xs arbitrary: s placed)
  case Nil
  then show ?case by (simp add: ret_def)
next
  case (Cons x xs)
  obtain sd p a where x: "x = (sd, p, a)" by (cases x)
  from Cons.prems(1) obtain r s1 ys where
    one: "place_one env sd p a s = (Inr r, s1)"
    and rest: "for_collect (\<lambda>(sd, p, a). place_one env sd p a) xs s1 = (Inr ys, s')"
    and placed: "placed = (case r of None \<Rightarrow> ys | Some y \<Rightarrow> y # ys)"
    by (auto simp: bindE_eq_Inr ret_def x)
  from place_one_dry [OF one Cons.prems(2)]
  consider (none) "r = None" "p \<le> 0 \<or> a \<le> 0" "s1 = s"
    | (some) o' now where "r = Some o'" "ord_price o' = p" "ord_amount o' = a" "ord_side o' = sd" "0 < p" "0 < a"
      "om_frame s1 = om_frame (s\<lparr>open_orders := AList.update (ord_id o') o' (open_orders s),
         order_created_at := AList.update (ord_id o') now (order_created_at s)\<rparr>)"
    by blast
  then show ?case
  proof cases
    case none
    with Cons.IH [OF rest] Cons.prems(2-) placed show ?thesis by (auto simp: x)
  next
    case some
    note r = some(1-6) and f = some(7)
    with placed Cons.prems have fresh: "ord_id o' \<notin> set (dict_keys (open_orders s))" by auto
    then have o1: "open_orders s1 = open_orders s @ [(ord_id o', o')]" and d1: "dry_run s1"
      using f Cons.prems(2) by (simp_all add: om_frame_def update_fresh)
    have "open_orders s' = open_orders s1 @ map (\<lambda>o'. (ord_id o', o')) ys \<and> dry_run s'
      \<and> map (\<lambda>o'. (ord_side o', ord_price o', ord_amount o')) ys = filter (\<lambda>(_, p, a). 0 < p \<and> 0 < a) xs"
      using Cons.prems(3,4) placed r(1) o1 by (intro Cons.IH [OF rest d1]) auto
    then show ?thesis using placed r o1 by (simp add: x)
  qed
qed

section \<open>The grid and the open orders\<close>

text \<open>An order that belongs to the grid, a price that has an order, and the levels of a grid.\<close>

definition on_grid :: "order_grid \<Rightarrow> order \<Rightarrow> bool" where
  "on_grid g o' \<longleftrightarrow> (\<exists>d \<in> set (buy_prices g) \<union> set (sell_prices g). order_near (ord_price o') d)"

definition covered :: "('w, 'z) om_scheme \<Rightarrow> real \<Rightarrow> bool" where
  "covered s p \<longleftrightarrow> (\<exists>o' \<in> set (open_order_list s). order_near (ord_price o') p)"

definition grid_levels :: "order_grid \<Rightarrow> (real \<times> real) list" where
  "grid_levels g = zip (buy_prices g) (buy_amounts g) @ zip (sell_prices g) (sell_amounts g)"

lemma find_stale_set: "set (find_stale_orders g s) = {o' \<in> set (open_order_list s). \<not> on_grid g o'}"
  by (auto simp: find_stale_orders_def on_grid_def list_ex_iff)

lemma find_missing_set:
  "(sd, p, a) \<in> set (find_missing_levels g s) \<longleftrightarrow>
     (sd = ''buy'' \<and> (p, a) \<in> set (zip (buy_prices g) (buy_amounts g)) \<or>
      sd = ''sell'' \<and> (p, a) \<in> set (zip (sell_prices g) (sell_amounts g))) \<and> \<not> covered s p"
  by (auto simp: find_missing_levels_def covered_def has_order_near_def list_ex_iff)

lemma missing_level: "(sd, p, a) \<in> set (find_missing_levels g s) \<Longrightarrow> (p, a) \<in> set (grid_levels g)"
  by (auto simp: find_missing_set grid_levels_def)

lemma level_price: "(p, a) \<in> set (grid_levels g) \<Longrightarrow> p \<in> set (buy_prices g) \<union> set (sell_prices g)"
  by (auto simp: grid_levels_def dest: set_zip_leftD)

lemma order_near_self: "order_near p p"
  by (simp add: order_near_def PRICE_TOLERANCE_PCT_def)

lemma keeps_gets_bind:
  "(\<And>s. P s \<Longrightarrow> keeps P (f (q s))) \<Longrightarrow> keeps P (bindE (getsE q) f)"
  unfolding keeps_def bindE_def getsE_def prod.case sum.case by blast

lemma om_only_dry_eq [keeps_intros]: "om_only (\<lambda>s. dry_run s = b)"
  by (rule om_onlyI) (simp add: om_frame_def)

lemma keeps_dry_eq_sync: "keeps (\<lambda>s. dry_run s = b) (sync_open_orders env)"
  unfolding sync_open_orders_def sync_with_exchange_def Let_def drop_stale_id_def adopt_order_def case_prod_unfold
  by (intro keeps_intros keeps_mod) auto

lemma keeps_dry_eq_age: "keeps (\<lambda>s. dry_run s = b) (cancel_stale_by_age env)"
  unfolding cancel_stale_by_age_def cancel_aged_def
  by (intro keeps_intros keeps_cancel_one) auto

lemma om_only_dry_sub [keeps_intros]: "om_only (\<lambda>s. dry_run s \<and> set (open_orders s) \<subseteq> X)"
  by (rule om_onlyI) (simp add: om_frame_def)

lemma keeps_dry_sub_sync: "keeps (\<lambda>s. dry_run s \<and> set (open_orders s) \<subseteq> X) (sync_open_orders env)"
  unfolding sync_open_orders_def
  by (intro keeps_gets_bind keeps_seq) (auto intro!: keeps_intros)

lemma keeps_dry_sub_age: "keeps (\<lambda>s. dry_run s \<and> set (open_orders s) \<subseteq> X) (cancel_stale_by_age env)"
  unfolding cancel_stale_by_age_def cancel_aged_def
  by (intro keeps_intros keeps_cancel_one) (auto simp: set_delete)

lemma diff_and_repost_Inr:
  assumes "diff_and_repost env g s = (Inr placed, s')" and "om_ok s"
  obtains s1 s2 s3 where "om_ok s1"
    "set (open_orders s1) \<subseteq> set (open_orders s) \<or> \<not> dry_run s" "dry_run s1 = dry_run s"
    "for_each (cancel_one env) (find_stale_orders g s1) s1 = (Inr (), s2)"
    "for_collect (\<lambda>(side, p, a). place_one env side p a) (find_missing_levels g s1) s2 = (Inr placed, s3)"
    "s' = s3\<lparr>last_grid := Some g\<rparr>"
proof -
  from assms(1) obtain s0 s1 s2 s3 where
    sync: "sync_open_orders env s = (Inr (), s0)" and age: "cancel_stale_by_age env s0 = (Inr (), s1)"
    and c: "for_each (cancel_one env) (find_stale_orders g s1) s1 = (Inr (), s2)"
    and p: "for_collect (\<lambda>(side, p, a). place_one env side p a) (find_missing_levels g s1) s2 = (Inr placed, s3)"
    and s': "s' = s3\<lparr>last_grid := Some g\<rparr>"
    by (auto simp: diff_and_repost_def seqE_eq_Inr bindE_eq_Inr getsE_def modE_def ret_def)
  have "om_ok s1" using keepsE [OF keeps_ok_sync sync assms(2)] keepsE [OF keeps_ok_cancel_stale age] by blast
  moreover have "dry_run s1 = dry_run s"
    using keepsE [OF keeps_dry_eq_age age] keepsE [OF keeps_dry_eq_sync sync] by blast
  moreover have "set (open_orders s1) \<subseteq> set (open_orders s) \<or> \<not> dry_run s"
    using keepsE [OF keeps_dry_sub_age age] keepsE [OF keeps_dry_sub_sync sync] by blast
  ultimately show thesis using that c p s' by blast
qed

text \<open>What is left after the cancellations, and after the placements.\<close>

lemma cancelled_on_grid:
  assumes "om_ok s1" and "for_each (cancel_one env) (find_stale_orders g s1) s1 = (Inr (), s2)"
  shows "set (open_order_list s2) = {o' \<in> set (open_order_list s1). on_grid g o'}"
    and "set (open_orders s2) \<subseteq> set (open_orders s1)" and "dry_run s2 = dry_run s1"
proof -
  have f: "open_orders s2 = filter (\<lambda>(k, _). k \<notin> ord_id ` set (find_stale_orders g s1)) (open_orders s1)"
    "dry_run s2 = dry_run s1"
    using cancel_list_Inr [OF assms(2)] by (simp_all add: om_frame_def)
  have "o' = p" if "(k, o') \<in> set (open_orders s1)" "(k', p) \<in> set (open_orders s1)" "ord_id o' = ord_id p"
    for k o' k' p
  proof -
    from that assms(1) have "k = ord_id o'" "k' = ord_id p" by (auto simp: om_ok_def)
    with that assms(1) show ?thesis
      by (auto simp: om_ok_def dict_wf_def dest: eq_key_imp_eq_value)
  qed
  moreover have "k = ord_id o'" if "(k, o') \<in> set (open_orders s1)" for k o'
    using that assms(1) by (auto simp: om_ok_def)
  ultimately show "set (open_order_list s2) = {o' \<in> set (open_order_list s1). on_grid g o'}"
    by (force simp: f find_stale_set image_iff)
  show "set (open_orders s2) \<subseteq> set (open_orders s1)" "dry_run s2 = dry_run s1"
    by (auto simp: f)
qed

text \<open>
  What the exchange answers when the bot places a level of the grid, and the orders a repost
  accounts for: those on the grid, and in a live run those answers, at whatever price they carry.
  \<open>_parse_order\<close> takes the price of an answer as it comes, and 0 when it has none.
\<close>

definition just_placed :: "'w env \<Rightarrow> order_grid \<Rightarrow> order \<Rightarrow> bool" where
  "just_placed env g o' \<longleftrightarrow>
     (\<exists>side p a w w'. (p, a) \<in> set (grid_levels g) \<and> 0 < p \<and> 0 < a \<and>
        create_limit_order env side p a w = (Inr o', w'))"

definition accounted :: "'w env \<Rightarrow> order_grid \<Rightarrow> ('w, 'z) om_scheme \<Rightarrow> bool" where
  "accounted env g s \<longleftrightarrow> om_ok s \<and> (\<forall>o' \<in> set (open_order_list s).
     on_grid g o' \<or> \<not> dry_run s \<and> just_placed env g o')"

lemma om_only_accounted_dry: "om_only (\<lambda>s. accounted env g s \<and> dry_run s = b)"
  by (rule om_onlyI) (auto simp: om_frame_def accounted_def om_ok_def)

lemma keeps_accounted_track:
  assumes "on_grid g o' \<or> d \<and> just_placed env g o'" "d \<Longrightarrow> \<not> b"
  shows "keeps (\<lambda>s. accounted env g s \<and> dry_run s = b) (track_order env o')"
proof (intro keeps_track_order keeps_intros)
  show "om_only (\<lambda>s. accounted env g s \<and> dry_run s = b)"
    by (rule om_only_accounted_dry)
next
  fix s :: "('a, 'b) om_scheme" assume "accounted env g s \<and> dry_run s = b"
  then show "accounted env g (s\<lparr>open_orders := AList.update (ord_id o') o' (open_orders s)\<rparr>) \<and>
     dry_run (s\<lparr>open_orders := AList.update (ord_id o') o' (open_orders s)\<rparr>) = b"
    using assms om_ok_update(1) [of s o'] by (auto simp: accounted_def om_ok_def set_update_wf)
next
  fix s :: "('a, 'b) om_scheme" and t assume "accounted env g s \<and> dry_run s = b"
  then show "accounted env g (s\<lparr>order_created_at := AList.update (ord_id o') t (order_created_at s)\<rparr>) \<and>
     dry_run (s\<lparr>order_created_at := AList.update (ord_id o') t (order_created_at s)\<rparr>) = b"
    using om_ok_update(2) [of s] by (auto simp: accounted_def)
qed

lemma keeps_call_create:
  assumes "world_free P" "\<And>x. Q x \<Longrightarrow> keeps P (f x)" "\<And>w x w'. c w = (Inr x, w') \<Longrightarrow> Q x"
  shows "keeps P (bindE (callE c) f)"
  using assms by (fastforce simp: keeps_def bindE_def callE_def world_free_def split: prod.splits sum.splits)

lemma keeps_accounted_place:
  assumes "(p, a) \<in> set (grid_levels g)"
  shows "keeps (\<lambda>s. accounted env g s \<and> dry_run s = b) (place_one env sd p a)"
proof (cases "a \<le> 0 \<or> p \<le> 0")
  case True
  then show ?thesis unfolding place_one_def by (auto intro: keeps_intros)
next
  case pos: False
  let ?P = "\<lambda>s. accounted env g s \<and> dry_run s = b"
  have om: "om_only ?P"
    by (rule om_only_accounted_dry)
  have og: "on_grid g o'" if "ord_price o' = p" for o'
    using that level_price [OF assms] order_near_self by (auto simp: on_grid_def)
  have jp: "just_placed env g o'" if "create_limit_order env sd p a w = (Inr o', w')" for o' w w'
    using that pos assms unfolding just_placed_def not_le de_Morgan_disj by blast
  have live: "keeps ?P (bindE (callE (create_limit_order env sd p a)) (\<lambda>o'.
                  seqE (track_order env o') (ret (Some o'))))" if "\<not> b"
  proof (rule keeps_call_create [where Q = "just_placed env g"])
    show "world_free ?P" by (intro keeps_intros om)
    show "keeps ?P (seqE (track_order env o') (ret (Some o')))" if "just_placed env g o'" for o'
      using that \<open>\<not> b\<close> by (intro keeps_intros keeps_accounted_track [where d = True]) simp_all
  qed (rule jp)
  have dry: "keeps ?P (seqE (track_order env (dry_order cfg hex sd p a ts)) (ret x))" for cfg hex ts and x :: "order option"
    by (intro keeps_intros keeps_accounted_track [where d = False]) (simp_all add: og dry_order_def)
  show ?thesis
    unfolding place_one_def Let_def if_not_P [OF pos]
  proof (intro keeps_seq keeps_gets_bind)
    show "keeps ?P (acquire env)" by (intro keeps_intros om)
    fix s :: "('a, 'b) om_scheme" assume P: "?P s"
    have "keeps ?P (bindE (getsE om_config) (\<lambda>cfg. bindE (envE (uuid_hex8 env)) (\<lambda>hex. bindE (now_s env)
        (\<lambda>ts. seqE (track_order env (dry_order cfg hex sd p a ts)) (ret (Some (dry_order cfg hex sd p a ts)))))))"
      by (intro keeps_bind keeps_gets dry) (intro keeps_intros om)+
    moreover have "\<not> b \<Longrightarrow> keeps ?P (catchE (bindE (callE (create_limit_order env sd p a)) (\<lambda>o'.
                  seqE (track_order env o') (ret (Some o')))) (\<lambda>_. ret None))"
      by (intro keeps_catch live keeps_ret)
    ultimately show "keeps ?P (if dry_run s then bindE (getsE om_config) (\<lambda>cfg. bindE (envE (uuid_hex8 env))
        (\<lambda>hex. bindE (now_s env) (\<lambda>ts. seqE (track_order env (dry_order cfg hex sd p a ts))
          (ret (Some (dry_order cfg hex sd p a ts))))))
      else catchE (bindE (callE (create_limit_order env sd p a)) (\<lambda>o'.
                  seqE (track_order env o') (ret (Some o')))) (\<lambda>_. ret None))"
      by (cases b) (use P in simp_all)
  qed
qed

lemma repost_accounted:
  assumes "om_ok s" and "diff_and_repost env g s = (Inr placed, s')"
  shows "(\<forall>o' \<in> set (open_order_list s'). on_grid g o' \<or> \<not> dry_run s \<and> just_placed env g o') \<and>
    last_grid s' = Some g \<and> om_ok s'"
proof -
  obtain s1 s2 s3 where ok: "om_ok s1"
    and sub0: "set (open_orders s1) \<subseteq> set (open_orders s) \<or> \<not> dry_run s" and dry0: "dry_run s1 = dry_run s"
    and c: "for_each (cancel_one env) (find_stale_orders g s1) s1 = (Inr (), s2)"
    and pl: "for_collect (\<lambda>(side, p, a). place_one env side p a) (find_missing_levels g s1) s2 = (Inr placed, s3)"
    and s': "s' = s3\<lparr>last_grid := Some g\<rparr>"
    by (rule diff_and_repost_Inr [OF assms(2,1)])
  have "keeps om_ok (for_each (cancel_one env) (find_stale_orders g s1))" by (intro keeps_intros)
  from keepsE [OF this c ok] cancelled_on_grid [OF ok c] dry0
  have s2: "accounted env g s2 \<and> dry_run s2 = dry_run s"
    by (auto simp: accounted_def)
  have "keeps (\<lambda>t. accounted env g t \<and> dry_run t = dry_run s)
      (for_collect (\<lambda>(side, p, a). place_one env side p a) (find_missing_levels g s1))"
    by (intro keeps_intros) (auto intro!: keeps_accounted_place dest!: missing_level)
  from keepsE [OF this pl s2] show ?thesis by (auto simp: s' accounted_def om_ok_def)
qed

text \<open>
  With an exchange that answers at the price asked for, every tracked order is on the grid.  An
  answer without a price is tracked at price 0, and with levels of positive prices such an order
  is stale at the next repost: the synchronisation keeps the orders it already knows as they are.
\<close>

definition echoes_price :: "'w env \<Rightarrow> bool" where
  "echoes_price env \<longleftrightarrow>
     (\<forall>side p a w o' w'. create_limit_order env side p a w = (Inr o', w') \<longrightarrow> ord_price o' = p)"

lemma repost_on_grid:
  assumes "om_ok s" and "dry_run s \<or> echoes_price env" and "diff_and_repost env g s = (Inr placed, s')"
  shows "\<forall>o' \<in> set (open_order_list s'). on_grid g o'"
proof -
  have "on_grid g o'" if "just_placed env g o'" "echoes_price env" for o'
    using that level_price [of _ _ g] order_near_self
    unfolding just_placed_def echoes_price_def on_grid_def by metis
  then show ?thesis using repost_accounted [OF assms(1,3)] assms(2) by blast
qed

lemma priceless_order_is_stale:
  assumes "o' \<in> set (open_order_list s)" and "ord_price o' = 0"
    and "\<forall>d \<in> set (buy_prices g) \<union> set (sell_prices g). 1 / 10 ^ 8 \<le> d"
  shows "o' \<in> set (find_stale_orders g s)"
proof -
  have "\<not> order_near 0 d" if "1 / 10 ^ 8 \<le> d" for d
  proof -
    from that have "0 < d" by (rule less_le_trans [rotated]) simp
    moreover from that have "max d (1 / 10 ^ 8) = d" by (rule max_absorb1)
    ultimately show ?thesis by (simp add: order_near_def PRICE_TOLERANCE_PCT_def)
  qed
  with assms show ?thesis by (auto simp: find_stale_set on_grid_def)
qed

lemma repost_covers:
  assumes "om_ok s" and "dry_run s" and "diff_and_repost env g s = (Inr placed, s')"
    and "distinct (map ord_id placed)"
    and "set (map ord_id placed) \<inter> set (dict_keys (open_orders s)) = {}"
    and "(p, a) \<in> set (grid_levels g)" and "0 < p" and "0 < a"
  shows "covered s' p"
proof -
  obtain s1 s2 s3 where ok: "om_ok s1"
    and sub0: "set (open_orders s1) \<subseteq> set (open_orders s) \<or> \<not> dry_run s" and dry0: "dry_run s1 = dry_run s"
    and c: "for_each (cancel_one env) (find_stale_orders g s1) s1 = (Inr (), s2)"
    and pl: "for_collect (\<lambda>(side, p, a). place_one env side p a) (find_missing_levels g s1) s2 = (Inr placed, s3)"
    and s': "s' = s3\<lparr>last_grid := Some g\<rparr>"
    by (rule diff_and_repost_Inr [OF assms(3,1)])
  from sub0 dry0 assms(2) have sub: "set (open_orders s1) \<subseteq> set (open_orders s)" and dry: "dry_run s1"
    by simp_all
  note s2 = cancelled_on_grid [OF ok c]
  have dis: "ord_id ` set placed \<inter> set (dict_keys (open_orders s2)) = {}"
  proof -
    have "set (open_orders s2) \<subseteq> set (open_orders s)" using sub s2(2) by blast
    then have "fst ` set (open_orders s2) \<subseteq> fst ` set (open_orders s)" by (rule image_mono)
    with assms(5) show ?thesis unfolding set_map by blast
  qed
  have dry2: "dry_run s2" using s2(3) dry by simp
  note s3 = place_list_dry [OF pl dry2 assms(4) dis]
  have price: "p \<in> set (buy_prices g) \<union> set (sell_prices g)" by (rule level_price [OF assms(6)])
  show ?thesis
  proof (cases "covered s1 p")
    case True
    then obtain o' where "o' \<in> set (open_order_list s1)" "order_near (ord_price o') p"
      by (auto simp: covered_def)
    with s2(1) price have "o' \<in> set (open_order_list s2)" by (auto simp: on_grid_def)
    with s3 \<open>order_near (ord_price o') p\<close> show ?thesis by (auto simp: covered_def s' rev_image_eqI)
  next
    case False
    with assms(6) obtain sd where "(sd, p, a) \<in> set (find_missing_levels g s1)"
      by (auto simp: find_missing_set grid_levels_def)
    with assms(7,8) have "(sd, p, a) \<in> set (filter (\<lambda>(_, p, a). 0 < p \<and> 0 < a) (find_missing_levels g s1))"
      by simp
    with s3 have "(sd, p, a) \<in> set (map (\<lambda>o'. (ord_side o', ord_price o', ord_amount o')) placed)"
      by simp
    then obtain o' where "o' \<in> set placed" "ord_price o' = p" by auto
    with s3 order_near_self show ?thesis by (force simp: covered_def s')
  qed
qed

text \<open>
  C4. After \<open>diff_and_repost\<close> returns, every order still tracked lies within the price tolerance of
  some level of the requested grid, or, in a live run only, is what the exchange answered to the
  placement of a level of that grid; the grid is remembered and the dicts stay well formed.  The
  price of such an answer is the exchange's: one without a price is tracked at price 0.
\<close>

theorem repost_leaves_no_stale_order:
  assumes "om_ok s" and "diff_and_repost env g s = (Inr placed, s')"
  shows "(\<forall>o' \<in> set (open_order_list s'). on_grid g o' \<or> \<not> dry_run s \<and> just_placed env g o') \<and>
    last_grid s' = Some g \<and> om_ok s'"
  by (rule repost_accounted [OF assms])

text \<open>
  C5. After \<open>diff_and_repost\<close> of a dry run returns, every level of the grid with a positive price and
  amount has an open order within the price tolerance, provided the random identifiers it drew
  were new.
\<close>

theorem dry_repost_covers_grid:
  assumes "om_ok s" and "dry_run s" and "diff_and_repost env g s = (Inr placed, s')"
    and "distinct (map ord_id placed)"
    and "set (map ord_id placed) \<inter> set (dict_keys (open_orders s)) = {}"
    and "(p, a) \<in> set (grid_levels g)" and "0 < p" and "0 < a"
  shows "covered s' p"
  by (rule repost_covers [OF assms])

lemma quiet_repost:
  assumes "dry_run s" and "find_stale_orders g s = []" and "find_missing_levels g s = []"
    and "last_grid s = Some g" and "\<And>t. \<exists>w. t = fst (read_clock env w) \<Longrightarrow> aged_ids t s = []"
  shows "\<exists>r w. diff_and_repost env g s = (Inr [], s\<lparr>limiter := r, world := w\<rparr>)"
proof -
  obtain r w where acq: "acquire env s = (Inr (), s\<lparr>limiter := r, world := w\<rparr>)"
    using acquire_result [of env s] by blast
  let ?s1 = "s\<lparr>limiter := r, world := w\<rparr>"
  have sync: "sync_open_orders env s = (Inr (), ?s1)"
    using assms(1) by (simp add: sync_open_orders_def seqE_def bindE_def acq getsE_def ret_def)
  have aged: "aged_ids (fst (read_clock env w')) (s\<lparr>limiter := r, world := w''\<rparr>) = []" for w' w''
    using assms(5) [of "fst (read_clock env w')"] by (auto simp: aged_ids_def)
  have age: "\<exists>w'. cancel_stale_by_age env ?s1 = (Inr (), s\<lparr>limiter := r, world := w'\<rparr>)"
  proof (cases "max_order_age s \<le> 0")
    case True
    then show ?thesis by (auto simp: cancel_stale_by_age_def bindE_def getsE_def ret_def)
  next
    case False
    obtain t w' where clk: "read_clock env w = (t, w')" by fastforce
    with aged [of w w'] have "aged_ids t (s\<lparr>limiter := r, world := w'\<rparr>) = []" by simp
    with False clk show ?thesis
      by (auto simp: cancel_stale_by_age_def bindE_def getsE_def ret_def now_s_def envE_def)
  qed
  then obtain w' where age: "cancel_stale_by_age env ?s1 = (Inr (), s\<lparr>limiter := r, world := w'\<rparr>)" ..
  let ?s2 = "s\<lparr>limiter := r, world := w'\<rparr>"
  have "find_stale_orders g ?s2 = []" "find_missing_levels g ?s2 = []"
    using assms(2,3) by (simp_all add: find_stale_orders_def find_missing_levels_def)
  then have "diff_and_repost env g s = (Inr [], ?s2\<lparr>last_grid := Some g\<rparr>)"
    by (simp add: diff_and_repost_def seqE_def bindE_def sync age getsE_def ret_def modE_def)
  moreover have "?s2\<lparr>last_grid := Some g\<rparr> = ?s2"
    using assms(4) by (subst assms(4) [symmetric]) simp
  ultimately show ?thesis by metis
qed

lemma keeps_dry_diff: "keeps dry_run (diff_and_repost env g)"
proof (rule keepsI)
  fix s :: "('a, 'b) om_scheme" assume "dry_run s"
  then show "dry_run (snd (diff_and_repost env g s))"
    using agree_diff [of env "create_limit_order env" "cancel_order env" "cancel_all_orders env" "fetch_open_orders env" g]
    unfolding agree_def by metis
qed

text \<open>
  No churn: right after a dry run has reposted a grid of positive levels, reposting the same grid
  places nothing, cancels nothing and writes nothing to the database; only the rate limiter and
  the world move on, as long as no tracked order has grown too old.
\<close>

theorem second_repost_is_quiet:
  assumes "om_ok s" and "dry_run s" and "diff_and_repost env g s = (Inr placed, s')"
    and "distinct (map ord_id placed)"
    and "set (map ord_id placed) \<inter> set (dict_keys (open_orders s)) = {}"
    and "\<forall>(p, a) \<in> set (grid_levels g). 0 < p \<and> 0 < a"
    and "\<forall>w. aged_ids (fst (read_clock env w)) s' = []"
  shows "\<exists>r w. diff_and_repost env g s' = (Inr [], s'\<lparr>limiter := r, world := w\<rparr>)"
proof (rule quiet_repost)
  note q = repost_on_grid [OF assms(1) disjI1 [OF assms(2)] assms(3)] repost_accounted [OF assms(1,3)]
  show "last_grid s' = Some g" using q by blast
  have "set (find_stale_orders g s') = {}" using q by (auto simp: find_stale_set)
  then show "find_stale_orders g s' = []" by simp
  have "(sd, p, a) \<notin> set (find_missing_levels g s')" for sd p a
  proof
    assume m: "(sd, p, a) \<in> set (find_missing_levels g s')"
    then have l: "(p, a) \<in> set (grid_levels g)" by (rule missing_level)
    with assms(6) have "0 < p" "0 < a" by auto
    with repost_covers [OF assms(1-5) l] m show False by (simp add: find_missing_set)
  qed
  then show "find_missing_levels g s' = []" by (cases "find_missing_levels g s'") auto
  show "dry_run s'" by (rule keepsE [OF keeps_dry_diff assms(3,2)])
  show "aged_ids t s' = []" if "\<exists>w. t = fst (read_clock env w)" for t
    using that assms(7) by blast
qed

section \<open>Cancelling everything\<close>

lemma status_loop:
  assumes "for_each (\<lambda>oid. update_order_status env oid st) ids s = (Inr x, s')"
  shows "\<exists>ts. length ts = length ids \<and> db s' = fold (\<lambda>(k, t). sql_set_status k st t) (zip ids ts) (db s)"
  using assms
proof (induction ids arbitrary: s)
  case (Cons i ids)
  then obtain s1 where u: "update_order_status env i st s = (Inr (), s1)"
    and r: "for_each (\<lambda>oid. update_order_status env oid st) ids s1 = (Inr x, s')"
    by (auto simp: seqE_eq_Inr)
  obtain t w where n: "now_s env s = (Inr t, s\<lparr>world := w\<rparr>)" using now_s_Inr [of env s] by blast
  have "db s1 = sql_set_status i st t (db s)"
    by (rule execute_cases [of env "sql_set_status i st t" "s\<lparr>world := w\<rparr>"])
      (use u n in \<open>auto simp: update_order_status_def bindE_eq_Inr\<close>)
  moreover obtain ts where "length ts = length ids"
    "db s' = fold (\<lambda>(k, t). sql_set_status k st t) (zip ids ts) (db s1)"
    using Cons.IH [OF r] by blast
  ultimately have "length (t # ts) = length (i # ids) \<and>
      db s' = fold (\<lambda>(k, t). sql_set_status k st t) (zip (i # ids) (t # ts)) (db s)"
    by simp
  then show ?case by blast
qed (simp add: ret_def)

lemma om_only_same_orders [keeps_intros]: "om_only (\<lambda>s. open_orders s = X)"
  by (rule om_onlyI) (simp add: om_frame_def)

text \<open>
  C6. When \<open>cancel_all\<close> returns nothing is tracked any more and no order that was tracked is still
  recorded as open in the database; when it raises, every order is still tracked.
\<close>

theorem cancel_all_closes_everything:
  fixes env :: "'w env" and s :: "('w, 'z) om_scheme"
  shows "case cancel_all env s of
     (Inr _, s') \<Rightarrow> open_orders s' = [] \<and> order_created_at s' = [] \<and>
        list_all (\<lambda>k. status_of (db s') k \<noteq> Some ''open'') (dict_keys (open_orders s))
   | (Inl _, s') \<Rightarrow> open_orders s' = open_orders s"
proof (cases "cancel_all env s")
  case (Pair r s')
  define fst_part :: "(('w, 'z) om_scheme, unit) eff" where "fst_part = bindE (getsE dry_run) (\<lambda>dry.
             if dry then ret () else seqE (acquire env) (callE (cancel_all_orders env)))"
  define loop :: "string list \<Rightarrow> (('w, 'z) om_scheme, unit) eff" where "loop = (\<lambda>ids. for_each (\<lambda>oid. update_order_status env oid ''canceled'') ids)"
  have k1: "keeps (\<lambda>s. open_orders s = X) fst_part" for X
    unfolding fst_part_def by (intro keeps_intros)
  have k2: "keeps (\<lambda>s. open_orders s = X) (loop ids)" for X ids
    unfolding loop_def by (intro keeps_intros)
  obtain r1 s1 where a: "fst_part s = (r1, s1)" by fastforce
  have o1: "open_orders s1 = open_orders s" by (rule keepsE [OF k1 a]) simp
  obtain r2 s2 where b: "loop (dict_keys (open_orders s1)) s1 = (r2, s2)" by fastforce
  have o2: "open_orders s2 = open_orders s1" by (rule keepsE [OF k2 b]) simp
  have eq: "cancel_all env s = (case r1 of Inl e \<Rightarrow> (Inl e, s1) | Inr _ \<Rightarrow>
     (case r2 of Inl e \<Rightarrow> (Inl e, s2) | Inr _ \<Rightarrow> (Inr (), s2\<lparr>open_orders := [], order_created_at := []\<rparr>)))"
    using a b by (auto simp: cancel_all_def seqE_def bindE_def getsE_def modE_def fst_part_def [symmetric] loop_def split: sum.splits)
  show ?thesis
  proof (cases r1)
    case (Inl e)
    then show ?thesis by (simp add: eq o1)
  next
    case r1: (Inr x)
    show ?thesis
    proof (cases r2)
      case (Inl e)
      then show ?thesis by (simp add: eq r1 o1 o2)
    next
      case r2: (Inr y)
      let ?ids = "dict_keys (open_orders s)"
      obtain ts where len: "length ts = length ?ids"
        and d: "db s2 = fold (\<lambda>(k, t). sql_set_status k ''canceled'' t) (zip ?ids ts) (db s1)"
        using status_loop [of env "''canceled''" ?ids s1 y s2] b r2 o1 by (auto simp: loop_def)
      have "status_of (db s2) k \<noteq> Some ''open''" if "k \<in> set ?ids" for k
      proof -
        from that len have "k \<in> fst ` set (zip ?ids ts)" by (metis list.set_map map_fst_zip)
        then show ?thesis unfolding d by (intro orders.no_open_left) simp_all
      qed
      then show ?thesis by (simp add: eq r1 r2 list_all_iff)
    qed
  qed
qed

text \<open>
  The comparison ignores sides: whatever sides the open orders have, the same levels count as
  missing and the same grids leave nothing stale.  An open sell order within the tolerance of a
  buy level keeps that buy order from being placed.
\<close>

theorem sides_do_not_matter:
  "find_missing_levels g (s\<lparr>open_orders := map (\<lambda>(k, o'). (k, o'\<lparr>ord_side := f o'\<rparr>)) (open_orders s)\<rparr>)
     = find_missing_levels g s \<and>
   (find_stale_orders g (s\<lparr>open_orders := map (\<lambda>(k, o'). (k, o'\<lparr>ord_side := f o'\<rparr>)) (open_orders s)\<rparr>) = []
     \<longleftrightarrow> find_stale_orders g s = [])"
  by (auto simp: find_missing_levels_def find_stale_orders_def comp_def case_prod_unfold filter_empty_conv Let_def)

text \<open>
  An order the exchange accepted is tracked in any case, also when recording it in the database
  fails and \<open>place_one\<close> returns None.
\<close>

theorem accepted_order_is_tracked:
  assumes "\<not> dry_run s" and "0 < p" and "0 < a"
    and "\<forall>w. fst (create_limit_order env sd p a w) = Inr o'"
  shows "dict_get (open_orders (snd (place_one env sd p a s))) (ord_id o') = Some o'"
proof -
  obtain r w where acq: "acquire env s = (Inr (), s\<lparr>limiter := r, world := w\<rparr>)"
    using acquire_result [of env s] by blast
  obtain w' where c: "create_limit_order env sd p a w = (Inr o', w')"
    using assms(4) by (metis prod.collapse)
  let ?s = "s\<lparr>limiter := r, world := w'\<rparr>"
  have k: "keeps (\<lambda>s. dict_get (open_orders s) (ord_id o') = Some o') (catchE m (\<lambda>_. ret None))"
    if "keeps (\<lambda>s. dict_get (open_orders s) (ord_id o') = Some o') m" for m :: "(('a, 'b) om_scheme, 'c option) eff"
    using that by (intro keeps_intros)
  have om: "om_only (\<lambda>s. dict_get (open_orders s) (ord_id o') = Some o')"
    by (rule om_onlyI) (simp add: om_frame_def)
  have t: "keeps (\<lambda>s. dict_get (open_orders s) (ord_id o') = Some o') (bindE (now_s env) (\<lambda>now.
     seqE (modE (\<lambda>s. s\<lparr>order_created_at := AList.update (ord_id o') now (order_created_at s)\<rparr>))
       (insert_order env o')))"
    by (intro keeps_intros keeps_mod om) simp
  have "place_one env sd p a s = catchE (seqE (track_order env o') (ret (Some o'))) (\<lambda>_. ret None) ?s"
    using assms(1-3) by (simp add: place_one_def seqE_def bindE_def acq getsE_def ret_def callE_def c catchE_def)
  moreover have "dict_get (open_orders (snd (track_order env o' ?s))) (ord_id o') = Some o'"
    unfolding track_order_def
    using keepsD [OF t, of "?s\<lparr>open_orders := AList.update (ord_id o') o' (open_orders ?s)\<rparr>"]
    by (simp add: seqE_def [of "modE _"] bindE_def [of "modE _"] modE_def update_conv)
  ultimately show ?thesis
    by (auto simp: catchE_def seqE_def bindE_def ret_def split: sum.splits prod.splits)
qed

section \<open>A run of the sample system\<close>

lemmas om_eval = diff_and_repost_def sync_open_orders_def cancel_stale_by_age_def acquire_def
  refill_def take_token_def wait_time_def find_stale_orders_def find_missing_levels_def aged_ids_def
  has_order_near_def place_one_def track_order_def insert_order_def execute_def executor_ready_def
  need_pool_def server_call_def dry_order_def sql_upsert_order_def row_of_order_def Let_def eff_simps

lemmas sample_defs = sample_env_def sample_sys_def sample_grid_def sample_exchange_def
  new_rate_limiter_def new_database_def

definition sample_placed :: "order list" where
  "sample_placed = [dry_order sample_exchange '''' ''buy'' 99 1 1000,
     dry_order sample_exchange ''f'' ''buy'' 98 2 1000, dry_order sample_exchange ''ff'' ''sell'' 101 3 1000]"

definition sample_after :: "(nat, unit) om_scheme" where
  "sample_after = snd (diff_and_repost sample_env sample_grid sample_sys)"

lemma sample_repost: "diff_and_repost sample_env sample_grid sample_sys = (Inr sample_placed, sample_after)"
proof -
  have "fst (diff_and_repost sample_env sample_grid sample_sys) = Inr sample_placed"
    by (simp add: om_eval sample_defs sample_placed_def)
  then show ?thesis by (metis prod.collapse sample_after_def)
qed

lemma sample_after_simps [simp]:
  "order_created_at sample_after = [(''DRY-'', 1000), (''DRY-f'', 1000), (''DRY-ff'', 1000)]"
  "max_order_age sample_after = 300"
  by (simp_all add: sample_after_def om_eval sample_defs)

lemma sample_ids: "distinct (map ord_id sample_placed)"
  by (simp add: sample_placed_def dry_order_def)

definition sample_priceless :: "nat env" where
  "sample_priceless = sample_env\<lparr>create_limit_order := (\<lambda>side p a w. (Inr (sample_order ''x'' side 0 a), w))\<rparr>"

definition sample_live_after :: "(nat, unit) om_scheme" where
  "sample_live_after = snd (diff_and_repost sample_priceless sample_grid (sample_sys\<lparr>dry_run := False\<rparr>))"

lemma sample_live_repost:
  "diff_and_repost sample_priceless sample_grid (sample_sys\<lparr>dry_run := False\<rparr>)
     = (Inr (map (\<lambda>(sd, a). sample_order ''x'' sd 0 a) [(''buy'', 1), (''buy'', 2), (''sell'', 3)]), sample_live_after)"
  "open_order_list sample_live_after = [sample_order ''x'' ''sell'' 0 3]"
proof -
  have "fst (diff_and_repost sample_priceless sample_grid (sample_sys\<lparr>dry_run := False\<rparr>))
     = Inr (map (\<lambda>(sd, a). sample_order ''x'' sd 0 a) [(''buy'', 1), (''buy'', 2), (''sell'', 3)])"
    by (simp add: om_eval sample_defs sample_priceless_def sample_order_def sync_with_exchange_def)
  then show "diff_and_repost sample_priceless sample_grid (sample_sys\<lparr>dry_run := False\<rparr>)
     = (Inr (map (\<lambda>(sd, a). sample_order ''x'' sd 0 a) [(''buy'', 1), (''buy'', 2), (''sell'', 3)]), sample_live_after)"
    by (metis prod.collapse sample_live_after_def)
  show "open_order_list sample_live_after = [sample_order ''x'' ''sell'' 0 3]"
    by (simp add: sample_live_after_def om_eval sample_defs sample_priceless_def sample_order_def sync_with_exchange_def)
qed

theorem repost_leaves_no_stale_order_witness:
  "list_all (\<lambda>o'. on_grid sample_grid o' \<or> \<not> dry_run (sample_sys\<lparr>dry_run := False\<rparr>) \<and> just_placed sample_priceless sample_grid o')
     (open_order_list sample_live_after)
   \<and> last_grid sample_live_after = Some sample_grid \<and> om_ok sample_live_after
   \<and> open_order_list sample_live_after = [sample_order ''x'' ''sell'' 0 3]"
  using repost_leaves_no_stale_order [OF _ sample_live_repost(1)]
  by (simp add: list_all_iff sample_live_repost(2) om_ok_def sample_sys_def)

theorem dry_repost_covers_grid_witness: "covered sample_after 98"
  by (rule dry_repost_covers_grid [OF _ _ sample_repost sample_ids, of _ 2])
    (simp_all add: grid_levels_def sample_grid_def)

theorem second_repost_is_quiet_witness:
  "\<exists>r w. diff_and_repost sample_env sample_grid sample_after =
     (Inr [], sample_after\<lparr>limiter := r, world := w\<rparr>)"
  by (rule second_repost_is_quiet [OF _ _ sample_repost sample_ids])
    (simp_all add: grid_levels_def sample_grid_def aged_ids_def sample_env_def)

theorem accepted_order_is_tracked_witness:
  "dict_get (open_orders (snd (place_one (sample_env\<lparr>db_fault := (\<lambda>w. (Some NetworkError, w)),
       create_limit_order := (\<lambda>side p a w. (Inr (sample_order ''x'' side p a), w))\<rparr>) ''buy'' 99 1
       (sample_sys\<lparr>dry_run := False\<rparr>)))) (ord_id (sample_order ''x'' ''buy'' 99 1))
     = Some (sample_order ''x'' ''buy'' 99 1)"
  by (rule accepted_order_is_tracked) simp_all

end
