(* ===== verification/Latch.thy ===== *)
theory Latch
  imports Prelude
begin

text \<open>
  The contract shared by the bot's two trading halts, the Q-Switch and the circuit breaker:
  once on, the halt stays on until one of the operations that are allowed to clear it.  The
  client's theorem (a run with no clearing operation leaves a halt on) is proved once; each
  halt interprets the locale on its own operations.
\<close>

text \<open>No operation of the run clears the halt in the state in which it is executed.\<close>

fun no_clear :: "('e \<Rightarrow> 's \<Rightarrow> 's) \<Rightarrow> ('s \<Rightarrow> 'e \<Rightarrow> bool) \<Rightarrow> 's \<Rightarrow> 'e list \<Rightarrow> bool" where
  "no_clear step clears s [] = True"
| "no_clear step clears s (e # es) = (\<not> clears s e \<and> no_clear step clears (step e s) es)"

definition run_ops :: "('e \<Rightarrow> 's \<Rightarrow> 's) \<Rightarrow> 'e list \<Rightarrow> 's \<Rightarrow> 's" where
  "run_ops step es s = foldl (\<lambda>s e. step e s) s es"

lemma run_ops_simps [simp]:
  "run_ops step [] s = s" "run_ops step (e # es) s = run_ops step es (step e s)"
  by (simp_all add: run_ops_def)

locale latch =
  fixes is_on :: "'s \<Rightarrow> bool"
    and step :: "'e \<Rightarrow> 's \<Rightarrow> 's"
    and clears :: "'s \<Rightarrow> 'e \<Rightarrow> bool"
  assumes stays_on: "is_on s \<Longrightarrow> \<not> clears s e \<Longrightarrow> is_on (step e s)"
begin

lemma run_stays_on: "is_on s \<Longrightarrow> no_clear step clears s es \<Longrightarrow> is_on (run_ops step es s)"
  by (induction es arbitrary: s) (auto simp: stays_on)

lemma off_was_cleared:
  "is_on s \<Longrightarrow> \<not> is_on (run_ops step es s) \<Longrightarrow> \<not> no_clear step clears s es"
  using run_stays_on by blast

end

end
