(* ===== verification/QSwitch.thy ===== *)
theory QSwitch
  imports Latch ExchangeBase ConfigSchema
begin

text \<open>
  \<open>safety/q_switch.py\<close>: the per-exchange emergency stop.  The texts of the trigger reasons are
  kept as the values they are formatted from; the webhook tasks that \<open>_fire\<close> starts are the
  list \<open>qs_alerts\<close>, posted in \<open>Alerts\<close>.  The clock is read by the caller and passed as \<open>now\<close>.
\<close>

section \<open>State and operations\<close>

datatype q_reason = UsdBelow real real | TokenBelow real real | Manual string

record q_switch_event =
  qe_exchange :: string
  qe_reason :: q_reason
  qe_triggered_at :: real
  qe_balance_usd :: real
  qe_balance_token :: real

record q_switch =
  qs_config :: safety_config
  qs_exchange :: string
  qs_triggered :: bool
  qs_event_set :: bool
  qs_last_event :: "q_switch_event option"
  qs_alerts :: "q_switch_event list"

definition new_q_switch :: "safety_config \<Rightarrow> string \<Rightarrow> q_switch" where
  "new_q_switch cfg ex =
     \<lparr>qs_config = cfg, qs_exchange = ex, qs_triggered = False, qs_event_set = False,
      qs_last_event = None, qs_alerts = []\<rparr>"

text \<open>\<open>if self.config.alert_webhook_url\<close>: None and the empty string are falsy.\<close>

definition qs_fire :: "real \<Rightarrow> q_reason \<Rightarrow> balance option \<Rightarrow> q_switch \<Rightarrow> q_switch" where
  "qs_fire now reason b q =
     (let event = \<lparr>qe_exchange = qs_exchange q, qe_reason = reason, qe_triggered_at = now,
                   qe_balance_usd = (case b of Some x \<Rightarrow> bal_usd x | None \<Rightarrow> 0),
                   qe_balance_token = (case b of Some x \<Rightarrow> bal_token x | None \<Rightarrow> 0)\<rparr>;
          alert = (case alert_webhook_url (qs_config q) of None \<Rightarrow> False | Some u \<Rightarrow> u \<noteq> [])
      in q\<lparr>qs_triggered := True, qs_event_set := True, qs_last_event := Some event,
           qs_alerts := (if alert then qs_alerts q @ [event] else qs_alerts q)\<rparr>)"

definition balance_reason :: "safety_config \<Rightarrow> balance \<Rightarrow> q_reason option" where
  "balance_reason cfg b =
     (if bal_usd b < min_balance_usd cfg then Some (UsdBelow (bal_usd b) (min_balance_usd cfg))
      else if bal_token b < min_balance_token cfg
           then Some (TokenBelow (bal_token b) (min_balance_token cfg))
      else None)"

definition qs_check :: "real \<Rightarrow> balance \<Rightarrow> q_switch \<Rightarrow> bool \<times> q_switch" where
  "qs_check now b q =
     (if qs_triggered q then (True, q)
      else (case balance_reason (qs_config q) b of
              Some r \<Rightarrow> (True, qs_fire now r (Some b) q)
            | None \<Rightarrow> (False, q)))"

definition qs_trigger_manually :: "real \<Rightarrow> string \<Rightarrow> q_switch \<Rightarrow> q_switch" where
  "qs_trigger_manually now reason q =
     (if qs_triggered q then q else qs_fire now (Manual reason) None q)"

definition qs_reset :: "q_switch \<Rightarrow> q_switch" where
  "qs_reset q =
     (if qs_triggered q
      then q\<lparr>qs_triggered := False, qs_event_set := False, qs_last_event := None\<rparr>
      else q)"

section \<open>Behaviour\<close>

lemma qs_fire_simps [simp]:
  "qs_triggered (qs_fire now r b q)" "qs_event_set (qs_fire now r b q)"
  "qs_config (qs_fire now r b q) = qs_config q" "qs_exchange (qs_fire now r b q) = qs_exchange q"
  "qs_last_event (qs_fire now r b q) \<noteq> None"
  by (simp_all add: qs_fire_def Let_def)

lemma qs_check_halts: "fst (qs_check now b q) = qs_triggered (snd (qs_check now b q))"
  by (auto simp: qs_check_def split: option.split)

lemma qs_check_passes:
  "\<not> fst (qs_check now b q) \<Longrightarrow>
   snd (qs_check now b q) = q \<and> \<not> qs_triggered q
   \<and> min_balance_usd (qs_config q) \<le> bal_usd b \<and> min_balance_token (qs_config q) \<le> bal_token b"
  by (auto simp: qs_check_def balance_reason_def split: if_splits option.splits)

lemma qs_trigger_on [simp]: "qs_triggered (qs_trigger_manually now r q)"
  by (simp add: qs_trigger_manually_def)

lemma qs_reset_off [simp]: "\<not> qs_triggered (qs_reset q)"
  by (simp add: qs_reset_def)

datatype qs_op = QCheck real balance | QTrigger real string | QReset

fun qs_step :: "qs_op \<Rightarrow> q_switch \<Rightarrow> q_switch" where
  "qs_step (QCheck now b) q = snd (qs_check now b q)"
| "qs_step (QTrigger now r) q = qs_trigger_manually now r q"
| "qs_step QReset q = qs_reset q"

definition qs_clears :: "q_switch \<Rightarrow> qs_op \<Rightarrow> bool" where
  "qs_clears q e \<longleftrightarrow> e = QReset"

interpretation qs: latch qs_triggered qs_step qs_clears
proof
  fix q e
  show "qs_triggered q \<Longrightarrow> \<not> qs_clears q e \<Longrightarrow> qs_triggered (qs_step e q)"
    by (cases e) (auto simp: qs_clears_def qs_check_def)
qed

text \<open>The flag, the asyncio event and the stored event always agree.\<close>

definition qs_inv :: "q_switch \<Rightarrow> bool" where
  "qs_inv q \<longleftrightarrow> (qs_event_set q \<longleftrightarrow> qs_triggered q) \<and> (qs_last_event q \<noteq> None \<longleftrightarrow> qs_triggered q)"

lemma qs_inv_new: "qs_inv (new_q_switch cfg ex)"
  by (simp add: qs_inv_def new_q_switch_def)

lemma qs_inv_fire: "qs_inv (qs_fire now r b q)"
  by (simp add: qs_inv_def)

lemma qs_step_inv: "qs_inv q \<Longrightarrow> qs_inv (qs_step e q)"
  by (cases e)
    (auto simp: qs_check_def qs_trigger_manually_def qs_reset_def qs_inv_fire qs_inv_def
      split: option.splits if_splits)

lemma qs_step_config [simp]: "qs_config (qs_step e q) = qs_config q"
  by (cases e)
    (auto simp: qs_check_def qs_trigger_manually_def qs_reset_def split: option.splits)

lemma qs_no_reset: "QReset \<notin> set es \<Longrightarrow> no_clear qs_step qs_clears q es"
  by (induction es arbitrary: q) (auto simp: qs_clears_def)

text \<open>
  The Q-Switch latches: once triggered, no sequence of balance checks and triggers, however
  healthy the balances, un-triggers it; every check in such a state tells the bot to halt.
\<close>

theorem q_switch_latches:
  assumes "qs_triggered q" and "QReset \<notin> set es"
  shows "qs_triggered (run_ops qs_step es q) \<and> fst (qs_check now b (run_ops qs_step es q))"
proof -
  have "qs_triggered (run_ops qs_step es q)"
    by (rule qs.run_stays_on [OF assms(1) qs_no_reset [OF assms(2)]])
  then show ?thesis by (simp add: qs_check_def)
qed

definition rich_balance :: balance where
  "rich_balance = \<lparr>bal_usd = 1000, bal_token = 1000, bal_quote_currency = ''USDT''\<rparr>"

theorem q_switch_latches_witness:
  "qs_triggered (run_ops qs_step [QCheck 2 rich_balance, QTrigger 3 ''x'']
     (qs_trigger_manually 1 ''Paused via API'' (new_q_switch sample_safety ''kucoin''))) \<and>
   fst (qs_check 4 rich_balance (run_ops qs_step [QCheck 2 rich_balance, QTrigger 3 ''x'']
     (qs_trigger_manually 1 ''Paused via API'' (new_q_switch sample_safety ''kucoin''))))"
  by (rule q_switch_latches) simp_all

end
