(* ===== verification/CircuitBreaker.thy ===== *)
theory CircuitBreaker
  imports Latch ConfigSchema
begin

text \<open>
  \<open>safety/circuit_breaker.py\<close>: daily loss and drawdown limits.  The UTC day number is read by
  the caller; a trip reason keeps the numbers its text is formatted from.
\<close>

section \<open>State and operations\<close>

datatype trip_reason = NoTrip | DailyLoss real real | Drawdown real real

record circuit_breaker =
  cb_config :: safety_config
  cb_start_equity :: "real option"
  cb_peak_equity :: "real option"
  cb_day_start :: int
  cb_tripped :: bool
  cb_trip_reason :: trip_reason

definition new_circuit_breaker :: "safety_config \<Rightarrow> int \<Rightarrow> circuit_breaker" where
  "new_circuit_breaker cfg today =
     \<lparr>cb_config = cfg, cb_start_equity = None, cb_peak_equity = None, cb_day_start = today,
      cb_tripped = False, cb_trip_reason = NoTrip\<rparr>"

definition cb_trip :: "trip_reason \<Rightarrow> circuit_breaker \<Rightarrow> circuit_breaker" where
  "cb_trip reason c = (if cb_tripped c then c else c\<lparr>cb_tripped := True, cb_trip_reason := reason\<rparr>)"

text \<open>The part of \<open>record_equity\<close> before the two checks, on a day already begun.\<close>

definition cb_track :: "real \<Rightarrow> circuit_breaker \<Rightarrow> circuit_breaker" where
  "cb_track equity c =
     (let c1 = (if cb_start_equity c = None then c\<lparr>cb_start_equity := Some equity\<rparr> else c)
      in case cb_peak_equity c1 of
           None \<Rightarrow> c1\<lparr>cb_peak_equity := Some equity\<rparr>
         | Some p \<Rightarrow> if equity > p then c1\<lparr>cb_peak_equity := Some equity\<rparr> else c1)"

definition loss_pct :: "real \<Rightarrow> real \<Rightarrow> real" where
  "loss_pct reference equity = (reference - equity) / reference * 100"

definition cb_check_drawdown :: "real \<Rightarrow> circuit_breaker \<Rightarrow> circuit_breaker" where
  "cb_check_drawdown equity c =
     (case cb_peak_equity c of
        None \<Rightarrow> c
      | Some p \<Rightarrow>
          if p \<noteq> 0 \<and> 0 < p \<and> max_drawdown_pct (cb_config c) \<le> loss_pct p equity
          then cb_trip (Drawdown (loss_pct p equity) (max_drawdown_pct (cb_config c))) c else c)"

definition record_equity :: "int \<Rightarrow> real \<Rightarrow> real \<Rightarrow> real \<Rightarrow> circuit_breaker \<Rightarrow> circuit_breaker" where
  "record_equity today usd token mid_price c =
     (let equity = usd + token * mid_price
      in if today \<noteq> cb_day_start c
         then c\<lparr>cb_start_equity := Some equity, cb_peak_equity := Some equity,
                cb_day_start := today, cb_tripped := False, cb_trip_reason := NoTrip\<rparr>
         else (let c2 = cb_track equity c
               in case cb_start_equity c2 of
                    None \<Rightarrow> cb_check_drawdown equity c2
                  | Some s \<Rightarrow>
                      if 0 < s \<and> max_daily_loss_pct (cb_config c2) \<le> loss_pct s equity
                      then cb_trip (DailyLoss (loss_pct s equity) (max_daily_loss_pct (cb_config c2))) c2
                      else cb_check_drawdown equity c2))"

definition cb_reset :: "circuit_breaker \<Rightarrow> circuit_breaker" where
  "cb_reset c =
     c\<lparr>cb_tripped := False, cb_trip_reason := NoTrip, cb_start_equity := None,
       cb_peak_equity := None\<rparr>"

section \<open>Invariant\<close>

text \<open>Start and peak are known together, and the peak is at least the start.\<close>

definition cb_inv :: "circuit_breaker \<Rightarrow> bool" where
  "cb_inv c \<longleftrightarrow>
     (case (cb_start_equity c, cb_peak_equity c) of
        (None, None) \<Rightarrow> True
      | (Some s, Some p) \<Rightarrow> s \<le> p
      | _ \<Rightarrow> False)"

lemma cb_trip_simps [simp]:
  "cb_tripped (cb_trip r c)" "cb_start_equity (cb_trip r c) = cb_start_equity c"
  "cb_peak_equity (cb_trip r c) = cb_peak_equity c" "cb_config (cb_trip r c) = cb_config c"
  "cb_day_start (cb_trip r c) = cb_day_start c"
  by (simp_all add: cb_trip_def)

lemma cb_check_drawdown_simps [simp]:
  "cb_start_equity (cb_check_drawdown e c) = cb_start_equity c"
  "cb_peak_equity (cb_check_drawdown e c) = cb_peak_equity c"
  "cb_config (cb_check_drawdown e c) = cb_config c"
  "cb_day_start (cb_check_drawdown e c) = cb_day_start c"
  by (auto simp: cb_check_drawdown_def split: option.split)

lemma cb_track_simps [simp]:
  "cb_tripped (cb_track e c) = cb_tripped c" "cb_config (cb_track e c) = cb_config c"
  "cb_day_start (cb_track e c) = cb_day_start c"
  "cb_start_equity (cb_track e c) = (case cb_start_equity c of None \<Rightarrow> Some e | Some s \<Rightarrow> Some s)"
  "cb_peak_equity (cb_track e c) = (case cb_peak_equity c of None \<Rightarrow> Some e | Some p \<Rightarrow> Some (max p e))"
  by (auto simp: cb_track_def Let_def split: option.split)

lemma record_equity_config [simp]: "cb_config (record_equity d u t m c) = cb_config c"
  by (auto simp: record_equity_def Let_def split: option.split)

lemma record_equity_day [simp]: "cb_day_start (record_equity d u t m c) = d"
  by (auto simp: record_equity_def Let_def split: option.split)

lemma record_equity_inv: "cb_inv c \<Longrightarrow> cb_inv (record_equity d u t m c)"
  by (auto simp: record_equity_def Let_def cb_inv_def split: option.splits)

lemma cb_reset_inv: "cb_inv (cb_reset c)"
  by (simp add: cb_inv_def cb_reset_def)

section \<open>When it trips\<close>

lemma tripped_check_drawdown:
  "cb_tripped (cb_check_drawdown e c) \<longleftrightarrow>
     cb_tripped c \<or> (\<exists>p. cb_peak_equity c = Some p \<and> 0 < p \<and> max_drawdown_pct (cb_config c) \<le> loss_pct p e)"
  by (auto simp: cb_check_drawdown_def split: option.split)

text \<open>
  C31. On a day already begun, with start and peak equity recorded, a new equity reading leaves the
  breaker tripped exactly when it was tripped before, or the loss against the start of the day
  reaches the daily limit, or the loss against the running peak (which the reading may itself
  raise) reaches the drawdown limit.  Equality trips: the code compares with \<open>>=\<close>, where its
  docstring and the documents of the repository say that the limit is exceeded.
\<close>

theorem circuit_breaker_trips_iff:
  assumes "cb_day_start c = today" and "cb_start_equity c = Some s" and "cb_peak_equity c = Some p"
    and "0 < s" and "s \<le> p"
  shows "cb_tripped (record_equity today usd token mid c) \<longleftrightarrow>
     cb_tripped c
     \<or> max_daily_loss_pct (cb_config c) \<le> loss_pct s (usd + token * mid)
     \<or> max_drawdown_pct (cb_config c) \<le> loss_pct (max p (usd + token * mid)) (usd + token * mid)"
  using assms by (auto simp: record_equity_def Let_def tripped_check_drawdown)

definition sample_breaker :: circuit_breaker where
  "sample_breaker =
     \<lparr>cb_config =
        \<lparr>min_balance_usd = 50, min_balance_token = 100, max_requests_per_second = 8,
         heartbeat_interval_s = 5, max_missed_heartbeats = 3, max_daily_loss_pct = 10,
         max_drawdown_pct = 15, alert_webhook_url = None\<rparr>,
      cb_start_equity = Some 1000, cb_peak_equity = Some 1100, cb_day_start = 7,
      cb_tripped = False, cb_trip_reason = NoTrip\<rparr>"

theorem circuit_breaker_trips_iff_witness:
  "cb_tripped (record_equity 7 500 100 4 sample_breaker) \<longleftrightarrow>
     cb_tripped sample_breaker
     \<or> max_daily_loss_pct (cb_config sample_breaker) \<le> loss_pct 1000 (500 + 100 * 4)
     \<or> max_drawdown_pct (cb_config sample_breaker) \<le> loss_pct (max 1100 (500 + 100 * 4)) (500 + 100 * 4)"
  by (rule circuit_breaker_trips_iff) (simp_all add: sample_breaker_def)

section \<open>Latching\<close>

datatype cb_op = CRecord int real real real | CReset

fun cb_step :: "cb_op \<Rightarrow> circuit_breaker \<Rightarrow> circuit_breaker" where
  "cb_step (CRecord d u t m) c = record_equity d u t m c"
| "cb_step CReset c = cb_reset c"

text \<open>A manual reset clears it, and so does the first reading of another UTC day.\<close>

fun cb_clears :: "circuit_breaker \<Rightarrow> cb_op \<Rightarrow> bool" where
  "cb_clears c (CRecord d u t m) \<longleftrightarrow> d \<noteq> cb_day_start c"
| "cb_clears c CReset \<longleftrightarrow> True"

interpretation cb: latch cb_tripped cb_step cb_clears
proof
  fix c e
  show "cb_tripped c \<Longrightarrow> \<not> cb_clears c e \<Longrightarrow> cb_tripped (cb_step e c)"
    by (cases e) (auto simp: record_equity_def Let_def tripped_check_drawdown split: option.split)
qed

lemma same_day_no_clear:
  "(\<And>e. e \<in> set es \<Longrightarrow> \<exists>u t m. e = CRecord d u t m) \<Longrightarrow> cb_day_start c = d \<Longrightarrow>
   no_clear cb_step cb_clears c es"
proof (induction es arbitrary: c)
  case (Cons e es)
  then obtain u t m where e: "e = CRecord d u t m" by force
  have "no_clear cb_step cb_clears (record_equity d u t m c) es"
    by (rule Cons.IH) (use Cons.prems in auto)
  with e Cons.prems(2) show ?case by simp
qed simp

lemma breaker_stays_tripped_within_day:
  assumes "cb_tripped c" and "cb_day_start c = d"
    and "\<And>e. e \<in> set es \<Longrightarrow> \<exists>u t m. e = CRecord d u t m"
  shows "cb_tripped (run_ops cb_step es c)"
  by (rule cb.run_stays_on [OF assms(1) same_day_no_clear]) (use assms in auto)

lemma breaker_clears_at_midnight:
  "today \<noteq> cb_day_start c \<Longrightarrow> \<not> cb_tripped (record_equity today u t m c)"
  by (simp add: record_equity_def Let_def)

end
