(* ===== verification/Heartbeat.thy ===== *)
theory Heartbeat
  imports ConfigSchema
begin

text \<open>
  \<open>safety/heartbeat.py\<close>: the stall detector.  Its behaviour is the sequence of two kinds of
  events, a beat of the tick loop and a wake-up of the monitor task, each with the clock value
  it reads; \<open>hb_fired\<close> records that \<open>on_failure\<close> was called (the monitor then returns).
\<close>

section \<open>State and operations\<close>

record heartbeat =
  hb_config :: safety_config
  hb_last_beat :: real
  hb_missed :: int
  hb_running :: bool
  hb_fired :: bool

definition new_heartbeat :: "safety_config \<Rightarrow> real \<Rightarrow> heartbeat" where
  "new_heartbeat cfg now =
     \<lparr>hb_config = cfg, hb_last_beat = now, hb_missed = 0, hb_running = False, hb_fired = False\<rparr>"

definition hb_beat :: "real \<Rightarrow> heartbeat \<Rightarrow> heartbeat" where
  "hb_beat now h = h\<lparr>hb_last_beat := now, hb_missed := 0\<rparr>"

definition hb_start :: "heartbeat \<Rightarrow> heartbeat" where
  "hb_start h = h\<lparr>hb_running := True\<rparr>"

definition hb_stop :: "heartbeat \<Rightarrow> heartbeat" where
  "hb_stop h = h\<lparr>hb_running := False\<rparr>"

text \<open>One pass of the monitor loop after its sleep; nothing happens once it has returned.\<close>

definition hb_late :: "real \<Rightarrow> heartbeat \<Rightarrow> bool" where
  "hb_late now h \<longleftrightarrow> now - hb_last_beat h > heartbeat_interval_s (hb_config h) * 1.5"

definition hb_monitor :: "real \<Rightarrow> heartbeat \<Rightarrow> heartbeat" where
  "hb_monitor now h =
     (if \<not> hb_running h \<or> hb_fired h then h
      else if hb_late now h
      then (let h' = h\<lparr>hb_missed := hb_missed h + 1\<rparr>
            in if max_missed_heartbeats (hb_config h') \<le> hb_missed h'
               then h'\<lparr>hb_fired := True\<rparr> else h')
      else h\<lparr>hb_missed := 0\<rparr>)"

datatype hb_event = Beat real | Wake real

fun hb_step :: "heartbeat \<Rightarrow> hb_event \<Rightarrow> heartbeat" where
  "hb_step h (Beat t) = hb_beat t h"
| "hb_step h (Wake t) = hb_monitor t h"

definition hb_run :: "heartbeat \<Rightarrow> hb_event list \<Rightarrow> heartbeat" where
  "hb_run h es = foldl hb_step h es"

lemma hb_run_simps [simp]:
  "hb_run h [] = h" "hb_run h (e # es) = hb_run (hb_step h e) es"
  "hb_run h (es @ es') = hb_run (hb_run h es) es'"
  by (simp_all add: hb_run_def)

section \<open>Behaviour\<close>

lemma hb_step_config [simp]: "hb_config (hb_step h e) = hb_config h"
  by (cases e) (auto simp: hb_beat_def hb_monitor_def Let_def)

lemma hb_step_running [simp]: "hb_running (hb_step h e) = hb_running h"
  by (cases e) (auto simp: hb_beat_def hb_monitor_def Let_def)

text \<open>Short of failure the counter stays below the limit.\<close>

definition hb_inv :: "heartbeat \<Rightarrow> bool" where
  "hb_inv h \<longleftrightarrow> 0 \<le> hb_missed h
     \<and> (\<not> hb_fired h \<longrightarrow> hb_missed h < max_missed_heartbeats (hb_config h))"

lemma hb_step_inv: "hb_inv h \<Longrightarrow> 1 \<le> max_missed_heartbeats (hb_config h) \<Longrightarrow> hb_inv (hb_step h e)"
  by (cases e) (auto simp: hb_inv_def hb_beat_def hb_monitor_def Let_def)

text \<open>Every wake-up of the run comes in time after the last beat before it.\<close>

fun beats_in_time :: "real \<Rightarrow> real \<Rightarrow> hb_event list \<Rightarrow> bool" where
  "beats_in_time interval b [] = True"
| "beats_in_time interval b (Beat t # es) = beats_in_time interval t es"
| "beats_in_time interval b (Wake t # es) =
     (t - b \<le> interval * 1.5 \<and> beats_in_time interval b es)"

lemma timely_never_fires:
  "beats_in_time (heartbeat_interval_s (hb_config h)) (hb_last_beat h) es \<Longrightarrow> \<not> hb_fired h \<Longrightarrow>
   \<not> hb_fired (hb_run h es)"
proof (induction es arbitrary: h)
  case (Cons e es)
  show ?case
  proof (cases e)
    case (Beat t)
    have "\<not> hb_fired (hb_run (hb_beat t h) es)"
      by (rule Cons.IH) (use Cons.prems Beat in \<open>simp_all add: hb_beat_def\<close>)
    with Beat show ?thesis by simp
  next
    case (Wake t)
    have "\<not> hb_fired (hb_run (hb_monitor t h) es)"
      by (rule Cons.IH)
        (use Cons.prems Wake in \<open>simp_all add: hb_monitor_def hb_late_def\<close>)
    with Wake show ?thesis by simp
  qed
qed simp

text \<open>Consecutive late wake-ups count up one by one and fire at the limit.\<close>

lemma late_wakes:
  assumes "hb_running h" and "\<not> hb_fired h"
    and "\<And>t. t \<in> set ts \<Longrightarrow> heartbeat_interval_s (hb_config h) * 1.5 < t - hb_last_beat h"
    and "hb_missed h + int (length ts) < max_missed_heartbeats (hb_config h)"
  shows "hb_run h (map Wake ts) = h\<lparr>hb_missed := hb_missed h + int (length ts)\<rparr>"
  using assms
proof (induction ts arbitrary: h)
  case (Cons t ts)
  have step: "hb_monitor t h = h\<lparr>hb_missed := hb_missed h + 1\<rparr>"
    using Cons.prems by (simp add: hb_monitor_def hb_late_def Let_def)
  have "hb_run (h\<lparr>hb_missed := hb_missed h + 1\<rparr>) (map Wake ts) =
      (h\<lparr>hb_missed := hb_missed h + 1\<rparr>)\<lparr>hb_missed := hb_missed (h\<lparr>hb_missed := hb_missed h + 1\<rparr>) + int (length ts)\<rparr>"
    by (rule Cons.IH) (use Cons.prems in auto)
  then show ?case by (simp add: step algebra_simps)
qed simp

text \<open>
  C32. The monitor is exact: if every wake-up finds a beat no older than 1.5 intervals it never
  fires; and from a running monitor with no missed beat, as many consecutive late wake-ups as
  \<open>max_missed_heartbeats\<close> do fire it, while one fewer does not.
\<close>

theorem heartbeat_exact:
  assumes "hb_running h" and "\<not> hb_fired h" and "hb_missed h = 0"
    and "1 \<le> max_missed_heartbeats (hb_config h)"
    and "int (length ts) = max_missed_heartbeats (hb_config h)"
    and "\<forall>t \<in> set ts. heartbeat_interval_s (hb_config h) * 1.5 < t - hb_last_beat h"
    and "beats_in_time (heartbeat_interval_s (hb_config h)) (hb_last_beat h) es"
  shows "\<not> hb_fired (hb_run h es) \<and> hb_fired (hb_run h (map Wake ts)) \<and>
         \<not> hb_fired (hb_run h (map Wake (butlast ts)))"
proof -
  from assms(4,5) have ne: "ts \<noteq> []" by auto
  then have split: "map Wake ts = map Wake (butlast ts) @ [Wake (last ts)]"
    by (metis append_butlast_last_id list.map(1) list.map(2) map_append)
  have len: "int (length (butlast ts)) = max_missed_heartbeats (hb_config h) - 1"
    using assms(5) ne by (simp add: of_nat_diff Suc_leI)
  have mid: "hb_run h (map Wake (butlast ts)) = h\<lparr>hb_missed := int (length (butlast ts))\<rparr>"
    using late_wakes [of h "butlast ts"] assms(1-3,6) len by (auto dest: in_set_butlastD)
  have "hb_fired (hb_run h (map Wake ts))"
    using assms(1,2,6) ne len
    by (simp add: split mid hb_monitor_def hb_late_def Let_def)
  with timely_never_fires [OF assms(7,2)] mid assms(2) show ?thesis by simp
qed

definition sample_heartbeat :: heartbeat where
  "sample_heartbeat =
     \<lparr>hb_config =
        \<lparr>min_balance_usd = 50, min_balance_token = 100, max_requests_per_second = 8,
         heartbeat_interval_s = 5, max_missed_heartbeats = 3, max_daily_loss_pct = 10,
         max_drawdown_pct = 15, alert_webhook_url = None\<rparr>,
      hb_last_beat = 100, hb_missed = 0, hb_running = True, hb_fired = False\<rparr>"

theorem heartbeat_exact_witness:
  "\<not> hb_fired (hb_run sample_heartbeat [Wake 105, Beat 106, Wake 110]) \<and>
   hb_fired (hb_run sample_heartbeat (map Wake [110, 115, 120])) \<and>
   \<not> hb_fired (hb_run sample_heartbeat (map Wake (butlast [110, 115, 120])))"
  by (rule heartbeat_exact) (simp_all add: sample_heartbeat_def)

end
