(* ===== verification/MathUtils.thy ===== *)
theory MathUtils
  imports Prelude
begin

text \<open>
  \<open>utils/math_utils.py\<close> and \<open>utils/time_utils.py\<close>: clamping, weight normalisation, the
  geometric and power-curve ladders, percentage change, and the rolling window.  The locale
  \<open>distribution\<close> states what a split of a budget promises (as many shares as levels, none
  negative, summing to one); the geometric and the equal split provide it, and the depth
  engine's blend of the two uses it.
\<close>

section \<open>Definitions\<close>

definition clip :: "real \<Rightarrow> real \<Rightarrow> real \<Rightarrow> real" where
  "clip value lo hi = max lo (min hi value)"

definition normalize_weights :: "(string \<times> real) list \<Rightarrow> (string \<times> real) list result" where
  "normalize_weights weights =
     (let total = sum_list (dict_values weights)
      in if total = 0 then Inl (ValueError ''All weights are zero'')
         else Inr (map (\<lambda>(k, v). (k, v / total)) weights))"

definition geometric_decay :: "nat \<Rightarrow> real \<Rightarrow> real list" where
  "geometric_decay n decay =
     (let weights = map (\<lambda>i. decay ^ i) [0..<n]
      in map (\<lambda>w. w / sum_list weights) weights)"

text \<open>\<open>np.linspace(0.0, 1.0, n)\<close>\<close>

definition linspace01 :: "nat \<Rightarrow> real list" where
  "linspace01 n = map (\<lambda>i. real i / real (n - 1)) [0..<n]"

text \<open>\<open>t ** gamma\<close> on floats with \<open>0 \<le> t\<close> and \<open>0 \<le> gamma\<close>; \<open>0.0 ** 0.0\<close> is 1.\<close>

definition np_pow :: "real \<Rightarrow> real \<Rightarrow> real" where
  "np_pow t gamma = (if gamma = 0 then 1 else t powr gamma)"

definition power_curve :: "nat \<Rightarrow> real \<Rightarrow> real list" where
  "power_curve n gamma = map (\<lambda>t. np_pow t gamma) (linspace01 n)"

definition interpolate_levels :: "real \<Rightarrow> real \<Rightarrow> nat \<Rightarrow> real \<Rightarrow> real list" where
  "interpolate_levels lo hi n gamma = map (\<lambda>t. lo + (hi - lo) * t) (power_curve n gamma)"

definition pct_change :: "real \<Rightarrow> real \<Rightarrow> real" where
  "pct_change new old = (if old = 0 then 0 else (new - old) / old)"

section \<open>Clamping\<close>

lemma clip_ge: "lo \<le> clip v lo hi"
  by (simp add: clip_def)

lemma clip_le: "lo \<le> hi \<Longrightarrow> clip v lo hi \<le> hi"
  by (simp add: clip_def)

lemma clip_id: "lo \<le> v \<Longrightarrow> v \<le> hi \<Longrightarrow> clip v lo hi = v"
  by (simp add: clip_def)

lemma clip_mono: "v \<le> w \<Longrightarrow> clip v lo hi \<le> clip w lo hi"
  by (simp add: clip_def)

lemma clip_unit [simp]: "0 \<le> clip v 0 1" "clip v 0 1 \<le> 1"
  by (simp_all add: clip_def)

section \<open>Normalised weights\<close>

lemma normalize_weights_sum:
  assumes "normalize_weights ws = Inr ns"
  shows "sum_list (dict_values ns) = 1"
proof -
  let ?t = "sum_list (dict_values ws)"
  from assms have t: "?t \<noteq> 0" and ns: "ns = map (\<lambda>(k, v). (k, v / ?t)) ws"
    by (auto simp: normalize_weights_def Let_def split: if_splits)
  have "map snd ns = map (\<lambda>p. snd p / ?t) ws"
    by (auto simp: ns)
  then have "sum_list (map snd ns) = ?t / ?t"
    using sum_list_divide [of snd ?t ws] by simp
  with t show ?thesis by simp
qed

lemma normalize_weights_keys:
  "normalize_weights ws = Inr ns \<Longrightarrow> dict_keys ns = dict_keys ws"
  by (auto simp: normalize_weights_def Let_def split: if_splits)

lemma normalize_weights_nonneg:
  assumes "normalize_weights ws = Inr ns" and "\<And>w. w \<in> set (dict_values ws) \<Longrightarrow> 0 \<le> w"
    and "w \<in> set (dict_values ns)"
  shows "0 \<le> w"
proof -
  have "0 \<le> sum_list (dict_values ws)"
    using assms(2) by (intro sum_list_nonneg) blast
  with assms show ?thesis
    by (auto simp: normalize_weights_def Let_def split: if_splits)
      (metis assms(2) divide_nonneg_nonneg image_eqI set_map snd_conv)
qed

section \<open>Budget splits\<close>

locale distribution =
  fixes shares :: "nat \<Rightarrow> real list"
  assumes shares_length: "length (shares n) = n"
    and shares_nonneg: "i < n \<Longrightarrow> 0 \<le> shares n ! i"
    and shares_sum: "0 < n \<Longrightarrow> sum_list (shares n) = 1"
    and shares_antimono: "i \<le> j \<Longrightarrow> j < n \<Longrightarrow> shares n ! j \<le> shares n ! i"
begin

lemma budget_spent: "0 < n \<Longrightarrow> sum_list (map (\<lambda>x. x * b) (shares n)) = b"
  by (simp add: sum_list_scale shares_sum)

lemma shares_le_one: "i < n \<Longrightarrow> shares n ! i \<le> 1"
  using member_le_sum_list [of "shares n ! i" "shares n"] shares_length shares_nonneg shares_sum
  by (metis gr_implies_not0 in_set_conv_nth neq0_conv nth_mem)

end

definition equal_split :: "nat \<Rightarrow> real list" where
  "equal_split n = map (\<lambda>_. 1 / real n) [0..<n]"

interpretation eqd: distribution equal_split
proof unfold_locales
  fix n :: nat
  show "0 < n \<Longrightarrow> sum_list (equal_split n) = 1"
    by (simp add: equal_split_def sum_list_triv)
qed (auto simp: equal_split_def)

lemma geometric_sum_pos: "0 < d \<Longrightarrow> 0 < n \<Longrightarrow> 0 < sum_list (map (\<lambda>i. d ^ i) [0..<n])" for d :: real
  by (rule sum_list_pos) auto

lemma geometric_decay_nth:
  "i < n \<Longrightarrow> geometric_decay n d ! i = d ^ i / sum_list (map (\<lambda>i. d ^ i) [0..<n])"
  by (simp add: geometric_decay_def)

text \<open>The source's decay of 0.8, in the form the simplifier writes it.\<close>

interpretation geo: distribution "\<lambda>n. geometric_decay n (4 / 5)"
proof unfold_locales
  fix n i j :: nat
  let ?s = "sum_list (map (\<lambda>i. (4 / 5) ^ i) [0..<n]) :: real"
  show "length (geometric_decay n (4 / 5)) = n"
    by (simp add: geometric_decay_def)
  show "i < n \<Longrightarrow> 0 \<le> geometric_decay n (4 / 5) ! i"
    using geometric_sum_pos [of "4 / 5" n] by (simp add: geometric_decay_nth)
  show "0 < n \<Longrightarrow> sum_list (geometric_decay n (4 / 5)) = 1"
    using geometric_sum_pos [of "4 / 5" n]
      sum_list_divide [of "\<lambda>i. (4 / 5) ^ i" ?s "[0..<n]"]
    by (simp add: geometric_decay_def Let_def comp_def)
  assume "i \<le> j" "j < n"
  then show "geometric_decay n (4 / 5) ! j \<le> geometric_decay n (4 / 5) ! i"
    using geometric_sum_pos [of "4 / 5" n]
    by (simp add: geometric_decay_nth divide_right_mono power_decreasing)
qed

section \<open>Power curves\<close>

lemma length_linspace01 [simp]: "length (linspace01 n) = n"
  by (simp add: linspace01_def)

lemma linspace01_nth: "i < n \<Longrightarrow> linspace01 n ! i = real i / real (n - 1)"
  by (simp add: linspace01_def)

lemma linspace01_range: "i < n \<Longrightarrow> 0 \<le> linspace01 n ! i \<and> linspace01 n ! i \<le> 1"
  by (cases "n = 1") (auto simp: linspace01_nth divide_le_eq_1 of_nat_diff)

lemma linspace01_mono: "i \<le> j \<Longrightarrow> j < n \<Longrightarrow> linspace01 n ! i \<le> linspace01 n ! j"
  by (simp add: linspace01_nth divide_right_mono)

lemma linspace01_strict: "i < j \<Longrightarrow> j < n \<Longrightarrow> linspace01 n ! i < linspace01 n ! j"
  by (simp add: linspace01_nth divide_strict_right_mono)

lemma np_pow_unit: "0 \<le> t \<Longrightarrow> t \<le> 1 \<Longrightarrow> 0 < g \<Longrightarrow> 0 \<le> np_pow t g \<and> np_pow t g \<le> 1"
  by (auto simp: np_pow_def intro: powr_le1)

lemma np_pow_mono: "0 \<le> t \<Longrightarrow> t \<le> u \<Longrightarrow> 0 < g \<Longrightarrow> np_pow t g \<le> np_pow u g"
  by (auto simp: np_pow_def intro: powr_mono2)

lemma np_pow_strict_mono: "0 \<le> t \<Longrightarrow> t < u \<Longrightarrow> 0 < g \<Longrightarrow> np_pow t g < np_pow u g"
  by (auto simp: np_pow_def intro: powr_less_mono2)

lemma np_pow_antimono_exp: "0 \<le> t \<Longrightarrow> t \<le> 1 \<Longrightarrow> 0 < g \<Longrightarrow> g \<le> h \<Longrightarrow> np_pow t h \<le> np_pow t g"
  by (auto simp: np_pow_def intro: powr_mono')

lemma np_pow_0 [simp]: "0 < g \<Longrightarrow> np_pow 0 g = 0"
  by (simp add: np_pow_def)

lemma np_pow_1 [simp]: "np_pow 1 g = 1"
  by (simp add: np_pow_def)

section \<open>The rolling window\<close>

text \<open>
  \<open>RollingWindow\<close>: a deque of (timestamp, value).  The clock is read by the caller and
  passed in; \<open>max_age_s\<close> of \<open>None\<close> or 0.0 disables eviction (Python truthiness).
\<close>

record rolling_window =
  rw_data :: "(real \<times> real) list"
  rw_max_size :: nat
  rw_max_age_s :: "real option"

definition rw_evicts :: "rolling_window \<Rightarrow> bool" where
  "rw_evicts w = (case rw_max_age_s w of None \<Rightarrow> False | Some a \<Rightarrow> a \<noteq> 0)"

definition rw_evict :: "real \<Rightarrow> rolling_window \<Rightarrow> rolling_window" where
  "rw_evict now w =
     (case rw_max_age_s w of
        None \<Rightarrow> w
      | Some a \<Rightarrow> w\<lparr>rw_data := dropWhile (\<lambda>(t, _). t < now - a) (rw_data w)\<rparr>)"

definition rw_append :: "real \<Rightarrow> real \<Rightarrow> real option \<Rightarrow> rolling_window \<Rightarrow> rolling_window" where
  "rw_append now value ts w =
     (let w' = w\<lparr>rw_data := deque_append (rw_max_size w)
                  (case ts of Some t \<Rightarrow> t | None \<Rightarrow> now, value) (rw_data w)\<rparr>
      in if rw_evicts w then rw_evict now w' else w')"

definition rw_values :: "real \<Rightarrow> rolling_window \<Rightarrow> real list \<times> rolling_window" where
  "rw_values now w =
     (let w' = (if rw_evicts w then rw_evict now w else w) in (map snd (rw_data w'), w'))"

definition rw_is_ready :: "nat \<Rightarrow> rolling_window \<Rightarrow> bool" where
  "rw_is_ready min_size w \<longleftrightarrow> min_size \<le> length (rw_data w)"

lemma rw_append_bounded:
  "length (rw_data (rw_append now v ts w)) \<le> rw_max_size w"
proof -
  have "length (dropWhile P (deque_append n x xs)) \<le> n" for P n and x :: "real \<times> real" and xs
    using length_dropWhile_le [of P "deque_append n x xs"] by simp
  then show ?thesis
    by (simp add: rw_append_def Let_def rw_evict_def split: option.split)
qed

text \<open>When timestamps are appended in order, every value returned is fresh.\<close>

lemma rw_values_fresh:
  assumes "sorted (map fst (rw_data w))" and "rw_max_age_s w = Some a" and "a \<noteq> 0"
    and "(t, v) \<in> set (rw_data (snd (rw_values now w)))"
  shows "now - a \<le> t"
  using assms
proof -
  let ?P = "\<lambda>(t, _). t < now - a"
  from assms have mem: "(t, v) \<in> set (dropWhile ?P (rw_data w))"
    by (simp add: rw_values_def rw_evict_def rw_evicts_def)
  have "sorted (map fst xs) \<Longrightarrow> (t, v) \<in> set (dropWhile ?P xs) \<Longrightarrow> now - a \<le> t" for xs
    by (induction xs) (auto split: if_splits)
  with mem assms(1) show ?thesis by blast
qed

end
