(* ===== verification/Inventory.thy ===== *)
theory Inventory
  imports MathUtils ExchangeBase ConfigSchema
begin

text \<open>
  \<open>core/inventory_tracker.py\<close>: the balance baseline, the skew factor that biases order
  sizes back towards it, the rebalance trigger and the position limits.
\<close>

section \<open>State and operations\<close>

record inventory =
  initial_usd :: "real option"
  initial_token :: "real option"
  current_usd :: real
  current_token :: real
  drift_threshold :: real
  max_position_tokens :: real
  max_position_usd :: real
  min_position_tokens :: real

definition new_inventory :: "real \<Rightarrow> real \<Rightarrow> real \<Rightarrow> inventory" where
  "new_inventory mpt mpu mipt =
     \<lparr>initial_usd = None, initial_token = None, current_usd = 0, current_token = 0,
      drift_threshold = 0.10, max_position_tokens = mpt, max_position_usd = mpu,
      min_position_tokens = mipt\<rparr>"

definition record_initial :: "balance \<Rightarrow> inventory \<Rightarrow> inventory" where
  "record_initial b i = i\<lparr>initial_usd := Some (bal_usd b), initial_token := Some (bal_token b)\<rparr>"

definition set_initial_from_config :: "real \<Rightarrow> real \<Rightarrow> inventory \<Rightarrow> inventory" where
  "set_initial_from_config usd token i = i\<lparr>initial_usd := Some usd, initial_token := Some token\<rparr>"

definition inv_update :: "balance \<Rightarrow> inventory \<Rightarrow> inventory" where
  "inv_update b i =
     (let i' = (if initial_usd i = None then record_initial b i else i)
      in i'\<lparr>current_usd := bal_usd b, current_token := bal_token b\<rparr>)"

definition skew_factor :: "inventory \<Rightarrow> real" where
  "skew_factor i =
     (case initial_token i of
        None \<Rightarrow> 1
      | Some t0 \<Rightarrow>
          if t0 \<le> 0 then 1
          else (let token_drift = (current_token i - t0) / t0; raw_skew = 1 - token_drift * 2
                in clip raw_skew 0.5 2))"

record inventory_state =
  st_usd :: real
  st_token :: real
  st_initial_usd :: real
  st_initial_token :: real
  st_usd_drift_pct :: real
  st_token_drift_pct :: real
  st_skew_factor :: real

text \<open>\<open>x or d\<close> on an optional float: None and 0.0 are falsy.\<close>

definition or_float :: "real option \<Rightarrow> real \<Rightarrow> real" where
  "or_float x d = (case x of None \<Rightarrow> d | Some v \<Rightarrow> if v = 0 then d else v)"

definition inv_state :: "inventory \<Rightarrow> inventory_state" where
  "inv_state i =
     (let init_usd = or_float (initial_usd i) 0; init_token = or_float (initial_token i) 1;
          usd_drift = (current_usd i - init_usd) / max init_usd 1;
          token_drift = (current_token i - init_token) / init_token
      in \<lparr>st_usd = current_usd i, st_token = current_token i, st_initial_usd = init_usd,
          st_initial_token = init_token, st_usd_drift_pct = usd_drift * 100,
          st_token_drift_pct = token_drift * 100, st_skew_factor = skew_factor i\<rparr>)"

definition should_rebalance :: "inventory \<Rightarrow> bool" where
  "should_rebalance i =
     (case initial_token i of
        None \<Rightarrow> False
      | Some t0 \<Rightarrow>
          if t0 \<le> 0 then False else drift_threshold i \<le> \<bar>current_token i - t0\<bar> / t0)"

definition is_position_limit_reached :: "string \<Rightarrow> real \<Rightarrow> real \<Rightarrow> inventory \<Rightarrow> bool" where
  "is_position_limit_reached side current_tokens token_price i =
     (if max_position_usd i \<le> 0 \<and> max_position_tokens i \<le> 0 then False
      else (let position_usd = current_tokens * token_price
            in if side = ''buy'' \<and> 0 < max_position_usd i \<and> max_position_usd i \<le> position_usd
               then True
               else if side = ''sell'' \<and> 0 < min_position_tokens i
                       \<and> current_tokens \<le> min_position_tokens i
               then True
               else False))"

section \<open>The skew factor\<close>

lemma skew_factor_range: "0.5 \<le> skew_factor i \<and> skew_factor i \<le> 2"
  using clip_ge [of "0.5"] clip_le [of "0.5" 2]
  by (simp add: skew_factor_def Let_def split: option.split)

lemma skew_factor_cases:
  assumes "initial_token i = Some t0" and "0 < t0"
  shows "skew_factor i = clip (3 - 2 * (current_token i / t0)) 0.5 2"
  using assms by (simp add: skew_factor_def Let_def diff_divide_distrib algebra_simps)

lemma inv_update_keeps_baseline:
  "initial_usd i \<noteq> None \<Longrightarrow>
   initial_usd (inv_update b i) = initial_usd i \<and> initial_token (inv_update b i) = initial_token i"
  by (auto simp: inv_update_def Let_def)

lemma inv_update_current [simp]:
  "current_token (inv_update b i) = bal_token b" "current_usd (inv_update b i) = bal_usd b"
  by (simp_all add: inv_update_def Let_def)

text \<open>
  The skew factor always lies in [0.5, 2], is exactly 1 when holdings equal the baseline,
  and leans against drift: of two balances on the same positive baseline, the one with more
  tokens has the smaller (or equal) skew, that is, no larger a buy budget.
\<close>

theorem skew_leans_against_drift:
  assumes "initial_usd i \<noteq> None" and "initial_token i = Some t0" and "0 < t0"
    and "bal_token a \<le> bal_token b"
  shows "0.5 \<le> skew_factor (inv_update b i) \<and>
         skew_factor (inv_update b i) \<le> skew_factor (inv_update a i) \<and>
         skew_factor (inv_update a i) \<le> 2 \<and>
         (bal_token a = t0 \<longrightarrow> skew_factor (inv_update a i) = 1)"
proof -
  have sk: "skew_factor (inv_update x i) = clip (3 - 2 * (bal_token x / t0)) 0.5 2" for x
    using skew_factor_cases [of "inv_update x i" t0] inv_update_keeps_baseline [of i x] assms(1-3)
    by simp
  have "bal_token a / t0 \<le> bal_token b / t0"
    using assms(3,4) by (simp add: divide_right_mono)
  then have "skew_factor (inv_update b i) \<le> skew_factor (inv_update a i)"
    unfolding sk by (intro clip_mono) simp
  moreover have "bal_token a = t0 \<Longrightarrow> skew_factor (inv_update a i) = 1"
    using assms(3) by (simp add: sk clip_def)
  ultimately show ?thesis
    using skew_factor_range by blast
qed

theorem skew_leans_against_drift_witness:
  "let i = set_initial_from_config 1000 800 (new_inventory 0 0 0);
       a = \<lparr>bal_usd = 1000, bal_token = 800, bal_quote_currency = ''USDT''\<rparr>;
       b = \<lparr>bal_usd = 900, bal_token = 1000, bal_quote_currency = ''USDT''\<rparr>
   in 0.5 \<le> skew_factor (inv_update b i) \<and>
      skew_factor (inv_update b i) \<le> skew_factor (inv_update a i) \<and>
      skew_factor (inv_update a i) \<le> 2 \<and>
      (bal_token a = 800 \<longrightarrow> skew_factor (inv_update a i) = 1)"
  unfolding Let_def
  by (rule skew_leans_against_drift) (simp_all add: set_initial_from_config_def new_inventory_def)

lemma should_rebalance_iff:
  assumes "initial_token i = Some t0" and "0 < t0"
  shows "should_rebalance i \<longleftrightarrow> drift_threshold i * t0 \<le> \<bar>current_token i - t0\<bar>"
  using assms by (simp add: should_rebalance_def pos_le_divide_eq)

text \<open>A token cap without a USD cap never stops a buy: only the USD cap is compared.\<close>

lemma token_cap_ignored:
  "max_position_usd i \<le> 0 \<Longrightarrow> \<not> is_position_limit_reached ''buy'' tokens price i"
  by (simp add: is_position_limit_reached_def)

end
