(* ===== verification/Spread.thy ===== *)
theory Spread
  imports MathUtils ConfigSchema
begin

text \<open>
  \<open>quant/spread_engine.py\<close>: the power-curve ladder of one side, the four public ways of
  building both sides, and the minimum-step walk.  Lemmas: a ladder starts at its tightest
  level, ends at its widest, is monotone in between, and moves towards the mid as
  aggressiveness rises; after the walk consecutive levels are at least one step apart; buy
  spreads of a validated configuration stay negative.
\<close>

section \<open>Definitions\<close>

record spread_engine =
  se_cfg :: spread_config
  maker_fee_bps :: real
  min_profitable_spread_bps :: real

definition new_spread_engine :: "spread_config \<Rightarrow> real \<Rightarrow> spread_engine" where
  "new_spread_engine cfg fee =
     \<lparr>se_cfg = cfg, maker_fee_bps = fee, min_profitable_spread_bps = fee * 2 + 2\<rparr>"

definition compute_side_levels ::
  "spread_engine \<Rightarrow> real \<Rightarrow> real \<Rightarrow> real \<Rightarrow> nat \<Rightarrow> real option \<Rightarrow> real list" where
  "compute_side_levels e tightest widest agg n curve_strength =
     (let cs = (case curve_strength of Some c \<Rightarrow> c | None \<Rightarrow> sp_curve_strength (se_cfg e));
          gamma = exp (cs * (2 * agg - 1))
      in map (\<lambda>t. tightest + (widest - tightest) * np_pow t gamma) (linspace01 n))"

definition widen_first :: "real \<Rightarrow> real list \<Rightarrow> real list" where
  "widen_first d xs = (case xs of [] \<Rightarrow> [] | x # xs' \<Rightarrow> (x + d) # xs')"

definition compute_levels ::
  "spread_engine \<Rightarrow> real \<Rightarrow> nat \<Rightarrow> real \<Rightarrow> real list \<times> real list" where
  "compute_levels e aggressiveness n_levels spread_mult =
     (let agg = clip aggressiveness 0 1; mult = max 0.1 spread_mult; cfg = se_cfg e;
          buy = compute_side_levels e (buy_max_pct cfg * mult) (buy_min_pct cfg * mult) agg n_levels None;
          sell = compute_side_levels e (sell_min_pct cfg * mult) (sell_max_pct cfg * mult) agg n_levels None
      in if 0 < min_profitable_spread_bps e \<and> buy \<noteq> [] \<and> sell \<noteq> []
         then (let total_spread_pct = hd sell - hd buy;
                   min_spread_pct = min_profitable_spread_bps e / 100
               in if total_spread_pct < min_spread_pct
                  then (let deficit = min_spread_pct - total_spread_pct
                        in (widen_first (- (deficit / 2)) buy, widen_first (deficit / 2) sell))
                  else (buy, sell))
         else (buy, sell))"

definition compute_levels_dual ::
  "spread_engine \<Rightarrow> real \<Rightarrow> real \<Rightarrow> nat \<Rightarrow> real list \<times> real list" where
  "compute_levels_dual e buy_aggressiveness sell_aggressiveness n_levels =
     (compute_side_levels e (buy_max_pct (se_cfg e)) (buy_min_pct (se_cfg e))
        (clip buy_aggressiveness 0 1) n_levels None,
      compute_side_levels e (sell_min_pct (se_cfg e)) (sell_max_pct (se_cfg e))
        (clip sell_aggressiveness 0 1) n_levels None)"

definition prices_from_spreads :: "real \<Rightarrow> real list \<Rightarrow> real list \<Rightarrow> real list \<times> real list" where
  "prices_from_spreads global_mid buy_spreads sell_spreads =
     (map (\<lambda>s. global_mid * (1 + s / 100)) buy_spreads,
      map (\<lambda>s. global_mid * (1 + s / 100)) sell_spreads)"

text \<open>The loop of \<open>enforce_min_step\<close> from level 1 on; \<open>prev\<close> is \<open>result[i - 1]\<close>.\<close>

fun step_outward :: "real \<Rightarrow> real \<Rightarrow> real list \<Rightarrow> real list" where
  "step_outward min_step prev [] = []"
| "step_outward min_step prev (x # xs) =
     (let min_required = (if prev > 0 then prev + min_step else prev - min_step);
          y = (if \<bar>x - prev\<bar> < min_step then min_required else x)
      in y # step_outward min_step y xs)"

definition enforce_min_step :: "real list \<Rightarrow> real \<Rightarrow> real list" where
  "enforce_min_step levels min_step =
     (if min_step \<le> 0 \<or> length levels < 2 then levels
      else (case levels of [] \<Rightarrow> [] | x # xs \<Rightarrow> x # step_outward min_step x xs))"

definition compute_levels_huy ::
  "spread_engine \<Rightarrow> real \<Rightarrow> real \<Rightarrow> nat \<Rightarrow> nat \<Rightarrow> real \<Rightarrow> real \<Rightarrow> real \<Rightarrow> real \<Rightarrow> real \<Rightarrow>
     real list \<times> real list" where
  "compute_levels_huy e buy_agg sell_agg buy_n sell_n buy_cs sell_cs buy_ms sell_ms spread_mult =
     (let mult = max 0.1 spread_mult; cfg = se_cfg e;
          buy = compute_side_levels e (buy_max_pct cfg * mult) (buy_min_pct cfg * mult)
                  (clip buy_agg 0 1) buy_n (Some buy_cs);
          sell = compute_side_levels e (sell_min_pct cfg * mult) (sell_max_pct cfg * mult)
                  (clip sell_agg 0 1) sell_n (Some sell_cs);
          buy' = (if 0 < buy_ms then enforce_min_step buy buy_ms else buy);
          sell' = (if 0 < sell_ms then enforce_min_step sell sell_ms else sell)
      in (buy', sell'))"

section \<open>The ladder of one side\<close>

lemma length_compute_side_levels [simp]: "length (compute_side_levels e a b g n cs) = n"
  by (simp add: compute_side_levels_def Let_def)

definition ladder_gamma :: "spread_engine \<Rightarrow> real \<Rightarrow> real option \<Rightarrow> real" where
  "ladder_gamma e agg cs =
     exp ((case cs of Some c \<Rightarrow> c | None \<Rightarrow> sp_curve_strength (se_cfg e)) * (2 * agg - 1))"

lemma ladder_gamma_pos [simp]: "0 < ladder_gamma e agg cs"
  by (simp add: ladder_gamma_def)

lemma side_level_nth:
  "i < n \<Longrightarrow> compute_side_levels e a b agg n cs ! i =
     a + (b - a) * np_pow (linspace01 n ! i) (ladder_gamma e agg cs)"
  by (simp add: compute_side_levels_def ladder_gamma_def Let_def)

lemma side_level_weight:
  "i < n \<Longrightarrow> 0 \<le> np_pow (linspace01 n ! i) (ladder_gamma e agg cs)
          \<and> np_pow (linspace01 n ! i) (ladder_gamma e agg cs) \<le> 1"
  using linspace01_range [of i n] by (intro np_pow_unit) auto

lemma side_level_first: "0 < n \<Longrightarrow> compute_side_levels e a b agg n cs ! 0 = a"
  by (simp add: side_level_nth linspace01_nth)

lemma side_level_last: "1 < n \<Longrightarrow> compute_side_levels e a b agg n cs ! (n - 1) = b"
  by (simp add: side_level_nth linspace01_nth)

lemma side_level_strict:
  assumes "i < j" "j < n"
  shows "a < b \<Longrightarrow> compute_side_levels e a b agg n cs ! i < compute_side_levels e a b agg n cs ! j"
    and "b < a \<Longrightarrow> compute_side_levels e a b agg n cs ! j < compute_side_levels e a b agg n cs ! i"
proof -
  let ?w = "\<lambda>k. np_pow (linspace01 n ! k) (ladder_gamma e agg cs)"
  have "?w i < ?w j"
    using assms linspace01_strict linspace01_range [of i n] by (intro np_pow_strict_mono) auto
  then show "a < b \<Longrightarrow> compute_side_levels e a b agg n cs ! i < compute_side_levels e a b agg n cs ! j"
    and "b < a \<Longrightarrow> compute_side_levels e a b agg n cs ! j < compute_side_levels e a b agg n cs ! i"
    using assms by (simp_all add: side_level_nth)
qed

text \<open>A level lies between the two ends of its ladder.\<close>

lemma convex_between:
  fixes a b t :: real
  assumes "0 \<le> t" "t \<le> 1"
  shows "min a b \<le> a + (b - a) * t" and "a + (b - a) * t \<le> max a b"
proof -
  have eq: "a + (b - a) * t = (1 - t) * a + t * b"
    by (simp add: algebra_simps)
  have "(1 - t) * min a b + t * min a b \<le> (1 - t) * a + t * b"
    using assms by (intro add_mono mult_left_mono) auto
  then show "min a b \<le> a + (b - a) * t" by (simp add: eq algebra_simps)
  have "(1 - t) * a + t * b \<le> (1 - t) * max a b + t * max a b"
    using assms by (intro add_mono mult_left_mono) auto
  then show "a + (b - a) * t \<le> max a b" by (simp add: eq algebra_simps)
qed

lemma side_level_between:
  assumes "x \<in> set (compute_side_levels e a b agg n cs)"
  shows "min a b \<le> x" and "x \<le> max a b"
proof -
  from assms obtain i where i: "i < n" and x: "x = compute_side_levels e a b agg n cs ! i"
    by (metis in_set_conv_nth length_compute_side_levels)
  have "0 \<le> np_pow (linspace01 n ! i) (ladder_gamma e agg cs)"
    "np_pow (linspace01 n ! i) (ladder_gamma e agg cs) \<le> 1"
    using side_level_weight [OF i] by auto
  from convex_between [OF this] show "min a b \<le> x" "x \<le> max a b"
    using i by (simp_all add: x side_level_nth)
qed

text \<open>
  A ladder of n \<ge> 2 levels starts exactly at the tightest spread and ends exactly at the
  widest, its levels are strictly monotone outward, and raising aggressiveness moves no level
  away from the tightest spread (stated for both directions, so for buy and for sell ladders).
\<close>

theorem ladder_shape:
  fixes e :: spread_engine
  assumes "2 \<le> n" and "0 \<le> cs" and "agg \<le> agg'" and "i < j" and "j < n" and "tightest \<noteq> widest"
  defines "L \<equiv> compute_side_levels e tightest widest agg n (Some cs)"
    and "L' \<equiv> compute_side_levels e tightest widest agg' n (Some cs)"
  shows "L ! 0 = tightest \<and> L ! (n - 1) = widest \<and>
         \<bar>L ! i - tightest\<bar> < \<bar>L ! j - tightest\<bar> \<and>
         \<bar>L' ! j - tightest\<bar> \<le> \<bar>L ! j - tightest\<bar>"
proof -
  let ?w = "\<lambda>a k. np_pow (linspace01 n ! k) (ladder_gamma e a (Some cs))"
  have dist: "\<bar>compute_side_levels e tightest widest a n (Some cs) ! k - tightest\<bar>
      = \<bar>widest - tightest\<bar> * ?w a k" if "k < n" for a k
    using side_level_weight [OF that, of e a "Some cs"] that by (simp add: side_level_nth abs_mult)
  have "?w agg i < ?w agg j"
    using assms(4,5) linspace01_strict linspace01_range [of i n] by (intro np_pow_strict_mono) auto
  moreover have "ladder_gamma e agg (Some cs) \<le> ladder_gamma e agg' (Some cs)"
    using assms(2,3) by (simp add: ladder_gamma_def mult_left_mono)
  then have "?w agg' j \<le> ?w agg j"
    using linspace01_range [OF assms(5)] by (intro np_pow_antimono_exp) auto
  ultimately show ?thesis
    using assms(1,4-6) side_level_first [of n] side_level_last [of n]
    by (simp add: L_def L'_def dist mult_left_mono)
qed

theorem ladder_shape_witness:
  "let L = compute_side_levels (new_spread_engine sample_spread 0) (- 0.1) (- 5) 0 5 (Some 4);
       L' = compute_side_levels (new_spread_engine sample_spread 0) (- 0.1) (- 5) 1 5 (Some 4)
   in L ! 0 = - 0.1 \<and> L ! (5 - 1) = - 5 \<and>
      \<bar>L ! 1 - - 0.1\<bar> < \<bar>L ! 2 - - 0.1\<bar> \<and> \<bar>L' ! 2 - - 0.1\<bar> \<le> \<bar>L ! 2 - - 0.1\<bar>"
  unfolding Let_def by (rule ladder_shape) simp_all

section \<open>The minimum step\<close>

definition gaps_at_least :: "real \<Rightarrow> real list \<Rightarrow> bool" where
  "gaps_at_least d xs \<longleftrightarrow> (\<forall>i. Suc i < length xs \<longrightarrow> d \<le> \<bar>xs ! Suc i - xs ! i\<bar>)"

lemma gaps_at_least_Cons:
  "gaps_at_least d (x # y # ys) \<longleftrightarrow> d \<le> \<bar>y - x\<bar> \<and> gaps_at_least d (y # ys)"
  by (auto simp: gaps_at_least_def nth_Cons split: nat.splits)

lemma gaps_at_least_single [simp]: "gaps_at_least d [x]" "gaps_at_least d []"
  by (simp_all add: gaps_at_least_def)

lemma length_step_outward [simp]: "length (step_outward m p xs) = length xs"
  by (induction xs arbitrary: p) (auto simp: Let_def)

lemma step_outward_gaps: "0 < m \<Longrightarrow> gaps_at_least m (p # step_outward m p xs)"
  by (induction xs arbitrary: p) (auto simp: gaps_at_least_Cons Let_def)

lemma step_outward_id: "gaps_at_least m (p # xs) \<Longrightarrow> step_outward m p xs = xs"
  by (induction xs arbitrary: p) (auto simp: gaps_at_least_Cons Let_def)

text \<open>
  With a positive minimum step, \<open>enforce_min_step\<close> returns as many levels as it was given,
  with the same first level, consecutive levels at least one step apart in absolute value, and
  a second application changes nothing.
\<close>

theorem enforce_min_step_spec:
  assumes "0 < m"
  shows "length (enforce_min_step xs m) = length xs \<and>
         (xs \<noteq> [] \<longrightarrow> hd (enforce_min_step xs m) = hd xs) \<and>
         gaps_at_least m (enforce_min_step xs m) \<and>
         enforce_min_step (enforce_min_step xs m) m = enforce_min_step xs m"
proof (cases xs)
  case Nil
  then show ?thesis by (simp add: enforce_min_step_def)
next
  case (Cons y ys)
  show ?thesis
  proof (cases ys)
    case Nil
    with Cons show ?thesis by (simp add: enforce_min_step_def)
  next
    case (Cons z zs)
    with \<open>xs = y # ys\<close> assms show ?thesis
      using step_outward_gaps [OF assms, of y ys] step_outward_id [of m y "step_outward m y ys"]
      by (simp add: enforce_min_step_def del: step_outward.simps)
  qed
qed

theorem enforce_min_step_spec_witness:
  "length (enforce_min_step [1, 1.001, 1.002] 0.1) = length [1, 1.001, 1.002 :: real] \<and>
   hd (enforce_min_step [1, 1.001, 1.002] 0.1) = 1 \<and>
   gaps_at_least 0.1 (enforce_min_step [1, 1.001, 1.002] 0.1) \<and>
   enforce_min_step (enforce_min_step [1, 1.001, 1.002] 0.1) 0.1 =
     enforce_min_step [1, 1.001, 1.002] 0.1"
  using enforce_min_step_spec [of "0.1" "[1, 1.001, 1.002]"] by simp

text \<open>
  The walk can fold a ladder back on itself: a sell level that lies more than a step inside
  the level just pushed outward is left where it is.  For four tightly clustered sell levels the
  last one ends up inside the second and closer than one step to the first.
\<close>

theorem enforce_min_step_folds_back:
  "enforce_min_step [1, 1.001, 1.002, 1.003] 0.1 = [1, 1.1, 1.2, 1.003] \<and>
   \<not> sorted (enforce_min_step [1, 1.001, 1.002, 1.003] 0.1) \<and>
   \<bar>enforce_min_step [1, 1.001, 1.002, 1.003] 0.1 ! 3 -
    enforce_min_step [1, 1.001, 1.002, 1.003] 0.1 ! 0\<bar> < 0.1"
  by (simp add: enforce_min_step_def Let_def) (rule exI [of _ "1.003"], simp)

section \<open>Both sides\<close>

lemma step_outward_neg:
  "p < 0 \<Longrightarrow> 0 < m \<Longrightarrow> \<forall>x \<in> set xs. x < 0 \<Longrightarrow> \<forall>y \<in> set (step_outward m p xs). y < 0"
proof (induction xs arbitrary: p)
  case (Cons a xs)
  have "\<forall>y \<in> set (step_outward m (p - m) xs). y < 0" "\<forall>y \<in> set (step_outward m a xs). y < 0"
    by (rule Cons.IH; use Cons.prems in auto)+
  with Cons.prems show ?case by (auto simp: Let_def)
qed simp

lemma step_outward_pos:
  "0 < p \<Longrightarrow> 0 < m \<Longrightarrow> \<forall>x \<in> set xs. 0 < x \<Longrightarrow> \<forall>y \<in> set (step_outward m p xs). 0 < y"
proof (induction xs arbitrary: p)
  case (Cons a xs)
  have "\<forall>y \<in> set (step_outward m (p + m) xs). 0 < y" "\<forall>y \<in> set (step_outward m a xs). 0 < y"
    by (rule Cons.IH; use Cons.prems in auto)+
  with Cons.prems show ?case by (auto simp: Let_def)
qed simp

lemma enforce_min_step_neg:
  "(\<And>x. x \<in> set xs \<Longrightarrow> x < 0) \<Longrightarrow> y \<in> set (enforce_min_step xs m) \<Longrightarrow> y < 0"
  using step_outward_neg [of "hd xs" m "tl xs"]
  by (cases xs) (auto simp: enforce_min_step_def not_le split: if_splits)

lemma enforce_min_step_pos:
  "(\<And>x. x \<in> set xs \<Longrightarrow> 0 < x) \<Longrightarrow> y \<in> set (enforce_min_step xs m) \<Longrightarrow> 0 < y"
  using step_outward_pos [of "hd xs" m "tl xs"]
  by (cases xs) (auto simp: enforce_min_step_def not_le split: if_splits)

lemma length_enforce_min_step [simp]: "length (enforce_min_step xs m) = length xs"
  by (cases xs) (auto simp: enforce_min_step_def)

lemma compute_levels_huy_lengths:
  assumes "compute_levels_huy e ba sa bn sn bcs scs bms sms mult = (buy, sell)"
  shows "length buy = bn" and "length sell = sn"
  using assms by (auto simp: compute_levels_huy_def Let_def split: if_splits)

lemma huy_buys_negative:
  assumes "spread_ok (se_cfg e)"
    and "compute_levels_huy e ba sa bn sn bcs scs bms sms mult = (buy, sell)" and "x \<in> set buy"
  shows "x < 0"
proof -
  let ?m = "max 0.1 mult" and ?c = "se_cfg e"
  have m: "0 < ?m" by simp
  let ?B = "compute_side_levels e (buy_max_pct ?c * ?m) (buy_min_pct ?c * ?m) (clip ba 0 1) bn (Some bcs)"
  have "buy_max_pct ?c * ?m < 0" "buy_min_pct ?c * ?m < 0"
    using assms(1) m by (auto simp: spread_ok_def mult_neg_pos)
  then have B: "y < 0" if "y \<in> set ?B" for y
    using side_level_between(2) [OF that] by linarith
  have "buy = (if 0 < bms then enforce_min_step ?B bms else ?B)"
    using assms(2) by (auto simp: compute_levels_huy_def Let_def)
  with assms(3) B enforce_min_step_neg show ?thesis by (metis (no_types, lifting))
qed

lemma huy_sells_positive:
  assumes "0 < sell_min_pct (se_cfg e)" and "0 < sell_max_pct (se_cfg e)"
    and "compute_levels_huy e ba sa bn sn bcs scs bms sms mult = (buy, sell)" and "x \<in> set sell"
  shows "0 < x"
proof -
  let ?m = "max 0.1 mult" and ?c = "se_cfg e"
  let ?S = "compute_side_levels e (sell_min_pct ?c * ?m) (sell_max_pct ?c * ?m) (clip sa 0 1) sn (Some scs)"
  have "0 < sell_min_pct ?c * ?m" "0 < sell_max_pct ?c * ?m" using assms(1,2) by simp_all
  then have S: "0 < y" if "y \<in> set ?S" for y
    using side_level_between(1) [OF that] by linarith
  have "sell = (if 0 < sms then enforce_min_step ?S sms else ?S)"
    using assms(3) by (auto simp: compute_levels_huy_def Let_def)
  with assms(4) S enforce_min_step_pos show ?thesis by (metis (no_types, lifting))
qed

text \<open>
  For every validated spread configuration all buy spreads are negative, whatever the
  aggressiveness, level count, curve, step and regime multiplier; if moreover the two sell
  bounds are positive (which validation does not ask for), all sell spreads are positive, so
  every unrounded buy price lies strictly below a positive mid and every sell price above it.
\<close>

theorem huy_sides_straddle_mid:
  assumes "spread_ok (se_cfg e)" and "0 < sell_min_pct (se_cfg e)" and "0 < sell_max_pct (se_cfg e)"
    and "compute_levels_huy e ba sa bn sn bcs scs bms sms mult = (buy, sell)"
    and "0 < mid"
  shows "(\<forall>p \<in> set (fst (prices_from_spreads mid buy sell)). p < mid) \<and>
         (\<forall>p \<in> set (snd (prices_from_spreads mid buy sell)). mid < p)"
  using assms(5) huy_buys_negative [OF assms(1,4)] huy_sells_positive [OF assms(2-4)]
  by (auto simp: prices_from_spreads_def mult_less_cancel_left_pos
      mult_less_cancel_left2 mult_less_cancel_left1)

theorem huy_sides_straddle_mid_witness:
  "let r = compute_levels_huy (new_spread_engine sample_spread 0) 0.5 0.5 3 3 4 4 0 0 1
   in (\<forall>p \<in> set (fst (prices_from_spreads 2 (fst r) (snd r))). p < 2) \<and>
      (\<forall>p \<in> set (snd (prices_from_spreads 2 (fst r) (snd r))). 2 < p)"
  unfolding Let_def
  by (rule huy_sides_straddle_mid [OF _ _ _ prod.collapse [symmetric]])
    (simp_all add: new_spread_engine_def sample_spread_ok, simp_all add: sample_spread_def)

text \<open>Validation accepts a sell bound below zero, and then a sell price lies below the mid.\<close>

lemma sell_bound_unchecked:
  "spread_ok (sample_spread\<lparr>sell_min_pct := - 1\<rparr>) \<and>
   (let r = compute_levels_huy (new_spread_engine (sample_spread\<lparr>sell_min_pct := - 1\<rparr>) 0)
              0.5 0.5 3 3 4 4 0 0 1
    in hd (snd (prices_from_spreads 2 (fst r) (snd r))) < 2)"
proof -
  have "compute_side_levels e (- 1) 7 (1 / 2) 3 (Some 4) ! 0 = - 1" for e
    by (rule side_level_first) simp
  moreover have "compute_side_levels e (- 1) 7 (1 / 2) 3 (Some 4) \<noteq> []" for e
    using length_compute_side_levels [of e "- 1" 7 "1 / 2" 3 "Some 4"] by fastforce
  ultimately show ?thesis
    by (simp add: spread_ok_def sample_spread_def between_def opt_ok_def compute_levels_huy_def
        new_spread_engine_def prices_from_spreads_def clip_def hd_map hd_conv_nth Let_def)
qed

section \<open>The profitable spread\<close>

lemma compute_levels_profitable:
  assumes "0 < n" and "0 < min_profitable_spread_bps e"
    and "compute_levels e agg n mult = (buy, sell)"
  shows "min_profitable_spread_bps e / 100 \<le> hd sell - hd buy"
proof -
  have ne: "compute_side_levels e a b g n cs \<noteq> []" for a b g cs
    using assms(1) by (metis length_compute_side_levels length_greater_0_conv)
  then have hdw: "hd (widen_first d (compute_side_levels e a b g n cs)) =
      hd (compute_side_levels e a b g n cs) + d" for a b g cs d
    by (auto simp: widen_first_def split: list.split)
  show ?thesis
    using assms(2,3) ne
    by (auto simp: compute_levels_def Let_def hdw split: if_splits) (simp add: field_simps)?
qed

end
