(* ===== verification/Depth.thy ===== *)
theory Depth
  imports MathUtils ConfigSchema
begin

text \<open>
  \<open>quant/depth_engine.py\<close>: the split of a side's budget over the order levels.  Lemmas: the
  blend of the two splits is again a split; every amount meets the minimum order size; amounts
  do not grow outward; the step that is meant to cap the total back to the budget never takes
  effect, so the total can exceed the budget, by how much is bounded; both sides together are
  budgeted at most 1.25 times the configured total.
\<close>

section \<open>Definitions\<close>

definition blend_ratio :: "depth_config \<Rightarrow> real \<Rightarrow> nat \<Rightarrow> real list" where
  "blend_ratio cfg agg n =
     (let blend = np_pow agg (dp_curve_strength cfg)
      in map2 (\<lambda>p q. (1 - blend) * p + blend * q) (geometric_decay n 0.8) (equal_split n))"

definition side_budget :: "depth_config \<Rightarrow> real \<Rightarrow> string \<Rightarrow> real \<Rightarrow> real" where
  "side_budget cfg skew side depth_mult =
     (let mult = max 0 depth_mult; half_budget = total_budget_usd cfg / 2 * mult
      in if side = ''buy'' then half_budget * clip skew 0.5 2
         else half_budget * clip (2 - skew) 0.5 2)"

text \<open>The loop that enforces the minimum decrement; \<open>prev\<close> is \<open>raw_amounts[i - 1]\<close>.\<close>

fun step_down :: "real \<Rightarrow> real \<Rightarrow> real list \<Rightarrow> real list" where
  "step_down min_step prev [] = []"
| "step_down min_step prev (x # xs) =
     (let min_val = prev - min_step; y = (if x > min_val then max min_val 0 else x)
      in y # step_down min_step y xs)"

definition enforce_decrement :: "real \<Rightarrow> real list \<Rightarrow> real list" where
  "enforce_decrement min_step amounts =
     (if 0 < min_step \<and> 1 < length amounts
      then (case amounts of [] \<Rightarrow> [] | x # xs \<Rightarrow> x # step_down min_step x xs)
      else amounts)"

text \<open>
  The floor at the minimum order size followed by the conditional rescaling.  An empty array
  sums to 0 and never reaches \<open>scaled.min()\<close>, because a side budget is not negative.
\<close>

definition cap_total :: "real \<Rightarrow> real \<Rightarrow> real list \<Rightarrow> real list" where
  "cap_total min_order budget amounts =
     (let total_after_min = sum_list amounts
      in if total_after_min > budget
         then (let scaled = map (\<lambda>x. x * (budget / total_after_min)) amounts
               in if \<forall>x \<in> set scaled. min_order \<le> x then scaled else amounts)
         else amounts)"

definition compute_amounts ::
  "depth_config \<Rightarrow> real \<Rightarrow> nat \<Rightarrow> real \<Rightarrow> string \<Rightarrow> real \<Rightarrow> real \<Rightarrow> real list" where
  "compute_amounts cfg aggressiveness n_levels skew side min_step depth_mult =
     (let agg = clip aggressiveness 0 1;
          budget = side_budget cfg skew side depth_mult;
          raw_amounts = enforce_decrement min_step
                          (map (\<lambda>r. r * budget) (blend_ratio cfg agg n_levels));
          amounts = map (\<lambda>x. max x (min_order_usd cfg)) raw_amounts;
          capped = cap_total (min_order_usd cfg) budget amounts
      in map (\<lambda>x. max x (min_order_usd cfg)) capped)"

definition usd_to_token_amount :: "real \<Rightarrow> real \<Rightarrow> real" where
  "usd_to_token_amount usd_amount price = (if price \<le> 0 then 0 else usd_amount / price)"

section \<open>The blended split\<close>

lemma length_blend_ratio [simp]: "length (blend_ratio cfg agg n) = n"
  by (simp add: blend_ratio_def Let_def geo.shares_length eqd.shares_length)

lemma blend_ratio_nth:
  "i < n \<Longrightarrow> blend_ratio cfg agg n ! i =
     (1 - np_pow agg (dp_curve_strength cfg)) * geometric_decay n 0.8 ! i
     + np_pow agg (dp_curve_strength cfg) * equal_split n ! i"
  by (simp add: blend_ratio_def Let_def geo.shares_length eqd.shares_length)

lemma sum_list_map2_add:
  "length xs = length ys \<Longrightarrow>
   sum_list (map2 (\<lambda>p q. a * p + b * q) xs ys) = a * sum_list xs + b * sum_list (ys :: real list)"
  by (induction xs ys rule: list_induct2) (auto simp: algebra_simps)

text \<open>The blend promises what its two ingredients promise.\<close>

lemma blend_distribution:
  assumes "0 \<le> agg" "agg \<le> 1" "0 < dp_curve_strength cfg"
  shows "distribution (blend_ratio cfg agg)"
proof unfold_locales
  fix n i j :: nat
  let ?b = "np_pow agg (dp_curve_strength cfg)"
  have b: "0 \<le> ?b" "?b \<le> 1" using np_pow_unit assms by auto
  show "length (blend_ratio cfg agg n) = n" by simp
  show "i < n \<Longrightarrow> 0 \<le> blend_ratio cfg agg n ! i"
    using b geo.shares_nonneg eqd.shares_nonneg by (simp add: blend_ratio_nth)
  show "0 < n \<Longrightarrow> sum_list (blend_ratio cfg agg n) = 1"
    using geo.shares_sum [of n] eqd.shares_sum [of n]
    by (simp add: blend_ratio_def Let_def sum_list_map2_add geo.shares_length eqd.shares_length)
  assume "i \<le> j" "j < n"
  then show "blend_ratio cfg agg n ! j \<le> blend_ratio cfg agg n ! i"
    using b geo.shares_antimono [of i j n] eqd.shares_antimono [of i j n]
    by (simp add: blend_ratio_nth add_mono mult_left_mono)
qed

lemma side_budget_nonneg: "0 < total_budget_usd cfg \<Longrightarrow> 0 \<le> side_budget cfg skew side mult"
  using clip_ge [of "0.5" skew 2] clip_ge [of "0.5" "2 - skew" 2]
  by (auto simp: side_budget_def Let_def intro!: mult_nonneg_nonneg)

section \<open>The decrement loop\<close>

lemma length_step_down [simp]: "length (step_down m p xs) = length xs"
  by (induction xs arbitrary: p) (auto simp: Let_def)

lemma length_enforce_decrement [simp]: "length (enforce_decrement m xs) = length xs"
  by (cases xs) (auto simp: enforce_decrement_def)

lemma step_down_le: "(\<forall>x \<in> set xs. 0 \<le> x) \<Longrightarrow> list_all2 (\<le>) (step_down m p xs) xs"
proof (induction xs arbitrary: p)
  case (Cons x xs)
  have "list_all2 (\<le>) (step_down m y xs) xs" for y
    by (rule Cons.IH) (use Cons.prems in simp)
  with Cons.prems show ?case by (simp add: Let_def)
qed simp

lemma step_down_nonneg: "(\<forall>x \<in> set xs. 0 \<le> x) \<Longrightarrow> \<forall>x \<in> set (step_down m p xs). 0 \<le> x"
proof (induction xs arbitrary: p)
  case (Cons x xs)
  have "\<forall>z \<in> set (step_down m y xs). 0 \<le> z" for y
    by (rule Cons.IH) (use Cons.prems in simp)
  with Cons.prems show ?case by (simp add: Let_def)
qed simp

lemma enforce_decrement_nonneg:
  "(\<forall>x \<in> set xs. 0 \<le> x) \<Longrightarrow> \<forall>x \<in> set (enforce_decrement m xs). 0 \<le> x"
  using step_down_nonneg [of "tl xs" m "hd xs"]
  by (cases xs) (auto simp: enforce_decrement_def)

lemma list_all2_sum_list: "list_all2 (\<le>) xs ys \<Longrightarrow> sum_list xs \<le> sum_list (ys :: real list)"
  by (induction rule: list_all2_induct) auto

lemma enforce_decrement_sum:
  "(\<forall>x \<in> set xs. 0 \<le> x) \<Longrightarrow> sum_list (enforce_decrement m xs) \<le> sum_list xs"
  using list_all2_sum_list [OF step_down_le, of "tl xs" m "hd xs"]
  by (cases xs) (auto simp: enforce_decrement_def)

lemma step_down_sorted:
  "0 \<le> m \<Longrightarrow> 0 \<le> p \<Longrightarrow> sorted_wrt (\<ge>) (q # xs) \<Longrightarrow> (\<forall>x \<in> set xs. 0 \<le> x) \<Longrightarrow>
   p \<le> q \<Longrightarrow> sorted_wrt (\<ge>) (p # step_down m p xs)"
proof (induction xs arbitrary: p q)
  case (Cons x xs)
  let ?y = "if x > p - m then max (p - m) 0 else x"
  have y: "0 \<le> ?y" "?y \<le> p" "?y \<le> x"
    using Cons.prems by auto
  have "sorted_wrt (\<ge>) (?y # step_down m ?y xs)"
    by (rule Cons.IH [of _ x]) (use Cons.prems y in auto)
  with y show ?case by (fastforce simp: Let_def intro: order_trans)
qed simp

lemma enforce_decrement_sorted:
  assumes "sorted_wrt (\<ge>) xs" and "\<forall>x \<in> set xs. 0 \<le> x"
  shows "sorted_wrt (\<ge>) (enforce_decrement m xs)"
  using assms step_down_sorted [of m "hd xs" "hd xs" "tl xs"]
  by (cases xs) (auto simp: enforce_decrement_def)

section \<open>The cap on the total\<close>

text \<open>
  When the amounts after the floor exceed the budget although the raw amounts did not, one of
  them sits exactly at the floor; scaling pushes that one below the floor, so the scaled list
  is thrown away.
\<close>

lemma cap_total_noop:
  assumes "0 < m" and "0 \<le> budget" and "sum_list raw \<le> budget"
  shows "cap_total m budget (map (\<lambda>x. max x m) raw) = map (\<lambda>x. max x m) raw"
proof (cases "sum_list (map (\<lambda>x. max x m) raw) > budget")
  case False
  then show ?thesis by (simp add: cap_total_def)
next
  case True
  let ?am = "map (\<lambda>x. max x m) raw"
  let ?s = "budget / sum_list ?am"
  have "\<exists>x \<in> set raw. x < m"
  proof (rule ccontr)
    assume "\<not> ?thesis"
    then have "?am = raw" by (auto intro!: map_idI)
    with True assms(3) show False by simp
  qed
  then have mem: "m \<in> set ?am" by (force simp: max_def)
  have "?s < 1" using True assms(2) by (simp add: divide_less_eq_1)
  then have "m * ?s < m" using mult_strict_left_mono [of ?s 1 m] assms(1) by simp
  then have "\<not> (\<forall>x \<in> set (map (\<lambda>x. x * ?s) ?am). m \<le> x)"
    using mem by (metis (no_types, lifting) image_eqI linorder_not_le list.set_map)
  then show ?thesis by (auto simp: cap_total_def Let_def)
qed

definition raw_amounts :: "depth_config \<Rightarrow> real \<Rightarrow> nat \<Rightarrow> real \<Rightarrow> string \<Rightarrow> real \<Rightarrow> real \<Rightarrow> real list" where
  "raw_amounts cfg aggressiveness n skew side min_step depth_mult =
     enforce_decrement min_step (map (\<lambda>r. r * side_budget cfg skew side depth_mult)
       (blend_ratio cfg (clip aggressiveness 0 1) n))"

lemma blend_dist: "depth_ok cfg \<Longrightarrow> distribution (blend_ratio cfg (clip agg 0 1))"
  by (intro blend_distribution) (auto simp: depth_ok_def between_def)

lemma raw_ratio_nonneg:
  assumes "depth_ok cfg"
  shows "\<forall>x \<in> set (map (\<lambda>r. r * side_budget cfg skew side mult) (blend_ratio cfg (clip agg 0 1) n)).
         0 \<le> x"
  using distribution.shares_nonneg [OF blend_dist [OF assms]]
    side_budget_nonneg [of cfg skew side mult] assms
  by (force simp: in_set_conv_nth depth_ok_def)

lemma raw_amounts_sum:
  assumes "depth_ok cfg"
  shows "sum_list (raw_amounts cfg agg n skew side ms mult) \<le> side_budget cfg skew side mult"
proof (cases "n = 0")
  case True
  then show ?thesis
    using side_budget_nonneg [of cfg skew side mult] assms
    by (simp add: raw_amounts_def blend_ratio_def geometric_decay_def enforce_decrement_def depth_ok_def)
next
  case False
  then have "sum_list (map (\<lambda>r. r * side_budget cfg skew side mult) (blend_ratio cfg (clip agg 0 1) n))
      = side_budget cfg skew side mult"
    by (intro distribution.budget_spent [OF blend_dist [OF assms]]) simp
  then show ?thesis
    using enforce_decrement_sum [OF raw_ratio_nonneg [OF assms], of ms skew side mult agg n]
    by (simp add: raw_amounts_def)
qed

lemma raw_amounts_sorted:
  assumes "depth_ok cfg"
  shows "sorted_wrt (\<ge>) (raw_amounts cfg agg n skew side ms mult)"
proof -
  have "sorted_wrt (\<ge>) (map (\<lambda>r. r * side_budget cfg skew side mult) (blend_ratio cfg (clip agg 0 1) n))"
    using distribution.shares_antimono [OF blend_dist [OF assms]]
      side_budget_nonneg [of cfg skew side mult] assms
    by (auto simp: sorted_wrt_iff_nth_less depth_ok_def intro!: mult_right_mono)
  then show ?thesis
    unfolding raw_amounts_def by (rule enforce_decrement_sorted [OF _ raw_ratio_nonneg [OF assms]])
qed

lemma amounts_eq:
  assumes "depth_ok cfg"
  shows "compute_amounts cfg agg n skew side ms mult =
   map (\<lambda>x. max x (min_order_usd cfg)) (raw_amounts cfg agg n skew side ms mult)"
proof -
  have "cap_total (min_order_usd cfg) (side_budget cfg skew side mult)
          (map (\<lambda>x. max x (min_order_usd cfg)) (raw_amounts cfg agg n skew side ms mult)) =
        map (\<lambda>x. max x (min_order_usd cfg)) (raw_amounts cfg agg n skew side ms mult)"
    using assms side_budget_nonneg raw_amounts_sum by (intro cap_total_noop) (auto simp: depth_ok_def)
  then show ?thesis
    by (simp add: compute_amounts_def raw_amounts_def Let_def)
qed

lemma length_compute_amounts:
  "depth_ok cfg \<Longrightarrow> length (compute_amounts cfg agg n skew side ms mult) = n"
  by (simp add: amounts_eq raw_amounts_def)

text \<open>
  The step meant to "cap total back to side_budget" never takes effect: for every validated
  depth configuration the amounts are the raw split with each entry raised to the minimum order
  size, exactly as if the rescaling code were not there.
\<close>

theorem budget_cap_never_applies:
  assumes "depth_ok cfg"
  shows "compute_amounts cfg agg n skew side ms mult =
         map (\<lambda>x. max x (min_order_usd cfg))
           (enforce_decrement ms (map (\<lambda>r. r * side_budget cfg skew side mult)
              (blend_ratio cfg (clip agg 0 1) n)))"
  using amounts_eq [OF assms] by (simp add: raw_amounts_def)

theorem budget_cap_never_applies_witness:
  "compute_amounts sample_depth 0 15 1 ''buy'' 0 1 =
   map (\<lambda>x. max x (min_order_usd sample_depth))
     (enforce_decrement 0 (map (\<lambda>r. r * side_budget sample_depth 1 ''buy'' 1)
        (blend_ratio sample_depth (clip 0 0 1) 15)))"
  by (rule budget_cap_never_applies [OF sample_depth_ok])

text \<open>
  C36. For every validated depth configuration: one amount per level, every amount at least the
  minimum order size, amounts never increase outward, and the total exceeds the side's budget
  by at most the minimum order size per level.
\<close>

theorem compute_amounts_spec:
  assumes "depth_ok cfg"
  shows "length (compute_amounts cfg agg n skew side ms mult) = n \<and>
         (\<forall>a \<in> set (compute_amounts cfg agg n skew side ms mult). min_order_usd cfg \<le> a) \<and>
         sorted_wrt (\<ge>) (compute_amounts cfg agg n skew side ms mult) \<and>
         sum_list (compute_amounts cfg agg n skew side ms mult)
           \<le> side_budget cfg skew side mult + real n * min_order_usd cfg"
proof -
  let ?raw = "raw_amounts cfg agg n skew side ms mult" and ?m = "min_order_usd cfg"
  have m: "0 < ?m" using assms by (simp add: depth_ok_def)
  have nonneg: "\<forall>x \<in> set ?raw. 0 \<le> x"
    unfolding raw_amounts_def
    by (rule enforce_decrement_nonneg [OF raw_ratio_nonneg [OF assms]])
  have "sorted_wrt (\<ge>) (map (\<lambda>x. max x ?m) ?raw)"
    using raw_amounts_sorted [OF assms, of agg n skew side ms mult]
    by (auto simp: sorted_wrt_map intro: sorted_wrt_mono_rel [rotated])
  moreover have "sum_list (map (\<lambda>x. max x ?m) ?raw) \<le> sum_list (map (\<lambda>x. x + ?m) ?raw)"
    using nonneg m by (intro sum_list_le_map) auto
  then have "sum_list (map (\<lambda>x. max x ?m) ?raw) \<le> sum_list ?raw + real n * ?m"
    by (simp add: sum_list_addf sum_list_triv raw_amounts_def)
  ultimately show ?thesis
    using raw_amounts_sum [OF assms, of agg n skew side ms mult]
      length_compute_amounts [OF assms, of agg n skew side ms mult]
    by (auto simp: amounts_eq [OF assms])
qed

theorem compute_amounts_spec_witness:
  "length (compute_amounts sample_depth 0 15 1 ''buy'' 0 1) = 15 \<and>
   list_all (\<lambda>a. min_order_usd sample_depth \<le> a) (compute_amounts sample_depth 0 15 1 ''buy'' 0 1) \<and>
   sorted_wrt (\<ge>) (compute_amounts sample_depth 0 15 1 ''buy'' 0 1) \<and>
   sum_list (compute_amounts sample_depth 0 15 1 ''buy'' 0 1)
     \<le> side_budget sample_depth 1 ''buy'' 1 + real 15 * min_order_usd sample_depth"
  unfolding list_all_iff by (rule compute_amounts_spec [OF sample_depth_ok])

lemma compute_amounts_min: "a \<in> set (compute_amounts cfg agg n skew side ms mult) \<Longrightarrow> min_order_usd cfg \<le> a"
  by (auto simp: compute_amounts_def Let_def)

text \<open>
  The budget is really exceeded under the default configuration: 15 levels, a budget of 1000
  USD, minimum order 5 USD, balanced inventory, aggressiveness 0: the buy side is allotted 500
  USD and the amounts add up to more.
\<close>

theorem default_config_overspends:
  "side_budget sample_depth 1 ''buy'' 1 = 500 \<and>
   500 < sum_list (compute_amounts sample_depth 0 15 1 ''buy'' 0 1)"
  unfolding amounts_eq [OF sample_depth_ok] raw_amounts_def
  by (simp add: sample_depth_def side_budget_def clip_def enforce_decrement_def
      blend_ratio_def np_pow_def geometric_decay_def equal_split_def Let_def upt_rec numeral_eq_Suc)

text \<open>
  Both sides together are never budgeted more than 1.25 times the configured total (times
  the regime multiplier), and with the skew at its maximum the bound is reached: a quarter more
  than \<open>total_budget_usd\<close> is committed.
\<close>

theorem both_sides_budget:
  assumes "0 < total_budget_usd cfg" and "0 \<le> mult" and "0.5 \<le> skew" and "skew \<le> 2"
  shows "side_budget cfg skew ''buy'' mult + side_budget cfg skew ''sell'' mult
           \<le> 1.25 * total_budget_usd cfg * mult \<and>
         side_budget cfg 2 ''buy'' mult + side_budget cfg 2 ''sell'' mult
           = 1.25 * total_budget_usd cfg * mult"
proof -
  have "clip skew 0.5 2 + clip (2 - skew) 0.5 2 \<le> 2.5"
    using assms(3,4) by (simp add: clip_def max_def)
  moreover have "0 \<le> total_budget_usd cfg / 2 * mult"
    using assms(1,2) by simp
  ultimately have
    "total_budget_usd cfg / 2 * mult * (clip skew 0.5 2 + clip (2 - skew) 0.5 2)
      \<le> total_budget_usd cfg / 2 * mult * 2.5"
    by (rule mult_left_mono)
  then show ?thesis
    using assms(2) by (simp add: side_budget_def Let_def max_absorb2 algebra_simps)
      (simp add: clip_def)
qed

theorem both_sides_budget_witness:
  "side_budget sample_depth 1 ''buy'' 1 + side_budget sample_depth 1 ''sell'' 1
     \<le> 1.25 * total_budget_usd sample_depth * 1 \<and>
   side_budget sample_depth 2 ''buy'' 1 + side_budget sample_depth 2 ''sell'' 1
     = 1.25 * total_budget_usd sample_depth * 1"
  by (rule both_sides_budget) (simp_all add: sample_depth_def)

section \<open>USD to tokens\<close>

lemma usd_to_token_value: "0 < p \<Longrightarrow> usd_to_token_amount u p * p = u"
  by (simp add: usd_to_token_amount_def)

lemma usd_to_token_pos: "0 < u \<Longrightarrow> 0 < p \<Longrightarrow> 0 < usd_to_token_amount u p"
  by (simp add: usd_to_token_amount_def)

lemma usd_to_token_nonneg: "0 \<le> u \<Longrightarrow> 0 \<le> usd_to_token_amount u p"
  by (simp add: usd_to_token_amount_def)

end
