(* ===== verification/Aggressiveness.thy ===== *)
theory Aggressiveness
  imports MathUtils ConfigSchema
begin

text \<open>
  \<open>quant/aggressiveness.py\<close>: the map from volatility to aggressiveness and its two regime
  overlays (Zhang-Zhang, HMM).  The lemmas bound every result, show that aggressiveness
  falls as volatility rises, and say exactly when the crash floor on the buy side holds.
\<close>

section \<open>Definitions\<close>

definition compute_agg :: "volatility_config \<Rightarrow> real \<Rightarrow> real" where
  "compute_agg cfg vol =
     (let lo = low_threshold cfg; hi = high_threshold cfg; p = vol_power cfg
      in if vol \<le> lo then 1
         else if vol \<ge> hi then 0
         else (let normalised = (vol - lo) / (hi - lo); agg = 1 - np_pow normalised p
               in clip agg 0 1))"

definition compute_with_regime :: "volatility_config \<Rightarrow> real \<Rightarrow> string \<Rightarrow> real \<times> real" where
  "compute_with_regime cfg vol regime =
     (let base_agg = compute_agg cfg vol
      in if regime = ''trending_up'' then (clip (base_agg * 0.8) 0 1, clip (base_agg * 1.1) 0 1)
         else if regime = ''trending_down''
              then (clip (base_agg * 1.1) 0 1, clip (base_agg * 0.8) 0 1)
         else (base_agg, base_agg))"

text \<open>The adjusted pair before the confidence blend; \<open>None\<close> is the early return.\<close>

definition hmm_overlay :: "hmm_config \<Rightarrow> string \<Rightarrow> real \<Rightarrow> real \<Rightarrow> (real \<times> real) option" where
  "hmm_overlay h hmm_regime zz_buy zz_sell =
     (if hmm_regime = ''LOW_VOL'' then Some (zz_buy * 1.1, zz_sell * 1.1)
      else if hmm_regime = ''HIGH_VOL'' then Some (zz_buy * 0.7, zz_sell * 0.6)
      else if hmm_regime = ''HIGH_VOL_CRASH''
           then Some (max zz_buy (crash_buy_agg_floor h), min zz_sell (crash_sell_agg_ceiling h))
      else if hmm_regime = ''RECOVERY''
           then Some (zz_buy * recovery_buy_agg_boost h, zz_sell * recovery_sell_agg_dampen h)
      else None)"

definition compute_with_hmm_regime ::
  "volatility_config \<Rightarrow> real \<Rightarrow> string \<Rightarrow> string \<Rightarrow> real \<Rightarrow> real \<times> real" where
  "compute_with_hmm_regime cfg vol zz_regime hmm_regime hmm_confidence =
     (let (zz_buy, zz_sell) = compute_with_regime cfg vol zz_regime
      in case hmm_overlay (hmm cfg) hmm_regime zz_buy zz_sell of
           None \<Rightarrow> (zz_buy, zz_sell)
         | Some (buy_agg, sell_agg) \<Rightarrow>
             if hmm_confidence < 0.5
             then (let blend = hmm_confidence / 0.5
                   in (clip (zz_buy + blend * (buy_agg - zz_buy)) 0 1,
                       clip (zz_sell + blend * (sell_agg - zz_sell)) 0 1))
             else (clip buy_agg 0 1, clip sell_agg 0 1))"

section \<open>Bounds\<close>

lemma compute_agg_range: "0 \<le> compute_agg cfg vol" "compute_agg cfg vol \<le> 1"
  by (auto simp: compute_agg_def Let_def)

lemma compute_agg_low: "vol \<le> low_threshold cfg \<Longrightarrow> compute_agg cfg vol = 1"
  by (simp add: compute_agg_def)

lemma compute_agg_high:
  "low_threshold cfg < vol \<Longrightarrow> high_threshold cfg \<le> vol \<Longrightarrow> compute_agg cfg vol = 0"
  by (simp add: compute_agg_def)

lemma compute_with_regime_range:
  assumes "compute_with_regime cfg vol regime = (b, s)"
  shows "0 \<le> b \<and> b \<le> 1 \<and> 0 \<le> s \<and> s \<le> 1"
  using assms compute_agg_range [of cfg vol]
  by (auto simp: compute_with_regime_def Let_def split: if_splits)

lemma compute_with_hmm_regime_range:
  assumes "compute_with_hmm_regime cfg vol zz h conf = (b, s)"
  shows "0 \<le> b \<and> b \<le> 1 \<and> 0 \<le> s \<and> s \<le> 1"
proof -
  obtain zb zs where zz: "compute_with_regime cfg vol zz = (zb, zs)"
    by fastforce
  show ?thesis
    using assms compute_with_regime_range [OF zz]
    by (auto simp: compute_with_hmm_regime_def zz Let_def split: option.splits if_splits)
qed

section \<open>More volatility, less aggressiveness\<close>

lemma compute_agg_inside:
  assumes "low_threshold cfg < vol" and "vol < high_threshold cfg" and "0 < vol_power cfg"
  shows "compute_agg cfg vol =
         1 - np_pow ((vol - low_threshold cfg) / (high_threshold cfg - low_threshold cfg)) (vol_power cfg)"
proof -
  let ?t = "(vol - low_threshold cfg) / (high_threshold cfg - low_threshold cfg)"
  have "0 \<le> ?t" "?t \<le> 1"
    using assms by (simp_all add: divide_le_eq_1)
  then have "0 \<le> np_pow ?t (vol_power cfg) \<and> np_pow ?t (vol_power cfg) \<le> 1"
    using assms(3) by (rule np_pow_unit)
  with assms show ?thesis
    by (simp add: compute_agg_def Let_def clip_def)
qed

text \<open>
  Aggressiveness never rises with volatility: for every configuration with a positive
  power, a higher volatility reading gives an aggressiveness that is no larger, and both lie
  between 0 and 1.
\<close>

theorem aggressiveness_antitone:
  assumes "0 < vol_power cfg" and "v \<le> w"
  shows "0 \<le> compute_agg cfg w \<and> compute_agg cfg w \<le> compute_agg cfg v \<and> compute_agg cfg v \<le> 1"
proof -
  let ?lo = "low_threshold cfg" and ?hi = "high_threshold cfg"
  have "compute_agg cfg w \<le> compute_agg cfg v"
  proof (cases "?lo < v \<and> w < ?hi")
    case True
    with assms have v: "?lo < v" "v < ?hi" and w: "?lo < w" "w < ?hi" by auto
    have "(v - ?lo) / (?hi - ?lo) \<le> (w - ?lo) / (?hi - ?lo)"
      using assms v by (simp add: divide_right_mono)
    then have "np_pow ((v - ?lo) / (?hi - ?lo)) (vol_power cfg) \<le> np_pow ((w - ?lo) / (?hi - ?lo)) (vol_power cfg)"
      using assms(1) v by (intro np_pow_mono) auto
    then show ?thesis
      by (simp add: compute_agg_inside [OF v assms(1)] compute_agg_inside [OF w assms(1)])
  next
    case False
    then show ?thesis
      using compute_agg_low [of v cfg] compute_agg_high [of cfg w] compute_agg_range [of cfg w]
        compute_agg_range [of cfg v]
      by (metis linorder_not_le order.trans assms(2))
  qed
  then show ?thesis using compute_agg_range [of cfg v] compute_agg_range [of cfg w] by simp
qed

definition sample_volatility :: volatility_config where
  "sample_volatility =
     \<lparr>window_minutes = 10, low_threshold = 0.001, high_threshold = 0.003, vol_power = 2,
      base_aggressiveness = 1, trending_threshold = 0.0015, choppy_threshold = 0.0005,
      hmm = default_hmm_config\<rparr>"

lemma sample_volatility_simps [simp]:
  "low_threshold sample_volatility = 0.001" "high_threshold sample_volatility = 0.003"
  "vol_power sample_volatility = 2" "base_aggressiveness sample_volatility = 1"
  "hmm sample_volatility = default_hmm_config" "window_minutes sample_volatility = 10"
  "trending_threshold sample_volatility = 0.0015" "choppy_threshold sample_volatility = 0.0005"
  by (simp_all add: sample_volatility_def)

lemma default_hmm_ok: "hmm_ok default_hmm_config"
  by (simp add: hmm_ok_def default_hmm_config_def between_def)

theorem aggressiveness_antitone_witness:
  "0 \<le> compute_agg sample_volatility 0.003 \<and>
   compute_agg sample_volatility 0.003 \<le> compute_agg sample_volatility 0.002 \<and>
   compute_agg sample_volatility 0.002 \<le> 1"
  by (rule aggressiveness_antitone) simp_all

section \<open>The crash floor\<close>

text \<open>
  In the HIGH_VOL_CRASH regime with a confidence of at least one half, the buy
  aggressiveness never falls below the configured floor and the sell aggressiveness never
  exceeds the configured ceiling, whatever the volatility and the Zhang-Zhang regime are.
\<close>

theorem crash_floor_holds:
  assumes "hmm_ok (hmm cfg)" and "0.5 \<le> conf"
    and "compute_with_hmm_regime cfg vol zz ''HIGH_VOL_CRASH'' conf = (b, s)"
  shows "crash_buy_agg_floor (hmm cfg) \<le> b \<and> s \<le> crash_sell_agg_ceiling (hmm cfg)"
proof -
  obtain zb zs where zz: "compute_with_regime cfg vol zz = (zb, zs)"
    by fastforce
  show ?thesis
    using assms compute_with_regime_range [OF zz]
    by (auto simp: compute_with_hmm_regime_def zz hmm_overlay_def hmm_ok_def between_def clip_def)
qed

theorem crash_floor_holds_witness:
  "crash_buy_agg_floor (hmm sample_volatility) \<le>
     fst (compute_with_hmm_regime sample_volatility 0.02 ''choppy'' ''HIGH_VOL_CRASH'' 0.9) \<and>
   snd (compute_with_hmm_regime sample_volatility 0.02 ''choppy'' ''HIGH_VOL_CRASH'' 0.9) \<le>
     crash_sell_agg_ceiling (hmm sample_volatility)"
  by (rule crash_floor_holds [OF _ _ prod.collapse [symmetric]]) (simp_all add: default_hmm_ok)

text \<open>
  Below a confidence of one half the floor is not a floor: with volatility at or above the
  high threshold the buy aggressiveness in HIGH_VOL_CRASH is exactly the floor scaled by twice
  the confidence, so it goes to zero with the confidence.
\<close>

theorem crash_floor_fades:
  assumes "hmm_ok (hmm cfg)" and "0 \<le> conf" and "conf < 0.5"
    and "low_threshold cfg < vol" and "high_threshold cfg \<le> vol"
  shows "compute_with_hmm_regime cfg vol zz ''HIGH_VOL_CRASH'' conf =
         (2 * conf * crash_buy_agg_floor (hmm cfg), 0)"
proof -
  have z: "compute_with_regime cfg vol zz = (0, 0)"
    using assms by (simp add: compute_with_regime_def compute_agg_high clip_def)
  let ?f = "crash_buy_agg_floor (hmm cfg)"
  have f: "0 \<le> ?f" "?f \<le> 1" and c: "0 \<le> crash_sell_agg_ceiling (hmm cfg)"
    using assms(1) by (auto simp: hmm_ok_def between_def)
  have "2 * conf * ?f \<le> 1"
    using mult_le_one [of "2 * conf" ?f] assms(3) f by simp
  then have x: "clip (2 * conf * ?f) 0 1 = 2 * conf * ?f"
    using assms(2) f by (intro clip_id) auto
  have "max 0 ?f = ?f" and "min 0 (crash_sell_agg_ceiling (hmm cfg)) = 0"
    using f c by simp_all
  then have "compute_with_hmm_regime cfg vol zz ''HIGH_VOL_CRASH'' conf =
      (clip (conf * 2 * ?f) 0 1, clip 0 0 1)"
    using assms(3) by (simp add: compute_with_hmm_regime_def z hmm_overlay_def)
  moreover have "conf * 2 = 2 * conf" by simp
  ultimately show ?thesis by (simp only: x) (simp add: clip_def)
qed

theorem crash_floor_fades_witness:
  "compute_with_hmm_regime sample_volatility 0.02 ''choppy'' ''HIGH_VOL_CRASH'' 0 =
   (2 * 0 * crash_buy_agg_floor (hmm sample_volatility), 0)"
  by (rule crash_floor_fades) (simp_all add: default_hmm_ok)

end
