(* ===== verification/RegimeDetector.thy ===== *)
theory RegimeDetector
  imports Prelude
begin

text \<open>
  \<open>quant/regime_detector.py\<close>: the discrete four-state hidden Markov model behind the regime
  master, its observation encoding, the belief update and Baum-Welch training.  Numpy vectors
  and matrices are lists and lists of rows.  Saving and loading a pickle is not modelled.
\<close>

section \<open>Constants\<close>

definition REGIME_NAMES :: "string list" where
  "REGIME_NAMES = [''RANGING'', ''TRENDING'', ''HIGH_VOL'', ''THIN_BOOK'']"

definition N_STATES :: nat where "N_STATES = 4"

definition N_OBS :: nat where
  "N_OBS = 3 * 3 * 3 * 3 * 4"

record mm_params =
  spread_mult :: real
  depth_mult :: real
  mm_aggressiveness :: real
  inventory_skew :: real

definition MM_PARAMETERS :: "(string \<times> mm_params) list" where
  "MM_PARAMETERS =
     [(''RANGING'', \<lparr>spread_mult = 1, depth_mult = 1, mm_aggressiveness = 0.8, inventory_skew = 0\<rparr>),
      (''TRENDING'', \<lparr>spread_mult = 1.5, depth_mult = 0.7, mm_aggressiveness = 0.4, inventory_skew = 0.2\<rparr>),
      (''HIGH_VOL'', \<lparr>spread_mult = 3, depth_mult = 0.3, mm_aggressiveness = 0.1, inventory_skew = 0\<rparr>),
      (''THIN_BOOK'', \<lparr>spread_mult = 2, depth_mult = 0.5, mm_aggressiveness = 0, inventory_skew = 0\<rparr>)]"

definition ranging_params :: mm_params where
  "ranging_params = \<lparr>spread_mult = 1, depth_mult = 1, mm_aggressiveness = 0.8, inventory_skew = 0\<rparr>"

section \<open>Vectors and default parameters\<close>

text \<open>The literals \<open>1e-300\<close> and \<open>1e-10\<close>.\<close>

definition tiny :: real where "tiny = 1 / 10 ^ 300"

definition prob_floor :: real where "prob_floor = 1 / 10 ^ 10"

lemma tiny_pos [simp]: "0 < tiny"
  by (simp add: tiny_def)

lemma prob_floor_pos [simp]: "0 < prob_floor"
  by (simp add: prob_floor_def)

type_synonym vec = "real list"
type_synonym matrix = "real list list"

definition normalise :: "vec \<Rightarrow> vec" where
  "normalise xs = map (\<lambda>x. x / sum_list xs) xs"

definition column :: "nat \<Rightarrow> matrix \<Rightarrow> vec" where
  "column j M = map (\<lambda>row. row ! j) M"

text \<open>\<open>a @ A\<close> for a square matrix, and \<open>A @ v\<close>\<close>

definition vec_mat :: "vec \<Rightarrow> matrix \<Rightarrow> vec" where
  "vec_mat a A = map (\<lambda>j. sum_list (map2 (\<lambda>x row. x * row ! j) a A)) [0..<length a]"

definition mat_vec :: "matrix \<Rightarrow> vec \<Rightarrow> vec" where
  "mat_vec A v = map (\<lambda>row. sum_list (map2 (*) row v)) A"

definition default_pi :: vec where
  "default_pi = [0.50, 0.25, 0.15, 0.10]"

definition default_A :: matrix where
  "default_A = map normalise
     [[0.75, 0.12, 0.08, 0.05],
      [0.20, 0.65, 0.10, 0.05],
      [0.15, 0.10, 0.65, 0.10],
      [0.25, 0.10, 0.15, 0.50]]"

definition price_vol_probs :: matrix where
  "price_vol_probs =
     [[0.55, 0.35, 0.10], [0.20, 0.50, 0.30], [0.05, 0.20, 0.75], [0.30, 0.40, 0.30]]"

definition bas_probs :: matrix where
  "bas_probs =
     [[0.60, 0.35, 0.05], [0.25, 0.55, 0.20], [0.05, 0.30, 0.65], [0.10, 0.30, 0.60]]"

definition obi_probs :: matrix where
  "obi_probs =
     [[0.20, 0.60, 0.20], [0.20, 0.30, 0.50], [0.35, 0.40, 0.25], [0.25, 0.50, 0.25]]"

definition fr_probs :: matrix where
  "fr_probs =
     [[0.20, 0.60, 0.20], [0.10, 0.30, 0.60], [0.40, 0.30, 0.30], [0.30, 0.50, 0.20]]"

definition pcr_probs :: matrix where
  "pcr_probs =
     [[0.10, 0.35, 0.45, 0.10], [0.10, 0.15, 0.40, 0.35], [0.20, 0.25, 0.25, 0.30],
      [0.15, 0.30, 0.40, 0.15]]"

text \<open>The row of a state, in the order of the encoding: the last feature varies fastest.\<close>

definition outer :: "vec \<Rightarrow> vec \<Rightarrow> vec" where
  "outer xs ys = concat (map (\<lambda>x. map (\<lambda>y. x * y) ys) xs)"

definition default_B :: matrix where
  "default_B = map (\<lambda>s. normalise
     (outer (outer (outer (outer (price_vol_probs ! s) (bas_probs ! s)) (obi_probs ! s)) (fr_probs ! s))
        (pcr_probs ! s))) [0..<N_STATES]"

section \<open>Observations\<close>

definition discretise_price_vol :: "real \<Rightarrow> int" where
  "discretise_price_vol vol = (if vol < 0.02 then 0 else if vol < 0.05 then 1 else 2)"

definition discretise_bid_ask_spread :: "real \<Rightarrow> int" where
  "discretise_bid_ask_spread spread_pct = (if spread_pct < 0.1 then 0 else if spread_pct < 0.5 then 1 else 2)"

definition discretise_ob_imbalance :: "real \<Rightarrow> int" where
  "discretise_ob_imbalance imbalance = (if imbalance < - 0.2 then 0 else if imbalance > 0.2 then 2 else 1)"

definition discretise_funding_rate :: "real \<Rightarrow> int" where
  "discretise_funding_rate rate = (if rate < - 0.0001 then 0 else if rate > 0.0001 then 2 else 1)"

definition discretise_price_change_rate :: "real \<Rightarrow> int" where
  "discretise_price_change_rate pct =
     (if pct < - 0.01 then 0 else if pct < 0 then 1 else if pct \<le> 0.01 then 2 else 3)"

definition encode_observation :: "int \<Rightarrow> int \<Rightarrow> int \<Rightarrow> int \<Rightarrow> int \<Rightarrow> int" where
  "encode_observation pv bas obi fr pcr =
     pv * (3 * 3 * 3 * 4) + bas * (3 * 3 * 4) + obi * (3 * 4) + fr * 4 + pcr"

definition observation_from_floats :: "real \<Rightarrow> real \<Rightarrow> real \<Rightarrow> real \<Rightarrow> real \<Rightarrow> int" where
  "observation_from_floats price_vol bid_ask_spread_pct ob_imbalance funding_rate price_change_rate =
     encode_observation (discretise_price_vol price_vol) (discretise_bid_ask_spread bid_ask_spread_pct)
       (discretise_ob_imbalance ob_imbalance) (discretise_funding_rate funding_rate)
       (discretise_price_change_rate price_change_rate)"

lemma observation_in_range: "0 \<le> observation_from_floats a b c d e \<and> observation_from_floats a b c d e < int N_OBS"
proof -
  have r: "discretise_price_vol a \<in> {0..2}" "discretise_bid_ask_spread b \<in> {0..2}"
    "discretise_ob_imbalance c \<in> {0..2}" "discretise_funding_rate d \<in> {0..2}"
    "discretise_price_change_rate e \<in> {0..3}"
    by (simp_all add: discretise_price_vol_def discretise_bid_ask_spread_def discretise_ob_imbalance_def
      discretise_funding_rate_def discretise_price_change_rate_def)
  then show ?thesis
    unfolding observation_from_floats_def encode_observation_def N_OBS_def by simp
qed

text \<open>The encoding is one to one on the bins.\<close>

lemma encode_observation_inj:
  assumes "encode_observation pv bas obi fr pcr = encode_observation pv' bas' obi' fr' pcr'"
    and "bas \<in> {0..2}" "obi \<in> {0..2}" "fr \<in> {0..2}" "pcr \<in> {0..3}"
    and "bas' \<in> {0..2}" "obi' \<in> {0..2}" "fr' \<in> {0..2}" "pcr' \<in> {0..3}"
  shows "pv = pv' \<and> bas = bas' \<and> obi = obi' \<and> fr = fr' \<and> pcr = pcr'"
proof -
  have split: "x = x' \<and> b = b'" if "x * k + b = x' * k + b'" "b \<in> {0..<k}" "b' \<in> {0..<k}" for x x' b b' k :: int
  proof -
    have "(x * k + b) div k = x" "(x' * k + b') div k = x'"
      using that(2,3) by (simp_all add: div_pos_pos_trivial)
    with that(1) have "x = x'" by simp
    with that(1) show ?thesis by simp
  qed
  have nested: "encode_observation pv bas obi fr pcr = (((pv * 3 + bas) * 3 + obi) * 3 + fr) * 4 + pcr" for pv bas obi fr pcr
    by (simp add: encode_observation_def algebra_simps)
  from assms(1) have 1: "(((pv * 3 + bas) * 3 + obi) * 3 + fr) * 4 + pcr = (((pv' * 3 + bas') * 3 + obi') * 3 + fr') * 4 + pcr'"
    by (simp only: nested)
  have 2: "((pv * 3 + bas) * 3 + obi) * 3 + fr = ((pv' * 3 + bas') * 3 + obi') * 3 + fr'" "pcr = pcr'"
    using split [OF 1] assms by auto
  have 3: "(pv * 3 + bas) * 3 + obi = (pv' * 3 + bas') * 3 + obi'" "fr = fr'"
    using split [OF 2(1)] assms by auto
  have 4: "pv * 3 + bas = pv' * 3 + bas'" "obi = obi'"
    using split [OF 3(1)] assms by auto
  have "pv = pv'" "bas = bas'"
    using split [OF 4(1)] assms by auto
  with 2 3 4 show ?thesis by simp
qed

section \<open>Distributions\<close>

definition dist :: "nat \<Rightarrow> vec \<Rightarrow> bool" where
  "dist n p \<longleftrightarrow> length p = n \<and> (\<forall>x \<in> set p. 0 \<le> x) \<and> sum_list p = 1"

lemma sum_normalise: "sum_list xs \<noteq> 0 \<Longrightarrow> sum_list (normalise xs) = 1"
  using sum_list_divide [of "\<lambda>x. x" "sum_list xs" xs] by (simp add: normalise_def)

lemma dist_normalise:
  assumes "\<forall>x \<in> set xs. 0 \<le> x" and "0 < sum_list xs"
  shows "dist (length xs) (normalise xs)"
  using assms sum_normalise [of xs] by (auto simp: dist_def normalise_def)

lemma map2_nonneg: "\<forall>x \<in> set xs. 0 \<le> x \<Longrightarrow> \<forall>y \<in> set ys. 0 \<le> y \<Longrightarrow> \<forall>z \<in> set (map2 (*) xs ys). 0 \<le> (z :: real)"
proof
  fix z
  assume nn: "\<forall>x \<in> set xs. 0 \<le> x" "\<forall>y \<in> set ys. 0 \<le> y" and "z \<in> set (map2 (*) xs ys)"
  then obtain x y where "(x, y) \<in> set (zip xs ys)" "z = x * y" by auto
  moreover from this(1) have "x \<in> set xs" "y \<in> set ys" by (rule set_zip_leftD, rule set_zip_rightD)
  ultimately show "0 \<le> z" using nn by simp
qed

lemma length_vec_mat [simp]: "length (vec_mat a A) = length a"
  by (simp add: vec_mat_def)

lemma length_mat_vec [simp]: "length (mat_vec A v) = length A"
  by (simp add: mat_vec_def)

lemma length_column [simp]: "length (column j M) = length M"
  by (simp add: column_def)

lemma length_normalise [simp]: "length (normalise xs) = length xs"
  by (simp add: normalise_def)

lemma outer_nonneg: "\<forall>x \<in> set xs. 0 \<le> x \<Longrightarrow> \<forall>y \<in> set ys. 0 \<le> y \<Longrightarrow> \<forall>z \<in> set (outer xs ys). 0 \<le> z"
  by (auto simp: outer_def)

lemma sum_outer: "sum_list (outer xs ys) = sum_list xs * sum_list ys"
  by (induction xs) (simp_all add: outer_def sum_list_const_mult algebra_simps)

lemma length_outer [simp]: "length (outer xs ys) = length xs * length ys"
  by (induction xs) (simp_all add: outer_def)

section \<open>The belief\<close>

definition belief_step :: "vec \<Rightarrow> matrix \<Rightarrow> matrix \<Rightarrow> nat \<Rightarrow> vec \<Rightarrow> vec" where
  "belief_step pi' A B o' b =
     (let updated = map2 (*) (vec_mat b A) (column o' B); denom = sum_list updated
      in if denom < tiny then pi' else map (\<lambda>x. x / denom) updated)"

text \<open>
  The contract of the parameters of a model with \<open>n\<close> states and \<open>m\<close> observations; under it the belief
  stays a probability distribution.
\<close>

locale hmm_model =
  fixes n m :: nat and pi' :: vec and A B :: matrix
  assumes pi_dist: "dist n pi'"
    and A_rows: "length A = n" "\<And>row. row \<in> set A \<Longrightarrow> dist n row"
    and B_rows: "length B = n" "\<And>row. row \<in> set B \<Longrightarrow> length row = m \<and> (\<forall>x \<in> set row. 0 \<le> x)"
begin

lemma prediction_nonneg: "dist n b \<Longrightarrow> \<forall>x \<in> set (vec_mat b A). 0 \<le> x"
proof -
  assume b: "dist n b"
  have "0 \<le> x * row ! j" if "(x, row) \<in> set (zip b A)" "j < n" for x row j
  proof -
    from that have "x \<in> set b" "row \<in> set A" by (auto dest: set_zip_leftD set_zip_rightD)
    with b A_rows(2) [of row] that show ?thesis by (simp add: dist_def)
  qed
  with b show ?thesis
    by (auto simp: vec_mat_def dist_def intro!: sum_list_nonneg)
qed

lemma column_nonneg: "o' < m \<Longrightarrow> \<forall>x \<in> set (column o' B). 0 \<le> x"
  using B_rows(2) by (auto simp: column_def)

lemma belief_step_dist:
  assumes "dist n b" and "o' < m"
  shows "dist n (belief_step pi' A B o' b)"
proof -
  let ?u = "map2 (*) (vec_mat b A) (column o' B)"
  have u: "\<forall>x \<in> set ?u. 0 \<le> x" "length ?u = n"
    using map2_nonneg [OF prediction_nonneg [OF assms(1)] column_nonneg [OF assms(2)]] assms(1) B_rows(1)
    by (auto simp: dist_def)
  show ?thesis
  proof (cases "sum_list ?u < tiny")
    case True
    then show ?thesis by (simp add: belief_step_def Let_def pi_dist)
  next
    case False
    moreover have "0 < tiny" by simp
    ultimately have pos: "0 < sum_list ?u" by linarith
    have "dist n (normalise ?u)" using dist_normalise [OF u(1) pos] u(2) by simp
    with False show ?thesis by (simp add: belief_step_def Let_def normalise_def)
  qed
qed

end

lemma default_pi_dist: "dist N_STATES default_pi"
  by (simp add: dist_def default_pi_def N_STATES_def)

lemma default_A_dist: "row \<in> set default_A \<Longrightarrow> dist N_STATES row"
  by (auto simp: dist_def default_A_def normalise_def N_STATES_def)

lemma default_B_row:
  assumes "row \<in> set default_B"
  shows "dist N_OBS row"
proof -
  obtain s where s: "s < 4" and row: "row = normalise
     (outer (outer (outer (outer (price_vol_probs ! s) (bas_probs ! s)) (obi_probs ! s)) (fr_probs ! s))
        (pcr_probs ! s))"
    using assms by (auto simp: default_B_def N_STATES_def)
  have ok: "(\<forall>x \<in> set (M ! s). 0 \<le> x) \<and> 0 < sum_list (M ! s)"
    if "M \<in> {price_vol_probs, bas_probs, obi_probs, fr_probs, pcr_probs}" for M
  proof -
    have "s \<in> {0, 1, 2, 3}" using s by auto
    with that show ?thesis
      by (auto simp: price_vol_probs_def bas_probs_def obi_probs_def fr_probs_def pcr_probs_def
          numeral_2_eq_2 numeral_3_eq_3)
  qed
  have len: "length (price_vol_probs ! s) = 3" "length (bas_probs ! s) = 3" "length (obi_probs ! s) = 3"
    "length (fr_probs ! s) = 3" "length (pcr_probs ! s) = 4"
  proof -
    have "s \<in> {0, 1, 2, 3}" using s by auto
    then show "length (price_vol_probs ! s) = 3" "length (bas_probs ! s) = 3" "length (obi_probs ! s) = 3"
      "length (fr_probs ! s) = 3" "length (pcr_probs ! s) = 4"
      by (auto simp: price_vol_probs_def bas_probs_def obi_probs_def fr_probs_def pcr_probs_def
          numeral_2_eq_2 numeral_3_eq_3)
  qed
  let ?raw = "outer (outer (outer (outer (price_vol_probs ! s) (bas_probs ! s)) (obi_probs ! s)) (fr_probs ! s))
        (pcr_probs ! s)"
  have "\<forall>x \<in> set ?raw. 0 \<le> x" using ok by (intro outer_nonneg) auto
  moreover have "0 < sum_list ?raw" using ok by (simp add: sum_outer)
  moreover have "length ?raw = N_OBS" by (simp add: len N_OBS_def)
  ultimately show ?thesis unfolding row using dist_normalise [of ?raw] by simp
qed

interpretation default_hmm: hmm_model N_STATES N_OBS default_pi default_A default_B
proof unfold_locales
  show "dist N_STATES default_pi" by (rule default_pi_dist)
  show "length default_A = N_STATES" by (simp add: default_A_def N_STATES_def)
  show "length default_B = N_STATES" by (simp add: default_B_def)
  show "dist N_STATES row" if "row \<in> set default_A" for row using that by (rule default_A_dist)
  show "length row = N_OBS \<and> (\<forall>x \<in> set row. 0 \<le> x)" if "row \<in> set default_B" for row
    using default_B_row [OF that] by (simp add: dist_def)
qed

section \<open>The detector\<close>

record regime_detector =
  rd_pi :: vec
  rd_A :: matrix
  rd_B :: matrix
  rd_belief :: vec
  rd_last_obs :: "int option"

definition new_regime_detector :: regime_detector where
  "new_regime_detector =
     \<lparr>rd_pi = default_pi, rd_A = default_A, rd_B = default_B, rd_belief = default_pi, rd_last_obs = None\<rparr>"

definition rd_update :: "int \<Rightarrow> regime_detector \<Rightarrow> regime_detector" where
  "rd_update observation d =
     (if \<not> (0 \<le> observation \<and> observation < int N_OBS) then d
      else d\<lparr>rd_belief := belief_step (rd_pi d) (rd_A d) (rd_B d) (nat observation) (rd_belief d),
             rd_last_obs := Some observation\<rparr>)"

definition rd_update_from_floats ::
  "real \<Rightarrow> real \<Rightarrow> real \<Rightarrow> real \<Rightarrow> real \<Rightarrow> regime_detector \<Rightarrow> regime_detector" where
  "rd_update_from_floats pv bas obi fr pcr d = rd_update (observation_from_floats pv bas obi fr pcr) d"

text \<open>\<open>np.argmax\<close>: the first index of the maximum.\<close>

definition argmax :: "vec \<Rightarrow> nat" where
  "argmax xs = length (takeWhile (\<lambda>x. x \<noteq> Max (set xs)) xs)"

definition get_regime :: "regime_detector \<Rightarrow> string" where
  "get_regime d = REGIME_NAMES ! argmax (rd_belief d)"

definition get_regime_confidence :: "regime_detector \<Rightarrow> real" where
  "get_regime_confidence d = Max (set (rd_belief d))"

definition get_belief :: "regime_detector \<Rightarrow> (string \<times> real) list" where
  "get_belief d = map (\<lambda>i. (REGIME_NAMES ! i, rd_belief d ! i)) [0..<N_STATES]"

definition get_mm_parameters :: "string option \<Rightarrow> regime_detector \<Rightarrow> mm_params" where
  "get_mm_parameters regime d =
     (let name = (case regime of Some r \<Rightarrow> r | None \<Rightarrow> get_regime d)
      in case dict_get MM_PARAMETERS name of Some p \<Rightarrow> p | None \<Rightarrow> ranging_params)"

lemma argmax_less: "xs \<noteq> [] \<Longrightarrow> argmax xs < length xs"
proof -
  assume "xs \<noteq> []"
  then have "Max (set xs) \<in> set xs" by simp
  then have "takeWhile (\<lambda>x. x \<noteq> Max (set xs)) xs \<noteq> xs"
    by (metis (mono_tags, lifting) takeWhile_eq_all_conv)
  then show ?thesis
    unfolding argmax_def
    by (metis (no_types, lifting) dropWhile_eq_Nil_conv length_append length_greater_0_conv less_add_same_cancel1
        takeWhile_dropWhile_id takeWhile_eq_all_conv)
qed

lemma dist_max:
  assumes "dist n p" and "0 < n"
  shows "1 / real n \<le> Max (set p) \<and> Max (set p) \<le> 1"
proof -
  from assms have p: "length p = n" "sum_list p = 1" "\<forall>x \<in> set p. 0 \<le> x" "set p \<noteq> {}"
    by (auto simp: dist_def)
  have "sum_list p \<le> real n * Max (set p)"
    using sum_list_le_map [of p "\<lambda>x. x" "\<lambda>_. Max (set p)"] p by (simp add: sum_list_triv)
  moreover have "Max (set p) \<le> sum_list p"
    using p(3,4) by (simp add: member_le_sum_list)
  ultimately show ?thesis using p(2) assms(2) by (simp add: pos_divide_le_eq mult.commute)
qed

section \<open>Baum-Welch training\<close>

text \<open>\<open>1e-300\<close> in place of a zero denominator.\<close>

definition nonzero :: "real \<Rightarrow> real" where
  "nonzero s = (if s = 0 then tiny else s)"

text \<open>\<open>_forward\<close>: per position the scaled vector and its scale.\<close>

definition scaled :: "vec \<Rightarrow> vec \<times> real" where
  "scaled a = (let c = nonzero (sum_list a) in (map (\<lambda>x. x / c) a, c))"

fun forward_from :: "matrix \<Rightarrow> matrix \<Rightarrow> vec \<Rightarrow> nat list \<Rightarrow> (vec \<times> real) list" where
  "forward_from A B alpha [] = []"
| "forward_from A B alpha (o' # os) =
     (let step = scaled (map2 (*) (vec_mat alpha A) (column o' B))
      in step # forward_from A B (fst step) os)"

definition forward :: "vec \<Rightarrow> matrix \<Rightarrow> matrix \<Rightarrow> nat list \<Rightarrow> (vec \<times> real) list" where
  "forward pi' A B obs =
     (let step = scaled (map2 (*) pi' (column (hd obs) B)) in step # forward_from A B (fst step) (tl obs))"

definition log_likelihood :: "(vec \<times> real) list \<Rightarrow> real" where
  "log_likelihood steps = (\<Sum>(_, c)\<leftarrow>steps. ln (c + tiny))"

text \<open>\<open>_backward\<close>: the argument holds the observations and scales of the positions after the first.\<close>

fun backward :: "matrix \<Rightarrow> matrix \<Rightarrow> (nat \<times> real) list \<Rightarrow> vec list" where
  "backward A B [] = [replicate (length A) 1]"
| "backward A B ((o', c) # rest) =
     (let bs = backward A B rest
      in map (\<lambda>x. x / c) (mat_vec A (map2 (*) (column o' B) (hd bs))) # bs)"

definition gamma_row :: "vec \<Rightarrow> vec \<Rightarrow> vec" where
  "gamma_row a b = (let g = map2 (*) a b; c = nonzero (sum_list g) in map (\<lambda>x. x / c) g)"

definition xi_matrix :: "matrix \<Rightarrow> vec \<Rightarrow> vec \<Rightarrow> matrix" where
  "xi_matrix A a w =
     (let numer = map2 (\<lambda>x row. map2 (\<lambda>y c. x * y * c) w row) a A;
          denom = nonzero (sum_list (map sum_list numer))
      in map (map (\<lambda>x. x / denom)) numer)"

definition mat_add :: "matrix \<Rightarrow> matrix \<Rightarrow> matrix" where
  "mat_add M N = map2 (map2 (+)) M N"

text \<open>\<open>B_acc[:, obs[t]] += gamma[t]\<close>\<close>

definition add_column :: "nat \<Rightarrow> vec \<Rightarrow> matrix \<Rightarrow> matrix" where
  "add_column o' g M = map2 (\<lambda>row x. row[o' := row ! o' + x]) M g"

record bw_acc =
  acc_pi :: vec
  acc_A :: matrix
  acc_B :: matrix
  acc_ll :: real

definition accumulate :: "vec \<Rightarrow> matrix \<Rightarrow> matrix \<Rightarrow> nat list \<Rightarrow> bw_acc \<Rightarrow> bw_acc" where
  "accumulate pi' A B obs acc =
     (if length obs < 2 then acc
      else (let steps = forward pi' A B obs;
                alphas = map fst steps;
                betas = backward A B (zip (tl obs) (map snd (tl steps)));
                gammas = map2 gamma_row alphas betas;
                xis = map2 (\<lambda>a (o', b). xi_matrix A a (map2 (*) b (column o' B))) alphas (zip (tl obs) (tl betas))
            in acc\<lparr>acc_pi := map2 (+) (acc_pi acc) (hd gammas),
                   acc_A := fold (\<lambda>x M. mat_add M x) xis (acc_A acc),
                   acc_B := fold (\<lambda>(o', g) M. add_column o' g M) (zip obs gammas) (acc_B acc),
                   acc_ll := acc_ll acc + log_likelihood steps\<rparr>))"

text \<open>The two normalisations at the end of an iteration, for one row.\<close>

definition renormalise :: "vec \<Rightarrow> vec" where
  "renormalise xs =
     (let c = sum_list xs + tiny in normalise (map (\<lambda>x. max (x / c) prob_floor) xs))"

definition zero_acc :: "nat \<Rightarrow> nat \<Rightarrow> bw_acc" where
  "zero_acc n m =
     \<lparr>acc_pi = replicate n 0, acc_A = replicate n (replicate n 0), acc_B = replicate n (replicate m 0),
      acc_ll = 0\<rparr>"

fun bw_loop ::
  "nat \<Rightarrow> nat \<Rightarrow> real option \<Rightarrow> real \<Rightarrow> nat list list \<Rightarrow> vec \<times> matrix \<times> matrix \<Rightarrow> vec \<times> matrix \<times> matrix"
where
  "bw_loop 0 iteration prev_ll tol seqs params = params"
| "bw_loop (Suc k) iteration prev_ll tol seqs (pi', A, B) =
     (let acc = fold (accumulate pi' A B) seqs (zero_acc (length pi') (length (hd B)));
          params = (renormalise (acc_pi acc), map renormalise (acc_A acc), map renormalise (acc_B acc))
      in if 0 < iteration \<and> (case prev_ll of None \<Rightarrow> False | Some l \<Rightarrow> \<bar>acc_ll acc - l\<bar> < tol)
         then params
         else bw_loop k (Suc iteration) (Some (acc_ll acc)) tol seqs params)"

text \<open>An index into an axis of length \<open>m\<close>: negative ones count from the end.\<close>

definition np_index :: "nat \<Rightarrow> int \<Rightarrow> nat result" where
  "np_index m i =
     (if 0 \<le> i \<and> i < int m then Inr (nat i)
      else if - int m \<le> i \<and> i < 0 then Inr (nat (int m + i))
      else Inl (OtherError ''IndexError''))"

fun map_result :: "('a \<Rightarrow> 'b result) \<Rightarrow> 'a list \<Rightarrow> 'b list result" where
  "map_result f [] = Inr []"
| "map_result f (x # xs) = bindR (f x) (\<lambda>y. bindR (map_result f xs) (\<lambda>ys. Inr (y # ys)))"

definition baum_welch ::
  "int list list \<Rightarrow> vec \<times> matrix \<times> matrix \<Rightarrow> nat \<Rightarrow> real \<Rightarrow> (vec \<times> matrix \<times> matrix) result" where
  "baum_welch seqs params n_iter tol =
     (if n_iter = 0 then Inr params
      else bindR (map_result (map_result (np_index (length (hd (snd (snd params))))))
              (filter (\<lambda>obs. 2 \<le> length obs) seqs)) (\<lambda>os.
            Inr (bw_loop n_iter 0 None tol os params)))"

definition rd_train :: "int list list \<Rightarrow> nat \<Rightarrow> real \<Rightarrow> regime_detector \<Rightarrow> regime_detector result" where
  "rd_train seqs n_iter tol d =
     bindR (baum_welch seqs (rd_pi d, rd_A d, rd_B d) n_iter tol) (\<lambda>(pi', A, B).
       Inr (d\<lparr>rd_pi := pi', rd_A := A, rd_B := B, rd_belief := pi'\<rparr>))"

section \<open>Training yields stochastic parameters\<close>

definition shape :: "nat \<Rightarrow> nat \<Rightarrow> matrix \<Rightarrow> bool" where
  "shape n m M \<longleftrightarrow> length M = n \<and> (\<forall>row \<in> set M. length row = m)"

lemma renormalise_dist:
  assumes "xs \<noteq> []"
  shows "dist (length xs) (renormalise xs)"
proof -
  let ?ys = "map (\<lambda>x. max (x / (sum_list xs + tiny)) prob_floor) xs"
  have "\<forall>y \<in> set ?ys. prob_floor \<le> y" by auto
  then have nn: "\<forall>y \<in> set ?ys. 0 < y" using less_le_trans [OF prob_floor_pos] by blast
  then have "0 < sum_list ?ys" using assms by (intro sum_list_pos) auto
  moreover have "\<forall>y \<in> set ?ys. 0 \<le> y" using nn less_imp_le by blast
  ultimately have "dist (length ?ys) (normalise ?ys)" by (intro dist_normalise)
  then show ?thesis by (simp only: renormalise_def Let_def length_map)
qed

lemma length_scaled [simp]: "length (fst (scaled a)) = length a"
  by (simp add: scaled_def Let_def)

lemma forward_from_lengths:
  "length B = n \<Longrightarrow> length alpha = n \<Longrightarrow> s \<in> set (forward_from A B alpha os) \<Longrightarrow> length (fst s) = n"
proof (induction os arbitrary: alpha)
  case (Cons o' os)
  let ?a = "fst (scaled (map2 (*) (vec_mat alpha A) (column o' B)))"
  have "length ?a = n" using Cons.prems by simp
  with Cons.IH [of ?a] Cons.prems show ?case by (auto simp: Let_def)
qed simp

lemma forward_lengths:
  assumes "length B = n" "length pi' = n" "s \<in> set (forward pi' A B obs)"
  shows "length (fst s) = n"
  using assms forward_from_lengths [of B n "fst (scaled (map2 (*) pi' (column (hd obs) B)))" s A "tl obs"]
  by (auto simp: forward_def Let_def)

lemma length_forward_from [simp]: "length (forward_from A B alpha os) = length os"
  by (induction os arbitrary: alpha) (simp_all add: Let_def)

lemma backward_lengths:
  "length A = n \<Longrightarrow> b \<in> set (backward A B rest) \<Longrightarrow> length b = n"
  by (induction A B rest rule: backward.induct) (auto simp: Let_def)

lemma length_backward [simp]: "length (backward A B rest) = Suc (length rest)"
  by (induction A B rest rule: backward.induct) (simp_all add: Let_def)

lemma length_gamma_row [simp]: "length (gamma_row a b) = min (length a) (length b)"
  by (simp add: gamma_row_def Let_def)

lemma shape_mat_add: "shape n m M \<Longrightarrow> shape n m N \<Longrightarrow> shape n m (mat_add M N)"
proof -
  assume M: "shape n m M" and N: "shape n m N"
  have "length a = m \<and> length b = m" if "(a, b) \<in> set (zip M N)" for a b
    using that M N set_zip_leftD [OF that] set_zip_rightD [OF that] by (simp add: shape_def)
  with M N show ?thesis by (auto simp: shape_def mat_add_def)
qed

lemma shape_add_column: "shape n m M \<Longrightarrow> length g = n \<Longrightarrow> shape n m (add_column o' g M)"
  by (auto simp: shape_def add_column_def dest: set_zip_leftD)

lemma shape_xi: "shape n n A \<Longrightarrow> length a = n \<Longrightarrow> length w = n \<Longrightarrow> shape n n (xi_matrix A a w)"
  by (auto simp: shape_def xi_matrix_def Let_def dest: set_zip_rightD)

definition acc_ok :: "nat \<Rightarrow> nat \<Rightarrow> bw_acc \<Rightarrow> bool" where
  "acc_ok n m acc \<longleftrightarrow> length (acc_pi acc) = n \<and> shape n n (acc_A acc) \<and> shape n m (acc_B acc)"

lemma acc_ok_zero: "acc_ok n m (zero_acc n m)"
  by (auto simp: acc_ok_def zero_acc_def shape_def)

lemma shape_fold_add:
  "(\<And>x. x \<in> set xs \<Longrightarrow> shape n m x) \<Longrightarrow> shape n m M \<Longrightarrow> shape n m (fold (\<lambda>x M. mat_add M x) xs M)"
  by (induction xs arbitrary: M) (auto intro: shape_mat_add)

lemma shape_fold_column:
  "(\<And>o' g. (o', g) \<in> set xs \<Longrightarrow> length g = n) \<Longrightarrow> shape n m M \<Longrightarrow>
   shape n m (fold (\<lambda>(o', g) M. add_column o' g M) xs M)"
proof (induction xs arbitrary: M)
  case (Cons x xs)
  obtain o' g where x: "x = (o', g)" by fastforce
  have "shape n m (add_column o' g M)" using Cons.prems x by (intro shape_add_column) auto
  then show ?case using Cons.IH [of "add_column o' g M"] Cons.prems x by auto
qed simp

lemma acc_ok_accumulate:
  assumes "acc_ok n m acc" and "length pi' = n" and "shape n n A" and "length B = n"
  shows "acc_ok n m (accumulate pi' A B obs acc)"
proof (cases "length obs < 2")
  case True
  then show ?thesis using assms(1) by (simp add: accumulate_def)
next
  case False
  then obtain o1 o2 os where obs: "obs = o1 # o2 # os"
    by (cases obs; cases "tl obs") auto
  define steps where "steps = forward pi' A B obs"
  define betas where "betas = backward A B (zip (tl obs) (map snd (tl steps)))"
  define gammas where "gammas = map2 gamma_row (map fst steps) betas"
  have la: "length a = n" if "a \<in> set (map fst steps)" for a
    using that forward_lengths [OF assms(4,2)] by (auto simp: steps_def)
  have lb: "length b = n" if "b \<in> set betas" for b
    using that backward_lengths [of A n b B] assms(3) by (auto simp: betas_def shape_def)
  have lg: "length g = n" if "g \<in> set gammas" for g
  proof -
    from that obtain a b where ab: "(a, b) \<in> set (zip (map fst steps) betas)" and g: "g = gamma_row a b"
      by (auto simp: gammas_def)
    from la [OF set_zip_leftD [OF ab]] lb [OF set_zip_rightD [OF ab]] g show ?thesis by simp
  qed
  have ne: "gammas \<noteq> []"
    by (simp add: gammas_def steps_def betas_def forward_def Let_def)
       (metis length_backward length_0_conv nat.simps(3))
  have xi: "shape n n (xi_matrix A a (map2 (*) b (column o' B)))"
    if "(a, o', b) \<in> set (zip (map fst steps) (zip (tl obs) (tl betas)))" for a o' b
  proof -
    from that have "a \<in> set (map fst steps)" "(o', b) \<in> set (zip (tl obs) (tl betas))"
      by (auto dest: set_zip_leftD set_zip_rightD)
    then have a: "length a = n" and "b \<in> set (tl betas)"
      using la by (auto dest: set_zip_rightD)
    then have "b \<in> set betas" by (cases betas) simp_all
    with lb have "length b = n" by blast
    with a assms(3,4) show ?thesis by (intro shape_xi) simp_all
  qed
  have "shape n n (fold (\<lambda>x M. mat_add M x) (map2 (\<lambda>a (o', b). xi_matrix A a (map2 (*) b (column o' B)))
      (map fst steps) (zip (tl obs) (tl betas))) (acc_A acc))"
    using assms(1) xi by (intro shape_fold_add) (auto simp: acc_ok_def)
  moreover have "shape n m (fold (\<lambda>(o', g) M. add_column o' g M) (zip obs gammas) (acc_B acc))"
    using assms(1) lg by (intro shape_fold_column) (auto simp: acc_ok_def dest: set_zip_rightD)
  moreover have "length (map2 (+) (acc_pi acc) (hd gammas)) = n"
    using assms(1) lg [OF hd_in_set [OF ne]] by (simp add: acc_ok_def)
  ultimately show ?thesis
    using False by (simp add: accumulate_def acc_ok_def Let_def steps_def [symmetric]
        betas_def [symmetric] gammas_def [symmetric])
qed

definition params_ok :: "nat \<Rightarrow> nat \<Rightarrow> vec \<times> matrix \<times> matrix \<Rightarrow> bool" where
  "params_ok n m p \<longleftrightarrow> hmm_model n m (fst p) (fst (snd p)) (snd (snd p))"

lemma params_ok_renormalised:
  assumes "acc_ok n m acc" "0 < n" "0 < m"
  shows "params_ok n m (renormalise (acc_pi acc), map renormalise (acc_A acc), map renormalise (acc_B acc))"
proof -
  have r: "dist k (renormalise xs)" if "length xs = k" "0 < k" for xs k
    using that renormalise_dist [of xs] by auto
  from assms have len: "length (acc_pi acc) = n" "length (acc_A acc) = n" "length (acc_B acc) = n"
    "\<And>row. row \<in> set (acc_A acc) \<Longrightarrow> length row = n" "\<And>row. row \<in> set (acc_B acc) \<Longrightarrow> length row = m"
    by (simp_all add: acc_ok_def shape_def)
  show ?thesis
    unfolding params_ok_def fst_conv snd_conv
  proof
    show "dist n (renormalise (acc_pi acc))" using len(1) assms(2) by (rule r)
    show "length (map renormalise (acc_A acc)) = n" "length (map renormalise (acc_B acc)) = n"
      using len by simp_all
    show "dist n row" if "row \<in> set (map renormalise (acc_A acc))" for row
      using that r [OF len(4) assms(2)] by auto
    show "length row = m \<and> (\<forall>x \<in> set row. 0 \<le> x)" if "row \<in> set (map renormalise (acc_B acc))" for row
    proof -
      from that obtain xs where "xs \<in> set (acc_B acc)" "row = renormalise xs" by auto
      with r [OF len(5) assms(3)] have "dist m row" by blast
      then show ?thesis by (simp add: dist_def)
    qed
  qed
qed

lemma bw_loop_ok:
  assumes "params_ok n m p" "0 < n" "0 < m"
  shows "params_ok n m (bw_loop k i l tol seqs p)"
  using assms
proof (induction k i l tol seqs p rule: bw_loop.induct)
  case (2 k i l tol seqs pi' A B)
  have p: "length pi' = n" "shape n n A" "length B = n" "length (hd B) = m"
  proof -
    from 2(2) have h: "hmm_model n m pi' A B" by (simp add: params_ok_def)
    then show "length pi' = n" "shape n n A" "length B = n" by (auto simp: hmm_model_def dist_def shape_def)
    from h 2(3) have "B \<noteq> []" by (auto simp: hmm_model_def)
    then have "hd B \<in> set B" by simp
    with h show "length (hd B) = m" by (simp add: hmm_model_def)
  qed
  let ?acc = "fold (accumulate pi' A B) seqs (zero_acc (length pi') (length (hd B)))"
  have "acc_ok n m (fold (accumulate pi' A B) ss acc)" if "acc_ok n m acc" for ss acc
    using that by (induction ss arbitrary: acc) (auto intro!: acc_ok_accumulate p(1-3))
  then have "acc_ok n m ?acc" using acc_ok_zero [of n m] p by simp
  from params_ok_renormalised [OF this 2(3,4)] 2 show ?case by (simp add: Let_def)
qed simp

section \<open>The detector keeps a probability distribution\<close>

definition rd_ok :: "regime_detector \<Rightarrow> bool" where
  "rd_ok d \<longleftrightarrow> hmm_model N_STATES N_OBS (rd_pi d) (rd_A d) (rd_B d) \<and> dist N_STATES (rd_belief d)"

lemma rd_ok_new: "rd_ok new_regime_detector"
  by (simp add: rd_ok_def new_regime_detector_def default_hmm.hmm_model_axioms default_pi_dist)

lemma rd_ok_update: "rd_ok d \<Longrightarrow> rd_ok (rd_update o' d)"
  using hmm_model.belief_step_dist [of N_STATES N_OBS "rd_pi d" "rd_A d" "rd_B d" "rd_belief d" "nat o'"]
  by (auto simp: rd_ok_def rd_update_def)

lemma rd_ok_train: "rd_ok d \<Longrightarrow> rd_train seqs n_iter tol d = Inr d' \<Longrightarrow> rd_ok d'"
proof -
  assume ok: "rd_ok d" and t: "rd_train seqs n_iter tol d = Inr d'"
  have p: "params_ok N_STATES N_OBS (rd_pi d, rd_A d, rd_B d)" using ok by (simp add: rd_ok_def params_ok_def)
  from t obtain pi' A B where b: "baum_welch seqs (rd_pi d, rd_A d, rd_B d) n_iter tol = Inr (pi', A, B)"
    and d': "d' = d\<lparr>rd_pi := pi', rd_A := A, rd_B := B, rd_belief := pi'\<rparr>"
    by (auto simp: rd_train_def bindR_eq_Inr)
  have "params_ok N_STATES N_OBS (pi', A, B)"
  proof (cases "n_iter = 0")
    case True
    with b p show ?thesis by (simp add: baum_welch_def)
  next
    case False
    with b obtain os where "bw_loop n_iter 0 None tol os (rd_pi d, rd_A d, rd_B d) = (pi', A, B)"
      by (auto simp: baum_welch_def bindR_eq_Inr)
    with bw_loop_ok [OF p, of n_iter 0 None tol os] show ?thesis by (simp add: N_STATES_def N_OBS_def)
  qed
  then show ?thesis by (simp add: rd_ok_def d' params_ok_def hmm_model_def)
qed

text \<open>A use of the detector: raw observations, feature updates and training, which may raise.\<close>

datatype rd_op = Observe int | Floats real real real real real | Train "int list list" nat real

fun rd_step :: "rd_op \<Rightarrow> regime_detector \<Rightarrow> regime_detector" where
  "rd_step (Observe o') d = rd_update o' d"
| "rd_step (Floats a b c e f) d = rd_update_from_floats a b c e f d"
| "rd_step (Train seqs n tol) d = (case rd_train seqs n tol d of Inl _ \<Rightarrow> d | Inr d' \<Rightarrow> d')"

lemma rd_ok_step: "rd_ok d \<Longrightarrow> rd_ok (rd_step e d)"
  by (cases e) (auto simp: rd_ok_update rd_update_from_floats_def rd_ok_train split: sum.split)

lemma rd_ok_run: "rd_ok (fold rd_step es new_regime_detector)"
proof -
  have "rd_ok d \<Longrightarrow> rd_ok (fold rd_step es d)" for d
    by (induction es arbitrary: d) (simp_all add: rd_ok_step)
  with rd_ok_new show ?thesis by blast
qed

text \<open>
  C34. Whatever sequence of observations, feature updates and trainings a detector goes through, its
  belief is a probability distribution over the four regimes, the regime it names is one of them,
  and the confidence it reports lies between a quarter and one.
\<close>

theorem belief_is_distribution:
  "let d = fold rd_step es new_regime_detector
   in dist 4 (rd_belief d) \<and> get_regime d \<in> set REGIME_NAMES \<and>
      1 / 4 \<le> get_regime_confidence d \<and> get_regime_confidence d \<le> 1"
proof -
  define d where "d = fold rd_step es new_regime_detector"
  have b: "dist 4 (rd_belief d)" using rd_ok_run [of es] by (simp add: d_def rd_ok_def N_STATES_def)
  then have "length (rd_belief d) = 4" "rd_belief d \<noteq> []" by (auto simp: dist_def)
  then have "argmax (rd_belief d) < 4" using argmax_less [of "rd_belief d"] by simp
  then have "get_regime d \<in> set REGIME_NAMES"
    unfolding get_regime_def by (intro nth_mem) (simp add: REGIME_NAMES_def)
  with b dist_max [OF b] show ?thesis
    unfolding Let_def d_def [symmetric] by (simp add: get_regime_confidence_def)
qed

end
