(* ===== verification/RegimeMaster.thy ===== *)
theory RegimeMaster
  imports AsyncQueue RegimeDetector
begin

text \<open>
  \<open>core/regime_master.py\<close>, with the two dataclasses that carry its data, \<open>RegimeState\<close> and the
  orchestrator's \<open>GlobalState\<close>.  The subscriber queues are shared with the bots: the master
  knows them by name, and they live in a dict of queues passed along with it.
\<close>

section \<open>Data\<close>

record regime_state =
  rs_regime :: string
  rs_confidence :: real
  rs_zz_regime :: string
  rs_agreement :: bool
  rs_mm_params :: mm_params
  rs_timestamp :: real

record global_state =
  gs_global_mid :: real
  gs_volatility :: real
  gs_aggressiveness :: real
  gs_zz_vol :: real
  gs_zz_regime :: string
  gs_hmm_regime :: string
  gs_hmm_confidence :: real
  gs_timestamp :: real
  gs_contributing :: "string list"
  gs_regime_state :: "regime_state option"

type_synonym regime_queues = "(string \<times> regime_state aqueue) list"

definition CONSERVATIVE_PARAMS :: mm_params where
  "CONSERVATIVE_PARAMS =
     \<lparr>spread_mult = 2, depth_mult = 0.5, mm_aggressiveness = 0.3, inventory_skew = 0\<rparr>"

definition DEFAULT_REGIME_STATE :: regime_state where
  "DEFAULT_REGIME_STATE =
     \<lparr>rs_regime = ''RANGING'', rs_confidence = 0.5, rs_zz_regime = ''choppy'', rs_agreement = True,
      rs_mm_params = ranging_params, rs_timestamp = 0\<rparr>"

section \<open>Reconciling the two classifiers\<close>

definition lower_char :: "char \<Rightarrow> char" where
  "lower_char c = (let n = of_char c :: nat in if 65 \<le> n \<and> n \<le> 90 then char_of (n + 32) else c)"

definition contains :: "string \<Rightarrow> string \<Rightarrow> bool" where
  "contains sub s = list_ex (\<lambda>i. take (length sub) (drop i s) = sub) [0..<Suc (length s)]"

definition zz_to_hmm_regime :: "string \<Rightarrow> string" where
  "zz_to_hmm_regime zz_regime =
     (if contains ''trending'' (map lower_char zz_regime) then ''TRENDING'' else ''RANGING'')"

definition regimes_agree :: "string \<Rightarrow> string \<Rightarrow> bool" where
  "regimes_agree hmm_regime zz_regime =
     (if hmm_regime \<in> set [''HIGH_VOL'', ''THIN_BOOK''] then True
      else hmm_regime = zz_to_hmm_regime zz_regime)"

section \<open>State and operations\<close>

record regime_master =
  rm_detector :: regime_detector
  rm_subscribers :: "string list"
  rm_current :: regime_state
  rm_pending :: "global_state aqueue"
  rm_running :: bool
  rm_prev_mid :: "real option"

definition new_regime_master :: regime_master where
  "new_regime_master =
     \<lparr>rm_detector = new_regime_detector, rm_subscribers = [], rm_current = DEFAULT_REGIME_STATE,
      rm_pending = new_queue 10, rm_running = False, rm_prev_mid = None\<rparr>"

definition add_subscriber :: "string \<Rightarrow> regime_master \<Rightarrow> regime_master" where
  "add_subscriber q m = m\<lparr>rm_subscribers := rm_subscribers m @ [q]\<rparr>"

definition remove_subscriber :: "string \<Rightarrow> regime_master \<Rightarrow> regime_master" where
  "remove_subscriber q m = m\<lparr>rm_subscribers := filter (\<lambda>x. x \<noteq> q) (rm_subscribers m)\<rparr>"

definition push_state :: "global_state \<Rightarrow> regime_master \<Rightarrow> regime_master" where
  "push_state st m = m\<lparr>rm_pending := offer put_nowait st (rm_pending m)\<rparr>"

definition regime_broadcast :: "regime_state \<Rightarrow> string list \<Rightarrow> regime_queues \<Rightarrow> regime_queues" where
  "regime_broadcast rs subs qs = fold (\<lambda>k. AList.map_entry k (offer put_nowait rs)) subs qs"

definition price_change_rate :: "real option \<Rightarrow> real \<Rightarrow> real" where
  "price_change_rate prev mid =
     (case prev of Some p \<Rightarrow> if 0 < p then (mid - p) / p else 0 | None \<Rightarrow> 0)"

definition reconcile :: "global_state \<Rightarrow> regime_detector \<Rightarrow> regime_state" where
  "reconcile st d =
     (let hmm_regime = get_regime d;
          zz_regime = (if gs_zz_regime st = [] then ''choppy'' else gs_zz_regime st);
          agreement = regimes_agree hmm_regime zz_regime
      in \<lparr>rs_regime = hmm_regime, rs_confidence = get_regime_confidence d, rs_zz_regime = zz_regime,
          rs_agreement = agreement,
          rs_mm_params = (if agreement \<or> hmm_regime \<in> set [''HIGH_VOL'', ''THIN_BOOK'']
                          then get_mm_parameters (Some hmm_regime) d else CONSERVATIVE_PARAMS),
          rs_timestamp = gs_timestamp st\<rparr>)"

definition process_state :: "global_state \<Rightarrow> regime_master \<times> regime_queues \<Rightarrow> regime_master \<times> regime_queues" where
  "process_state st = (\<lambda>(m, qs).
     (let d = rd_update_from_floats (gs_volatility st) (gs_zz_vol st * 100) 0 0
                (price_change_rate (rm_prev_mid m) (gs_global_mid st)) (rm_detector m);
          rs = reconcile st d
      in (m\<lparr>rm_prev_mid := Some (gs_global_mid st), rm_detector := d, rm_current := rs\<rparr>,
          regime_broadcast rs (rm_subscribers m) qs)))"

text \<open>One pass of the regime loop: the next pending state, if there is one.\<close>

definition regime_step :: "regime_master \<times> regime_queues \<Rightarrow> regime_master \<times> regime_queues" where
  "regime_step = (\<lambda>(m, qs).
     if \<not> rm_running m then (m, qs)
     else (case get_nowait (rm_pending m) of
             None \<Rightarrow> (m, qs)
           | Some (st, q) \<Rightarrow> process_state st (m\<lparr>rm_pending := q\<rparr>, qs)))"

section \<open>What the bots are told\<close>

definition rm_ok :: "regime_master \<Rightarrow> bool" where
  "rm_ok m \<longleftrightarrow> rd_ok (rm_detector m) \<and> length (q_items (rm_pending m)) \<le> 10 \<and> q_maxsize (rm_pending m) = 10"

lemma rm_ok_new: "rm_ok new_regime_master"
  by (simp add: rm_ok_def new_regime_master_def new_queue_def rd_ok_new)

lemma rm_ok_push: "rm_ok m \<Longrightarrow> rm_ok (push_state st m)"
  by (simp add: rm_ok_def push_state_def aq.offer_items)

lemma rm_ok_process: "rm_ok m \<Longrightarrow> rm_ok (fst (process_state st (m, qs)))"
  by (simp add: rm_ok_def process_state_def Let_def rd_update_from_floats_def rd_ok_update)

lemma rm_ok_step: "rm_ok m \<Longrightarrow> rm_ok (fst (regime_step (m, qs)))"
proof -
  assume ok: "rm_ok m"
  show ?thesis
  proof (cases "get_nowait (rm_pending m)")
    case None
    with ok show ?thesis by (simp add: regime_step_def)
  next
    case (Some p)
    obtain st q where p: "p = (st, q)" by fastforce
    with Some ok have "rm_ok (m\<lparr>rm_pending := q\<rparr>)"
      using aq.get_items [of "rm_pending m" st q] aq.get_cap [of "rm_pending m" st q]
      by (auto simp: rm_ok_def)
    then show ?thesis using Some p ok by (simp add: regime_step_def rm_ok_process)
  qed
qed

text \<open>Every row of the table and the conservative row widen spreads and never add depth.\<close>

lemma params_bounds:
  "p \<in> insert CONSERVATIVE_PARAMS (insert ranging_params (snd ` set MM_PARAMETERS)) \<Longrightarrow>
   1 \<le> spread_mult p \<and> 0 < depth_mult p \<and> depth_mult p \<le> 1 \<and> 0 \<le> inventory_skew p \<and> inventory_skew p \<le> 0.2"
  by (auto simp: CONSERVATIVE_PARAMS_def ranging_params_def MM_PARAMETERS_def)

lemma mm_parameters_range:
  "get_mm_parameters r d \<in> insert CONSERVATIVE_PARAMS (insert ranging_params (snd ` set MM_PARAMETERS))"
proof (cases "dict_get MM_PARAMETERS (case r of Some x \<Rightarrow> x | None \<Rightarrow> get_regime d)")
  case None
  then show ?thesis by (simp add: get_mm_parameters_def Let_def)
next
  case (Some p)
  from map_of_SomeD [OF this] have "p \<in> snd ` set MM_PARAMETERS" by (rule rev_image_eqI) simp
  with Some show ?thesis by (simp add: get_mm_parameters_def Let_def)
qed

lemma mm_parameters_table:
  "r \<in> set REGIME_NAMES \<Longrightarrow> dict_get MM_PARAMETERS r = Some (get_mm_parameters (Some r) d)"
  by (auto simp: REGIME_NAMES_def MM_PARAMETERS_def get_mm_parameters_def)

lemma regime_name: "rd_ok d \<Longrightarrow> get_regime d \<in> set REGIME_NAMES"
proof -
  assume "rd_ok d"
  then have "length (rd_belief d) = 4" "rd_belief d \<noteq> []" by (auto simp: rd_ok_def dist_def N_STATES_def)
  then have "argmax (rd_belief d) < 4" using argmax_less [of "rd_belief d"] by simp
  then show ?thesis unfolding get_regime_def by (intro nth_mem) (simp add: REGIME_NAMES_def)
qed

text \<open>
  C35. The unified regime is sound: whatever market state is processed, the master publishes the most
  likely of the four regimes, with the probability its detector gives it, at least a quarter, and
  the row of the parameter table that belongs to it, or, exactly when the two classifiers
  disagree, the conservative row; either way spreads are never narrowed, depth is never increased
  and the inventory skew stays between 0 and 0.2.
\<close>

theorem published_regime_sound:
  assumes "rm_ok m"
  shows "let m' = fst (process_state st (m, qs)); rs = rm_current m'
         in rs_regime rs \<in> set REGIME_NAMES \<and> rs_regime rs = get_regime (rm_detector m') \<and>
            dist 4 (rd_belief (rm_detector m')) \<and> rs_confidence rs = Max (set (rd_belief (rm_detector m'))) \<and>
            1 / 4 \<le> rs_confidence rs \<and> rs_confidence rs \<le> 1 \<and>
            rs_agreement rs = regimes_agree (rs_regime rs) (rs_zz_regime rs) \<and>
            (if rs_agreement rs then dict_get MM_PARAMETERS (rs_regime rs) = Some (rs_mm_params rs)
             else rs_mm_params rs = CONSERVATIVE_PARAMS) \<and>
            1 \<le> spread_mult (rs_mm_params rs) \<and> 0 < depth_mult (rs_mm_params rs) \<and>
            depth_mult (rs_mm_params rs) \<le> 1 \<and>
            0 \<le> inventory_skew (rs_mm_params rs) \<and> inventory_skew (rs_mm_params rs) \<le> 0.2"
proof -
  define d where "d = rd_update_from_floats (gs_volatility st) (gs_zz_vol st * 100) 0 0
                (price_change_rate (rm_prev_mid m) (gs_global_mid st)) (rm_detector m)"
  have "rd_ok d" using assms by (simp add: d_def rd_update_from_floats_def rd_ok_update rm_ok_def)
  then have name: "get_regime d \<in> set REGIME_NAMES" and b: "dist 4 (rd_belief d)"
    by (simp add: regime_name) (use \<open>rd_ok d\<close> in \<open>simp add: rd_ok_def N_STATES_def\<close>)
  have rs: "rm_current (fst (process_state st (m, qs))) = reconcile st d"
    "rm_detector (fst (process_state st (m, qs))) = d"
    by (simp_all add: process_state_def Let_def d_def)
  have c: "rs_confidence (reconcile st d) = Max (set (rd_belief d))"
    by (simp add: reconcile_def Let_def get_regime_confidence_def)
  have "rs_mm_params (reconcile st d) \<in> insert CONSERVATIVE_PARAMS (insert ranging_params (snd ` set MM_PARAMETERS))"
    using mm_parameters_range [of "Some (get_regime d)" d] by (auto simp: reconcile_def Let_def)
  note params_bounds [OF this]
  moreover from dist_max [OF b] have "1 / 4 \<le> Max (set (rd_belief d))" "Max (set (rd_belief d)) \<le> 1" by simp_all
  ultimately show ?thesis
    using name b unfolding rs Let_def c
    by (auto simp: reconcile_def Let_def regimes_agree_def mm_parameters_table)
qed

definition sample_global_state :: global_state where
  "sample_global_state =
     \<lparr>gs_global_mid = 100, gs_volatility = 0.001, gs_aggressiveness = 1, gs_zz_vol = 0.0005,
      gs_zz_regime = ''choppy'', gs_hmm_regime = ''NORMAL'', gs_hmm_confidence = 0,
      gs_timestamp = 1000, gs_contributing = [''kucoin''], gs_regime_state = None\<rparr>"

theorem published_regime_sound_witness:
  "let m' = fst (process_state sample_global_state (new_regime_master, [])); rs = rm_current m'
   in rs_regime rs \<in> set REGIME_NAMES \<and> rs_regime rs = get_regime (rm_detector m') \<and>
      dist 4 (rd_belief (rm_detector m')) \<and> rs_confidence rs = Max (set (rd_belief (rm_detector m'))) \<and>
      1 / 4 \<le> rs_confidence rs \<and> rs_confidence rs \<le> 1 \<and>
      rs_agreement rs = regimes_agree (rs_regime rs) (rs_zz_regime rs) \<and>
      (if rs_agreement rs then dict_get MM_PARAMETERS (rs_regime rs) = Some (rs_mm_params rs)
       else rs_mm_params rs = CONSERVATIVE_PARAMS) \<and>
      1 \<le> spread_mult (rs_mm_params rs) \<and> 0 < depth_mult (rs_mm_params rs) \<and>
      depth_mult (rs_mm_params rs) \<le> 1 \<and>
      0 \<le> inventory_skew (rs_mm_params rs) \<and> inventory_skew (rs_mm_params rs) \<le> 0.2"
  by (rule published_regime_sound [OF rm_ok_new])

section \<open>Delivery\<close>

lemma map_entry_get: "dict_get (AList.map_entry k f qs) j = (if j = k then map_option f (dict_get qs k) else dict_get qs j)"
  by (induction qs) auto

lemma regime_broadcast_get:
  "distinct subs \<Longrightarrow> dict_get (regime_broadcast rs subs qs) k =
     (if k \<in> set subs then map_option (offer put_nowait rs) (dict_get qs k) else dict_get qs k)"
  unfolding regime_broadcast_def
  by (induction subs arbitrary: qs) (auto simp: map_entry_get split: option.split)

text \<open>Successive broadcasts with no bot reading in between.\<close>

definition broadcast_all :: "regime_state list \<Rightarrow> string list \<Rightarrow> regime_queues \<Rightarrow> regime_queues" where
  "broadcast_all rss subs qs = fold (\<lambda>rs. regime_broadcast rs subs) rss qs"

lemma broadcast_all_get:
  "distinct subs \<Longrightarrow> k \<in> set subs \<Longrightarrow>
   dict_get (broadcast_all rss subs qs) k = map_option (offer_all put_nowait rss) (dict_get qs k)"
  unfolding broadcast_all_def
proof (induction rss arbitrary: qs)
  case Nil
  show ?case by (cases "dict_get qs k") (simp_all add: offer_all_def)
next
  case (Cons rs rss)
  then show ?case
    by (simp add: regime_broadcast_get option.map_comp comp_def offer_all_def)
qed

text \<open>
  A bot that falls behind acts on old news: once five regime states wait in its queue every newer
  one is lost, so a bot that then drains its queue adopts the fifth state broadcast, however many
  have been broadcast since.
\<close>

theorem slow_bot_gets_stale_regime:
  assumes "distinct subs" and "k \<in> set subs" and "dict_get qs k = Some (new_queue 5)" and "5 \<le> length rss"
  shows "map_option (\<lambda>q. fst (drain None q)) (dict_get (broadcast_all rss subs qs) k) = Some (Some (rss ! 4))"
proof -
  have "q_items (offer_all put_nowait rss (new_queue 5)) = take 5 rss"
    using aq.offer_all_items [of "new_queue 5 :: regime_state aqueue" rss] by (simp add: new_queue_def)
  moreover have "take 5 rss \<noteq> []" using assms(4) by auto
  moreover from this have "last (take 5 rss) = rss ! 4"
    using assms(4) by (simp add: last_conv_nth min_def)
  ultimately show ?thesis
    using assms by (simp add: broadcast_all_get drain_result)
qed

definition numbered_states :: "regime_state list" where
  "numbered_states = map (\<lambda>n. DEFAULT_REGIME_STATE\<lparr>rs_timestamp := real n\<rparr>) [0..<8]"

theorem slow_bot_gets_stale_regime_witness:
  "map_option (\<lambda>q. fst (drain None q))
     (dict_get (broadcast_all numbered_states [''gate''] [(''gate'', new_queue 5)]) ''gate'')
   = Some (Some (numbered_states ! 4))"
  by (rule slow_bot_gets_stale_regime) (simp_all add: numbered_states_def)

end
