(* ===== verification/ExchangeBot.thy ===== *)
theory ExchangeBot
  imports OrderManager QSwitch CircuitBreaker Heartbeat Inventory Spread Depth Aggressiveness RegimeMaster
begin

text \<open>
  \<open>core/exchange_bot.py\<close>: the per-exchange bot.  Its state extends the order manager's by the bot's
  own fields, so that the order manager's methods run on it as they are.  A tick is written in
  the two halves the source has, up to the grid (steps 1 to 5) and from the repost on (steps 6
  to 9); the queue that a tick waits on is read by \<open>bot_loop_step\<close>.
\<close>

section \<open>State\<close>

record 'w bot = "'w om" +
  b_exchange :: string
  b_config :: exchange_bot_config
  b_live_mode :: bool
  b_q_switch :: q_switch
  b_heartbeat :: heartbeat
  b_breaker :: circuit_breaker
  b_inventory :: inventory
  b_spread :: spread_engine
  b_depth :: depth_config
  b_agg_cfg :: volatility_config
  b_queue :: "global_state aqueue"
  b_regime_queue :: "regime_state aqueue option"
  b_regime :: "regime_state option"
  b_paper_orders :: "order list option"
  b_running :: bool
  b_balance :: "balance option"
  b_balance_cached_at :: real
  b_last_snapshot_at :: real
  b_last_rl_at :: real
  b_last_fill_poll_at :: real
  b_last_fill_ts :: "real option"
  b_last_global_state :: "global_state option"

section \<open>Regime, balance and safety\<close>

definition drain_regime_queue :: "('w, 'z) bot_scheme \<Rightarrow> ('w, 'z) bot_scheme" where
  "drain_regime_queue s =
     (case b_regime_queue s of
        None \<Rightarrow> s
      | Some q \<Rightarrow>
          (let (latest, q') = drain None q; s' = s\<lparr>b_regime_queue := Some q'\<rparr>
           in case latest of None \<Rightarrow> s' | Some rs \<Rightarrow> s'\<lparr>b_regime := Some rs\<rparr>))"

definition resolve_mm_params :: "global_state \<Rightarrow> ('w, 'z) bot_scheme \<Rightarrow> mm_params" where
  "resolve_mm_params st s =
     (case b_regime s of
        Some rs \<Rightarrow> rs_mm_params rs
      | None \<Rightarrow> (case gs_regime_state st of Some rs \<Rightarrow> rs_mm_params rs | None \<Rightarrow> ranging_params))"

definition refresh_balance :: "'w env \<Rightarrow> (('w, 'z) bot_scheme, unit) eff" where
  "refresh_balance env =
     seqE (acquire env)
     (bindE (callE (fetch_balance env)) (\<lambda>b.
      seqE (modE (\<lambda>s. s\<lparr>b_balance := Some b\<rparr>))
      (bindE (now_s env) (\<lambda>now. modE (\<lambda>s. s\<lparr>b_balance_cached_at := now\<rparr>)))))"

text \<open>A stale balance is refreshed; when that fails the old one is used.\<close>

definition get_balance :: "'w env \<Rightarrow> (('w, 'z) bot_scheme, balance option) eff" where
  "get_balance env =
     seqE
       (bindE (getsE b_balance) (\<lambda>b.
          if b = None then catchE (refresh_balance env) (\<lambda>_. ret ())
          else bindE (now_s env) (\<lambda>now. bindE (getsE b_balance_cached_at) (\<lambda>t.
            if now - t > 10 then catchE (refresh_balance env) (\<lambda>_. ret ()) else ret ()))))
       (getsE b_balance)"

definition q_check :: "'w env \<Rightarrow> balance \<Rightarrow> (('w, 'z) bot_scheme, bool) eff" where
  "q_check env b =
     bindE (getsE b_q_switch) (\<lambda>q.
       if qs_triggered q \<or> balance_reason (qs_config q) b = None then ret (qs_triggered q)
       else bindE (now_s env) (\<lambda>now.
         seqE (modE (\<lambda>s. s\<lparr>b_q_switch := snd (qs_check now b q)\<rparr>)) (ret True)))"

definition q_trigger :: "'w env \<Rightarrow> string \<Rightarrow> (('w, 'z) bot_scheme, unit) eff" where
  "q_trigger env reason =
     bindE (getsE b_q_switch) (\<lambda>q.
       if qs_triggered q then ret ()
       else bindE (now_s env) (\<lambda>now.
         modE (\<lambda>s. s\<lparr>b_q_switch := qs_trigger_manually now reason (b_q_switch s)\<rparr>)))"

text \<open>\<open>datetime.now(timezone.utc).toordinal()\<close> at a Unix time.\<close>

definition utc_ordinal :: "real \<Rightarrow> int" where
  "utc_ordinal t = \<lfloor>t / 86400\<rfloor> + 719163"

definition breaker_record :: "'w env \<Rightarrow> real \<Rightarrow> real \<Rightarrow> real \<Rightarrow> (('w, 'z) bot_scheme, bool) eff" where
  "breaker_record env usd token mid =
     bindE (now_s env) (\<lambda>now.
     seqE (modE (\<lambda>s. s\<lparr>b_breaker := record_equity (utc_ordinal now) usd token mid (b_breaker s)\<rparr>))
       (getsE (\<lambda>s. cb_tripped (b_breaker s))))"

section \<open>The order grid of a tick\<close>

text \<open>\<open>a or b\<close> for an optional int.\<close>

definition or_int :: "int option \<Rightarrow> int \<Rightarrow> int" where
  "or_int x d = (case x of None \<Rightarrow> d | Some v \<Rightarrow> if v = 0 then d else v)"

definition tick_skew :: "mm_params \<Rightarrow> ('w, 'z) bot_scheme \<Rightarrow> real" where
  "tick_skew mm s =
     (let skew = skew_factor (b_inventory s)
      in if inventory_skew mm \<noteq> 0 then max 0.5 (min 2 (skew + inventory_skew mm)) else skew)"

definition tick_aggs :: "global_state \<Rightarrow> ('w, 'z) bot_scheme \<Rightarrow> real \<times> real" where
  "tick_aggs st s =
     (let cfg = b_agg_cfg s;
          (raw_buy, raw_sell) =
            (if gs_hmm_regime st \<noteq> [] \<and> gs_hmm_regime st \<noteq> ''NORMAL''
             then compute_with_hmm_regime cfg (gs_volatility st) (gs_zz_regime st) (gs_hmm_regime st)
                    (gs_hmm_confidence st)
             else compute_with_regime cfg (gs_volatility st) (gs_zz_regime st))
      in (raw_buy * base_aggressiveness cfg, raw_sell * base_aggressiveness cfg))"

definition round_to_tick :: "real \<Rightarrow> real \<Rightarrow> real" where
  "round_to_tick tick p = of_int (py_round (p / tick)) * tick"

record tick_plan =
  tp_balance :: balance
  tp_skew :: real
  tp_grid :: order_grid
  tp_buy_spreads :: "real list"
  tp_sell_spreads :: "real list"
  tp_buy_usd :: "real list"
  tp_sell_usd :: "real list"

definition plan_grid :: "global_state \<Rightarrow> mm_params \<Rightarrow> balance \<Rightarrow> ('w, 'z) bot_scheme \<Rightarrow> tick_plan" where
  "plan_grid st mm bal s =
     (let skew = tick_skew mm s;
          (buy_agg, sell_agg) = tick_aggs st s;
          sp = xc_spread (b_config s); dp = xc_depth (b_config s);
          buy_n = nat (or_int (buy_levels sp) (dp_levels dp));
          sell_n = nat (or_int (sell_levels sp) (dp_levels dp));
          buy_cs = or_float (buy_curve_strength sp) (sp_curve_strength sp);
          sell_cs = or_float (sell_curve_strength sp) (sp_curve_strength sp);
          (buy_spreads, sell_spreads) =
            compute_levels_huy (b_spread s) buy_agg sell_agg buy_n sell_n buy_cs sell_cs
              (buy_min_step sp) (sell_min_step sp) (spread_mult mm);
          price = (\<lambda>x. round_to_tick (tick_size sp) (gs_global_mid st * (1 + x / 100)));
          buys = map price buy_spreads; sells = map price sell_spreads;
          buy_usd0 = compute_amounts (b_depth s) buy_agg buy_n skew ''buy'' (min_step_usd dp) (depth_mult mm);
          sell_usd0 = compute_amounts (b_depth s) sell_agg sell_n skew ''sell'' (min_step_usd dp) (depth_mult mm);
          crash = (gs_hmm_regime st = ''HIGH_VOL_CRASH''); h = hmm (b_agg_cfg s);
          buy_usd = (if crash then map (\<lambda>a. a * crash_buy_depth_multiplier h) buy_usd0 else buy_usd0);
          sell_usd = (if crash then map (\<lambda>a. a * crash_sell_depth_factor h) sell_usd0 else sell_usd0)
      in \<lparr>tp_balance = bal, tp_skew = skew,
          tp_grid = \<lparr>buy_prices = buys, buy_amounts = map2 usd_to_token_amount buy_usd buys,
                     sell_prices = sells, sell_amounts = map2 usd_to_token_amount sell_usd sells,
                     grid_mid = gs_global_mid st, grid_aggressiveness = (buy_agg + sell_agg) / 2\<rparr>,
          tp_buy_spreads = buy_spreads, tp_sell_spreads = sell_spreads,
          tp_buy_usd = buy_usd, tp_sell_usd = sell_usd\<rparr>)"

text \<open>Steps 1 to 5; None where the source returns early.\<close>

definition tick_plan_step :: "'w env \<Rightarrow> global_state \<Rightarrow> (('w, 'z) bot_scheme, tick_plan option) eff" where
  "tick_plan_step env st =
     seqE (modE (\<lambda>s. s\<lparr>b_last_global_state := Some st\<rparr>))
     (seqE (modE drain_regime_queue)
     (bindE (getsE (resolve_mm_params st)) (\<lambda>mm.
     (bindE (get_balance env) (\<lambda>bal. case bal of
        None \<Rightarrow> ret None
      | Some b \<Rightarrow>
         bindE (q_check env b) (\<lambda>halt.
         if halt then ret None
         else bindE (breaker_record env (bal_usd b) (bal_token b) (gs_global_mid st)) (\<lambda>tripped.
           if tripped then ret None
           else seqE (modE (\<lambda>s. s\<lparr>b_inventory := inv_update b (b_inventory s)\<rparr>))
             (bindE (getsE (\<lambda>s. (plan_grid st mm b s, tick_size (xc_spread (b_config s)))))
                (\<lambda>(p, tick). if tick = 0 \<and> (tp_buy_spreads p \<noteq> [] \<or> tp_sell_spreads p \<noteq> [])
                             then raiseE ZeroDivisionError else ret (Some p))))))))))"

section \<open>Trading, fills and records\<close>

definition ingest_one :: "'w env \<Rightarrow> fill \<Rightarrow> (('w, 'z) bot_scheme, unit) eff" where
  "ingest_one env f =
     seqE (insert_fill env f None)
       (modE (\<lambda>s. case b_last_fill_ts s of
                    None \<Rightarrow> s\<lparr>b_last_fill_ts := Some (fl_timestamp f)\<rparr>
                  | Some t \<Rightarrow> if fl_timestamp f > t then s\<lparr>b_last_fill_ts := Some (fl_timestamp f)\<rparr> else s))"

definition ingest_fills :: "'w env \<Rightarrow> (('w, 'z) bot_scheme, unit) eff" where
  "ingest_fills env =
     bindE (getsE b_last_fill_ts) (\<lambda>last_ts.
     bindE (case last_ts of Some t \<Rightarrow> ret (t + 0.001) | None \<Rightarrow> bindE (now_s env) (\<lambda>now. ret (now - 3600)))
       (\<lambda>since.
     bindE (catchE (bindE (acquire env) (\<lambda>_. bindE (callE (fetch_fills env (Some since))) (\<lambda>fs. ret (Some fs))))
              (\<lambda>_. ret None)) (\<lambda>r. case r of
       None \<Rightarrow> ret ()
     | Some fs \<Rightarrow> for_each (ingest_one env) fs)))"

definition poll_fills :: "'w env \<Rightarrow> real \<Rightarrow> (('w, 'z) bot_scheme, unit) eff" where
  "poll_fills env ts =
     bindE (getsE b_last_fill_poll_at) (\<lambda>t.
       if ts - t \<ge> 5 then seqE (ingest_fills env) (modE (\<lambda>s. s\<lparr>b_last_fill_poll_at := ts\<rparr>)) else ret ())"

definition write_snapshot :: "'w env \<Rightarrow> real \<Rightarrow> global_state \<Rightarrow> tick_plan \<Rightarrow> (('w, 'z) bot_scheme, unit) eff" where
  "write_snapshot env ts st p =
     bindE (getsE (\<lambda>s. (b_last_snapshot_at s, b_exchange s))) (\<lambda>(t, ex).
       if ts - t \<ge> 30
       then seqE (insert_inventory_snapshot env ex (bal_usd (tp_balance p)) (bal_token (tp_balance p))
                    (gs_global_mid st) (gs_volatility st) (grid_aggressiveness (tp_grid p)) (tp_skew p))
                 (modE (\<lambda>s. s\<lparr>b_last_snapshot_at := ts\<rparr>))
       else ret ())"

definition first_of :: "real list \<Rightarrow> real option" where
  "first_of xs = (case xs of [] \<Rightarrow> None | x # _ \<Rightarrow> Some x)"

definition write_features :: "'w env \<Rightarrow> real \<Rightarrow> global_state \<Rightarrow> tick_plan \<Rightarrow> (('w, 'z) bot_scheme, unit) eff" where
  "write_features env ts st p =
     bindE (getsE b_last_rl_at) (\<lambda>t.
       if ts - t \<ge> 10
       then bindE (get_fill_rate env 60) (\<lambda>fill_rate.
            bindE (get_recent_pnl env 3600) (\<lambda>pnl_1h.
            seqE (insert_rl_features env
              \<lparr>ft_timestamp = 0, ft_vol_simple = gs_volatility st, ft_vol_zz = Some (gs_zz_vol st),
               ft_zz_regime = Some (gs_zz_regime st), ft_hmm_regime = Some (gs_hmm_regime st),
               ft_hmm_confidence = Some (gs_hmm_confidence st),
               ft_aggressiveness = grid_aggressiveness (tp_grid p), ft_global_mid = gs_global_mid st,
               ft_buy_spread_l1 = first_of (tp_buy_spreads p), ft_sell_spread_l1 = first_of (tp_sell_spreads p),
               ft_skew_factor = tp_skew p, ft_fill_rate_1m = fill_rate, ft_pnl_1h = Some pnl_1h\<rparr>)
              (modE (\<lambda>s. s\<lparr>b_last_rl_at := ts\<rparr>))))
       else ret ())"

definition emit_tick :: "'w env \<Rightarrow> global_state \<Rightarrow> tick_plan \<Rightarrow> nat \<Rightarrow> (('w, 'z) bot_scheme, unit) eff" where
  "emit_tick env st p n_placed =
     bindE (getsE (\<lambda>s. (b_exchange s, open_order_count s))) (\<lambda>(ex, n_open).
       broadcast env TICK_UPDATE
         (tick_payload ex (gs_global_mid st) (gs_volatility st) (grid_aggressiveness (tp_grid p)) (tp_skew p)
            n_open n_placed (Some (gs_zz_regime st)) (Some (gs_hmm_regime st)) (Some (gs_hmm_confidence st))
            (Some (buy_prices (tp_grid p), tp_buy_usd p)) (Some (sell_prices (tp_grid p), tp_sell_usd p))))"

text \<open>Steps 6 to 9.\<close>

definition tick_trade_step :: "'w env \<Rightarrow> global_state \<Rightarrow> tick_plan \<Rightarrow> (('w, 'z) bot_scheme, unit) eff" where
  "tick_trade_step env st p =
     bindE (diff_and_repost env (tp_grid p)) (\<lambda>placed.
     seqE (modE (\<lambda>s. case b_paper_orders s of None \<Rightarrow> s
                     | Some _ \<Rightarrow> s\<lparr>b_paper_orders := Some (open_order_list s)\<rparr>))
     (bindE (now_s env) (\<lambda>ts.
     seqE (poll_fills env ts)
     (seqE (write_snapshot env ts st p)
     (seqE (write_features env ts st p)
       (emit_tick env st p (length placed)))))))"

definition tick :: "'w env \<Rightarrow> global_state \<Rightarrow> (('w, 'z) bot_scheme, unit) eff" where
  "tick env st =
     bindE (tick_plan_step env st) (\<lambda>r. case r of None \<Rightarrow> ret () | Some p \<Rightarrow> tick_trade_step env st p)"

section \<open>Lifecycle\<close>

definition beat :: "'w env \<Rightarrow> (('w, 'z) bot_scheme, unit) eff" where
  "beat env = bindE (now_s env) (\<lambda>now. modE (\<lambda>s. s\<lparr>b_heartbeat := hb_beat now (b_heartbeat s)\<rparr>))"

definition try_reconnect :: "'w env \<Rightarrow> (('w, 'z) bot_scheme, unit) eff" where
  "try_reconnect env =
     catchE (callE (cn_reconnect env)) (\<lambda>_.
       seqE (modE (\<lambda>s. s\<lparr>b_running := False\<rparr>))
            (q_trigger env ''Reconnect failed - manual review required''))"

text \<open>
  One pass of \<open>_run_loop\<close>; an empty queue is the five-second timeout, which a timeout inside the
  tick is taken for.
\<close>

definition bot_loop_step :: "'w env \<Rightarrow> (('w, 'z) bot_scheme, unit) eff" where
  "bot_loop_step env =
     bindE (getsE b_running) (\<lambda>go. if \<not> go then ret () else
     bindE (getsE (\<lambda>s. get_nowait (b_queue s))) (\<lambda>r. case r of
       None \<Rightarrow> ret ()
     | Some (st, q) \<Rightarrow>
         seqE (modE (\<lambda>s. s\<lparr>b_queue := q\<rparr>))
           (catchE (seqE (tick env st) (beat env)) (\<lambda>e.
              if e = TimeoutError then ret ()
              else bindE (getsE (\<lambda>s. is_connected env (world s))) (\<lambda>c.
                if c then ret () else try_reconnect env)))))"

definition bot_emergency_stop :: "'w env \<Rightarrow> (('w, 'z) bot_scheme, unit) eff" where
  "bot_emergency_stop env =
     seqE (modE (\<lambda>s. s\<lparr>b_running := False\<rparr>))
     (seqE (q_trigger env ''Heartbeat failure'')
     (seqE (cancel_all env)
     (bindE (getsE b_exchange) (\<lambda>ex. emit_emergency_stop env ex ''Heartbeat failure''))))"

text \<open>
  \<open>_warmup\<close>: the attribute \<open>_initial_balance\<close> it looks for is set nowhere, so the balance just
  fetched becomes the baseline.
\<close>

definition warmup :: "'w env \<Rightarrow> (('w, 'z) bot_scheme, unit) eff" where
  "warmup env =
     catchE
       (seqE (acquire env)
       (bindE (callE (fetch_balance env)) (\<lambda>b.
        seqE (modE (\<lambda>s. s\<lparr>b_balance := Some b\<rparr>))
        (bindE (now_s env) (\<lambda>now.
         modE (\<lambda>s. s\<lparr>b_balance_cached_at := now, b_inventory := record_initial b (b_inventory s)\<rparr>))))))
       (\<lambda>_. ret ())"

definition bot_start :: "'w env \<Rightarrow> (('w, 'z) bot_scheme, unit) eff" where
  "bot_start env =
     seqE (callE (cn_connect env))
     (seqE (warmup env)
       (modE (\<lambda>s. s\<lparr>b_running := True, b_heartbeat := hb_start (b_heartbeat s)\<rparr>)))"

definition bot_stop :: "'w env \<Rightarrow> (('w, 'z) bot_scheme, unit) eff" where
  "bot_stop env =
     seqE (modE (\<lambda>s. s\<lparr>b_running := False, b_heartbeat := hb_stop (b_heartbeat s)\<rparr>))
     (seqE (cancel_all env) (callE (cn_disconnect env)))"

text \<open>
  A new bot around the shared parts; \<open>up\<close> and \<open>now\<close> are what the monotonic and the wall clock show
  when the limiter and the heartbeat are built, \<open>today\<close> the day when the circuit breaker is.
\<close>

definition new_bot ::
  "exchange_bot_config \<Rightarrow> volatility_config \<Rightarrow> bool \<Rightarrow> real \<Rightarrow> real \<Rightarrow> int \<Rightarrow> global_state aqueue \<Rightarrow>
   regime_state aqueue option \<Rightarrow> order list option \<Rightarrow> ('w, 'z) feed_sys_scheme \<Rightarrow> 'w bot" where
  "new_bot cfg agg live up now today q rq paper s =
     \<lparr>world = world s, limiter = new_rate_limiter (nat (max_requests_per_second (xc_safety cfg))) up,
      db = db s, feed = feed s, om_config = cfg, live_mode = live, dry_run = (\<not> live), open_orders = [],
      order_created_at = [], last_grid = None, max_order_age = 300,
      b_exchange = xc_exchange cfg, b_config = cfg, b_live_mode = live,
      b_q_switch = new_q_switch (xc_safety cfg) (xc_exchange cfg),
      b_heartbeat = new_heartbeat (xc_safety cfg) now,
      b_breaker = new_circuit_breaker (xc_safety cfg) today,
      b_inventory = new_inventory 0 0 0, b_spread = new_spread_engine (xc_spread cfg) 0,
      b_depth = xc_depth cfg, b_agg_cfg = agg, b_queue = q, b_regime_queue = rq, b_regime = None,
      b_paper_orders = paper, b_running = False, b_balance = None, b_balance_cached_at = 0,
      b_last_snapshot_at = 0, b_last_rl_at = 0, b_last_fill_poll_at = 0, b_last_fill_ts = None,
      b_last_global_state = None\<rparr>"

lemma new_bot_manager: "init_order_manager cfg live (new_bot cfg agg live up now today q rq paper s) =
    new_bot cfg agg live up now today q rq paper s"
  by (simp add: init_order_manager_def new_bot_def)

section \<open>Status\<close>

definition jopt :: "('a \<Rightarrow> json) \<Rightarrow> 'a option \<Rightarrow> json" where
  "jopt f x = (case x of None \<Rightarrow> JNull | Some v \<Rightarrow> f v)"

definition mm_json :: "mm_params \<Rightarrow> json" where
  "mm_json p = JObj [(''spread_mult'', JNum (spread_mult p)), (''depth_mult'', JNum (depth_mult p)),
     (''aggressiveness'', JNum (mm_aggressiveness p)), (''inventory_skew'', JNum (inventory_skew p))]"

text \<open>\<open>show\<close> is the f-string that renders the reason of a trip.\<close>

definition bot_get_status :: "(trip_reason \<Rightarrow> string) \<Rightarrow> ('w, 'z) bot_scheme \<Rightarrow> (string \<times> json) list" where
  "bot_get_status show s =
     (let st = b_last_global_state s; inv = inv_state (b_inventory s);
          rs = (case b_regime s of Some r \<Rightarrow> Some r
                | None \<Rightarrow> (case st of None \<Rightarrow> None | Some g \<Rightarrow> gs_regime_state g))
      in [(''exchange'', JStr (b_exchange s)), (''running'', JBool (b_running s)),
          (''dry_run'', JBool (\<not> b_live_mode s)),
          (''q_switch_triggered'', JBool (qs_triggered (b_q_switch s))),
          (''circuit_breaker_tripped'', JBool (cb_tripped (b_breaker s))),
          (''circuit_breaker_reason'', JStr (show (cb_trip_reason (b_breaker s)))),
          (''open_orders'', JNum (real (open_order_count s))),
          (''global_mid'', jopt (JNum \<circ> gs_global_mid) st), (''volatility'', jopt (JNum \<circ> gs_volatility) st),
          (''aggressiveness'', jopt (JNum \<circ> gs_aggressiveness) st),
          (''zz_regime'', jopt (JStr \<circ> gs_zz_regime) st), (''hmm_regime'', jopt (JStr \<circ> gs_hmm_regime) st),
          (''hmm_regime_confidence'', jopt (JNum \<circ> gs_hmm_confidence) st),
          (''regime'', jopt (JStr \<circ> rs_regime) rs),
          (''regime_confidence'', jopt (\<lambda>r. JNum (py_round_n 4 (rs_confidence r))) rs),
          (''regime_agreement'', jopt (JBool \<circ> rs_agreement) rs),
          (''regime_mm_params'', jopt (mm_json \<circ> rs_mm_params) rs),
          (''balance_usd'', JNum (st_usd inv)), (''balance_token'', JNum (st_token inv)),
          (''skew_factor'', JNum (st_skew_factor inv)), (''token_drift_pct'', JNum (st_token_drift_pct inv))])"

end
