(* ===== verification/BotSafety.thy ===== *)
theory BotSafety
  imports ExchangeBot
begin

section \<open>What the order manager's methods leave alone\<close>

definition more_only where
  "more_only P \<longleftrightarrow> (\<forall>s s'. om.more s = om.more s' \<longrightarrow> P s \<longrightarrow> P s')"

lemma more_onlyI: "(\<And>s s'. om.more s = om.more s' \<Longrightarrow> P s \<Longrightarrow> P s') \<Longrightarrow> more_only P"
  unfolding more_only_def by blast

lemma more_onlyD: "more_only P \<Longrightarrow> om.more s = om.more s' \<Longrightarrow> P s \<Longrightarrow> P s'"
  unfolding more_only_def by blast

lemma more_only_om [keeps_intros]: "more_only P \<Longrightarrow> om_only P"
  unfolding more_only_def om_only_def om_frame_def by blast

lemma more_only_feed [keeps_intros]: "more_only P \<Longrightarrow> feed_free P"
  unfolding feed_free_def by (auto elim: more_onlyD [rotated 2])

lemma keeps_more_mod:
  assumes "more_only P" and "\<And>s. om.more (f s) = om.more s"
  shows "keeps P (modE f)"
  by (rule keeps_mod) (metis assms more_onlyD)

lemma keeps_more_cancel_one [keeps_intros]: "more_only P \<Longrightarrow> keeps P (cancel_one env o')"
  by (rule keeps_cancel_one) (auto intro: more_only_om elim: more_onlyD [rotated 2])

lemma keeps_more_track [keeps_intros]: "more_only P \<Longrightarrow> keeps P (track_order env o')"
  by (rule keeps_track_order) (auto intro: more_only_om elim: more_onlyD [rotated 2])

lemma keeps_more_place [keeps_intros]: "more_only P \<Longrightarrow> keeps P (place_one env sd p a)"
  unfolding place_one_def Let_def by (intro keeps_intros)

lemma keeps_more_sync [keeps_intros]: "more_only P \<Longrightarrow> keeps P (sync_open_orders env)"
  unfolding sync_open_orders_def sync_with_exchange_def drop_stale_id_def adopt_order_def Let_def case_prod_unfold
  by (intro keeps_intros keeps_more_mod) simp_all

lemma keeps_more_age [keeps_intros]: "more_only P \<Longrightarrow> keeps P (cancel_stale_by_age env)"
  unfolding cancel_stale_by_age_def cancel_aged_def by (intro keeps_intros)

lemma keeps_more_diff [keeps_intros]: "more_only P \<Longrightarrow> keeps P (diff_and_repost env g)"
  unfolding diff_and_repost_def case_prod_unfold by (intro keeps_intros keeps_more_mod) simp_all

lemma keeps_more_cancel_all [keeps_intros]: "more_only P \<Longrightarrow> keeps P (cancel_all env)"
  unfolding cancel_all_def by (intro keeps_intros keeps_more_mod) simp_all

text \<open>The switches and the balance of the bot.\<close>

definition halts where
  "halts s = (b_q_switch s, b_breaker s, b_balance s, b_running s)"

lemma more_only_halts [keeps_intros]: "more_only (\<lambda>s. halts s = h)"
proof (rule more_onlyI)
  fix s s' :: "('a, 'b) bot_scheme"
  assume "om.more s = om.more s'" "halts s = h"
  then show "halts s' = h" by (cases s; cases s') (simp add: halts_def)
qed

section \<open>Planning does not trade\<close>

definition trade_frame where
  "trade_frame s = (open_orders s, order_created_at s, last_grid s, db s, feed s, dry_run s)"

lemma trade_frame_free [keeps_intros]:
  "world_free (\<lambda>s. trade_frame s = F)" "limiter_free (\<lambda>s. trade_frame s = F)"
  by (simp_all add: world_free_def limiter_free_def trade_frame_def)

lemma trade_frame_upd [simp]:
  "trade_frame (s\<lparr>b_balance := x1\<rparr>) = trade_frame s" "trade_frame (s\<lparr>b_balance_cached_at := x2\<rparr>) = trade_frame s"
  "trade_frame (s\<lparr>b_q_switch := x3\<rparr>) = trade_frame s" "trade_frame (s\<lparr>b_breaker := x4\<rparr>) = trade_frame s"
  "trade_frame (s\<lparr>b_inventory := x5\<rparr>) = trade_frame s" "trade_frame (s\<lparr>b_last_global_state := x6\<rparr>) = trade_frame s"
  "trade_frame (s\<lparr>b_regime_queue := x7\<rparr>) = trade_frame s" "trade_frame (s\<lparr>b_regime := x8\<rparr>) = trade_frame s"
  "trade_frame (s\<lparr>b_running := x9\<rparr>) = trade_frame s" "trade_frame (s\<lparr>b_queue := x10\<rparr>) = trade_frame s"
  "trade_frame (s\<lparr>b_heartbeat := x11\<rparr>) = trade_frame s"
  by (simp_all add: trade_frame_def)

lemma trade_frame_drain [simp]: "trade_frame (drain_regime_queue s) = trade_frame s"
  by (auto simp: drain_regime_queue_def Let_def split: option.split prod.split)

lemma keeps_frame_refresh [keeps_intros]: "keeps (\<lambda>s. trade_frame s = F) (refresh_balance env)"
  unfolding refresh_balance_def by (intro keeps_intros keeps_mod) simp_all

lemma keeps_frame_get_balance [keeps_intros]: "keeps (\<lambda>s. trade_frame s = F) (get_balance env)"
  unfolding get_balance_def by (intro keeps_intros)

lemma keeps_frame_q_check [keeps_intros]: "keeps (\<lambda>s. trade_frame s = F) (q_check env b)"
  unfolding q_check_def by (intro keeps_intros keeps_mod) simp_all

lemma keeps_frame_q_trigger [keeps_intros]: "keeps (\<lambda>s. trade_frame s = F) (q_trigger env r)"
  unfolding q_trigger_def by (intro keeps_intros keeps_mod) simp_all

lemma keeps_frame_breaker [keeps_intros]: "keeps (\<lambda>s. trade_frame s = F) (breaker_record env u t m)"
  unfolding breaker_record_def by (intro keeps_intros keeps_mod) simp_all

lemma keeps_frame_plan [keeps_intros]: "keeps (\<lambda>s. trade_frame s = F) (tick_plan_step env st)"
  unfolding tick_plan_step_def case_prod_unfold by (intro keeps_intros keeps_mod) simp_all

section \<open>The outcome of planning\<close>

lemma get_balance_Inr: "fst (get_balance env s) = Inr (b_balance (snd (get_balance env s)))"
  by (auto simp: get_balance_def eff_simps split: sum.split prod.split)

text \<open>Fetching the balance leaves both halts alone.\<close>

definition switches where
  "switches s = (b_q_switch s, b_breaker s, b_running s)"

lemma switches_free [keeps_intros]:
  "world_free (\<lambda>s. switches s = F)" "limiter_free (\<lambda>s. switches s = F)"
  by (simp_all add: world_free_def limiter_free_def switches_def)

lemma keeps_switches_get_balance [keeps_intros]: "keeps (\<lambda>s. switches s = F) (get_balance env)"
  unfolding get_balance_def refresh_balance_def by (intro keeps_intros keeps_mod) (simp_all add: switches_def)

lemma switches_upd [simp]:
  "switches (s\<lparr>b_last_global_state := x\<rparr>) = switches s" "switches (drain_regime_queue s) = switches s"
  by (auto simp: switches_def drain_regime_queue_def Let_def split: option.split prod.split)

lemma q_check_triggered: "qs_triggered (b_q_switch s) \<Longrightarrow> q_check env b s = (Inr True, s)"
  by (simp add: q_check_def eff_simps)

lemma q_check_False:
  "q_check env b s = (Inr False, s') \<Longrightarrow>
   s' = s \<and> \<not> qs_triggered (b_q_switch s) \<and> balance_reason (qs_config (b_q_switch s)) b = None"
  by (auto simp: q_check_def eff_simps split: if_splits prod.splits)

lemma breaker_record_False:
  "breaker_record env u t m s = (Inr False, s') \<Longrightarrow>
   \<not> cb_tripped (b_breaker s') \<and> b_q_switch s' = b_q_switch s \<and> b_balance s' = b_balance s"
  by (auto simp: breaker_record_def eff_simps split: prod.splits)

lemma plan_Some:
  assumes "tick_plan_step env st s = (Inr (Some p), s')"
  shows "\<exists>b. b_balance s' = Some b \<and> tp_balance p = b \<and> \<not> qs_triggered (b_q_switch s') \<and>
    balance_reason (qs_config (b_q_switch s')) b = None \<and> \<not> cb_tripped (b_breaker s')"
proof -
  let ?s0 = "drain_regime_queue (s\<lparr>b_last_global_state := Some st\<rparr>)"
  obtain bal s1 where g: "get_balance env ?s0 = (Inr bal, s1)"
    using get_balance_Inr [of env ?s0] by (metis prod.collapse)
  with get_balance_Inr [of env ?s0] have bal: "bal = b_balance s1" by simp
  let ?mm = "resolve_mm_params st ?s0"
  from assms g obtain b where b: "bal = Some b"
    by (cases bal) (auto simp: tick_plan_step_def seqE_def bindE_def modE_def getsE_def ret_def)
  from assms g b obtain s2 s3 where q: "q_check env b s1 = (Inr False, s2)"
    and c: "breaker_record env (bal_usd b) (bal_token b) (gs_global_mid st) s2 = (Inr False, s3)"
    and r: "seqE (modE (\<lambda>s. s\<lparr>b_inventory := inv_update b (b_inventory s)\<rparr>))
             (bindE (getsE (\<lambda>s. (plan_grid st ?mm b s, tick_size (xc_spread (b_config s)))))
                (\<lambda>(p, tick). if tick = 0 \<and> (tp_buy_spreads p \<noteq> [] \<or> tp_sell_spreads p \<noteq> [])
                             then raiseE ZeroDivisionError else ret (Some p))) s3 = (Inr (Some p), s')"
    by (auto simp: tick_plan_step_def seqE_eq_Inr bindE_eq_Inr modE_def getsE_def ret_def split: if_splits)
  from r have s': "s' = s3\<lparr>b_inventory := inv_update b (b_inventory s3)\<rparr>" and p: "tp_balance p = b"
    by (auto simp: seqE_def bindE_def modE_def getsE_def ret_def raiseE_def plan_grid_def Let_def case_prod_unfold
        split: if_splits)
  from q_check_False [OF q] breaker_record_False [OF c] bal b s' p show ?thesis by auto
qed

lemma plan_halted:
  assumes "qs_triggered (b_q_switch s)"
  shows "\<exists>s'. tick_plan_step env st s = (Inr None, s') \<and> qs_triggered (b_q_switch s') \<and> b_running s' = b_running s"
proof -
  let ?s0 = "drain_regime_queue (s\<lparr>b_last_global_state := Some st\<rparr>)"
  obtain bal s1 where g: "get_balance env ?s0 = (Inr bal, s1)"
    using get_balance_Inr [of env ?s0] by (metis prod.collapse)
  have "switches s1 = switches ?s0" by (rule keepsE [OF keeps_switches_get_balance g]) simp
  then have sw: "b_q_switch s1 = b_q_switch s" "b_running s1 = b_running s"
    using switches_upd [where s = "s\<lparr>b_last_global_state := Some st\<rparr>"] by (simp_all add: switches_def)
  have "tick_plan_step env st s = (Inr None, s1)"
    using g q_check_triggered [of s1 env] sw assms
    by (cases bal) (simp_all add: tick_plan_step_def seqE_def bindE_def modE_def getsE_def ret_def)
  with sw assms show ?thesis by simp
qed

text \<open>
  C2. A triggered Q-Switch suspends trading and nothing else: a tick of a halted bot returns, and
  leaves its open orders, the database and the live feed exactly as they were, so orders
  resting on the exchange stay there; the switch stays triggered.
\<close>

theorem halted_bot_does_not_trade:
  assumes "qs_triggered (b_q_switch s)"
  shows "case tick env st s of (r, s') \<Rightarrow>
    r = Inr () \<and> open_orders s' = open_orders s \<and> order_created_at s' = order_created_at s \<and>
    db s' = db s \<and> feed s' = feed s \<and> qs_triggered (b_q_switch s')"
proof -
  obtain s' where p: "tick_plan_step env st s = (Inr None, s')" "qs_triggered (b_q_switch s')"
    using plan_halted [OF assms] by blast
  have "trade_frame s' = trade_frame s" by (rule keepsE [OF keeps_frame_plan p(1)]) simp
  then show ?thesis using p by (simp add: tick_def bindE_def ret_def trade_frame_def)
qed

section \<open>Trading needs clearance\<close>

lemma keeps_halts_trade: "keeps (\<lambda>s. halts s = h) (tick_trade_step env st p)"
proof -
  have m: "world_free (\<lambda>s. halts s = h)" "limiter_free (\<lambda>s. halts s = h)" "db_free (\<lambda>s. halts s = h)"
    "feed_free (\<lambda>s. halts s = h)"
    by (intro keeps_intros)+
  show ?thesis
    unfolding tick_trade_step_def poll_fills_def ingest_fills_def ingest_one_def write_snapshot_def
      write_features_def emit_tick_def case_prod_unfold
    by (intro keeps_intros keeps_mod m) (auto simp: halts_def split: option.split)
qed

text \<open>
  C1. A tick trades only when cleared: if it touched the open orders, the database or the live feed,
  then it did so on a balance of at least both configured minimums, with the Q-Switch not
  triggered and the circuit breaker not tripped.
\<close>

theorem trading_needs_clearance:
  assumes "(open_orders s', db s', feed s') \<noteq> (open_orders s, db s, feed s)" and "tick env st s = (r, s')"
  shows "\<exists>b. b_balance s' = Some b \<and> min_balance_usd (qs_config (b_q_switch s')) \<le> bal_usd b \<and>
    min_balance_token (qs_config (b_q_switch s')) \<le> bal_token b \<and>
    \<not> qs_triggered (b_q_switch s') \<and> \<not> cb_tripped (b_breaker s')"
proof -
  obtain r1 s1 where pl: "tick_plan_step env st s = (r1, s1)" by fastforce
  have f: "trade_frame s1 = trade_frame s" by (rule keepsE [OF keeps_frame_plan pl]) simp
  have "\<exists>p. r1 = Inr (Some p)"
  proof (rule ccontr)
    assume "\<nexists>p. r1 = Inr (Some p)"
    then have "s' = s1" using assms(2) pl by (auto simp: tick_def bindE_def ret_def split: sum.splits option.splits)
    with f assms(1) show False by (simp add: trade_frame_def)
  qed
  then obtain p where p: "r1 = Inr (Some p)" ..
  then have t: "tick_trade_step env st p s1 = (r, s')" using assms(2) pl by (simp add: tick_def bindE_def)
  have "halts s' = halts s1" by (rule keepsE [OF keeps_halts_trade t]) simp
  with plan_Some [OF pl [unfolded p]] show ?thesis
    by (auto simp: halts_def balance_reason_def split: if_splits)
qed

section \<open>The grid\<close>

lemma round_to_tick_mono: "0 < tk \<Longrightarrow> x \<le> y \<Longrightarrow> round_to_tick tk x \<le> round_to_tick tk y"
  unfolding round_to_tick_def
  by (intro mult_right_mono of_int_le_iff [THEN iffD2] py_round_mono divide_right_mono) simp_all

lemma plan_spreads:
  fixes s :: "('w, 'z) bot_scheme"
  shows "\<exists>ba sa bn sn bcs scs bms sms. compute_levels_huy (b_spread s) ba sa bn sn bcs scs bms sms (spread_mult mm) =
     (tp_buy_spreads (plan_grid st mm bal s), tp_sell_spreads (plan_grid st mm bal s))"
  unfolding plan_grid_def Let_def case_prod_unfold tick_plan.select_convs prod.collapse by blast

lemma plan_prices:
  "buy_prices (tp_grid (plan_grid st mm bal s)) =
     map (\<lambda>x. round_to_tick (tick_size (xc_spread (b_config s))) (gs_global_mid st * (1 + x / 100)))
       (tp_buy_spreads (plan_grid st mm bal s))"
  "sell_prices (tp_grid (plan_grid st mm bal s)) =
     map (\<lambda>x. round_to_tick (tick_size (xc_spread (b_config s))) (gs_global_mid st * (1 + x / 100)))
       (tp_sell_spreads (plan_grid st mm bal s))"
  by (simp_all add: plan_grid_def Let_def case_prod_unfold)

text \<open>
  C28. The ladders do not cross the mid price: under a validated spread configuration every buy price
  of the planned grid is at most the mid price rounded to the tick, and if both sell bounds are
  positive, which the schema does not check, every sell price is at least that, whatever the
  regime, the aggressiveness, the skew and the level counts.
\<close>

theorem grid_brackets_mid:
  assumes "spread_ok (se_cfg (b_spread s))" and "0 < tick_size (xc_spread (b_config s))"
    and "0 < gs_global_mid st"
  shows "(\<forall>p \<in> set (buy_prices (tp_grid (plan_grid st mm bal s))).
            p \<le> round_to_tick (tick_size (xc_spread (b_config s))) (gs_global_mid st)) \<and>
         (0 < sell_min_pct (se_cfg (b_spread s)) \<and> 0 < sell_max_pct (se_cfg (b_spread s)) \<longrightarrow>
         (\<forall>p \<in> set (sell_prices (tp_grid (plan_grid st mm bal s))).
            round_to_tick (tick_size (xc_spread (b_config s))) (gs_global_mid st) \<le> p))"
proof -
  obtain ba sa bn sn bcs scs bms sms where c:
    "compute_levels_huy (b_spread s) ba sa bn sn bcs scs bms sms (spread_mult mm) =
     (tp_buy_spreads (plan_grid st mm bal s), tp_sell_spreads (plan_grid st mm bal s))"
    using plan_spreads [of s mm st bal] by blast
  have "gs_global_mid st * (1 + x / 100) \<le> gs_global_mid st"
    if "x \<in> set (tp_buy_spreads (plan_grid st mm bal s))" for x
    using huy_buys_negative [OF assms(1) c that] assms(3) by (simp add: mult_le_cancel_left1)
  moreover have "gs_global_mid st \<le> gs_global_mid st * (1 + x / 100)"
    if "x \<in> set (tp_sell_spreads (plan_grid st mm bal s))"
      "0 < sell_min_pct (se_cfg (b_spread s))" "0 < sell_max_pct (se_cfg (b_spread s))" for x
    using huy_sells_positive [OF that(2,3) c that(1)] assms(3) by simp
  ultimately show ?thesis
    using assms(2) by (auto simp: plan_prices intro!: round_to_tick_mono)
qed

lemma plan_amounts:
  fixes s :: "('w, 'z) bot_scheme" and st :: global_state
  defines "crash \<equiv> gs_hmm_regime st = ''HIGH_VOL_CRASH''" and "h \<equiv> hmm (b_agg_cfg s)"
  shows "\<exists>agg n skew. tp_buy_usd (plan_grid st mm bal s) =
     map (\<lambda>a. a * (if crash then crash_buy_depth_multiplier h else 1))
       (compute_amounts (b_depth s) agg n skew ''buy'' (min_step_usd (xc_depth (b_config s))) (depth_mult mm))"
    "\<exists>agg n skew. tp_sell_usd (plan_grid st mm bal s) =
     map (\<lambda>a. a * (if crash then crash_sell_depth_factor h else 1))
       (compute_amounts (b_depth s) agg n skew ''sell'' (min_step_usd (xc_depth (b_config s))) (depth_mult mm))"
    "buy_amounts (tp_grid (plan_grid st mm bal s)) =
       map2 usd_to_token_amount (tp_buy_usd (plan_grid st mm bal s)) (buy_prices (tp_grid (plan_grid st mm bal s)))"
    "sell_amounts (tp_grid (plan_grid st mm bal s)) =
       map2 usd_to_token_amount (tp_sell_usd (plan_grid st mm bal s)) (sell_prices (tp_grid (plan_grid st mm bal s)))"
  unfolding crash_def h_def
  by (simp_all add: plan_grid_def Let_def case_prod_unfold) blast+

lemma level_notional:
  assumes "(p, a) \<in> set (zip ps (map2 usd_to_token_amount us ps))" and "0 < p"
  shows "a * p \<in> set us"
proof -
  from assms(1) obtain i where i: "i < length ps" "i < length us" "p = ps ! i"
    "a = usd_to_token_amount (us ! i) (ps ! i)"
    by (auto simp: in_set_zip)
  then have "a * p = us ! i" using assms(2) usd_to_token_value by simp
  with i show ?thesis by simp
qed

text \<open>
  C29. Order sizes: every buy level of the planned grid with a positive price is worth at least
  \<open>min_order_usd\<close>; so is every sell level, except in a crash, where the sell amounts are scaled
  after the minimum was enforced and only that fraction of the minimum is guaranteed.
\<close>

theorem orders_meet_minimum:
  assumes "hmm_ok (hmm (b_agg_cfg s))" and "0 < min_order_usd (b_depth s)" and "0 < p"
  shows "((p, a) \<in> set (zip (buy_prices (tp_grid (plan_grid st mm bal s))) (buy_amounts (tp_grid (plan_grid st mm bal s))))
            \<longrightarrow> min_order_usd (b_depth s) \<le> a * p) \<and>
         ((p, a) \<in> set (zip (sell_prices (tp_grid (plan_grid st mm bal s))) (sell_amounts (tp_grid (plan_grid st mm bal s))))
            \<longrightarrow> min_order_usd (b_depth s) * (if gs_hmm_regime st = ''HIGH_VOL_CRASH''
                  then crash_sell_depth_factor (hmm (b_agg_cfg s)) else 1) \<le> a * p)"
proof -
  let ?P = "plan_grid st mm bal s"
  have f: "1 \<le> crash_buy_depth_multiplier (hmm (b_agg_cfg s))" "0 \<le> crash_sell_depth_factor (hmm (b_agg_cfg s))"
    using assms(1) by (simp_all add: hmm_ok_def between_def)
  have scale: "m \<le> y * k" if "m \<le> y" "1 \<le> k" "0 < m" for m y k :: real
    using mult_mono [of m y 1 k] that by simp
  have Bu: "min_order_usd (b_depth s) \<le> u" if "u \<in> set (tp_buy_usd ?P)" for u
    using that plan_amounts(1) [of st mm bal s] f(1) assms(2)
    by (auto intro!: scale dest: compute_amounts_min)
  have B: "min_order_usd (b_depth s) \<le> a * p"
    if "(p, a) \<in> set (zip (buy_prices (tp_grid ?P)) (buy_amounts (tp_grid ?P)))"
  proof -
    from that have "(p, a) \<in> set (zip (buy_prices (tp_grid ?P)) (map2 usd_to_token_amount (tp_buy_usd ?P) (buy_prices (tp_grid ?P))))"
      by (simp only: plan_amounts(3))
    from level_notional [OF this assms(3)] show ?thesis by (rule Bu)
  qed
  have "min_order_usd (b_depth s) * (if gs_hmm_regime st = ''HIGH_VOL_CRASH''
                  then crash_sell_depth_factor (hmm (b_agg_cfg s)) else 1) \<le> u" if "u \<in> set (tp_sell_usd ?P)" for u
    using that plan_amounts(2) [of st mm bal s] f(2)
    by (auto intro!: mult_right_mono dest: compute_amounts_min)
  moreover have "a * p \<in> set (tp_sell_usd ?P)"
    if "(p, a) \<in> set (zip (sell_prices (tp_grid ?P)) (sell_amounts (tp_grid ?P)))"
  proof -
    from that have "(p, a) \<in> set (zip (sell_prices (tp_grid ?P)) (map2 usd_to_token_amount (tp_sell_usd ?P) (sell_prices (tp_grid ?P))))"
      by (simp only: plan_amounts(4))
    from level_notional [OF this assms(3)] show ?thesis .
  qed
  ultimately show ?thesis using B by simp
qed

text \<open>The regime's own aggressiveness is published and never used.\<close>

lemma regime_aggressiveness_unused: "plan_grid st (mm\<lparr>mm_aggressiveness := x\<rparr>) bal s = plan_grid st mm bal s"
  by (cases mm) (simp only: plan_grid_def tick_skew_def mm_params.simps)

section \<open>Emergency stop and the run loop\<close>

lemma q_trigger_run:
  "\<exists>q w. q_trigger env reason s = (Inr (), s\<lparr>b_q_switch := q, world := w\<rparr>) \<and> qs_triggered q"
proof (cases "qs_triggered (b_q_switch s)")
  case True
  have "s = s\<lparr>b_q_switch := b_q_switch s, world := world s\<rparr>" by simp
  then have "q_trigger env reason s = (Inr (), s\<lparr>b_q_switch := b_q_switch s, world := world s\<rparr>)"
    using True by (simp add: q_trigger_def eff_simps)
  with True show ?thesis by blast
next
  case False
  obtain t w where "read_clock env (world s) = (t, w)" by fastforce
  with False have "q_trigger env reason s = (Inr (), s\<lparr>b_q_switch := qs_trigger_manually t reason (b_q_switch s), world := w\<rparr>)"
    by (simp add: q_trigger_def eff_simps)
  then show ?thesis using qs_trigger_on by blast
qed

text \<open>
  C7. An emergency stop halts before anything can fail: whatever the exchange and the database do, the bot is
  no longer running and its Q-Switch is triggered, and if the call returns no order is tracked
  any more.
\<close>

theorem emergency_stop_halts:
  "case bot_emergency_stop env s of (r, s') \<Rightarrow>
     \<not> b_running s' \<and> qs_triggered (b_q_switch s') \<and> (r = Inr () \<longrightarrow> open_orders s' = [])"
proof -
  obtain q w where t: "q_trigger env ''Heartbeat failure'' (s\<lparr>b_running := False\<rparr>) =
      (Inr (), s\<lparr>b_running := False, b_q_switch := q, world := w\<rparr>)" "qs_triggered q"
    using q_trigger_run [of env "''Heartbeat failure''" "s\<lparr>b_running := False\<rparr>"] by auto
  let ?s = "s\<lparr>b_running := False, b_q_switch := q, world := w\<rparr>"
  obtain r1 s1 where c: "cancel_all env ?s = (r1, s1)" by fastforce
  have "keeps (\<lambda>s. halts s = halts ?s) (cancel_all env)" by (intro keeps_intros)
  from keepsE [OF this c] have h: "halts s1 = halts ?s" by simp
  have o1: "r1 = Inr () \<Longrightarrow> open_orders s1 = []"
    using c by (auto simp: cancel_all_def seqE_eq_Inr bindE_eq_Inr modE_def)
  show ?thesis
  proof (cases r1)
    case (Inl e)
    then have "bot_emergency_stop env s = (Inl e, s1)"
      using c t(1) by (simp add: bot_emergency_stop_def seqE_def bindE_def modE_def)
    with h t(2) show ?thesis by (simp add: halts_def)
  next
    case (Inr u)
    obtain f w' where e: "emit_emergency_stop env (b_exchange s1) ''Heartbeat failure'' s1 = (Inr (), s1\<lparr>feed := f, world := w'\<rparr>)"
      using broadcast_run [of env _ _ s1] unfolding emit_emergency_stop_def by metis
    have "bot_emergency_stop env s = (Inr (), s1\<lparr>feed := f, world := w'\<rparr>)"
      using c t(1) Inr e by (simp add: bot_emergency_stop_def seqE_def bindE_def modE_def getsE_def)
    with h t(2) o1 Inr show ?thesis by (simp add: halts_def)
  qed
qed


lemma running_drain [simp]: "b_running (drain_regime_queue s) = b_running s"
  by (auto simp: drain_regime_queue_def Let_def split: option.split prod.split)

lemma more_only_running [keeps_intros]: "more_only b_running"
proof (rule more_onlyI)
  fix s s' :: "('a, 'b) bot_scheme"
  assume "om.more s = om.more s'" "b_running s"
  then show "b_running s'" by (cases s; cases s') simp
qed

lemma keeps_running_tick: "keeps (\<lambda>s. b_running s) (tick env st)"
proof -
  have free: "world_free (\<lambda>s. b_running s)" "limiter_free (\<lambda>s. b_running s)"
    by (simp_all add: world_free_def limiter_free_def)
  have plan: "keeps (\<lambda>s. b_running s) (tick_plan_step env st)"
    unfolding tick_plan_step_def case_prod_unfold get_balance_def refresh_balance_def q_check_def breaker_record_def
    by (intro keeps_intros keeps_mod free; simp)
  have trade: "keeps (\<lambda>s. b_running s) (tick_trade_step env st p)" for p
  proof (rule keepsI, goal_cases)
    case (1 s)
    moreover have "halts (snd (tick_trade_step env st p s)) = halts s"
      using keepsD [OF keeps_halts_trade [of "halts s" env st p], of s] by simp
    ultimately show ?case by (simp add: halts_def)
  qed
  show ?thesis unfolding tick_def by (intro keeps_intros plan trade)
qed

text \<open>
  C8. The run loop survives its ticks: one pass of the loop returns, whatever its tick raises.  An
  empty queue changes nothing.  A tick that raised nothing, that timed out, or that raised with
  the connection up leaves the bot running in the state of the tick; only one that raised
  anything but a timeout with the connection down makes the loop reconnect, and only when that
  fails does the bot stop, with its Q-Switch triggered.
\<close>

theorem run_loop_survives:
  assumes "b_running s"
  shows "case bot_loop_step env s of (r, s') \<Rightarrow> r = Inr () \<and>
    (case get_nowait (b_queue s) of None \<Rightarrow> s' = s
     | Some (st, q) \<Rightarrow> (case seqE (tick env st) (beat env) (s\<lparr>b_queue := q\<rparr>) of (t, s1) \<Rightarrow>
         if (\<exists>e. t = Inl e \<and> e \<noteq> TimeoutError) \<and> \<not> is_connected env (world s1)
         then (case cn_reconnect env (world s1) of
                 (Inr _, w) \<Rightarrow> s' = s1\<lparr>world := w\<rparr> \<and> b_running s'
               | (Inl _, _) \<Rightarrow> \<not> b_running s' \<and> qs_triggered (b_q_switch s'))
         else s' = s1 \<and> b_running s'))"
proof (cases "get_nowait (b_queue s)")
  case None
  with assms show ?thesis by (simp add: bot_loop_step_def eff_simps)
next
  case (Some p)
  obtain st q where p: "p = (st, q)" by fastforce
  let ?s = "s\<lparr>b_queue := q\<rparr>"
  let ?m = "seqE (tick env st) (beat env)"
  have b: "keeps (\<lambda>s. b_running s) (beat env)"
    unfolding beat_def by (intro keeps_intros keeps_mod) (auto intro!: keeps_intros)
  have k: "keeps (\<lambda>s. b_running s) ?m" by (intro keeps_intros keeps_running_tick b)
  obtain r1 s1 where m: "?m ?s = (r1, s1)" by fastforce
  have run: "b_running s1" by (rule keepsE [OF k m]) (simp add: assms)
  have eq: "bot_loop_step env s = (case r1 of Inr u \<Rightarrow> (Inr u, s1)
      | Inl e \<Rightarrow> if e = TimeoutError \<or> is_connected env (world s1) then (Inr (), s1) else try_reconnect env s1)"
    using assms Some p m
    by (cases r1) (simp_all add: bot_loop_step_def getsE_def bindE_def [of "getsE _"] seqE_def [of "modE _"]
        bindE_def [of "modE _"] modE_def catchE_def ret_def)
  have rec: "case try_reconnect env s1 of (r, s') \<Rightarrow> r = Inr () \<and>
    (case cn_reconnect env (world s1) of (Inr _, w) \<Rightarrow> s' = s1\<lparr>world := w\<rparr> \<and> b_running s'
       | (Inl _, _) \<Rightarrow> \<not> b_running s' \<and> qs_triggered (b_q_switch s'))"
  proof -
    obtain x w where c: "cn_reconnect env (world s1) = (x, w)" by fastforce
    obtain q' w' where t: "q_trigger env ''Reconnect failed - manual review required''
        (s1\<lparr>world := w, b_running := False\<rparr>) =
        (Inr (), s1\<lparr>world := w, b_running := False, b_q_switch := q', world := w'\<rparr>)" "qs_triggered q'"
      using q_trigger_run [of env _ "s1\<lparr>world := w, b_running := False\<rparr>"] by blast
    show ?thesis
    proof (cases x)
      case (Inl e)
      then show ?thesis using c t run
        by (simp add: try_reconnect_def catchE_def callE_def seqE_def bindE_def modE_def)
    next
      case (Inr u)
      then show ?thesis using c run by (simp add: try_reconnect_def catchE_def callE_def)
    qed
  qed
  show ?thesis
  proof (cases r1)
    case (Inl e)
    with run rec show ?thesis
      by (cases "e = TimeoutError \<or> is_connected env (world s1)") (auto simp: eq Some p m)
  next
    case (Inr u)
    with run show ?thesis by (simp add: eq Some p m)
  qed
qed

text \<open>
  Warming up discards a configured baseline: when the balance can be fetched, the inventory is
  measured against the fetched balance whatever initial balances had been set before.
\<close>

theorem warmup_overrides_baseline:
  assumes "\<forall>w. fst (fetch_balance env w) = Inr b"
  shows "initial_usd (b_inventory (snd (warmup env s))) = Some (bal_usd b) \<and>
         initial_token (b_inventory (snd (warmup env s))) = Some (bal_token b)"
proof -
  obtain r w where acq: "acquire env s = (Inr (), s\<lparr>limiter := r, world := w\<rparr>)"
    using acquire_result [of env s] by blast
  obtain w1 where f: "fetch_balance env w = (Inr b, w1)" using assms by (metis prod.collapse)
  obtain t w2 where n: "read_clock env w1 = (t, w2)" by fastforce
  show ?thesis
    by (simp add: warmup_def catchE_def seqE_def bindE_def acq callE_def f modE_def now_s_def envE_def n
        record_initial_def)
qed

section \<open>A sample bot\<close>

text \<open>A dry-run bot on the sample environment, and the same with a grid of no levels.\<close>

definition sample_bot :: "(nat, unit) bot_scheme" where
  "sample_bot =
     \<lparr>world = 0, limiter = new_rate_limiter 8 1000, db = new_database\<lparr>db_pool := True\<rparr>,
      feed = new_live_feed, om_config = sample_exchange, live_mode = False, dry_run = True,
      open_orders = [(''a'', sample_order ''a'' ''buy'' 90 1)], order_created_at = [],
      last_grid = None, max_order_age = 0, b_exchange = ''kucoin'', b_config = sample_exchange,
      b_live_mode = False, b_q_switch = new_q_switch sample_safety ''kucoin'',
      b_heartbeat = new_heartbeat sample_safety 1000, b_breaker = new_circuit_breaker sample_safety 719163,
      b_inventory = new_inventory 0 0 0, b_spread = new_spread_engine sample_spread 0,
      b_depth = sample_depth, b_agg_cfg = sample_volatility, b_queue = new_queue 5,
      b_regime_queue = None, b_regime = None, b_paper_orders = None, b_running = True,
      b_balance = Some \<lparr>bal_usd = 1000, bal_token = 1000, bal_quote_currency = ''USDT''\<rparr>,
      b_balance_cached_at = 1000, b_last_snapshot_at = 1000, b_last_rl_at = 1000,
      b_last_fill_poll_at = 1000, b_last_fill_ts = None, b_last_global_state = None\<rparr>"

definition sample_state :: global_state where
  "sample_state =
     \<lparr>gs_global_mid = 100, gs_volatility = 0.001, gs_aggressiveness = 1, gs_zz_vol = 0,
      gs_zz_regime = ''choppy'', gs_hmm_regime = ''NORMAL'', gs_hmm_confidence = 1,
      gs_timestamp = 1000, gs_contributing = [''kucoin''], gs_regime_state = None\<rparr>"

text \<open>A bot whose grid has no levels.\<close>

definition idle_bot :: "(nat, unit) bot_scheme" where
  "idle_bot = sample_bot\<lparr>b_config := sample_exchange\<lparr>xc_depth := sample_depth\<lparr>dp_levels := 0\<rparr>\<rparr>\<rparr>"

theorem halted_bot_does_not_trade_witness:
  "case tick sample_env sample_state (sample_bot\<lparr>b_q_switch := qs_trigger_manually 1000 ''x'' (b_q_switch sample_bot)\<rparr>) of
     (r, s') \<Rightarrow> r = Inr () \<and> open_orders s' = open_orders sample_bot \<and> order_created_at s' = order_created_at sample_bot \<and>
    db s' = db sample_bot \<and> feed s' = feed sample_bot \<and> qs_triggered (b_q_switch s')"
  using halted_bot_does_not_trade [of "sample_bot\<lparr>b_q_switch := qs_trigger_manually 1000 ''x'' (b_q_switch sample_bot)\<rparr>"
    sample_env sample_state]
  by (simp add: qs_trigger_on)


lemma no_side_levels: "compute_side_levels e a b g 0 cs = []"
  using length_compute_side_levels [of e a b g 0 cs] by (simp only: length_0_conv)


lemma no_levels_no_grid:
  assumes "b_config s = b_config idle_bot"
  shows "buy_prices (tp_grid (plan_grid st mm b s)) = []"
    "sell_prices (tp_grid (plan_grid st mm b s)) = []"
    "tp_buy_spreads (plan_grid st mm b s) = []"
    "tp_sell_spreads (plan_grid st mm b s) = []"
proof -
  have e: "or_int (buy_levels (xc_spread (b_config idle_bot))) (dp_levels (xc_depth (b_config idle_bot))) = 0"
    "or_int (sell_levels (xc_spread (b_config idle_bot))) (dp_levels (xc_depth (b_config idle_bot))) = 0"
    "buy_min_step (xc_spread (b_config idle_bot)) = 0" "sell_min_step (xc_spread (b_config idle_bot)) = 0"
    by (simp_all add: idle_bot_def sample_exchange_def sample_spread_def sample_depth_def or_int_def)
  show "buy_prices (tp_grid (plan_grid st mm b s)) = []"
    "sell_prices (tp_grid (plan_grid st mm b s)) = []"
    "tp_buy_spreads (plan_grid st mm b s) = []"
    "tp_sell_spreads (plan_grid st mm b s) = []"
    by (simp_all add: plan_grid_def case_prod_unfold Let_def compute_levels_huy_def assms e no_side_levels)
qed

lemmas plan_eval = tick_plan_step_def get_balance_def q_check_def breaker_record_def drain_regime_queue_def
  resolve_mm_params_def no_levels_no_grid balance_reason_def new_q_switch_def sample_safety_def
  utc_ordinal_def record_equity_def new_circuit_breaker_def cb_track_def loss_pct_def cb_check_drawdown_def

lemma idle_tick: "open_orders (snd (tick sample_env sample_state idle_bot)) = []"
  by (simp add: tick_def plan_eval tick_trade_step_def poll_fills_def write_snapshot_def write_features_def
      emit_tick_def broadcast_def cancel_one_def update_order_status_def om_eval sample_order_def
      new_rate_limiter_def new_database_def new_live_feed_def
      idle_bot_def sample_bot_def sample_env_def sample_state_def)

theorem trading_needs_clearance_witness:
  "\<exists>b. b_balance (snd (tick sample_env sample_state idle_bot)) = Some b \<and>
     min_balance_usd (qs_config (b_q_switch (snd (tick sample_env sample_state idle_bot)))) \<le> bal_usd b \<and>
     min_balance_token (qs_config (b_q_switch (snd (tick sample_env sample_state idle_bot)))) \<le> bal_token b \<and>
     \<not> qs_triggered (b_q_switch (snd (tick sample_env sample_state idle_bot))) \<and>
     \<not> cb_tripped (b_breaker (snd (tick sample_env sample_state idle_bot)))"
proof (rule trading_needs_clearance)
  show "tick sample_env sample_state idle_bot =
      (fst (tick sample_env sample_state idle_bot), snd (tick sample_env sample_state idle_bot))"
    by simp
  have "open_orders idle_bot \<noteq> []" by (simp add: idle_bot_def sample_bot_def)
  then show "(open_orders (snd (tick sample_env sample_state idle_bot)), db (snd (tick sample_env sample_state idle_bot)),
      feed (snd (tick sample_env sample_state idle_bot))) \<noteq> (open_orders idle_bot, db idle_bot, feed idle_bot)"
    by (simp add: idle_tick)
qed

lemma sample_bot_simps [simp]: "b_spread sample_bot = new_spread_engine sample_spread 0" "b_config sample_bot = sample_exchange"
  "b_depth sample_bot = sample_depth" "b_agg_cfg sample_bot = sample_volatility" "b_running sample_bot"
  by (simp_all add: sample_bot_def)

abbreviation sample_levels :: order_grid where
  "sample_levels \<equiv> tp_grid (plan_grid sample_state ranging_params (the (b_balance sample_bot)) sample_bot)"

lemma sample_tick: "tick_size (xc_spread sample_exchange) = 0.0001" "gs_global_mid sample_state = 100"
  by (simp_all add: sample_exchange_def sample_spread_def sample_state_def)

theorem grid_brackets_mid_witness:
  "list_all (\<lambda>p. p \<le> round_to_tick 0.0001 100) (buy_prices sample_levels) \<and>
   list_all (\<lambda>p. round_to_tick 0.0001 100 \<le> p) (sell_prices sample_levels)"
proof -
  have "se_cfg (b_spread sample_bot) = sample_spread" by (simp add: new_spread_engine_def)
  then show ?thesis
    using grid_brackets_mid [of sample_bot sample_state ranging_params "the (b_balance sample_bot)"] sample_spread_ok
    unfolding list_all_iff sample_bot_simps sample_tick by (simp add: sample_spread_def)
qed

theorem orders_meet_minimum_witness:
  "list_all (\<lambda>(p, a). p \<le> 0 \<or> 5 \<le> a * p) (zip (buy_prices sample_levels) (buy_amounts sample_levels)) \<and>
   list_all (\<lambda>(p, a). p \<le> 0 \<or> 5 \<le> a * p) (zip (sell_prices sample_levels) (sell_amounts sample_levels))"
proof -
  have h: "hmm_ok (hmm (b_agg_cfg sample_bot))" "0 < min_order_usd (b_depth sample_bot)"
     "min_order_usd (b_depth sample_bot) = 5" "gs_hmm_regime sample_state \<noteq> ''HIGH_VOL_CRASH''"
    by (simp_all add: sample_state_def sample_depth_def default_hmm_ok)
  have "((p, a) \<in> set (zip (buy_prices sample_levels) (buy_amounts sample_levels)) \<longrightarrow> 5 \<le> a * p) \<and>
        ((p, a) \<in> set (zip (sell_prices sample_levels) (sell_amounts sample_levels)) \<longrightarrow> 5 \<le> a * p)" if "0 < p" for p a
    using orders_meet_minimum [OF h(1,2) that, of a sample_state ranging_params "the (b_balance sample_bot)"]
    unfolding h(3) if_not_P [OF h(4)] mult_1_right .
  then have "(p, a) \<in> set (zip (buy_prices sample_levels) (buy_amounts sample_levels)) \<Longrightarrow> p \<le> 0 \<or> 5 \<le> a * p"
    "(p, a) \<in> set (zip (sell_prices sample_levels) (sell_amounts sample_levels)) \<Longrightarrow> p \<le> 0 \<or> 5 \<le> a * p" for p a
    using linorder_not_less [of 0 p] by blast+
  then show ?thesis unfolding list_all_iff by blast
qed

theorem emergency_stop_halts_witness:
  "case bot_emergency_stop sample_env sample_bot of (r, s') \<Rightarrow>
     \<not> b_running s' \<and> qs_triggered (b_q_switch s') \<and> (r = Inr () \<longrightarrow> open_orders s' = [])"
  by (rule emergency_stop_halts)

definition lost_env :: "nat env" where
  "lost_env = sample_env\<lparr>db_fault := (\<lambda>w. (Some NetworkError, w)), is_connected := (\<lambda>_. False),
     cn_reconnect := (\<lambda>w. (Inl NetworkError, w))\<rparr>"

definition lost_bot :: "(nat, unit) bot_scheme" where
  "lost_bot = idle_bot\<lparr>b_queue := \<lparr>q_maxsize = 5, q_items = [sample_state]\<rparr>\<rparr>"

lemma lost_tick:
  "fst (seqE (tick lost_env sample_state) (beat lost_env) (lost_bot\<lparr>b_queue := new_queue 5\<rparr>)) = Inl NetworkError"
  by (simp add: tick_def plan_eval tick_trade_step_def poll_fills_def write_snapshot_def write_features_def
      emit_tick_def broadcast_def cancel_one_def update_order_status_def om_eval sample_order_def
      new_rate_limiter_def new_database_def new_live_feed_def lost_env_def lost_bot_def
      idle_bot_def sample_bot_def sample_env_def sample_state_def)

theorem run_loop_survives_witness:
  "case bot_loop_step lost_env lost_bot of (r, s') \<Rightarrow> r = Inr () \<and> \<not> b_running s' \<and> qs_triggered (b_q_switch s')"
proof -
  have "b_running lost_bot" by (simp add: lost_bot_def idle_bot_def)
  note c = run_loop_survives [OF this, of lost_env]
  have q: "get_nowait (b_queue lost_bot) = Some (sample_state, new_queue 5)"
    by (simp add: lost_bot_def get_nowait_def new_queue_def)
  obtain s1 where t: "seqE (tick lost_env sample_state) (beat lost_env) (lost_bot\<lparr>b_queue := new_queue 5\<rparr>)
      = (Inl NetworkError, s1)"
    using lost_tick by (metis prod.collapse)
  have "\<not> is_connected lost_env w" "cn_reconnect lost_env w = (Inl NetworkError, w)" for w
    by (simp_all add: lost_env_def)
  with c show ?thesis by (simp add: q t case_prod_unfold)
qed

theorem warmup_overrides_baseline_witness:
  "initial_usd (b_inventory (snd (warmup sample_env
      (sample_bot\<lparr>b_inventory := set_initial_from_config 5000 200 (b_inventory sample_bot)\<rparr>)))) = Some 1000 \<and>
   initial_token (b_inventory (snd (warmup sample_env
      (sample_bot\<lparr>b_inventory := set_initial_from_config 5000 200 (b_inventory sample_bot)\<rparr>)))) = Some 1000"
  using warmup_overrides_baseline [of sample_env "\<lparr>bal_usd = 1000, bal_token = 1000, bal_quote_currency = ''USDT''\<rparr>"
    "sample_bot\<lparr>b_inventory := set_initial_from_config 5000 200 (b_inventory sample_bot)\<rparr>"]
  by (simp add: sample_env_def)
end
