(* ===== verification/FillSimulator.thy ===== *)
theory FillSimulator
  imports ExchangeBase "HOL-Library.Sublist"
begin

text \<open>
  \<open>core/fill_simulator.py\<close>: the paper-trading fill engine.  The two loops that walk the book are
  written out as in the source, one per side; the locale states the equations they share, so
  that what a walk takes and leaves is proved once.  The copies of the two sides of the book,
  which the source consumes in place, are passed from order to order.
\<close>

section \<open>Walking one side of the book\<close>

type_synonym levels = "(real \<times> real) list"

text \<open>
  \<open>while i < len(available_asks) and remaining_order > 0\<close>: what is left of the order, what has
  been filled, and the levels as the loop leaves them.
\<close>

fun walk_asks :: "real \<Rightarrow> real \<Rightarrow> real \<Rightarrow> levels \<Rightarrow> real \<times> real \<times> levels" where
  "walk_asks price remaining filled [] = (remaining, filled, [])"
| "walk_asks price remaining filled ((ask_price, ask_qty) # ls) =
     (if \<not> 0 < remaining then (remaining, filled, (ask_price, ask_qty) # ls)
      else if ask_price > price then (remaining, filled, (ask_price, ask_qty) # ls)
      else if ask_qty \<le> 0
      then (let (r, f, ls') = walk_asks price remaining filled ls in (r, f, (ask_price, ask_qty) # ls'))
      else (let taken = min remaining ask_qty; new_qty = ask_qty - taken;
                (r, f, ls') = walk_asks price (remaining - taken) (filled + taken) ls
            in (r, f, if new_qty > 1 / 10 ^ 12 then (ask_price, new_qty) # ls' else ls')))"

fun walk_bids :: "real \<Rightarrow> real \<Rightarrow> real \<Rightarrow> levels \<Rightarrow> real \<times> real \<times> levels" where
  "walk_bids price remaining filled [] = (remaining, filled, [])"
| "walk_bids price remaining filled ((bid_price, bid_qty) # ls) =
     (if \<not> 0 < remaining then (remaining, filled, (bid_price, bid_qty) # ls)
      else if bid_price < price then (remaining, filled, (bid_price, bid_qty) # ls)
      else if bid_qty \<le> 0
      then (let (r, f, ls') = walk_bids price remaining filled ls in (r, f, (bid_price, bid_qty) # ls'))
      else (let taken = min remaining bid_qty; new_qty = bid_qty - taken;
                (r, f, ls') = walk_bids price (remaining - taken) (filled + taken) ls
            in (r, f, if new_qty > 1 / 10 ^ 12 then (bid_price, new_qty) # ls' else ls')))"

definition liquidity :: "levels \<Rightarrow> real" where
  "liquidity ls = (\<Sum>(_, q)\<leftarrow>ls. max q 0)"

lemma liquidity_simps [simp]: "liquidity [] = 0" "liquidity ((p, q) # ls) = max q 0 + liquidity ls"
  by (simp_all add: liquidity_def)

lemma liquidity_nonneg [simp]: "0 \<le> liquidity ls"
  by (induction ls) (auto simp: liquidity_def)

locale book_walk =
  fixes beyond :: "real \<Rightarrow> real \<Rightarrow> bool"
    and walk :: "real \<Rightarrow> real \<Rightarrow> real \<Rightarrow> levels \<Rightarrow> real \<times> real \<times> levels"
  assumes walk_Nil: "walk price r f [] = (r, f, [])"
    and walk_stop: "\<not> 0 < r \<or> beyond price p \<Longrightarrow> walk price r f ((p, q) # ls) = (r, f, (p, q) # ls)"
    and walk_skip: "0 < r \<Longrightarrow> \<not> beyond price p \<Longrightarrow> q \<le> 0 \<Longrightarrow>
      walk price r f ((p, q) # ls) = (let (r', f', ls') = walk price r f ls in (r', f', (p, q) # ls'))"
    and walk_take: "0 < r \<Longrightarrow> \<not> beyond price p \<Longrightarrow> 0 < q \<Longrightarrow>
      walk price r f ((p, q) # ls) =
        (let (r', f', ls') = walk price (r - min r q) (f + min r q) ls
         in (r', f', if q - min r q > 1 / 10 ^ 12 then (p, q - min r q) # ls' else ls'))"
begin

text \<open>The levels an order at this price may trade with.\<close>

definition reachable :: "real \<Rightarrow> levels \<Rightarrow> levels" where
  "reachable price ls = takeWhile (\<lambda>(p, _). \<not> beyond price p) ls"

text \<open>The fill is exact: all of the order, or all that is reachable.\<close>

lemma walk_exact:
  assumes "0 \<le> r"
  shows "fst (walk price r f ls) = r - min r (liquidity (reachable price ls))
    \<and> fst (snd (walk price r f ls)) = f + min r (liquidity (reachable price ls))"
  using assms
proof (induction ls arbitrary: r f)
  case Nil
  then show ?case by (simp add: walk_Nil reachable_def)
next
  case (Cons l ls)
  obtain p q where l: "l = (p, q)" by fastforce
  consider "\<not> 0 < r \<or> beyond price p" | "0 < r" "\<not> beyond price p" "q \<le> 0"
    | "0 < r" "\<not> beyond price p" "0 < q" by linarith
  then show ?case
  proof cases
    case 1
    with Cons.prems show ?thesis by (auto simp: l walk_stop reachable_def split: if_splits)
  next
    case 2
    with Cons.IH [OF Cons.prems, of f] show ?thesis
      by (simp add: l walk_skip reachable_def Let_def case_prod_unfold)
  next
    case 3
    define t where "t = min r q"
    define m where "m = liquidity (reachable price ls)"
    obtain r' f' ls' where w: "walk price (r - t) (f + t) ls = (r', f', ls')" by (metis prod_cases3)
    have t: "t \<le> r" "t = r \<or> t = q \<and> q \<le> r" and m: "0 \<le> m" by (auto simp: t_def m_def)
    have "walk price r f (l # ls) = (r', f', if q - t > 1 / 10 ^ 12 then (p, q - t) # ls' else ls')"
      by (simp only: l walk_take [OF 3] t_def [symmetric] w Let_def case_prod_conv)
    moreover have "r' = r - t - min (r - t) m" "f' = f + t + min (r - t) m"
      using Cons.IH [of "r - t" "f + t"] t by (simp_all add: w m_def)
    moreover have "liquidity (reachable price (l # ls)) = q + m"
      using 3 by (simp add: l reachable_def m_def)
    ultimately show ?thesis using t m 3(3) by (auto simp: min_def t_def)
  qed
qed

text \<open>No liquidity is used twice.\<close>

lemma walk_consumes:
  "0 \<le> r \<Longrightarrow> liquidity (snd (snd (walk price r f ls))) + (fst (snd (walk price r f ls)) - f) \<le> liquidity ls"
proof (induction ls arbitrary: r f)
  case Nil
  then show ?case by (simp add: walk_Nil)
next
  case (Cons l ls)
  obtain p q where l: "l = (p, q)" by fastforce
  consider "\<not> 0 < r \<or> beyond price p" | "0 < r" "\<not> beyond price p" "q \<le> 0"
    | "0 < r" "\<not> beyond price p" "0 < q" by linarith
  then show ?case
  proof cases
    case 1
    then show ?thesis by (auto simp: l walk_stop)
  next
    case 2
    with Cons.IH [OF Cons.prems, of f] show ?thesis
      by (simp add: l walk_skip Let_def case_prod_unfold)
  next
    case 3
    define t where "t = min r q"
    obtain r' f' ls' where w: "walk price (r - t) (f + t) ls = (r', f', ls')" by (metis prod_cases3)
    have t: "t \<le> r" "t \<le> q" by (simp_all add: t_def)
    have "walk price r f (l # ls) = (r', f', if q - t > 1 / 10 ^ 12 then (p, q - t) # ls' else ls')"
      by (simp only: l walk_take [OF 3] t_def [symmetric] w Let_def case_prod_conv)
    moreover have "liquidity ls' + (f' - (f + t)) \<le> liquidity ls"
      using Cons.IH [of "r - t" "f + t"] t by (simp add: w)
    ultimately show ?thesis using 3 t by (simp add: l)
  qed
qed

text \<open>Whatever is left was there before, at the same price and with no more quantity.\<close>

lemma walk_levels:
  "(p, q) \<in> set (snd (snd (walk price r f ls))) \<Longrightarrow> \<exists>q'. (p, q') \<in> set ls"
proof (induction ls arbitrary: r f)
  case Nil
  then show ?case by (simp add: walk_Nil)
next
  case (Cons l ls)
  obtain p' q' where l: "l = (p', q')" by fastforce
  consider "\<not> 0 < r \<or> beyond price p'" | "0 < r" "\<not> beyond price p'" "q' \<le> 0"
    | "0 < r" "\<not> beyond price p'" "0 < q'" by linarith
  then show ?case
  proof cases
    case 1
    with Cons.prems show ?thesis by (auto simp: l walk_stop)
  next
    case 2
    with Cons show ?thesis by (auto simp: l walk_skip Let_def case_prod_unfold)
  next
    case 3
    with Cons show ?thesis
      by (auto simp: l walk_take Let_def case_prod_unfold split: if_splits)
  qed
qed

end

interpretation asks: book_walk "\<lambda>price p. p > price" walk_asks
  by unfold_locales (auto simp: Let_def)

interpretation bids: book_walk "\<lambda>price p. p < price" walk_bids
  by unfold_locales (auto simp: Let_def)

section \<open>Fills\<close>

record sim_fill =
  sf_order_id :: string
  sf_exchange :: string
  sf_side :: string
  sf_price :: real
  sf_amount :: real
  sf_fee :: real
  sf_filled_at :: real
  sf_pnl_usd :: real
  sf_book_timestamp :: real

definition maker_fee_rate :: "real \<Rightarrow> real" where
  "maker_fee_rate maker_fee_bps = maker_fee_bps / 10000"

definition try_fill_buy ::
  "'w env \<Rightarrow> real \<Rightarrow> real \<Rightarrow> order \<Rightarrow> levels \<Rightarrow> (('w, 'z) sys_scheme, sim_fill option \<times> levels) eff"
where
  "try_fill_buy env rate book_ts o' asks' =
     (case asks' of
        [] \<Rightarrow> ret (None, asks')
      | (best, _) # _ \<Rightarrow>
          if ord_price o' < best then ret (None, asks')
          else (let (_, filled, rest) = walk_asks (ord_price o') (ord_amount o') 0 asks'
                in if filled \<le> 0 then ret (None, rest)
                   else bindE (now_s env) (\<lambda>t. ret (Some
                     \<lparr>sf_order_id = ord_id o', sf_exchange = ord_exchange o', sf_side = ''buy'',
                      sf_price = ord_price o', sf_amount = filled,
                      sf_fee = filled * ord_price o' * rate, sf_filled_at = t, sf_pnl_usd = 0,
                      sf_book_timestamp = book_ts\<rparr>, rest))))"

definition try_fill_sell ::
  "'w env \<Rightarrow> real \<Rightarrow> real \<Rightarrow> real \<Rightarrow> order \<Rightarrow> levels \<Rightarrow>
   (('w, 'z) sys_scheme, sim_fill option \<times> levels) eff"
where
  "try_fill_sell env rate current_mid book_ts o' bids' =
     (case bids' of
        [] \<Rightarrow> ret (None, bids')
      | (best, _) # _ \<Rightarrow>
          if ord_price o' > best then ret (None, bids')
          else (let (_, filled, rest) = walk_bids (ord_price o') (ord_amount o') 0 bids'
                in if filled \<le> 0 then ret (None, rest)
                   else (let fee = filled * ord_price o' * rate;
                             pnl = (ord_price o' - current_mid) * filled - fee
                         in bindE (now_s env) (\<lambda>t. ret (Some
                     \<lparr>sf_order_id = ord_id o', sf_exchange = ord_exchange o', sf_side = ''sell'',
                      sf_price = ord_price o', sf_amount = filled, sf_fee = fee, sf_filled_at = t,
                      sf_pnl_usd = pnl, sf_book_timestamp = book_ts\<rparr>, rest)))))"

text \<open>\<open>for order in orders: fill = try(order, levels); if fill: fills.append(fill)\<close>\<close>

fun fill_orders ::
  "(order \<Rightarrow> levels \<Rightarrow> (('w, 'z) sys_scheme, sim_fill option \<times> levels) eff) \<Rightarrow> order list \<Rightarrow> levels \<Rightarrow>
   (('w, 'z) sys_scheme, sim_fill list) eff"
where
  "fill_orders try_fill [] ls = ret []"
| "fill_orders try_fill (o' # os) ls =
     bindE (try_fill o' ls) (\<lambda>(r, ls'). bindE (fill_orders try_fill os ls') (\<lambda>fs.
       ret (case r of None \<Rightarrow> fs | Some f \<Rightarrow> f # fs)))"

definition buys_in_order :: "order list \<Rightarrow> order list" where
  "buys_in_order os = sort_key (\<lambda>o'. - ord_price o') (filter (\<lambda>o'. ord_side o' = ''buy'') os)"

definition sells_in_order :: "order list \<Rightarrow> order list" where
  "sells_in_order os = sort_key ord_price (filter (\<lambda>o'. ord_side o' = ''sell'') os)"

definition simulate ::
  "'w env \<Rightarrow> real \<Rightarrow> order list \<Rightarrow> order_book \<Rightarrow> real \<Rightarrow> (('w, 'z) sys_scheme, sim_fill list) eff"
where
  "simulate env rate open_orders book current_mid =
     (if open_orders = [] \<or> (ob_bids book = [] \<and> ob_asks book = []) then ret []
      else bindE (fill_orders (try_fill_buy env rate (ob_timestamp book))
                    (buys_in_order open_orders) (ob_asks book)) (\<lambda>bs.
           bindE (fill_orders (try_fill_sell env rate current_mid (ob_timestamp book))
                    (sells_in_order open_orders) (ob_bids book)) (\<lambda>ss.
             ret (bs @ ss))))"

section \<open>One order\<close>

text \<open>A simulated fill of an order: at the order's price, for a positive part of its amount.\<close>

definition fits :: "sim_fill \<Rightarrow> order \<Rightarrow> bool" where
  "fits f o' \<longleftrightarrow> sf_order_id f = ord_id o' \<and> sf_side f = ord_side o' \<and> sf_price f = ord_price o'
     \<and> 0 < sf_amount f \<and> sf_amount f \<le> ord_amount o'"

text \<open>
  What both sides promise of one attempt: the amount is the order's or what is reachable,
  nothing else happens but a look at the clock, and the liquidity taken is gone.
\<close>

locale side_filler =
  fixes side :: string
    and crosses :: "real \<Rightarrow> real \<Rightarrow> bool"
    and try_fill :: "order \<Rightarrow> levels \<Rightarrow> (('w, 'z) sys_scheme, sim_fill option \<times> levels) eff"
  assumes try_run: "0 \<le> ord_amount o' \<Longrightarrow> ord_side o' = side \<Longrightarrow>
      \<exists>r ls' w. try_fill o' ls s = (Inr (r, ls'), s\<lparr>world := w\<rparr>) \<and> liquidity ls' \<le> liquidity ls \<and>
        fst ` set ls' \<subseteq> fst ` set ls \<and>
        (\<forall>f. r = Some f \<longrightarrow> fits f o' \<and> (\<exists>p \<in> fst ` set ls. crosses (sf_price f) p) \<and>
           liquidity ls' + sf_amount f \<le> liquidity ls)"
begin

lemma fill_orders_run:
  assumes "\<forall>o' \<in> set os. 0 \<le> ord_amount o' \<and> ord_side o' = side"
  shows "\<exists>fs os' w. fill_orders try_fill os ls s = (Inr fs, s\<lparr>world := w\<rparr>) \<and> subseq os' os \<and>
     list_all2 fits fs os' \<and> (\<Sum>f\<leftarrow>fs. sf_amount f) \<le> liquidity ls \<and>
     (\<forall>f \<in> set fs. sf_side f = side \<and> (\<exists>p \<in> fst ` set ls. crosses (sf_price f) p))"
  using assms
proof (induction os arbitrary: ls s)
  case Nil
  have "fill_orders try_fill [] ls s = (Inr [], s\<lparr>world := world s\<rparr>)" by (simp add: ret_def)
  then show ?case by (intro exI [of _ "[]"] exI [of _ "world s"]) simp
next
  case (Cons o' os)
  obtain r ls' w where t: "try_fill o' ls s = (Inr (r, ls'), s\<lparr>world := w\<rparr>)"
    and le: "liquidity ls' \<le> liquidity ls" and sub: "fst ` set ls' \<subseteq> fst ` set ls"
    and r: "\<And>f. r = Some f \<Longrightarrow> fits f o' \<and> (\<exists>p \<in> fst ` set ls. crosses (sf_price f) p) \<and>
           liquidity ls' + sf_amount f \<le> liquidity ls"
    using try_run [of o' ls s] Cons.prems by auto
  obtain fs os' w' where fs: "fill_orders try_fill os ls' (s\<lparr>world := w\<rparr>) = (Inr fs, s\<lparr>world := w'\<rparr>)"
    and os: "subseq os' os" "list_all2 fits fs os'" "(\<Sum>f\<leftarrow>fs. sf_amount f) \<le> liquidity ls'"
    and cr: "\<forall>f \<in> set fs. sf_side f = side \<and> (\<exists>p \<in> fst ` set ls'. crosses (sf_price f) p)"
    using Cons.IH [of ls' "s\<lparr>world := w\<rparr>"] Cons.prems by auto
  have run: "fill_orders try_fill (o' # os) ls s =
      (Inr (case r of None \<Rightarrow> fs | Some f \<Rightarrow> f # fs), s\<lparr>world := w'\<rparr>)"
    by (simp add: bindE_def t fs ret_def)
  have cr': "\<forall>f \<in> set fs. sf_side f = side \<and> (\<exists>p \<in> fst ` set ls. crosses (sf_price f) p)"
    using cr sub by blast
  show ?case
  proof (cases r)
    case None
    with run os le cr' show ?thesis
      by (intro exI [of _ fs] exI [of _ os'] exI [of _ w']) auto
  next
    case (Some f)
    have "fits f o'" "\<exists>p \<in> fst ` set ls. crosses (sf_price f) p"
      "liquidity ls' + sf_amount f \<le> liquidity ls"
      using r [OF Some] by blast+
    moreover from this(1) Cons.prems have "sf_side f = side" by (simp add: fits_def)
    ultimately show ?thesis using Some run os cr'
      by (intro exI [of _ "f # fs"] exI [of _ "o' # os'"] exI [of _ w'] conjI) simp_all
  qed
qed

end

lemma try_fill_buy_eq:
  assumes "0 \<le> ord_amount o'"
  shows "\<exists>t w. try_fill_buy env rate ts o' ls s =
     (let a = min (ord_amount o') (liquidity (asks.reachable (ord_price o') ls));
          rest = (if ls = [] \<or> ord_price o' < fst (hd ls) then ls
                  else snd (snd (walk_asks (ord_price o') (ord_amount o') 0 ls)))
      in (Inr (if a \<le> 0 then None else Some
           \<lparr>sf_order_id = ord_id o', sf_exchange = ord_exchange o', sf_side = ''buy'',
            sf_price = ord_price o', sf_amount = a, sf_fee = a * ord_price o' * rate,
            sf_filled_at = t, sf_pnl_usd = 0, sf_book_timestamp = ts\<rparr>, rest), s\<lparr>world := w\<rparr>))"
proof (cases "ls = [] \<or> ord_price o' < fst (hd ls)")
  case True
  then have "asks.reachable (ord_price o') ls = []"
    by (cases ls) (auto simp: asks.reachable_def)
  with True assms show ?thesis
    by (intro exI [of _ 0] exI [of _ "world s"]) (cases ls; auto simp: try_fill_buy_def ret_def Let_def)
next
  case False
  obtain r f ls' where w: "walk_asks (ord_price o') (ord_amount o') 0 ls = (r, f, ls')"
    by (metis prod_cases3)
  obtain t w' where n: "now_s env s = (Inr t, s\<lparr>world := w'\<rparr>)" using now_s_Inr [of env s] by blast
  from asks.walk_exact [OF assms, of "ord_price o'" 0 ls] have f:
    "f = min (ord_amount o') (liquidity (asks.reachable (ord_price o') ls))" by (simp add: w)
  show ?thesis
  proof (cases "f \<le> 0")
    case True
    with False w f show ?thesis
      by (intro exI [of _ 0] exI [of _ "world s"])
        (cases ls; auto simp: try_fill_buy_def ret_def Let_def simp del: walk_asks.simps)
  next
    case pos: False
    with False w f n show ?thesis
      by (intro exI [of _ t] exI [of _ w'])
        (cases ls; auto simp: try_fill_buy_def ret_def bindE_def Let_def simp del: walk_asks.simps)
  qed
qed

lemma try_fill_sell_eq:
  assumes "0 \<le> ord_amount o'"
  shows "\<exists>t w. try_fill_sell env rate mid ts o' ls s =
     (let a = min (ord_amount o') (liquidity (bids.reachable (ord_price o') ls));
          rest = (if ls = [] \<or> ord_price o' > fst (hd ls) then ls
                  else snd (snd (walk_bids (ord_price o') (ord_amount o') 0 ls)))
      in (Inr (if a \<le> 0 then None else Some
           \<lparr>sf_order_id = ord_id o', sf_exchange = ord_exchange o', sf_side = ''sell'',
            sf_price = ord_price o', sf_amount = a, sf_fee = a * ord_price o' * rate,
            sf_filled_at = t, sf_pnl_usd = (ord_price o' - mid) * a - a * ord_price o' * rate, sf_book_timestamp = ts\<rparr>, rest), s\<lparr>world := w\<rparr>))"
proof (cases "ls = [] \<or> ord_price o' > fst (hd ls)")
  case True
  then have "bids.reachable (ord_price o') ls = []"
    by (cases ls) (auto simp: bids.reachable_def)
  with True assms show ?thesis
    by (intro exI [of _ 0] exI [of _ "world s"]) (cases ls; auto simp: try_fill_sell_def ret_def Let_def)
next
  case False
  obtain r f ls' where w: "walk_bids (ord_price o') (ord_amount o') 0 ls = (r, f, ls')"
    by (metis prod_cases3)
  obtain t w' where n: "now_s env s = (Inr t, s\<lparr>world := w'\<rparr>)" using now_s_Inr [of env s] by blast
  from bids.walk_exact [OF assms, of "ord_price o'" 0 ls] have f:
    "f = min (ord_amount o') (liquidity (bids.reachable (ord_price o') ls))" by (simp add: w)
  show ?thesis
  proof (cases "f \<le> 0")
    case True
    with False w f show ?thesis
      by (intro exI [of _ 0] exI [of _ "world s"])
        (cases ls; auto simp: try_fill_sell_def ret_def Let_def simp del: walk_bids.simps)
  next
    case pos: False
    with False w f n show ?thesis
      by (intro exI [of _ t] exI [of _ w'])
        (cases ls; auto simp: try_fill_sell_def ret_def bindE_def Let_def simp del: walk_bids.simps)
  qed
qed

lemma reachable_first:
  assumes "0 < liquidity (asks.reachable p ls)"
  shows "\<exists>x \<in> fst ` set ls. x \<le> p"
  using assms by (cases ls) (force simp: asks.reachable_def split: if_splits)+

lemma reachable_first_bid:
  assumes "0 < liquidity (bids.reachable p ls)"
  shows "\<exists>x \<in> fst ` set ls. p \<le> x"
  using assms by (cases ls) (force simp: bids.reachable_def split: if_splits)+

interpretation buys: side_filler "''buy''" "\<lambda>price p. p \<le> price" "try_fill_buy env rate ts"
  for env rate ts
proof unfold_locales
  fix o' :: order and ls and s :: "('a, 'b) sys_scheme"
  assume o': "0 \<le> ord_amount o'" "ord_side o' = ''buy''"
  let ?a = "min (ord_amount o') (liquidity (asks.reachable (ord_price o') ls))"
  obtain t w where run: "try_fill_buy env rate ts o' ls s =
     (let a = ?a;
          rest = (if ls = [] \<or> ord_price o' < fst (hd ls) then ls
                  else snd (snd (walk_asks (ord_price o') (ord_amount o') 0 ls)))
      in (Inr (if a \<le> 0 then None else Some
           \<lparr>sf_order_id = ord_id o', sf_exchange = ord_exchange o', sf_side = ''buy'',
            sf_price = ord_price o', sf_amount = a, sf_fee = a * ord_price o' * rate,
            sf_filled_at = t, sf_pnl_usd = 0, sf_book_timestamp = ts\<rparr>, rest), s\<lparr>world := w\<rparr>))"
    using try_fill_buy_eq [OF o'(1), of env rate ts ls s] by blast
  note use = asks.walk_consumes [OF o'(1), of "ord_price o'" 0 ls]
    asks.walk_exact [OF o'(1), of "ord_price o'" 0 ls]
  have lv: "fst ` set (snd (snd (walk_asks (ord_price o') (ord_amount o') 0 ls))) \<subseteq> fst ` set ls"
    using asks.walk_levels by force
  have none: "?a \<le> 0" if "ls = [] \<or> ord_price o' < fst (hd ls)"
    using that by (cases ls) (auto simp: asks.reachable_def)
  have le: "liquidity (snd (snd (walk_asks (ord_price o') (ord_amount o') 0 ls))) + ?a \<le> liquidity ls"
    and a: "0 \<le> ?a"
    using use o'(1) by simp_all
  then have le': "liquidity (snd (snd (walk_asks (ord_price o') (ord_amount o') 0 ls))) \<le> liquidity ls"
    by linarith
  show "\<exists>r ls' w. try_fill_buy env rate ts o' ls s = (Inr (r, ls'), s\<lparr>world := w\<rparr>) \<and>
      liquidity ls' \<le> liquidity ls \<and> fst ` set ls' \<subseteq> fst ` set ls \<and>
      (\<forall>f. r = Some f \<longrightarrow> fits f o' \<and> (\<exists>p \<in> fst ` set ls. p \<le> sf_price f) \<and>
         liquidity ls' + sf_amount f \<le> liquidity ls)"
  proof (cases "ls = [] \<or> ord_price o' < fst (hd ls)")
    case True
    with none [OF True] show ?thesis unfolding run Let_def by auto
  next
    case False
    show ?thesis
    proof (cases "?a \<le> 0")
      case True
      with False lv le' show ?thesis unfolding run Let_def by auto
    next
      case pos: False
      then have "\<exists>p \<in> fst ` set ls. p \<le> ord_price o'" by (intro reachable_first) auto
      with False pos lv le le' o'(2) show ?thesis unfolding run Let_def by (auto simp: fits_def)
    qed
  qed
qed

interpretation sells: side_filler "''sell''" "\<lambda>price p. price \<le> p" "try_fill_sell env rate mid ts"
  for env rate mid ts
proof unfold_locales
  fix o' :: order and ls and s :: "('a, 'b) sys_scheme"
  assume o': "0 \<le> ord_amount o'" "ord_side o' = ''sell''"
  let ?a = "min (ord_amount o') (liquidity (bids.reachable (ord_price o') ls))"
  obtain t w where run: "try_fill_sell env rate mid ts o' ls s =
     (let a = ?a;
          rest = (if ls = [] \<or> ord_price o' > fst (hd ls) then ls
                  else snd (snd (walk_bids (ord_price o') (ord_amount o') 0 ls)))
      in (Inr (if a \<le> 0 then None else Some
           \<lparr>sf_order_id = ord_id o', sf_exchange = ord_exchange o', sf_side = ''sell'',
            sf_price = ord_price o', sf_amount = a, sf_fee = a * ord_price o' * rate,
            sf_filled_at = t, sf_pnl_usd = (ord_price o' - mid) * a - a * ord_price o' * rate, sf_book_timestamp = ts\<rparr>, rest), s\<lparr>world := w\<rparr>))"
    using try_fill_sell_eq [OF o'(1), of env rate mid ts ls s] by blast
  note use = bids.walk_consumes [OF o'(1), of "ord_price o'" 0 ls]
    bids.walk_exact [OF o'(1), of "ord_price o'" 0 ls]
  have lv: "fst ` set (snd (snd (walk_bids (ord_price o') (ord_amount o') 0 ls))) \<subseteq> fst ` set ls"
    using bids.walk_levels by force
  have none: "?a \<le> 0" if "ls = [] \<or> ord_price o' > fst (hd ls)"
    using that by (cases ls) (auto simp: bids.reachable_def)
  have le: "liquidity (snd (snd (walk_bids (ord_price o') (ord_amount o') 0 ls))) + ?a \<le> liquidity ls"
    and a: "0 \<le> ?a"
    using use o'(1) by simp_all
  then have le': "liquidity (snd (snd (walk_bids (ord_price o') (ord_amount o') 0 ls))) \<le> liquidity ls"
    by linarith
  show "\<exists>r ls' w. try_fill_sell env rate mid ts o' ls s = (Inr (r, ls'), s\<lparr>world := w\<rparr>) \<and>
      liquidity ls' \<le> liquidity ls \<and> fst ` set ls' \<subseteq> fst ` set ls \<and>
      (\<forall>f. r = Some f \<longrightarrow> fits f o' \<and> (\<exists>p \<in> fst ` set ls. sf_price f \<le> p) \<and>
         liquidity ls' + sf_amount f \<le> liquidity ls)"
  proof (cases "ls = [] \<or> ord_price o' > fst (hd ls)")
    case True
    with none [OF True] show ?thesis unfolding run Let_def by auto
  next
    case False
    show ?thesis
    proof (cases "?a \<le> 0")
      case True
      with False lv le' show ?thesis unfolding run Let_def by auto
    next
      case pos: False
      then have "\<exists>p \<in> fst ` set ls. ord_price o' \<le> p" by (intro reachable_first_bid) auto
      with False pos lv le le' o'(2) show ?thesis unfolding run Let_def by (auto simp: fits_def)
    qed
  qed
qed

section \<open>A whole snapshot\<close>

text \<open>
  C30. Matching the open orders against one snapshot of the book never raises and conserves what
  there is: every fill belongs to an open order and takes a positive part of its amount at its
  price; each order is filled at most once; a buy fills only at or above some ask and a sell at
  or below some bid; and all buys together take no more than the asks hold, all sells no more
  than the bids hold.
\<close>

theorem simulate_conserves:
  assumes "\<forall>o' \<in> set open_orders. 0 \<le> ord_amount o'"
  shows "\<exists>bs ss bos sos w. simulate env rate open_orders book mid s = (Inr (bs @ ss), s\<lparr>world := w\<rparr>) \<and>
     subseq bos (buys_in_order open_orders) \<and> list_all2 fits bs bos \<and>
     subseq sos (sells_in_order open_orders) \<and> list_all2 fits ss sos \<and>
     (\<forall>f \<in> set bs. \<exists>p \<in> fst ` set (ob_asks book). p \<le> sf_price f) \<and>
     (\<forall>f \<in> set ss. \<exists>p \<in> fst ` set (ob_bids book). sf_price f \<le> p) \<and>
     (\<Sum>f\<leftarrow>bs. sf_amount f) \<le> liquidity (ob_asks book) \<and>
     (\<Sum>f\<leftarrow>ss. sf_amount f) \<le> liquidity (ob_bids book)"
proof (cases "open_orders = [] \<or> (ob_bids book = [] \<and> ob_asks book = [])")
  case True
  then have "simulate env rate open_orders book mid s = (Inr ([] @ []), s\<lparr>world := world s\<rparr>)"
    by (simp add: simulate_def ret_def)
  then show ?thesis
    by (intro exI [of _ "[]"] exI [of _ "world s"] conjI) simp_all
next
  case False
  have b: "\<forall>o' \<in> set (buys_in_order open_orders). 0 \<le> ord_amount o' \<and> ord_side o' = ''buy''"
    and c: "\<forall>o' \<in> set (sells_in_order open_orders). 0 \<le> ord_amount o' \<and> ord_side o' = ''sell''"
    using assms by (auto simp: buys_in_order_def sells_in_order_def)
  obtain bs bos w where 1:
    "fill_orders (try_fill_buy env rate (ob_timestamp book)) (buys_in_order open_orders) (ob_asks book) s
       = (Inr bs, s\<lparr>world := w\<rparr>)" "subseq bos (buys_in_order open_orders)" "list_all2 fits bs bos"
    "(\<Sum>f\<leftarrow>bs. sf_amount f) \<le> liquidity (ob_asks book)"
    "\<forall>f \<in> set bs. \<exists>p \<in> fst ` set (ob_asks book). p \<le> sf_price f"
    using buys.fill_orders_run [OF b, of env rate "ob_timestamp book" "ob_asks book" s] by blast
  obtain ss sos w' where 2:
    "fill_orders (try_fill_sell env rate mid (ob_timestamp book)) (sells_in_order open_orders) (ob_bids book)
       (s\<lparr>world := w\<rparr>) = (Inr ss, (s\<lparr>world := w\<rparr>)\<lparr>world := w'\<rparr>)"
    "subseq sos (sells_in_order open_orders)" "list_all2 fits ss sos"
    "(\<Sum>f\<leftarrow>ss. sf_amount f) \<le> liquidity (ob_bids book)"
    "\<forall>f \<in> set ss. \<exists>p \<in> fst ` set (ob_bids book). sf_price f \<le> p"
    using sells.fill_orders_run [OF c, of env rate mid "ob_timestamp book" "ob_bids book" "s\<lparr>world := w\<rparr>"]
    by blast
  have "simulate env rate open_orders book mid s = (Inr (bs @ ss), s\<lparr>world := w'\<rparr>)"
    using False 1(1) 2(1) by (auto simp: simulate_def bindE_def ret_def)
  with 1(2-) 2(2-) show ?thesis
    by (intro exI [of _ bs] exI [of _ ss] exI [of _ bos] exI [of _ sos] exI [of _ w'] conjI)
qed

definition sample_book :: order_book where
  "sample_book = \<lparr>ob_exchange = ''kucoin'', ob_bids = [(99, 5)], ob_asks = [(100, 1), (101, 4)],
     ob_timestamp = 999\<rparr>"

theorem simulate_conserves_witness:
  "\<exists>bs ss bos sos w. simulate sample_env (maker_fee_rate 10) [sample_order ''b'' ''buy'' 101 3, sample_order ''s'' ''sell'' 98 9]
      sample_book 100 \<lparr>world = 0\<rparr> = (Inr (bs @ ss), \<lparr>world = 0\<rparr>\<lparr>world := w\<rparr>) \<and>
     subseq bos (buys_in_order [sample_order ''b'' ''buy'' 101 3, sample_order ''s'' ''sell'' 98 9]) \<and>
     list_all2 fits bs bos \<and>
     subseq sos (sells_in_order [sample_order ''b'' ''buy'' 101 3, sample_order ''s'' ''sell'' 98 9]) \<and>
     list_all2 fits ss sos \<and>
     (\<forall>f \<in> set bs. \<exists>p \<in> fst ` set (ob_asks sample_book). p \<le> sf_price f) \<and>
     (\<forall>f \<in> set ss. \<exists>p \<in> fst ` set (ob_bids sample_book). sf_price f \<le> p) \<and>
     (\<Sum>f\<leftarrow>bs. sf_amount f) \<le> liquidity (ob_asks sample_book) \<and>
     (\<Sum>f\<leftarrow>ss. sf_amount f) \<le> liquidity (ob_bids sample_book)"
  by (rule simulate_conserves) (simp add: sample_order_def)

end
