(* ===== verification/PaperTrader.thy ===== *)
theory PaperTrader
  imports LiveFeed FillSimulator
begin

text \<open>
  \<open>core/paper_trader.py\<close>: the coordinator of book feed, fill simulator, database and live feed.
  The WebSocket connector is outside this component and comes in as \<open>ws\<close>; the endless poll loop
  is run for a given number of iterations.
\<close>

section \<open>State\<close>

record 'w ws_connector =
  connect_ws :: "'w \<Rightarrow> unit result \<times> 'w"
  disconnect_ws :: "'w \<Rightarrow> unit result \<times> 'w"
  watch_order_book :: "'w \<Rightarrow> order_book option result \<times> 'w"

record paper_stats =
  ps_total_fills :: nat
  ps_total_qty :: real
  ps_total_pnl_usd :: real
  ps_total_fees :: real
  ps_fill_timestamps :: "real list"

record 'w paper = "'w feed_sys" +
  pt_exchange :: string
  pt_fee_rate :: real
  pt_stats :: paper_stats
  pt_running :: bool
  pt_open_orders_ref :: "order list"

definition empty_stats :: paper_stats where
  "empty_stats = \<lparr>ps_total_fills = 0, ps_total_qty = 0, ps_total_pnl_usd = 0, ps_total_fees = 0,
     ps_fill_timestamps = []\<rparr>"

definition init_paper_trader :: "string \<Rightarrow> real \<Rightarrow> ('w, 'z) paper_scheme \<Rightarrow> ('w, 'z) paper_scheme" where
  "init_paper_trader ex bps s =
     s\<lparr>pt_exchange := ex, pt_fee_rate := maker_fee_rate bps, pt_stats := empty_stats,
       pt_running := False, pt_open_orders_ref := []\<rparr>"

text \<open>A new paper trader around the shared parts.\<close>

definition new_paper :: "string \<Rightarrow> real \<Rightarrow> ('w, 'z) feed_sys_scheme \<Rightarrow> 'w paper" where
  "new_paper ex bps s =
     init_paper_trader ex bps
       \<lparr>world = world s, limiter = limiter s, db = db s, feed = feed s, pt_exchange = ex,
        pt_fee_rate = maker_fee_rate bps, pt_stats = empty_stats, pt_running = False,
        pt_open_orders_ref = []\<rparr>"

text \<open>\<open>fill_timestamps\<close> is a deque of at most 1000; the rate counts those of the last minute.\<close>

definition fill_rate_1m :: "real \<Rightarrow> paper_stats \<Rightarrow> nat" where
  "fill_rate_1m now st = length (filter (\<lambda>ts. now - 60 \<le> ts) (ps_fill_timestamps st))"

section \<open>One snapshot\<close>

fun digits :: "nat \<Rightarrow> string" where
  "digits n = (if n < 10 then [char_of (48 + n)] else digits (n div 10) @ [char_of (48 + n mod 10)])"

declare digits.simps [simp del]

definition str_int :: "int \<Rightarrow> string" where
  "str_int i = (if i < 0 then ''-'' @ digits (nat (- i)) else digits (nat i))"

definition sim_fill_id :: "sim_fill \<Rightarrow> string" where
  "sim_fill_id f = ''sim_'' @ sf_order_id f @ ''_'' @ str_int (py_int (sf_filled_at f * 1000))"

definition db_fill_of :: "string \<Rightarrow> sim_fill \<Rightarrow> fill" where
  "db_fill_of ex f =
     \<lparr>fl_id = sim_fill_id f, fl_order_id = sf_order_id f, fl_exchange = ex,
      fl_symbol = ''ALKIMI/USDT'', fl_side = sf_side f, fl_filled_price = sf_price f,
      fl_filled_amount = sf_amount f, fl_fee = sf_fee f, fl_fee_currency = ''USDT'',
      fl_timestamp = sf_filled_at f, fl_pnl_usd = sf_pnl_usd f\<rparr>"

definition persist_fill :: "'w env \<Rightarrow> sim_fill \<Rightarrow> (('w, 'z) paper_scheme, unit) eff" where
  "persist_fill env f =
     bindE (getsE pt_exchange) (\<lambda>ex.
       catchE (insert_fill env (db_fill_of ex f) (Some (sf_pnl_usd f))) (\<lambda>_. ret ()))"

definition emit_fill_event :: "'w env \<Rightarrow> sim_fill \<Rightarrow> (('w, 'z) paper_scheme, unit) eff" where
  "emit_fill_event env f =
     bindE (getsE pt_exchange) (\<lambda>ex.
       catchE (broadcast env ORDER_FILLED (JObj
         [(''exchange'', JStr ex), (''order_id'', JStr (sf_order_id f)), (''side'', JStr (sf_side f)),
          (''price'', JNum (sf_price f)), (''amount'', JNum (sf_amount f)), (''fee'', JNum (sf_fee f)),
          (''pnl_usd'', JNum (sf_pnl_usd f)), (''simulated'', JBool True)])) (\<lambda>_. ret ()))"

definition stats_add :: "sim_fill \<Rightarrow> paper_stats \<Rightarrow> paper_stats" where
  "stats_add f st =
     st\<lparr>ps_total_fills := ps_total_fills st + 1, ps_total_qty := ps_total_qty st + sf_amount f,
        ps_total_pnl_usd := ps_total_pnl_usd st + sf_pnl_usd f,
        ps_total_fees := ps_total_fees st + sf_fee f,
        ps_fill_timestamps := deque_append 1000 (sf_filled_at f) (ps_fill_timestamps st)\<rparr>"

definition update_stats :: "sim_fill \<Rightarrow> (('w, 'z) paper_scheme, unit) eff" where
  "update_stats f = modE (\<lambda>s. s\<lparr>pt_stats := stats_add f (pt_stats s)\<rparr>)"

definition record_fill :: "'w env \<Rightarrow> sim_fill \<Rightarrow> (('w, 'z) paper_scheme, unit) eff" where
  "record_fill env f = seqE (persist_fill env f) (seqE (emit_fill_event env f) (update_stats f))"

definition on_book_update ::
  "'w env \<Rightarrow> order_book \<Rightarrow> order list \<Rightarrow> real \<Rightarrow> (('w, 'z) paper_scheme, sim_fill list) eff" where
  "on_book_update env book open_orders' mid =
     bindE (getsE pt_fee_rate) (\<lambda>rate.
     bindE (simulate env rate open_orders' book mid) (\<lambda>fills.
     seqE (for_each (record_fill env) fills) (ret fills)))"

definition set_open_orders :: "order list \<Rightarrow> ('w, 'z) paper_scheme \<Rightarrow> ('w, 'z) paper_scheme" where
  "set_open_orders os s = s\<lparr>pt_open_orders_ref := os\<rparr>"

section \<open>The poll loop\<close>

definition poll_body :: "'w env \<Rightarrow> 'w ws_connector \<Rightarrow> (('w, 'z) paper_scheme, unit) eff" where
  "poll_body env ws =
     bindE (callE (watch_order_book ws)) (\<lambda>b.
     bindE (getsE pt_open_orders_ref) (\<lambda>os.
       case b of
         None \<Rightarrow> ret ()
       | Some book \<Rightarrow>
           if os = [] then ret ()
           else bindE (on_book_update env book os (case book_mid book of None \<Rightarrow> 0 | Some m \<Rightarrow> m))
                  (\<lambda>_. ret ())))"

definition poll_once :: "'w env \<Rightarrow> 'w ws_connector \<Rightarrow> (('w, 'z) paper_scheme, unit) eff" where
  "poll_once env ws =
     seqE (catchE (poll_body env ws) (\<lambda>_. ret ())) (envE (\<lambda>w. ((), do_sleep env (1 / 4) w)))"

fun poll_loop :: "nat \<Rightarrow> 'w env \<Rightarrow> 'w ws_connector \<Rightarrow> (('w, 'z) paper_scheme, unit) eff" where
  "poll_loop 0 env ws = ret ()"
| "poll_loop (Suc n) env ws =
     bindE (getsE pt_running) (\<lambda>go. if go then seqE (poll_once env ws) (poll_loop n env ws) else ret ())"

definition paper_start :: "nat \<Rightarrow> 'w env \<Rightarrow> 'w ws_connector \<Rightarrow> (('w, 'z) paper_scheme, unit) eff" where
  "paper_start n env ws =
     seqE (callE (connect_ws ws)) (seqE (modE (\<lambda>s. s\<lparr>pt_running := True\<rparr>)) (poll_loop n env ws))"

definition paper_stop :: "'w ws_connector \<Rightarrow> (('w, 'z) paper_scheme, unit) eff" where
  "paper_stop ws = seqE (modE (\<lambda>s. s\<lparr>pt_running := False\<rparr>)) (callE (disconnect_ws ws))"

definition paper_get_stats :: "real \<Rightarrow> ('w, 'z) paper_scheme \<Rightarrow> (string \<times> json) list" where
  "paper_get_stats now s =
     [(''exchange'', JStr (pt_exchange s)), (''total_fills'', JNum (real (ps_total_fills (pt_stats s)))),
      (''total_qty'', JNum (ps_total_qty (pt_stats s))),
      (''total_pnl_usd'', JNum (py_round_n 6 (ps_total_pnl_usd (pt_stats s)))),
      (''total_fees'', JNum (py_round_n 6 (ps_total_fees (pt_stats s)))),
      (''fill_rate_1m'', JNum (real (fill_rate_1m now (pt_stats s))))]"

section \<open>Recording the fills\<close>

lemma record_fill_stats:
  "\<exists>s'. record_fill env f s = (Inr (), s') \<and> pt_stats s' = stats_add f (pt_stats s)
     \<and> pt_fee_rate s' = pt_fee_rate s"
proof -
  have k: "keeps (\<lambda>s. pt_stats s = st \<and> pt_fee_rate s = r) (persist_fill env f)"
    "keeps (\<lambda>s. pt_stats s = st \<and> pt_fee_rate s = r) (emit_fill_event env f)" for st r
    unfolding persist_fill_def emit_fill_event_def
    by (intro keeps_intros; simp add: db_free_def feed_free_def)+
  obtain s1 where 1: "persist_fill env f s = (Inr (), s1)"
    by (cases "persist_fill env f s") (auto simp: persist_fill_def eff_simps split: sum.splits prod.splits)
  obtain s2 where 2: "emit_fill_event env f s1 = (Inr (), s2)"
    by (cases "emit_fill_event env f s1") (auto simp: emit_fill_event_def eff_simps split: sum.splits prod.splits)
  have "pt_stats s2 = pt_stats s \<and> pt_fee_rate s2 = pt_fee_rate s"
    using keepsE [OF k(1) 1] keepsE [OF k(2) 2] by blast
  with 1 2 show ?thesis by (simp add: record_fill_def seqE_def bindE_def update_stats_def modE_def)
qed

lemma record_fills_stats:
  "\<exists>s'. for_each (record_fill env) fs s = (Inr (), s') \<and> pt_stats s' = fold stats_add fs (pt_stats s)
     \<and> pt_fee_rate s' = pt_fee_rate s"
proof (induction fs arbitrary: s)
  case (Cons f fs)
  obtain s1 where 1: "record_fill env f s = (Inr (), s1)" "pt_stats s1 = stats_add f (pt_stats s)"
    "pt_fee_rate s1 = pt_fee_rate s"
    using record_fill_stats [of env f s] by blast
  from Cons.IH [of s1] 1 show ?case by (auto simp: seqE_def bindE_def)
qed (simp add: ret_def)

lemma stats_add_totals:
  "ps_total_fills (fold stats_add fs st) = ps_total_fills st + length fs"
  "ps_total_qty (fold stats_add fs st) = ps_total_qty st + (\<Sum>f\<leftarrow>fs. sf_amount f)"
  "ps_total_pnl_usd (fold stats_add fs st) = ps_total_pnl_usd st + (\<Sum>f\<leftarrow>fs. sf_pnl_usd f)"
  "ps_total_fees (fold stats_add fs st) = ps_total_fees st + (\<Sum>f\<leftarrow>fs. sf_fee f)"
  by (induction fs arbitrary: st) (simp_all add: stats_add_def)

section \<open>The simulator does not remember\<close>

definition timeless :: "sim_fill \<Rightarrow> sim_fill" where
  "timeless f = f\<lparr>sf_filled_at := 0\<rparr>"

text \<open>Two runs give the same fills up to their times.\<close>

definition same_fill where
  "same_fill x y \<longleftrightarrow> (\<exists>r r' ls. fst x = Inr (r, ls) \<and> fst y = Inr (r', ls) \<and>
     map_option timeless r = map_option timeless r')"

lemma same_fill_buy: "same_fill (try_fill_buy env rate ts o' ls s) (try_fill_buy env rate ts o' ls s')"
  by (auto simp: same_fill_def try_fill_buy_def eff_simps Let_def timeless_def
      split: list.splits prod.splits)

lemma same_fill_sell: "same_fill (try_fill_sell env rate mid ts o' ls s) (try_fill_sell env rate mid ts o' ls s')"
  by (auto simp: same_fill_def try_fill_sell_def eff_simps Let_def timeless_def
      split: list.splits prod.splits)

lemma same_fills:
  assumes "\<And>o' ls s s'. same_fill (try_fill o' ls s) (try_fill o' ls s')"
  shows "\<exists>fs fs'. fst (fill_orders try_fill os ls s) = Inr fs \<and> fst (fill_orders try_fill os ls s') = Inr fs'
    \<and> map timeless fs = map timeless fs'"
proof (induction os arbitrary: ls s s')
  case (Cons o' os)
  obtain r r' ls' s1 s1' where t: "try_fill o' ls s = (Inr (r, ls'), s1)"
    "try_fill o' ls s' = (Inr (r', ls'), s1')" "map_option timeless r = map_option timeless r'"
    using assms [of o' ls s s'] unfolding same_fill_def by (metis prod.collapse)
  obtain fs fs' s2 s2' where f: "fill_orders try_fill os ls' s1 = (Inr fs, s2)"
    "fill_orders try_fill os ls' s1' = (Inr fs', s2')" "map timeless fs = map timeless fs'"
    using Cons.IH [of ls' s1 s1'] by (metis prod.collapse)
  from t f show ?case
    by (cases r; cases r') (simp_all add: bindE_def ret_def)
qed (simp add: ret_def)

lemma simulate_same:
  fixes s s' :: "('w, 'z) sys_scheme"
  shows "\<exists>fs fs'. fst (simulate env rate os book mid s) = Inr fs \<and> fst (simulate env rate os book mid s') = Inr fs'
    \<and> map timeless fs = map timeless fs'"
proof (cases "os = [] \<or> (ob_bids book = [] \<and> ob_asks book = [])")
  case True
  then show ?thesis by (auto simp: simulate_def ret_def)
next
  case False
  obtain bs bs' s1 s1' where b:
    "fill_orders (try_fill_buy env rate (ob_timestamp book)) (buys_in_order os) (ob_asks book) s = (Inr bs, s1)"
    "fill_orders (try_fill_buy env rate (ob_timestamp book)) (buys_in_order os) (ob_asks book) s' = (Inr bs', s1')"
    "map timeless bs = map timeless bs'"
    using same_fills [where try_fill = "try_fill_buy env rate (ob_timestamp book)" and os = "buys_in_order os"
        and ls = "ob_asks book" and s = s and s' = s', OF same_fill_buy]
    by (metis prod.collapse)
  obtain ss ss' s2 s2' where c:
    "fill_orders (try_fill_sell env rate mid (ob_timestamp book)) (sells_in_order os) (ob_bids book) s1 = (Inr ss, s2)"
    "fill_orders (try_fill_sell env rate mid (ob_timestamp book)) (sells_in_order os) (ob_bids book) s1' = (Inr ss', s2')"
    "map timeless ss = map timeless ss'"
    using same_fills [where try_fill = "try_fill_sell env rate mid (ob_timestamp book)" and os = "sells_in_order os"
        and ls = "ob_bids book" and s = s1 and s' = s1', OF same_fill_sell]
    by (metis prod.collapse)
  from False b c show ?thesis by (simp add: simulate_def bindE_def ret_def)
qed

lemma timeless_sums:
  assumes "map timeless fs = map timeless fs'"
  shows "length fs = length fs'" "(\<Sum>f\<leftarrow>fs. sf_amount f) = (\<Sum>f\<leftarrow>fs'. sf_amount f)"
    "(\<Sum>f\<leftarrow>fs. sf_fee f) = (\<Sum>f\<leftarrow>fs'. sf_fee f)" "(\<Sum>f\<leftarrow>fs. sf_pnl_usd f) = (\<Sum>f\<leftarrow>fs'. sf_pnl_usd f)"
proof -
  have e: "map g fs = map g fs'" if "\<And>f. g (timeless f) = g f" for g :: "sim_fill \<Rightarrow> real"
    using arg_cong [OF assms, of "map g"] by (simp add: comp_def that)
  show "length fs = length fs'" using arg_cong [OF assms, of length] by simp
  show "(\<Sum>f\<leftarrow>fs. sf_amount f) = (\<Sum>f\<leftarrow>fs'. sf_amount f)" "(\<Sum>f\<leftarrow>fs. sf_fee f) = (\<Sum>f\<leftarrow>fs'. sf_fee f)"
    "(\<Sum>f\<leftarrow>fs. sf_pnl_usd f) = (\<Sum>f\<leftarrow>fs'. sf_pnl_usd f)"
    by (simp_all add: e [of sf_amount] e [of sf_fee] e [of sf_pnl_usd] timeless_def)
qed

lemma on_book_update_run:
  "\<exists>fs s'. on_book_update env book os mid s = (Inr fs, s') \<and> pt_stats s' = fold stats_add fs (pt_stats s)
     \<and> pt_fee_rate s' = pt_fee_rate s \<and> fst (simulate env (pt_fee_rate s) os book mid s) = Inr fs"
proof -
  obtain fs s1 where sim: "simulate env (pt_fee_rate s) os book mid s = (Inr fs, s1)"
    using simulate_same [of env "pt_fee_rate s" os book mid s s] by (metis prod.collapse)
  have wf: "world_free (\<lambda>s. pt_stats s = st \<and> pt_fee_rate s = r)" for st r
    by (simp add: world_free_def)
  have fo: "keeps P (fill_orders tf xs ls)" if "\<And>o' ls. keeps P (tf o' ls)" for P tf xs ls
    by (induction xs arbitrary: ls) (auto intro!: keeps_intros that split: prod.split)
  have k: "keeps (\<lambda>s. pt_stats s = st \<and> pt_fee_rate s = r) (simulate env (pt_fee_rate s) os book mid)" for st r
    unfolding simulate_def
    by (intro keeps_intros fo)
      (auto simp: try_fill_buy_def try_fill_sell_def Let_def split: list.split prod.split intro!: keeps_intros wf)
  have s1: "pt_stats s1 = pt_stats s \<and> pt_fee_rate s1 = pt_fee_rate s" by (rule keepsE [OF k sim]) simp
  obtain s2 where "for_each (record_fill env) fs s1 = (Inr (), s2)"
    "pt_stats s2 = fold stats_add fs (pt_stats s1)" "pt_fee_rate s2 = pt_fee_rate s1"
    using record_fills_stats [of env fs s1] by blast
  with sim s1 show ?thesis by (auto simp: on_book_update_def bindE_def getsE_def seqE_def ret_def)
qed

text \<open>
  Fills do not use up orders: processing the same snapshot against the same open orders a second
  time reports the same quantity, profit and fees again, so the statistics grow by the same
  amounts on every poll although each order could be filled only once.
\<close>

theorem paper_trader_fills_again:
  "let s1 = snd (on_book_update env book os mid s); s2 = snd (on_book_update env book os mid s1)
   in fst (on_book_update env book os mid s1) \<noteq> Inl e \<and>
      int (ps_total_fills (pt_stats s2)) - int (ps_total_fills (pt_stats s1))
        = int (ps_total_fills (pt_stats s1)) - int (ps_total_fills (pt_stats s)) \<and>
      ps_total_qty (pt_stats s2) - ps_total_qty (pt_stats s1)
        = ps_total_qty (pt_stats s1) - ps_total_qty (pt_stats s) \<and>
      ps_total_pnl_usd (pt_stats s2) - ps_total_pnl_usd (pt_stats s1)
        = ps_total_pnl_usd (pt_stats s1) - ps_total_pnl_usd (pt_stats s)"
proof -
  obtain fs s1 where 1: "on_book_update env book os mid s = (Inr fs, s1)"
    "pt_stats s1 = fold stats_add fs (pt_stats s)" "pt_fee_rate s1 = pt_fee_rate s"
    "fst (simulate env (pt_fee_rate s) os book mid s) = Inr fs"
    using on_book_update_run [of env book os mid s] by blast
  obtain fs' s2 where 2: "on_book_update env book os mid s1 = (Inr fs', s2)"
    "pt_stats s2 = fold stats_add fs' (pt_stats s1)"
    "fst (simulate env (pt_fee_rate s) os book mid s1) = Inr fs'"
    using on_book_update_run [of env book os mid s1] 1(3) by auto
  have "map timeless fs' = map timeless fs"
    using simulate_same [of env "pt_fee_rate s" os book mid s1 s] 1(4) 2(3) by auto
  from timeless_sums [OF this] 1 2 show ?thesis
    by (simp add: Let_def stats_add_totals)
qed

end
