(* ===== verification/HmmRegime.thy ===== *)
theory HmmRegime
  imports ConfigSchema
begin

text \<open>
  \<open>quant/hmm_regime.py\<close>: the five-state regime detector that feeds the aggressiveness model.  The
  Gaussian HMM of the optional package \<open>hmmlearn\<close> is a parameter: its decoding, its posteriors
  and its refit on a buffer, each of which may raise; without the package there is no model and
  the rules of \<open>_fallback_decode\<close> decide.
\<close>

section \<open>Parameters and state\<close>

type_synonym observation = "real \<times> real \<times> real \<times> real"

record 'm hmm_lib =
  hl_decode :: "'m \<Rightarrow> observation list \<Rightarrow> nat list result"
  hl_posteriors :: "'m \<Rightarrow> observation list \<Rightarrow> real list list result"
  hl_refit :: "'m \<Rightarrow> observation list \<Rightarrow> 'm result"

definition HMM_REGIME_NAMES :: "string list" where
  "HMM_REGIME_NAMES = [''LOW_VOL'', ''NORMAL'', ''HIGH_VOL'', ''HIGH_VOL_CRASH'', ''RECOVERY'']"

record 'm hmm_detector =
  hd_cfg :: hmm_config
  hd_observations :: "observation list"
  hd_regime :: string
  hd_confidence :: real
  hd_obs_count :: nat
  hd_model :: "'m option"

definition new_hmm_detector :: "hmm_config \<Rightarrow> 'm option \<Rightarrow> 'm hmm_detector" where
  "new_hmm_detector cfg model =
     \<lparr>hd_cfg = cfg, hd_observations = [], hd_regime = ''NORMAL'', hd_confidence = 0,
      hd_obs_count = 0, hd_model = model\<rparr>"

section \<open>Decoding\<close>

definition hmm_is_ready :: "'m hmm_detector \<Rightarrow> bool" where
  "hmm_is_ready d \<longleftrightarrow> hmm_min_observations (hd_cfg d) \<le> int (length (hd_observations d))"

definition fallback_decode :: "string \<Rightarrow> observation \<Rightarrow> string \<times> real" where
  "fallback_decode current_regime =
     (\<lambda>(zz_vol, net_dir, vol_change, price_roc).
        if zz_vol > 0.005 \<and> net_dir < - 0.003 \<and> price_roc < - 0.004 then (''HIGH_VOL_CRASH'', 0.8)
        else if (zz_vol > 0.002 \<and> net_dir > 0.001 \<and> price_roc > 0.001) \<and>
                current_regime \<in> set [''HIGH_VOL_CRASH'', ''RECOVERY''] then (''RECOVERY'', 0.7)
        else if zz_vol > 0.003 then (''HIGH_VOL'', 0.7)
        else if zz_vol < 0.0008 then (''LOW_VOL'', 0.8)
        else (''NORMAL'', 0.6))"

text \<open>The last element of a sequence, and an indexing that may raise.\<close>

definition last_of :: "'a list \<Rightarrow> 'a result" where
  "last_of xs = (if xs = [] then Inl (OtherError ''IndexError'') else Inr (last xs))"

definition nth_of :: "'a list \<Rightarrow> nat \<Rightarrow> 'a result" where
  "nth_of xs i = (if i < length xs then Inr (xs ! i) else Inl (OtherError ''IndexError''))"

definition model_decode :: "'m hmm_lib \<Rightarrow> 'm \<Rightarrow> observation list \<Rightarrow> (string \<times> real) result" where
  "model_decode lib m obs =
     bindR (hl_decode lib m obs) (\<lambda>state_seq.
     bindR (last_of state_seq) (\<lambda>current_state.
     bindR (hl_posteriors lib m obs) (\<lambda>posteriors.
     bindR (last_of posteriors) (\<lambda>row.
     bindR (nth_of row current_state) (\<lambda>confidence.
     bindR (if current_state < length HMM_REGIME_NAMES then Inr (HMM_REGIME_NAMES ! current_state)
            else Inl (KeyError ''current_state'')) (\<lambda>name.
       Inr (name, confidence)))))))"

definition decode_regime :: "'m hmm_lib \<Rightarrow> 'm hmm_detector \<Rightarrow> string \<times> real" where
  "decode_regime lib d =
     (let fallback = fallback_decode (hd_regime d) (last (hd_observations d))
      in case hd_model d of
           None \<Rightarrow> fallback
         | Some m \<Rightarrow> (case model_decode lib m (hd_observations d) of Inl _ \<Rightarrow> fallback | Inr r \<Rightarrow> r))"

definition hmm_refit :: "'m hmm_lib \<Rightarrow> 'm hmm_detector \<Rightarrow> 'm hmm_detector" where
  "hmm_refit lib d =
     (case hd_model d of
        None \<Rightarrow> d
      | Some m \<Rightarrow> (case hl_refit lib m (hd_observations d) of
                     Inl _ \<Rightarrow> d | Inr m' \<Rightarrow> d\<lparr>hd_model := Some m'\<rparr>))"

definition hmm_update :: "'m hmm_lib \<Rightarrow> observation \<Rightarrow> 'm hmm_detector \<Rightarrow> string \<times> 'm hmm_detector" where
  "hmm_update lib obs d =
     (let d1 = d\<lparr>hd_observations := deque_append (nat (hmm_lookback (hd_cfg d))) obs (hd_observations d),
                 hd_obs_count := hd_obs_count d + 1\<rparr>
      in if \<not> hmm_is_ready d1 then (hd_regime d1, d1)
         else (let (name, conf) = decode_regime lib d1;
                   d2 = d1\<lparr>hd_regime := name, hd_confidence := conf\<rparr>;
                   d3 = (if hd_model d2 \<noteq> None \<and> 0 < hd_obs_count d2
                            \<and> int (hd_obs_count d2) mod refit_interval (hd_cfg d2) = 0
                            \<and> hmm_min_observations (hd_cfg d2) \<le> int (length (hd_observations d2))
                         then hmm_refit lib d2 else d2)
               in (hd_regime d3, d3)))"

section \<open>Behaviour\<close>

lemma fallback_name: "fst (fallback_decode r obs) \<in> set HMM_REGIME_NAMES"
  by (cases obs) (auto simp: fallback_decode_def HMM_REGIME_NAMES_def)

lemma model_decode_name: "model_decode lib m obs = Inr (name, c) \<Longrightarrow> name \<in> set HMM_REGIME_NAMES"
  by (auto simp: model_decode_def bindR_eq_Inr split: if_splits intro: nth_mem)

lemma decode_name: "fst (decode_regime lib d) \<in> set HMM_REGIME_NAMES"
  using model_decode_name fallback_name
  by (fastforce simp: decode_regime_def Let_def split: option.split sum.split)

definition hmm_det_ok :: "'m hmm_detector \<Rightarrow> bool" where
  "hmm_det_ok d \<longleftrightarrow> hd_regime d \<in> set HMM_REGIME_NAMES
     \<and> length (hd_observations d) \<le> nat (hmm_lookback (hd_cfg d))"

lemma hmm_refit_simps [simp]:
  "hd_regime (hmm_refit lib d) = hd_regime d" "hd_observations (hmm_refit lib d) = hd_observations d"
  "hd_cfg (hmm_refit lib d) = hd_cfg d" "hd_confidence (hmm_refit lib d) = hd_confidence d"
  "hd_model (hmm_refit lib d) = None \<longleftrightarrow> hd_model d = None"
  by (auto simp: hmm_refit_def split: option.split sum.split)

lemma hmm_det_ok_new: "hmm_det_ok (new_hmm_detector cfg m)"
  by (simp add: hmm_det_ok_def new_hmm_detector_def HMM_REGIME_NAMES_def)

lemma hmm_det_ok_update: "hmm_det_ok d \<Longrightarrow> hmm_det_ok (snd (hmm_update lib obs d))"
  using decode_name [of lib] by (auto simp: hmm_det_ok_def hmm_update_def Let_def split: prod.split)
    (metis fst_conv)+

lemma hmm_update_regime [simp]: "fst (hmm_update lib obs d) = hd_regime (snd (hmm_update lib obs d))"
  by (simp add: hmm_update_def Let_def split: prod.split)

lemma hmm_update_cfg [simp]: "hd_cfg (snd (hmm_update lib obs d)) = hd_cfg d"
  by (simp add: hmm_update_def Let_def split: prod.split)

lemma hmm_update_model [simp]: "hd_model (snd (hmm_update lib obs d)) = None \<longleftrightarrow> hd_model d = None"
  by (auto simp: hmm_update_def Let_def split: prod.split)

section \<open>Runs\<close>

text \<open>The regimes a sequence of observations produces, and the detector it leaves.\<close>

fun hmm_run :: "'m hmm_lib \<Rightarrow> observation list \<Rightarrow> 'm hmm_detector \<Rightarrow> string list \<times> 'm hmm_detector" where
  "hmm_run lib [] d = ([], d)"
| "hmm_run lib (obs # os) d =
     (let (r, d') = hmm_update lib obs d; (rs, d'') = hmm_run lib os d' in (r # rs, d''))"

lemma hmm_run_Cons:
  "hmm_run lib (obs # os) d =
     (hd_regime (snd (hmm_update lib obs d)) # fst (hmm_run lib os (snd (hmm_update lib obs d))),
      snd (hmm_run lib os (snd (hmm_update lib obs d))))"
  by (simp add: case_prod_unfold Let_def)

lemma fallback_recovery:
  assumes "hd_model d = None" and "hd_regime (snd (hmm_update lib obs d)) = ''RECOVERY''"
  shows "hd_regime d \<in> {''HIGH_VOL_CRASH'', ''RECOVERY''}"
proof -
  have rec: "r \<in> {''HIGH_VOL_CRASH'', ''RECOVERY''}" if "fst (fallback_decode r x) = ''RECOVERY''" for r x
    using that by (cases x) (auto simp: fallback_decode_def split: if_splits)
  have "hd_regime (snd (hmm_update lib obs d)) \<in>
      {hd_regime d} \<union> range (\<lambda>x. fst (fallback_decode (hd_regime d) x))"
    using assms(1)
    by (auto simp: hmm_update_def decode_regime_def Let_def split: prod.split) (metis fst_conv rangeI)
  then consider "hd_regime (snd (hmm_update lib obs d)) = hd_regime d"
    | x where "hd_regime (snd (hmm_update lib obs d)) = fst (fallback_decode (hd_regime d) x)"
    by blast
  then show ?thesis
  proof cases
    case 1
    with assms(2) show ?thesis by simp
  next
    case (2 x)
    with assms(2) show ?thesis by (intro rec [of "hd_regime d" x]) simp
  qed
qed

text \<open>
  Without \<open>hmmlearn\<close> a recovery is only ever reported after a crash: in the regimes that any
  sequence of observations produces from a fresh detector, the first RECOVERY is preceded by a
  HIGH_VOL_CRASH.
\<close>

theorem recovery_follows_crash:
  "''RECOVERY'' \<in> set (fst (hmm_run lib os (new_hmm_detector cfg None))) \<longrightarrow>
   ''HIGH_VOL_CRASH'' \<in> set (takeWhile (\<lambda>r. r \<noteq> ''RECOVERY'') (fst (hmm_run lib os (new_hmm_detector cfg None))))"
proof -
  have "''HIGH_VOL_CRASH'' \<in> set (takeWhile (\<lambda>r. r \<noteq> ''RECOVERY'') (fst (hmm_run lib os d)))"
    if "hd_model d = None" "hd_regime d \<notin> {''HIGH_VOL_CRASH'', ''RECOVERY''}"
      "''RECOVERY'' \<in> set (fst (hmm_run lib os d))" for d
    using that
  proof (induction os arbitrary: d)
    case (Cons obs os)
    let ?d = "snd (hmm_update lib obs d)"
    have nr: "hd_regime ?d \<noteq> ''RECOVERY''"
      using fallback_recovery [of d lib obs] Cons.prems by auto
    show ?case
    proof (cases "hd_regime ?d = ''HIGH_VOL_CRASH''")
      case True
      then show ?thesis by (simp add: hmm_run_Cons del: hmm_run.simps)
    next
      case False
      have "''RECOVERY'' \<in> set (fst (hmm_run lib os ?d))"
        using Cons.prems(3) nr by (simp add: hmm_run_Cons del: hmm_run.simps)
      with Cons.IH [of ?d] Cons.prems False nr show ?thesis
        by (simp add: hmm_run_Cons del: hmm_run.simps)
    qed
  qed simp
  then show ?thesis by (simp add: new_hmm_detector_def)
qed

definition sample_hmm_lib :: "unit hmm_lib" where
  "sample_hmm_lib =
     \<lparr>hl_decode = (\<lambda>_ _. Inl (ImportError ''hmmlearn'')), hl_posteriors = (\<lambda>_ _. Inl (ImportError ''hmmlearn'')),
      hl_refit = (\<lambda>_ _. Inl (ImportError ''hmmlearn''))\<rparr>"

theorem recovery_follows_crash_witness:
  "''RECOVERY'' \<in> set (fst (hmm_run sample_hmm_lib [(0.01, - 0.01, 0, - 0.01), (0.01, 0.01, 0, 0.01)]
      (new_hmm_detector (default_hmm_config\<lparr>hmm_min_observations := 1\<rparr>) None))) \<and>
   ''HIGH_VOL_CRASH'' \<in> set (takeWhile (\<lambda>r. r \<noteq> ''RECOVERY'')
     (fst (hmm_run sample_hmm_lib [(0.01, - 0.01, 0, - 0.01), (0.01, 0.01, 0, 0.01)]
        (new_hmm_detector (default_hmm_config\<lparr>hmm_min_observations := 1\<rparr>) None))))"
proof -
  have "''RECOVERY'' \<in> set (fst (hmm_run sample_hmm_lib [(0.01, - 0.01, 0, - 0.01), (0.01, 0.01, 0, 0.01)]
      (new_hmm_detector (default_hmm_config\<lparr>hmm_min_observations := 1\<rparr>) None)))"
    by (simp add: new_hmm_detector_def default_hmm_config_def hmm_update_def hmm_is_ready_def
      decode_regime_def fallback_decode_def deque_append_def Let_def)
  with recovery_follows_crash show ?thesis by blast
qed

text \<open>
  The two window sizes of the configuration are validated separately: when the buffer is shorter
  than the number of observations required, which the schema allows, the detector never becomes
  ready and reports NORMAL with confidence zero whatever the market does.
\<close>

theorem short_buffer_never_ready:
  assumes "hmm_lookback cfg < hmm_min_observations cfg" and "0 < hmm_lookback cfg"
  shows "set (fst (hmm_run lib os (new_hmm_detector cfg m))) \<subseteq> {''NORMAL''} \<and>
         hd_confidence (snd (hmm_run lib os (new_hmm_detector cfg m))) = 0"
proof -
  have "set (fst (hmm_run lib os d)) \<subseteq> {''NORMAL''} \<and> hd_confidence (snd (hmm_run lib os d)) = 0"
    if "hd_cfg d = cfg" "hd_regime d = ''NORMAL''" "hd_confidence d = 0" for d
    using that
  proof (induction os arbitrary: d)
    case (Cons obs os)
    let ?d = "snd (hmm_update lib obs d)"
    have "hd_regime ?d = ''NORMAL'' \<and> hd_confidence ?d = 0"
      using assms Cons.prems by (auto simp: hmm_update_def hmm_is_ready_def Let_def min_def)
    with Cons.IH [of ?d] Cons.prems show ?case
      by (simp add: hmm_run_Cons del: hmm_run.simps)
  qed simp
  then show ?thesis by (simp add: new_hmm_detector_def)
qed

theorem short_buffer_never_ready_witness:
  "hmm_ok (default_hmm_config\<lparr>hmm_lookback := 10, hmm_min_observations := 30\<rparr>) \<and>
   set (fst (hmm_run sample_hmm_lib [(0.01, - 0.01, 0, - 0.01)] (new_hmm_detector
     (default_hmm_config\<lparr>hmm_lookback := 10, hmm_min_observations := 30\<rparr>) None))) \<subseteq> {''NORMAL''} \<and>
   hd_confidence (snd (hmm_run sample_hmm_lib [(0.01, - 0.01, 0, - 0.01)] (new_hmm_detector
     (default_hmm_config\<lparr>hmm_lookback := 10, hmm_min_observations := 30\<rparr>) None))) = 0"
  by (rule conjI, simp add: hmm_ok_def default_hmm_config_def between_def)
    (rule short_buffer_never_ready, simp_all)

end
