(* ===== verification/Volatility.thy ===== *)
theory Volatility
  imports ExchangeBase ConfigSchema MathUtils
begin

text \<open>
  \<open>quant/volatility.py\<close>: the rolling standard deviation of returns, the Zhang-Zhang estimator
  and its regime, and the features handed to the Gaussian regime detector.  The clock of
  \<open>update_price\<close> is read by the caller.
\<close>

section \<open>State\<close>

record vol_engine =
  ve_cfg :: volatility_config
  ve_closes :: "real list"
  ve_candles :: "candle list"
  ve_last_update_s :: real
  ve_last_net_direction :: real

definition new_vol_engine :: "volatility_config \<Rightarrow> vol_engine" where
  "new_vol_engine cfg =
     \<lparr>ve_cfg = cfg, ve_closes = [], ve_candles = [], ve_last_update_s = 0, ve_last_net_direction = 0\<rparr>"

definition max_samples :: "volatility_config \<Rightarrow> nat" where
  "max_samples cfg = nat (window_minutes cfg * 60 + 10)"

definition max_candles :: "volatility_config \<Rightarrow> nat" where
  "max_candles cfg = nat (window_minutes cfg + 5)"

definition update_price :: "real \<Rightarrow> real \<Rightarrow> vol_engine \<Rightarrow> vol_engine" where
  "update_price now price v =
     v\<lparr>ve_closes := deque_append (max_samples (ve_cfg v)) price (ve_closes v), ve_last_update_s := now\<rparr>"

definition update_candle :: "candle \<Rightarrow> vol_engine \<Rightarrow> vol_engine" where
  "update_candle c v = v\<lparr>ve_candles := deque_append (max_candles (ve_cfg v)) c (ve_candles v)\<rparr>"

definition update_candles :: "candle list \<Rightarrow> vol_engine \<Rightarrow> vol_engine" where
  "update_candles cs v = fold update_candle cs v"

section \<open>Rolling volatility\<close>

definition mean :: "real list \<Rightarrow> real" where
  "mean xs = sum_list xs / real (length xs)"

text \<open>\<open>np.std\<close>: the population standard deviation.\<close>

definition np_std :: "real list \<Rightarrow> real" where
  "np_std xs = sqrt (mean (map (\<lambda>x. (x - mean xs)\<^sup>2) xs))"

fun returns_of :: "real list \<Rightarrow> real list" where
  "returns_of (p # q # ps) = (q - p) / p # returns_of (q # ps)"
| "returns_of _ = []"

definition rolling_vol :: "vol_engine \<Rightarrow> real" where
  "rolling_vol v = (if length (ve_closes v) < 3 then 0 else np_std (returns_of (ve_closes v)))"

section \<open>Zhang-Zhang volatility\<close>

definition candle_usable :: "candle \<Rightarrow> bool" where
  "candle_usable c \<longleftrightarrow> \<not> (cd_high c \<le> 0 \<or> cd_low c \<le> 0 \<or> cd_close c \<le> 0 \<or> cd_open c \<le> 0)"

definition hl_term :: "candle \<Rightarrow> real" where
  "hl_term c = (if cd_high c = cd_low c then 0 else 0.5 * (ln (cd_high c / cd_low c))\<^sup>2)"

definition co_val :: "candle \<Rightarrow> real" where
  "co_val c = ln (cd_close c / cd_open c)"

text \<open>The two numbers the loop arrives at, and the regime read off the second.\<close>

definition zz_stats :: "candle list \<Rightarrow> (real \<times> real) option" where
  "zz_stats candles =
     (let used = filter candle_usable candles
      in if used = [] then None
         else Some (sqrt (max (mean (map (\<lambda>c. hl_term c - (2 * ln 2 - 1) * (co_val c)\<^sup>2) used)) 0),
                    mean (map co_val used)))"

definition zz_regime_of :: "volatility_config \<Rightarrow> real \<Rightarrow> string" where
  "zz_regime_of cfg net =
     (if net > trending_threshold cfg then ''trending_up''
      else if net < - trending_threshold cfg then ''trending_down''
      else if \<bar>net\<bar> < choppy_threshold cfg then ''choppy''
      else ''choppy'')"

definition zhang_zhang_vol :: "vol_engine \<Rightarrow> (real \<times> string) \<times> vol_engine" where
  "zhang_zhang_vol v =
     (if length (ve_candles v) < 3 then ((0, ''choppy''), v)
      else (case zz_stats (ve_candles v) of
              None \<Rightarrow> ((0, ''choppy''), v)
            | Some (vol, net) \<Rightarrow>
                ((vol, zz_regime_of (ve_cfg v) net), v\<lparr>ve_last_net_direction := net\<rparr>)))"

section \<open>Features of the regime detector\<close>

definition volume_change_of :: "real list \<Rightarrow> real" where
  "volume_change_of volumes =
     (if 2 \<le> length volumes
      then (let mean_vol = mean (butlast volumes)
            in if 0 < mean_vol then (last volumes - mean_vol) / mean_vol else 0)
      else 0)"

definition price_roc_of :: "real list \<Rightarrow> real" where
  "price_roc_of closes = (if 2 \<le> length closes then (last closes - hd closes) / hd closes else 0)"

definition hmm_features :: "vol_engine \<Rightarrow> (real \<times> real \<times> real \<times> real) option \<times> vol_engine" where
  "hmm_features v =
     (if length (ve_candles v) < 3 then (None, v)
      else (let ((zz_vol, _), v') = zhang_zhang_vol v
            in (Some (zz_vol, ve_last_net_direction v',
                      volume_change_of (filter (\<lambda>x. 0 < x) (map cd_volume (ve_candles v))),
                      price_roc_of (filter (\<lambda>x. 0 < x) (map cd_close (ve_candles v)))), v')))"

definition vol_is_ready :: "vol_engine \<Rightarrow> bool" where
  "vol_is_ready v \<longleftrightarrow> 10 \<le> length (ve_closes v)"

definition candles_ready :: "vol_engine \<Rightarrow> bool" where
  "candles_ready v \<longleftrightarrow> 3 \<le> length (ve_candles v)"

section \<open>Bounds\<close>

lemma mean_nonneg: "(\<And>x. x \<in> set xs \<Longrightarrow> 0 \<le> x) \<Longrightarrow> 0 \<le> mean xs"
  by (simp add: mean_def sum_list_nonneg)

lemma np_std_nonneg: "0 \<le> np_std xs"
  unfolding np_std_def by (rule real_sqrt_ge_zero, rule mean_nonneg) auto

lemma rolling_vol_nonneg: "0 \<le> rolling_vol v"
  by (simp add: rolling_vol_def np_std_nonneg)

lemma zz_vol_nonneg: "0 \<le> fst (fst (zhang_zhang_vol v))"
  by (auto simp: zhang_zhang_vol_def zz_stats_def Let_def split: option.split if_splits)

lemma zz_regime_cases: "snd (fst (zhang_zhang_vol v)) \<in> {''trending_up'', ''trending_down'', ''choppy''}"
  by (auto simp: zhang_zhang_vol_def zz_regime_of_def split: option.split)

text \<open>The windows are bounded and hold what was fed in.\<close>

definition windows_ok :: "vol_engine \<Rightarrow> bool" where
  "windows_ok v \<longleftrightarrow> length (ve_closes v) \<le> max_samples (ve_cfg v)
     \<and> length (ve_candles v) \<le> max_candles (ve_cfg v) \<and> (\<forall>p \<in> set (ve_closes v). 0 < p)"

lemma windows_ok_new: "windows_ok (new_vol_engine cfg)"
  by (simp add: windows_ok_def new_vol_engine_def)

lemma windows_ok_update_price: "windows_ok v \<Longrightarrow> 0 < p \<Longrightarrow> windows_ok (update_price now p v)"
  using set_deque_append [of "max_samples (ve_cfg v)" p "ve_closes v"]
  by (auto simp: windows_ok_def update_price_def)

lemma windows_ok_update_candle: "windows_ok v \<Longrightarrow> windows_ok (update_candle c v)"
  by (simp add: windows_ok_def update_candle_def)

lemma windows_ok_update_candles: "windows_ok v \<Longrightarrow> windows_ok (update_candles cs v)"
  unfolding update_candles_def by (induction cs arbitrary: v) (simp_all add: windows_ok_update_candle)

lemma windows_ok_zz: "windows_ok v \<Longrightarrow> windows_ok (snd (zhang_zhang_vol v))"
  by (auto simp: windows_ok_def zhang_zhang_vol_def split: option.split)

section \<open>Units do not matter\<close>

definition scale_candle :: "real \<Rightarrow> candle \<Rightarrow> candle" where
  "scale_candle k c = c\<lparr>cd_open := k * cd_open c, cd_high := k * cd_high c, cd_low := k * cd_low c,
     cd_close := k * cd_close c\<rparr>"

definition scale_prices :: "real \<Rightarrow> vol_engine \<Rightarrow> vol_engine" where
  "scale_prices k v = v\<lparr>ve_closes := map ((*) k) (ve_closes v), ve_candles := map (scale_candle k) (ve_candles v)\<rparr>"

lemma returns_scale: "k \<noteq> 0 \<Longrightarrow> returns_of (map ((*) k) ps) = returns_of ps"
proof (induction ps rule: returns_of.induct)
  case (1 p q ps)
  have "(k * q - k * p) / (k * p) = (q - p) / p"
    using 1 by (simp add: right_diff_distrib [symmetric])
  with 1 show ?case by simp
qed simp_all

lemma candle_scale:
  assumes "0 < k"
  shows "candle_usable (scale_candle k c) = candle_usable c" "hl_term (scale_candle k c) = hl_term c"
    "co_val (scale_candle k c) = co_val c"
  using assms by (auto simp: candle_usable_def scale_candle_def hl_term_def co_val_def mult_le_0_iff)

lemma zz_stats_scale: "0 < k \<Longrightarrow> zz_stats (map (scale_candle k) cs) = zz_stats cs"
  by (simp add: zz_stats_def filter_map comp_def candle_scale Let_def)

text \<open>
  Both volatility estimates and the trend regime are free of units: quoting every price in
  another currency changes none of them, and both estimates are never negative.
\<close>

theorem volatility_scale_free:
  assumes "0 < k"
  shows "rolling_vol (scale_prices k v) = rolling_vol v \<and>
         fst (zhang_zhang_vol (scale_prices k v)) = fst (zhang_zhang_vol v) \<and>
         0 \<le> rolling_vol v \<and> 0 \<le> fst (fst (zhang_zhang_vol v))"
proof -
  have "rolling_vol (scale_prices k v) = rolling_vol v"
    using assms by (simp add: rolling_vol_def scale_prices_def returns_scale)
  moreover have "fst (zhang_zhang_vol (scale_prices k v)) = fst (zhang_zhang_vol v)"
    using assms
    by (auto simp: zhang_zhang_vol_def scale_prices_def zz_stats_scale split: option.split)
  ultimately show ?thesis by (simp add: rolling_vol_nonneg zz_vol_nonneg)
qed

definition sample_vol_engine :: vol_engine where
  "sample_vol_engine =
     \<lparr>ve_cfg = \<lparr>window_minutes = 10, low_threshold = 0.001, high_threshold = 0.003, vol_power = 2,
                base_aggressiveness = 1, trending_threshold = 0.0015, choppy_threshold = 0.0005,
                hmm = default_hmm_config\<rparr>,
      ve_closes = [100, 101, 100], ve_candles = [], ve_last_update_s = 0, ve_last_net_direction = 0\<rparr>"

theorem volatility_scale_free_witness:
  "rolling_vol (scale_prices 2 sample_vol_engine) = rolling_vol sample_vol_engine \<and>
   fst (zhang_zhang_vol (scale_prices 2 sample_vol_engine)) = fst (zhang_zhang_vol sample_vol_engine) \<and>
   0 \<le> rolling_vol sample_vol_engine \<and> 0 \<le> fst (fst (zhang_zhang_vol sample_vol_engine))"
  by (rule volatility_scale_free) simp

text \<open>The threshold for choppy markets decides nothing.\<close>

lemma choppy_threshold_unused: "zz_regime_of (cfg\<lparr>choppy_threshold := x\<rparr>) net = zz_regime_of cfg net"
  by (simp add: zz_regime_of_def)

text \<open>Constant prices have no volatility.\<close>

lemma returns_flat: "p \<noteq> 0 \<Longrightarrow> returns_of (replicate n p) = replicate (n - 1) 0"
proof (induction n)
  case (Suc n)
  then show ?case by (cases n) simp_all
qed simp

lemma rolling_vol_flat:
  "p \<noteq> 0 \<Longrightarrow> ve_closes v = replicate n p \<Longrightarrow> rolling_vol v = 0"
  by (simp add: rolling_vol_def returns_flat np_std_def mean_def sum_list_replicate map_replicate_const)

end
