(* ===== verification/Orchestrator.thy ===== *)
theory Orchestrator
  imports BotSafety PaperTrader HmmRegime Volatility
begin

text \<open>
  \<open>core/orchestrator.py\<close>: the price loop, the distribution of the global state, the wiring of the
  bots, the emergency stop of all of them and the configuration reload.  Bots and paper traders
  share the world, the database and the live feed with the orchestrator: their methods run on
  their own fields with the orchestrator's shared ones loaded, and what they leave of the shared
  ones is stored back (\<open>on_bot\<close>, \<open>on_paper\<close>).  The queue of a bot is a field of the bot, the dicts
  of queues of the source being views of them; connectors are the environments \<open>envs name\<close>.  The
  limiter among the shared fields is that of whichever part runs, the orchestrator has none.
\<close>

section \<open>State\<close>

record ('w, 'm) orch = "'w feed_sys" +
  oc_config :: bot_config
  oc_live_mode :: bool
  oc_vol :: vol_engine
  oc_agg_cfg :: volatility_config
  oc_hmm :: "'m hmm_detector option"
  oc_regime :: regime_master
  oc_connectors :: "string list"
  oc_bots :: "(string \<times> 'w bot) list"
  oc_papers :: "(string \<times> 'w paper) list"
  oc_running :: bool
  oc_state :: "global_state option"
  oc_last_candle_fetch_at :: real

definition make_hmm :: "'m option \<Rightarrow> volatility_config \<Rightarrow> 'm hmm_detector option" where
  "make_hmm hmm0 cfg = (if hmm_enabled (hmm cfg) then Some (new_hmm_detector (hmm cfg) hmm0) else None)"

definition init_orch ::
  "'m option \<Rightarrow> bot_config \<Rightarrow> bool \<Rightarrow> ('w, 'm) orch \<Rightarrow> ('w, 'm) orch" where
  "init_orch hmm0 cfg live s =
     s\<lparr>oc_config := cfg, oc_live_mode := live, oc_vol := new_vol_engine (bc_volatility cfg),
       oc_agg_cfg := bc_volatility cfg, oc_hmm := make_hmm hmm0 (bc_volatility cfg),
       oc_regime := new_regime_master, oc_connectors := [], oc_bots := [], oc_papers := [],
       oc_running := False, oc_state := None, oc_last_candle_fetch_at := 0\<rparr>"

text \<open>A method of a bot, and a method of a paper trader, whose open orders the bot has set.\<close>

definition on_bot :: "string \<Rightarrow> ('w bot, 'a) eff \<Rightarrow> (('w, 'm) orch, 'a) eff" where
  "on_bot name m s =
     (case dict_get (oc_bots s) name of
        None \<Rightarrow> (Inl (KeyError name), s)
      | Some b \<Rightarrow>
          (let (r, b') = m (b\<lparr>world := world s, db := db s, feed := feed s\<rparr>)
           in (r, s\<lparr>world := world b', db := db b', feed := feed b',
                    oc_bots := AList.update name b' (oc_bots s)\<rparr>)))"

definition bot_orders :: "string \<Rightarrow> ('w, 'm) orch \<Rightarrow> order list" where
  "bot_orders name s =
     (case dict_get (oc_bots s) name of
        None \<Rightarrow> [] | Some b \<Rightarrow> (case b_paper_orders b of None \<Rightarrow> [] | Some os \<Rightarrow> os))"

definition on_paper :: "string \<Rightarrow> ('w paper, 'a) eff \<Rightarrow> (('w, 'm) orch, 'a) eff" where
  "on_paper name m s =
     (case dict_get (oc_papers s) name of
        None \<Rightarrow> (Inl (KeyError name), s)
      | Some p \<Rightarrow>
          (let (r, p') = m (set_open_orders (bot_orders name s) (p\<lparr>world := world s, db := db s, feed := feed s\<rparr>))
           in (r, s\<lparr>world := world p', db := db p', feed := feed p',
                    oc_papers := AList.update name p' (oc_papers s)\<rparr>)))"

section \<open>The price loop\<close>

text \<open>\<open>_fetch_ticker_safe\<close> for every connector; gathered with \<open>return_exceptions\<close>, a failure is dropped.\<close>

definition fetch_mid :: "'w env \<Rightarrow> (('w, 'm) orch, real) eff" where
  "fetch_mid env = bindE (callE (fetch_ticker env)) (\<lambda>t. ret (tk_mid t))"

definition fetch_mids :: "(string \<Rightarrow> 'w env) \<Rightarrow> string list \<Rightarrow> (('w, 'm) orch, (string \<times> real) list) eff" where
  "fetch_mids envs names =
     for_collect (\<lambda>name. catchE (bindE (fetch_mid (envs name)) (\<lambda>m. ret (Some (name, m)))) (\<lambda>_. ret None)) names"

definition active_weights :: "(string \<times> real) list \<Rightarrow> (string \<times> real) list \<Rightarrow> (string \<times> real) list" where
  "active_weights weights valid =
     map (\<lambda>(k, _). (k, case dict_get weights k of None \<Rightarrow> 0 | Some w \<Rightarrow> w)) valid"

definition weighted_mid :: "(string \<times> real) list \<Rightarrow> (string \<times> real) list \<Rightarrow> real" where
  "weighted_mid normalised valid =
     (\<Sum>(k, v)\<leftarrow>valid. (case dict_get normalised k of None \<Rightarrow> 0 | Some w \<Rightarrow> w) * v)"

text \<open>Candles from the first connector, once a minute; a failure leaves everything for the next tick.\<close>

definition refresh_candles :: "(string \<Rightarrow> 'w env) \<Rightarrow> real \<Rightarrow> (('w, 'm) orch, unit) eff" where
  "refresh_candles envs ts_now =
     bindE (getsE (\<lambda>s. (oc_last_candle_fetch_at s, oc_connectors s))) (\<lambda>(t, names).
       if ts_now - t \<ge> 60 \<and> names \<noteq> []
       then catchE
              (bindE (callE (fetch_candles (envs (hd names)) ''1m'' 15)) (\<lambda>candles.
                 modE (\<lambda>s. s\<lparr>oc_vol := update_candles candles (oc_vol s), oc_last_candle_fetch_at := ts_now\<rparr>)))
              (\<lambda>_. ret ())
       else ret ())"

text \<open>The volatility readings, the regime from the HMM and the engine and detector they leave.\<close>

definition read_market ::
  "'m hmm_lib \<Rightarrow> volatility_config \<Rightarrow> vol_engine \<Rightarrow> 'm hmm_detector option \<Rightarrow>
   (real \<times> real \<times> string \<times> real \<times> string \<times> real) \<times> vol_engine \<times> 'm hmm_detector option" where
  "read_market lib agg_cfg v0 det =
     (let vol = rolling_vol v0;
          ((zz_vol, zz_regime), v1) = zhang_zhang_vol v0;
          agg = compute_agg agg_cfg vol
      in case det of
           None \<Rightarrow> ((vol, zz_vol, zz_regime, agg, ''NORMAL'', 0), v1, None)
         | Some d \<Rightarrow>
             (let (features, v2) = hmm_features v1
              in case features of
                   None \<Rightarrow> ((vol, zz_vol, zz_regime, agg, ''NORMAL'', 0), v2, Some d)
                 | Some obs \<Rightarrow>
                     (let (r, d') = hmm_update lib obs d
                      in ((vol, zz_vol, zz_regime, agg, r, hd_confidence d'), v2, Some d'))))"

text \<open>\<open>_state\<close> is set, the regime master gets the state, and every bot whose queue has room.\<close>

definition publish_state :: "global_state \<Rightarrow> ('w, 'm) orch \<Rightarrow> ('w, 'm) orch" where
  "publish_state st s =
     s\<lparr>oc_state := Some st, oc_regime := push_state st (oc_regime s),
       oc_bots := map (\<lambda>(name, b). (name, b\<lparr>b_queue := offer put_nowait st (b_queue b)\<rparr>)) (oc_bots s)\<rparr>"

text \<open>From the accepted mid price on.\<close>

definition update_market ::
  "(string \<Rightarrow> 'w env) \<Rightarrow> 'w env \<Rightarrow> 'm hmm_lib \<Rightarrow> string list \<Rightarrow> real \<Rightarrow> (('w, 'm) orch, unit) eff" where
  "update_market envs env lib contributing global_mid =
     bindE (now_s env) (\<lambda>now.
     seqE (modE (\<lambda>s. s\<lparr>oc_vol := update_price now global_mid (oc_vol s)\<rparr>))
     (bindE (now_s env) (\<lambda>ts_now.
     seqE (refresh_candles envs ts_now)
     (bindE (getsE (\<lambda>s. read_market lib (oc_agg_cfg s) (oc_vol s) (oc_hmm s)))
        (\<lambda>((vol, zz_vol, zz_regime, agg, hmm_regime, hmm_confidence), v, det).
     seqE (modE (\<lambda>s. s\<lparr>oc_vol := v, oc_hmm := det\<rparr>))
     (bindE (getsE (\<lambda>s. rm_current (oc_regime s))) (\<lambda>rs.
     bindE (now_s env) (\<lambda>ts.
       modE (publish_state
         \<lparr>gs_global_mid = global_mid, gs_volatility = vol, gs_aggressiveness = agg,
          gs_zz_vol = zz_vol, gs_zz_regime = zz_regime, gs_hmm_regime = hmm_regime,
          gs_hmm_confidence = hmm_confidence, gs_timestamp = ts,
          gs_contributing = contributing, gs_regime_state = Some rs\<rparr>)))))))))"

definition tick_prices :: "(string \<Rightarrow> 'w env) \<Rightarrow> 'w env \<Rightarrow> 'm hmm_lib \<Rightarrow> (('w, 'm) orch, unit) eff" where
  "tick_prices envs env lib =
     bindE (getsE (\<lambda>s. (weights_as_dict (bc_weights (oc_config s)), oc_connectors s))) (\<lambda>(weights, names).
     bindE (fetch_mids envs names) (\<lambda>valid.
     if valid = [] then ret ()
     else (case normalize_weights (active_weights weights valid) of
             Inl e \<Rightarrow> raiseE e
           | Inr normalised \<Rightarrow>
               (let global_mid = weighted_mid normalised valid
                in if global_mid \<le> 0 then ret ()
                   else update_market envs env lib (dict_keys valid) global_mid))))"

text \<open>One pass of \<open>_price_loop\<close>, which swallows what a tick raises.\<close>

definition price_loop_step :: "(string \<Rightarrow> 'w env) \<Rightarrow> 'w env \<Rightarrow> 'm hmm_lib \<Rightarrow> (('w, 'm) orch, unit) eff" where
  "price_loop_step envs env lib =
     bindE (getsE oc_running) (\<lambda>go. if \<not> go then ret () else
       seqE (catchE (tick_prices envs env lib) (\<lambda>_. ret ()))
            (envE (\<lambda>w. ((), do_sleep env (1 / 2) w))))"

section \<open>Wiring and lifecycle\<close>

text \<open>
  What \<open>start\<close> calls outside the model: the credentials of an exchange, the REST connector and, in
  a dry run, the WebSocket connector; each may raise.
\<close>

record 'w factory =
  fa_credentials :: "string \<Rightarrow> unit result"
  fa_connector :: "exchange_bot_config \<Rightarrow> unit result"
  fa_ws_connector :: "exchange_bot_config \<Rightarrow> unit result"

definition liftR :: "'a result \<Rightarrow> ('s, 'a) eff" where
  "liftR r s = (r, s)"

text \<open>
  One exchange of the configuration.  A second entry of the same exchange replaces connector, bot
  and queues; the queue of the replaced bot stays subscribed in the source, where nobody reads it.
\<close>

definition wire_paper :: "'w factory \<Rightarrow> exchange_bot_config \<Rightarrow> (('w, 'm) orch, order list option) eff" where
  "wire_paper fa ex =
     bindE (getsE (\<lambda>s. bc_dry_run (oc_config s))) (\<lambda>dry.
       if dry
       then catchE
              (seqE (liftR (fa_ws_connector fa ex))
              (seqE (modE (\<lambda>s. s\<lparr>oc_papers := AList.update (xc_exchange ex) (new_paper (xc_exchange ex) 10 s) (oc_papers s)\<rparr>))
                (ret (Some []))))
              (\<lambda>_. ret None)
       else ret None)"

definition add_bot :: "exchange_bot_config \<Rightarrow> real \<Rightarrow> real \<Rightarrow> int \<Rightarrow> order list option \<Rightarrow> ('w, 'm) orch \<Rightarrow> ('w, 'm) orch" where
  "add_bot ex up now today paper s =
     (let b = new_bot ex (oc_agg_cfg s) (oc_live_mode s \<and> \<not> bc_dry_run (oc_config s)) up now today
                (new_queue 5) (Some (new_queue 5)) paper s;
          b' = (case dict_get (bc_initial_balances (oc_config s)) (xc_exchange ex) of
                  None \<Rightarrow> b
                | Some ib \<Rightarrow> b\<lparr>b_inventory := set_initial_from_config (ib_usd ib) (ib_token ib) (b_inventory b)\<rparr>)
      in s\<lparr>oc_bots := AList.update (xc_exchange ex) b' (oc_bots s)\<rparr>)"

definition wire_exchange :: "'w factory \<Rightarrow> 'w env \<Rightarrow> exchange_bot_config \<Rightarrow> (('w, 'm) orch, unit) eff" where
  "wire_exchange fa env ex =
     (let name = xc_exchange ex in
      seqE (liftR (fa_credentials fa name))
      (seqE (liftR (fa_connector fa ex))
      (seqE (modE (\<lambda>s. s\<lparr>oc_connectors := (if name \<in> set (oc_connectors s) then oc_connectors s
                                          else oc_connectors s @ [name]),
                         oc_regime := add_subscriber name (remove_subscriber name (oc_regime s))\<rparr>))
      (bindE (wire_paper fa ex) (\<lambda>paper.
       bindE (envE (read_monotonic env)) (\<lambda>up.
       bindE (now_s env) (\<lambda>now.
       bindE (now_s env) (\<lambda>later. modE (add_bot ex up now (utc_ordinal later) paper)))))))))"

text \<open>Up to the point where the tasks of the bots, the paper traders and the loops are created.\<close>

definition orch_start :: "'w factory \<Rightarrow> 'w env \<Rightarrow> (('w, 'm) orch, unit) eff" where
  "orch_start fa env =
     seqE (modE (\<lambda>s. s\<lparr>oc_running := True\<rparr>))
     (bindE (getsE (\<lambda>s. enabled_exchanges (oc_config s))) (\<lambda>exs.
      seqE (for_each (wire_exchange fa env) exs)
        (modE (\<lambda>s. s\<lparr>oc_regime := (oc_regime s)\<lparr>rm_running := True\<rparr>\<rparr>))))"

definition orch_stop ::
  "(string \<Rightarrow> 'w env) \<Rightarrow> (string \<Rightarrow> 'w ws_connector) \<Rightarrow> (('w, 'm) orch, unit) eff" where
  "orch_stop envs wss =
     seqE (modE (\<lambda>s. s\<lparr>oc_running := False\<rparr>))
     (bindE (getsE (\<lambda>s. dict_keys (oc_bots s))) (\<lambda>bots.
      seqE (for_each (\<lambda>n. on_bot n (bot_stop (envs n))) bots)
     (bindE (getsE (\<lambda>s. dict_keys (oc_papers s))) (\<lambda>papers.
      seqE (for_each (\<lambda>n. on_paper n (paper_stop (wss n))) papers)
        (modE (\<lambda>s. s\<lparr>oc_regime := (oc_regime s)\<lparr>rm_running := False\<rparr>\<rparr>))))))"

definition stop_one :: "'w env \<Rightarrow> string \<Rightarrow> ('w bot, unit) eff" where
  "stop_one env reason = seqE (q_trigger env reason) (cancel_all env)"

definition emergency_stop_all :: "(string \<Rightarrow> 'w env) \<Rightarrow> 'w env \<Rightarrow> string \<Rightarrow> (('w, 'm) orch, unit) eff" where
  "emergency_stop_all envs env reason =
     bindE (getsE (\<lambda>s. dict_keys (oc_bots s))) (\<lambda>names.
     seqE (for_each (\<lambda>n. on_bot n (stop_one (envs n) reason)) names)
       (emit_emergency_stop env ''ALL'' reason))"

text \<open>Configuration reload.\<close>

definition reload_bot :: "bot_config \<Rightarrow> exchange_bot_config \<Rightarrow> 'w bot \<Rightarrow> 'w bot" where
  "reload_bot cfg ex b =
     b\<lparr>b_config := ex, b_spread := new_spread_engine (xc_spread ex) 0, b_depth := xc_depth ex,
       b_agg_cfg := bc_volatility cfg\<rparr>"

definition trigger_config_reload :: "'m option \<Rightarrow> bot_config \<Rightarrow> ('w, 'm) orch \<Rightarrow> ('w, 'm) orch" where
  "trigger_config_reload hmm0 cfg s =
     s\<lparr>oc_config := cfg, oc_vol := new_vol_engine (bc_volatility cfg), oc_agg_cfg := bc_volatility cfg,
       oc_hmm := make_hmm hmm0 (bc_volatility cfg),
       oc_bots := fold (\<lambda>ex. AList.map_entry (xc_exchange ex) (reload_bot cfg ex)) (enabled_exchanges cfg) (oc_bots s)\<rparr>"

section \<open>Accessors\<close>

definition get_all_statuses :: "(trip_reason \<Rightarrow> string) \<Rightarrow> ('w, 'm) orch \<Rightarrow> (string \<times> json) list list" where
  "get_all_statuses show s = map (bot_get_status show) (dict_values (oc_bots s))"

definition get_bot :: "string \<Rightarrow> ('w, 'm) orch \<Rightarrow> 'w bot option" where
  "get_bot name s = dict_get (oc_bots s) name"

section \<open>The global mid price\<close>

lemma fetch_mids_run:
  "\<exists>valid w. fetch_mids envs names s = (Inr valid, s\<lparr>world := w\<rparr>) \<and> subseq (dict_keys valid) names \<and>
     (\<forall>(k, m) \<in> set valid. \<exists>w t w'. fetch_ticker (envs k) w = (Inr t, w') \<and> tk_mid t = m)"
proof (induction names arbitrary: s)
  case Nil
  have "fetch_mids envs [] s = (Inr [], s\<lparr>world := world s\<rparr>)" by (simp add: fetch_mids_def ret_def)
  then show ?case by (intro exI [of _ "[]"] exI [of _ "world s"]) simp
next
  case (Cons n ns)
  obtain r w1 where f: "fetch_ticker (envs n) (world s) = (r, w1)" by fastforce
  from Cons.IH [of "s\<lparr>world := w1\<rparr>"] obtain valid w2 where
    v: "fetch_mids envs ns (s\<lparr>world := w1\<rparr>) = (Inr valid, s\<lparr>world := w2\<rparr>)" "subseq (dict_keys valid) ns"
    "\<forall>(k, m) \<in> set valid. \<exists>w t w'. fetch_ticker (envs k) w = (Inr t, w') \<and> tk_mid t = m"
    by auto
  show ?case
  proof (cases r)
    case (Inl e)
    then have "fetch_mids envs (n # ns) s = (Inr valid, s\<lparr>world := w2\<rparr>)"
      using f v(1) by (simp add: fetch_mids_def fetch_mid_def callE_def bindE_def catchE_def ret_def)
    with v(2,3) show ?thesis by (auto intro: list_emb_Cons)
  next
    case (Inr t)
    then have "fetch_mids envs (n # ns) s = (Inr ((n, tk_mid t) # valid), s\<lparr>world := w2\<rparr>)"
      using f v(1) by (simp add: fetch_mids_def fetch_mid_def callE_def bindE_def catchE_def ret_def)
    moreover have "\<forall>(k, m) \<in> set ((n, tk_mid t) # valid). \<exists>w t w'. fetch_ticker (envs k) w = (Inr t, w') \<and> tk_mid t = m"
      using f Inr v(3) by auto
    ultimately show ?thesis using v(2) by fastforce
  qed
qed

lemma sum_list_by_key:
  assumes "dict_wf xs"
  shows "(\<Sum>k\<leftarrow>dict_keys xs. case dict_get xs k of None \<Rightarrow> 0 | Some w \<Rightarrow> w) = sum_list (dict_values xs :: real list)"
proof -
  have "map (\<lambda>k. case dict_get xs k of None \<Rightarrow> 0 | Some w \<Rightarrow> w) (dict_keys xs) = dict_values xs"
    using assms by (auto simp: dict_wf_def)
  then show ?thesis by (simp only:)
qed

lemma weighted_mid_between:
  assumes n: "normalize_weights (active_weights ws valid) = Inr n" and "dict_wf valid"
    and "\<forall>w \<in> set (dict_values ws). 0 \<le> w" and "\<forall>v \<in> set (dict_values valid). lo \<le> v \<and> v \<le> hi"
  shows "lo \<le> weighted_mid n valid \<and> weighted_mid n valid \<le> hi"
proof -
  define c where "c k = (case dict_get n k of None \<Rightarrow> 0 | Some w \<Rightarrow> w)" for k
  have keys: "dict_keys n = dict_keys valid"
    using normalize_weights_keys [OF n] by (simp add: active_weights_def comp_def case_prod_unfold)
  with assms(2) have wf: "dict_wf n" by (simp add: dict_wf_def)
  have "0 \<le> w" if "w \<in> set (dict_values (active_weights ws valid))" for w
    using that assms(3) by (auto simp: active_weights_def split: option.splits dest!: map_of_SomeD)
  then have "0 \<le> w" if "w \<in> set (dict_values n)" for w
    using normalize_weights_nonneg [OF n _ that] by blast
  then have pos: "0 \<le> c k" for k
    by (force simp: c_def split: option.split dest!: map_of_SomeD)
  have one: "(\<Sum>(k, v)\<leftarrow>valid. c k) = 1"
  proof -
    have "(\<Sum>(k, v)\<leftarrow>valid. c k) = (\<Sum>k\<leftarrow>dict_keys n. c k)"
      by (simp add: keys comp_def case_prod_unfold)
    also have "\<dots> = 1"
      unfolding c_def sum_list_by_key [OF wf] by (rule normalize_weights_sum [OF n])
    finally show ?thesis .
  qed
  have mid: "weighted_mid n valid = (\<Sum>(k, v)\<leftarrow>valid. c k * v)"
    by (simp add: weighted_mid_def c_def)
  have "(\<Sum>(k, v)\<leftarrow>valid. c k * lo) \<le> (\<Sum>(k, v)\<leftarrow>valid. c k * v)"
    using assms(4) pos by (intro sum_list_le_map) (auto intro!: mult_left_mono)
  moreover have "(\<Sum>(k, v)\<leftarrow>valid. c k * v) \<le> (\<Sum>(k, v)\<leftarrow>valid. c k * hi)"
    using assms(4) pos by (intro sum_list_le_map) (auto intro!: mult_left_mono)
  moreover have "(\<Sum>(k, v)\<leftarrow>valid. c k * x) = x" for x
    using one sum_list_mult_const [of "\<lambda>(k, v). c k" x valid] by (simp add: case_prod_unfold)
  ultimately show ?thesis by (simp add: mid)
qed

lemma refresh_candles_run:
  "\<exists>v t w. refresh_candles envs now s =
     (Inr (), s\<lparr>world := w, oc_vol := v, oc_last_candle_fetch_at := t\<rparr>)"
proof (cases "now - oc_last_candle_fetch_at s \<ge> 60 \<and> oc_connectors s \<noteq> []")
  case False
  have "refresh_candles envs now s = (Inr (), s\<lparr>world := world s, oc_vol := oc_vol s,
      oc_last_candle_fetch_at := oc_last_candle_fetch_at s\<rparr>)"
    using False by (auto simp: refresh_candles_def bindE_def getsE_def ret_def)
  then show ?thesis by blast
next
  case True
  obtain r w where f: "fetch_candles (envs (hd (oc_connectors s))) ''1m'' 15 (world s) = (r, w)" by fastforce
  show ?thesis
  proof (cases r)
    case (Inl e)
    have "refresh_candles envs now s = (Inr (), s\<lparr>world := w, oc_vol := oc_vol s,
        oc_last_candle_fetch_at := oc_last_candle_fetch_at s\<rparr>)"
      using True f Inl by (simp add: refresh_candles_def eff_simps)
    then show ?thesis by blast
  next
    case (Inr cs)
    have "refresh_candles envs now s = (Inr (), s\<lparr>world := w, oc_vol := update_candles cs (oc_vol s),
        oc_last_candle_fetch_at := now\<rparr>)"
      using True f Inr by (simp add: refresh_candles_def eff_simps)
    then show ?thesis by blast
  qed
qed

text \<open>Once a mid price is accepted the tick cannot fail: the state is published.\<close>

lemma update_market_run:
  "\<exists>st w v det t. update_market envs env lib ks mid s =
     (Inr (), publish_state st (s\<lparr>world := w, oc_vol := v, oc_hmm := det, oc_last_candle_fetch_at := t\<rparr>)) \<and>
     gs_global_mid st = mid \<and> gs_contributing st = ks \<and> gs_regime_state st = Some (rm_current (oc_regime s))"
proof -
  obtain n1 w1 where c1: "read_clock env (world s) = (n1, w1)" by fastforce
  let ?s1 = "s\<lparr>world := w1, oc_vol := update_price n1 mid (oc_vol s)\<rparr>"
  obtain n2 w2 where c2: "read_clock env w1 = (n2, w2)" by fastforce
  obtain v t w3 where rc: "refresh_candles envs n2 (?s1\<lparr>world := w2\<rparr>) =
      (Inr (), ?s1\<lparr>world := w2\<rparr>\<lparr>world := w3, oc_vol := v, oc_last_candle_fetch_at := t\<rparr>)"
    using refresh_candles_run [of envs n2 "?s1\<lparr>world := w2\<rparr>"] by blast
  obtain vol zv zr agg hr hc v' det where rm:
    "read_market lib (oc_agg_cfg s) v (oc_hmm s) = ((vol, zv, zr, agg, hr, hc), v', det)"
    by (metis prod.collapse)
  obtain n4 w4 where c4: "read_clock env w3 = (n4, w4)" by fastforce
  let ?st = "\<lparr>gs_global_mid = mid, gs_volatility = vol, gs_aggressiveness = agg, gs_zz_vol = zv,
     gs_zz_regime = zr, gs_hmm_regime = hr, gs_hmm_confidence = hc, gs_timestamp = n4,
     gs_contributing = ks, gs_regime_state = Some (rm_current (oc_regime s))\<rparr>"
  have "update_market envs env lib ks mid s =
      (Inr (), publish_state ?st (s\<lparr>world := w4, oc_vol := v', oc_hmm := det, oc_last_candle_fetch_at := t\<rparr>))"
    using c1 c2 rc rm c4
    by (simp add: update_market_def now_s_def envE_def bindE_def seqE_def modE_def getsE_def)
      (cases s, simp)
  then show ?thesis by (intro exI conjI) (assumption | simp)+
qed

text \<open>
  C25. The global mid price is a weighted average of the prices that arrived: whenever a price tick
  publishes a new state, its mid price is positive and lies between any bounds that hold for the
  tickers of all connectors, at least one connector contributed, and every bot whose queue has
  room got exactly this state; for non-negative weights, whichever exchanges failed.
\<close>

theorem global_mid_is_average:
  assumes "distinct (oc_connectors s)"
    and "\<forall>w \<in> set (dict_values (weights_as_dict (bc_weights (oc_config s)))). 0 \<le> w"
    and "\<forall>n w t w'. fetch_ticker (envs n) w = (Inr t, w') \<longrightarrow> lo \<le> tk_mid t \<and> tk_mid t \<le> hi"
    and "tick_prices envs env lib s = (r, s')" and "oc_state s' \<noteq> oc_state s"
  shows "\<exists>st. oc_state s' = Some st \<and> r = Inr () \<and> 0 < gs_global_mid st \<and>
    lo \<le> gs_global_mid st \<and> gs_global_mid st \<le> hi \<and>
    gs_contributing st \<noteq> [] \<and> subseq (gs_contributing st) (oc_connectors s) \<and>
    map (\<lambda>(n, b). (n, b_queue b)) (oc_bots s') =
      map (\<lambda>(n, b). (n, offer put_nowait st (b_queue b))) (oc_bots s)"
proof -
  let ?ws = "weights_as_dict (bc_weights (oc_config s))"
  obtain valid w where f: "fetch_mids envs (oc_connectors s) s = (Inr valid, s\<lparr>world := w\<rparr>)"
    and sub: "subseq (dict_keys valid) (oc_connectors s)"
    and mids: "\<forall>(k, m) \<in> set valid. \<exists>w t w'. fetch_ticker (envs k) w = (Inr t, w') \<and> tk_mid t = m"
    using fetch_mids_run [of envs "oc_connectors s" s] by blast
  have eq: "tick_prices envs env lib s =
     (if valid = [] then (Inr (), s\<lparr>world := w\<rparr>)
      else (case normalize_weights (active_weights ?ws valid) of Inl e \<Rightarrow> (Inl e, s\<lparr>world := w\<rparr>)
        | Inr n \<Rightarrow> if weighted_mid n valid \<le> 0 then (Inr (), s\<lparr>world := w\<rparr>)
                  else update_market envs env lib (dict_keys valid) (weighted_mid n valid) (s\<lparr>world := w\<rparr>)))"
    by (simp add: tick_prices_def bindE_def getsE_def f ret_def raiseE_def Let_def split: sum.split)
  have ne: "valid \<noteq> []" using assms(4,5) eq by (auto split: if_splits)
  obtain n where n: "normalize_weights (active_weights ?ws valid) = Inr n"
    using assms(4,5) eq ne by (cases "normalize_weights (active_weights ?ws valid)") auto
  let ?mid = "weighted_mid n valid"
  have pos: "0 < ?mid" using assms(4,5) eq ne n by (auto split: if_splits)
  obtain st w' v det t where u: "update_market envs env lib (dict_keys valid) ?mid (s\<lparr>world := w\<rparr>) =
      (Inr (), publish_state st (s\<lparr>world := w, world := w', oc_vol := v, oc_hmm := det, oc_last_candle_fetch_at := t\<rparr>))"
    "gs_global_mid st = ?mid" "gs_contributing st = dict_keys valid"
    using update_market_run [of envs env lib "dict_keys valid" ?mid "s\<lparr>world := w\<rparr>"] by auto
  have wf: "dict_wf valid" using subseqs_distinctD [of "dict_keys valid" "oc_connectors s"] sub assms(1) by (simp add: dict_wf_def)
  have "\<forall>v \<in> set (dict_values valid). lo \<le> v \<and> v \<le> hi" using mids assms(3) by fastforce
  from weighted_mid_between [OF n wf assms(2) this]
  have "lo \<le> ?mid" "?mid \<le> hi" by auto
  with u pos ne sub assms(4) eq n show ?thesis
    by (intro exI [of _ st]) (auto simp: publish_state_def comp_def case_prod_unfold)
qed

text \<open>
  When only exchanges of weight zero answer, the tick raises and publishes nothing.
\<close>

lemma zero_weights_raise:
  assumes "fetch_mids envs (oc_connectors s) s = (Inr valid, s1)" and "valid \<noteq> []"
    and "\<forall>k \<in> set (dict_keys valid). dict_get (weights_as_dict (bc_weights (oc_config s))) k \<in> {None, Some 0}"
  shows "\<exists>e. tick_prices envs env lib s = (Inl e, s1)"
proof -
  let ?a = "active_weights (weights_as_dict (bc_weights (oc_config s))) valid"
  have "\<forall>x \<in> set (dict_values ?a). x = 0"
    using assms(3) by (fastforce simp: active_weights_def split: option.split)
  then have "sum_list (dict_values ?a) = 0" by (metis sum_list_0 map_idI)
  then have "normalize_weights ?a = Inl (ValueError ''All weights are zero'')" by (simp add: normalize_weights_def Let_def)
  with assms(1,2) show ?thesis by (simp add: tick_prices_def bindE_def getsE_def raiseE_def)
qed

section \<open>Stopping everything\<close>

lemma update_in_dict:
  "k \<notin> set (dict_keys pre) \<Longrightarrow> AList.update k v (pre @ (k, u) # post) = pre @ (k, v) # post"
  by (induction pre) auto

lemma get_in_dict: "k \<notin> set (dict_keys pre) \<Longrightarrow> dict_get (pre @ (k, u) # post) k = Some u"
  by (induction pre) auto

text \<open>
  A round over all bots that stops at the first that raises.  The locale is the contract of what is
  done to each bot: what a bot satisfies when it returns, and when it raises.
\<close>

locale bot_round =
  fixes act :: "string \<Rightarrow> ('w bot, unit) eff"
    and good half :: "'w bot \<Rightarrow> bool"
  assumes act_returns: "act n b = (Inr (), b') \<Longrightarrow> good b'"
    and act_raises: "act n b = (Inl e, b') \<Longrightarrow> half b'"
begin

lemma round_from:
  fixes s s' :: "('w, 'm) orch"
  assumes "for_each (\<lambda>n. on_bot n (act n)) (dict_keys todo) s = (r, s')"
    and "oc_bots s = pre @ todo" and "dict_wf (oc_bots s)" and "list_all good (dict_values pre)"
  shows "case r of
     Inr _ \<Rightarrow> dict_keys (oc_bots s') = dict_keys (oc_bots s) \<and> list_all good (dict_values (oc_bots s'))
   | Inl _ \<Rightarrow> \<exists>pre' todone n b b' post. todo = todone @ (n, b) # post \<and> oc_bots s' = pre' @ (n, b') # post \<and>
       dict_keys pre' = dict_keys (pre @ todone) \<and> list_all good (dict_values pre') \<and> half b'"
  using assms
proof (induction todo arbitrary: s pre)
  case Nil
  then show ?case by (auto simp: ret_def)
next
  case (Cons nb todo)
  obtain n b where nb: "nb = (n, b)" by fastforce
  have fresh: "n \<notin> set (dict_keys pre)" using Cons.prems(2,3) by (auto simp: nb dict_wf_def)
  let ?b = "b\<lparr>world := world s, db := db s, feed := feed s\<rparr>"
  obtain r1 b1 where o1: "act n ?b = (r1, b1)" by fastforce
  let ?s1 = "s\<lparr>world := world b1, db := db b1, feed := feed b1, oc_bots := pre @ (n, b1) # todo\<rparr>"
  have g: "dict_get (oc_bots s) n = Some b" "AList.update n b1 (oc_bots s) = pre @ (n, b1) # todo"
    unfolding Cons.prems(2) nb by (simp_all only: get_in_dict [OF fresh] update_in_dict [OF fresh])
  have step: "on_bot n (act n) s = (r1, ?s1)"
    by (simp add: on_bot_def o1 g)
  show ?case
  proof (cases r1)
    case (Inl e)
    with step Cons.prems(1) have r: "r = Inl e" "s' = ?s1" by (simp_all add: nb seqE_def bindE_def)
    with Cons.prems(4) act_raises [OF o1 [unfolded Inl]] show ?thesis
      by (simp add: nb) (intro exI [of _ pre] exI [of _ "[]"] exI [of _ n] exI [of _ b] exI [of _ b1] exI [of _ todo], simp)
  next
    case (Inr u)
    with step Cons.prems(1)
    have rest: "for_each (\<lambda>n. on_bot n (act n)) (dict_keys todo) ?s1 = (r, s')"
      by (simp add: nb seqE_def bindE_def)
    have p1: "list_all good (dict_values (pre @ [(n, b1)]))"
      using Cons.prems(4) act_returns o1 Inr by simp
    have wf1: "dict_wf (oc_bots ?s1)" using Cons.prems(2,3) by (simp add: dict_wf_def nb)
    note ih = Cons.IH [OF rest _ wf1 p1, simplified]
    show ?thesis
    proof (cases r)
      case r: (Inr x)
      with ih Cons.prems(2) show ?thesis by (simp add: nb)
    next
      case r: (Inl e)
      with ih obtain pre' todone m c c' post where h: "todo = todone @ (m, c) # post"
        "oc_bots s' = pre' @ (m, c') # post" "dict_keys pre' = dict_keys pre @ n # dict_keys todone"
        "list_all good (dict_values pre')" "half c'" by auto
      show ?thesis using r h
        by (simp add: nb) (intro exI [of _ pre'] exI [of _ "(n, b) # todone"] exI [of _ m] exI [of _ c] exI [of _ c'] exI [of _ post], simp)
    qed
  qed
qed

lemma round_run:
  fixes s s' :: "('w, 'm) orch"
  assumes "for_each (\<lambda>n. on_bot n (act n)) (dict_keys (oc_bots s)) s = (r, s')" and "dict_wf (oc_bots s)"
  shows "case r of
     Inr _ \<Rightarrow> dict_keys (oc_bots s') = dict_keys (oc_bots s) \<and> list_all good (dict_values (oc_bots s'))
   | Inl _ \<Rightarrow> \<exists>pre pre' n b b' post. oc_bots s = pre @ (n, b) # post \<and> oc_bots s' = pre' @ (n, b') # post \<and>
       dict_keys pre' = dict_keys pre \<and> list_all good (dict_values pre') \<and> half b'"
  using round_from [OF assms(1) _ assms(2), of "[]"] by (simp split: sum.splits) metis

end

definition stopped :: "'w bot \<Rightarrow> bool" where
  "stopped b \<longleftrightarrow> qs_triggered (b_q_switch b) \<and> open_orders b = []"

lemma cancel_all_run:
  "cancel_all env b = (r, b') \<Longrightarrow> halts b' = halts b \<and> (r = Inr () \<longrightarrow> open_orders b' = [])"
proof -
  assume c: "cancel_all env b = (r, b')"
  have "keeps (\<lambda>s. halts s = halts b) (cancel_all env)" by (intro keeps_intros)
  from keepsE [OF this c] have "halts b' = halts b" by simp
  moreover have "r = Inr () \<Longrightarrow> open_orders b' = []"
    using c by (auto simp: cancel_all_def seqE_eq_Inr bindE_eq_Inr modE_def)
  ultimately show ?thesis by blast
qed

lemma stop_one_run:
  assumes "stop_one env reason b = (r, b')"
  shows "qs_triggered (b_q_switch b') \<and> (r = Inr () \<longrightarrow> stopped b')"
proof -
  obtain q w where t: "q_trigger env reason b = (Inr (), b\<lparr>b_q_switch := q, world := w\<rparr>)" "qs_triggered q"
    using q_trigger_run [of env reason b] by blast
  have "cancel_all env (b\<lparr>b_q_switch := q, world := w\<rparr>) = (r, b')"
    using assms t(1) by (simp add: stop_one_def seqE_def bindE_def)
  from cancel_all_run [OF this] t(2) show ?thesis by (simp add: halts_def stopped_def)
qed

interpretation stopping: bot_round "\<lambda>n. stop_one (envs n) reason" stopped "\<lambda>b. qs_triggered (b_q_switch b)"
  for envs :: "string \<Rightarrow> 'w env" and reason
  by unfold_locales (auto dest: stop_one_run)

definition closed_down :: "'w bot \<Rightarrow> bool" where
  "closed_down b \<longleftrightarrow> \<not> b_running b \<and> open_orders b = []"

lemma bot_stop_run:
  assumes "bot_stop env b = (r, b')"
  shows "\<not> b_running b' \<and> (r = Inr () \<longrightarrow> closed_down b')"
proof -
  let ?b = "b\<lparr>b_running := False, b_heartbeat := hb_stop (b_heartbeat b)\<rparr>"
  obtain r1 b1 where c: "cancel_all env ?b = (r1, b1)" by fastforce
  note h = cancel_all_run [OF c]
  show ?thesis
  proof (cases r1)
    case (Inl e)
    with c assms have "r = Inl e" "b' = b1" by (simp_all add: bot_stop_def seqE_def bindE_def modE_def)
    with h show ?thesis by (simp add: halts_def)
  next
    case (Inr u)
    with c assms have "callE (cn_disconnect env) b1 = (r, b')" by (simp add: bot_stop_def seqE_def bindE_def modE_def)
    then obtain w where "b' = b1\<lparr>world := w\<rparr>" by (auto simp: callE_def split: prod.splits)
    with h Inr show ?thesis by (simp add: halts_def closed_down_def)
  qed
qed

interpretation closing: bot_round "\<lambda>n. bot_stop (envs n)" closed_down "\<lambda>b. \<not> b_running b"
  for envs :: "string \<Rightarrow> 'w env"
  by unfold_locales (auto dest: bot_stop_run)

text \<open>
  C9. Stopping everything stops at the first failure: if \<open>emergency_stop_all\<close> returns, every bot's
  Q-Switch is triggered and no bot tracks an order; if it raises, because cancelling failed for
  one bot, the bots before it are stopped, that bot's switch is triggered, and all bots after it
  are exactly as they were, still trading.
\<close>

theorem emergency_stop_all_stops_early:
  assumes "dict_wf (oc_bots s)"
  shows "case emergency_stop_all envs env reason s of
     (Inr _, s') \<Rightarrow> dict_keys (oc_bots s') = dict_keys (oc_bots s) \<and> list_all stopped (dict_values (oc_bots s'))
   | (Inl _, s') \<Rightarrow> \<exists>pre pre' n b b' post. oc_bots s = pre @ (n, b) # post \<and> oc_bots s' = pre' @ (n, b') # post \<and>
       dict_keys pre' = dict_keys pre \<and> list_all stopped (dict_values pre') \<and> qs_triggered (b_q_switch b')"
proof -
  obtain r s1 where l: "for_each (\<lambda>n. on_bot n (stop_one (envs n) reason)) (dict_keys (oc_bots s)) s = (r, s1)"
    by fastforce
  note h = stopping.round_run [OF l assms]
  show ?thesis
  proof (cases r)
    case (Inl e)
    then have "emergency_stop_all envs env reason s = (Inl e, s1)"
      using l by (simp add: emergency_stop_all_def bindE_def seqE_def getsE_def)
    with h Inl show ?thesis by simp
  next
    case (Inr u)
    obtain f w where e: "emit_emergency_stop env ''ALL'' reason s1 = (Inr (), s1\<lparr>feed := f, world := w\<rparr>)"
      using broadcast_run [of env _ _ s1] unfolding emit_emergency_stop_def by metis
    have "emergency_stop_all envs env reason s = (Inr (), s1\<lparr>feed := f, world := w\<rparr>)"
      using l Inr e by (simp add: emergency_stop_all_def bindE_def seqE_def getsE_def)
    with h Inr show ?thesis by simp
  qed
qed

section \<open>Reload\<close>

lemma find_by_key: "distinct (map f xs) \<Longrightarrow> x \<in> set xs \<Longrightarrow> find (\<lambda>y. f y = f x) xs = Some x"
  by (induction xs) (auto simp: rev_image_eqI)

lemma get_fold_reload:
  assumes "distinct (map xc_exchange exs)"
  shows "dict_get (fold (\<lambda>ex. AList.map_entry (xc_exchange ex) (f ex)) exs d) k =
    (case find (\<lambda>ex. xc_exchange ex = k) exs of None \<Rightarrow> dict_get d k | Some ex \<Rightarrow> map_option (f ex) (dict_get d k))"
  using assms
proof (induction exs arbitrary: d)
  case (Cons e es)
  have "find (\<lambda>ex. xc_exchange ex = k) es = None" if "xc_exchange e = k"
    using Cons.prems that by (auto simp: find_None_iff rev_image_eqI)
  with Cons show ?case by (auto simp: map_of_map_entry split: option.split)
qed simp

text \<open>
  A configuration reload reaches the grid and not the safety net: the bot of an enabled exchange
  computes its next grid from the new spread, depth and volatility settings, but its Q-Switch,
  circuit breaker, heartbeat, rate limiter and order manager keep the configuration they were
  built with, and the volatility starts again from an empty window, so it reads 0.
\<close>

theorem reload_keeps_old_safety:
  assumes "distinct (map xc_exchange (enabled_exchanges cfg))" and "ex \<in> set (enabled_exchanges cfg)"
    and "get_bot (xc_exchange ex) s = Some b"
  shows "\<exists>b'. get_bot (xc_exchange ex) (trigger_config_reload hmm0 cfg s) = Some b' \<and>
    b_config b' = ex \<and> se_cfg (b_spread b') = xc_spread ex \<and> b_depth b' = xc_depth ex \<and>
    b_agg_cfg b' = bc_volatility cfg \<and>
    b_q_switch b' = b_q_switch b \<and> b_breaker b' = b_breaker b \<and> b_heartbeat b' = b_heartbeat b \<and>
    limiter b' = limiter b \<and> om_config b' = om_config b \<and> open_orders b' = open_orders b \<and>
    rolling_vol (oc_vol (trigger_config_reload hmm0 cfg s)) = 0"
proof -
  note find_by_key [OF assms(1,2)]
  with assms(3) get_fold_reload [OF assms(1), of "reload_bot cfg" "oc_bots s" "xc_exchange ex"]
  show ?thesis
    by (simp add: get_bot_def trigger_config_reload_def reload_bot_def new_spread_engine_def rolling_vol_def
        new_vol_engine_def)
qed

section \<open>What start builds\<close>

definition wired :: "('w, 'm) orch \<Rightarrow> bool" where
  "wired s \<longleftrightarrow> dict_wf (oc_bots s) \<and> distinct (oc_connectors s) \<and>
     set (dict_keys (oc_bots s)) \<subseteq> set (oc_connectors s) \<and>
     (\<forall>b \<in> set (dict_values (oc_bots s)). dry_run b = (\<not> (oc_live_mode s \<and> \<not> bc_dry_run (oc_config s))) \<and>
        b_live_mode b = live_mode b \<and> live_mode b = (\<not> dry_run b) \<and> \<not> b_running b \<and> open_orders b = [])"

lemma wire_paper_run:
  "\<exists>p os. wire_paper fa ex s = (Inr os, s\<lparr>oc_papers := p\<rparr>)"
proof -
  have "s = s\<lparr>oc_papers := oc_papers s\<rparr>" by simp
  then show ?thesis
    by (cases "fa_ws_connector fa ex") (auto simp: wire_paper_def liftR_def eff_simps intro: exI [of _ "oc_papers s"])
qed

lemma wire_exchange_run:
  assumes "wire_exchange fa env ex s = (r, s')" and "wired s"
  shows "wired s' \<and> oc_config s' = oc_config s \<and> oc_live_mode s' = oc_live_mode s \<and>
    (r = Inr () \<longrightarrow> set (dict_keys (oc_bots s')) = insert (xc_exchange ex) (set (dict_keys (oc_bots s))))"
proof (cases "fa_credentials fa (xc_exchange ex)")
  case (Inl e)
  with assms show ?thesis by (auto simp: wire_exchange_def liftR_def seqE_def bindE_def Let_def)
next
  case c: (Inr u)
  show ?thesis
  proof (cases "fa_connector fa ex")
    case (Inl e)
    with assms c show ?thesis by (auto simp: wire_exchange_def liftR_def seqE_def bindE_def Let_def)
  next
    case f: (Inr v)
    let ?cs = "if xc_exchange ex \<in> set (oc_connectors s) then oc_connectors s else oc_connectors s @ [xc_exchange ex]"
    let ?s1 = "s\<lparr>oc_connectors := ?cs,
       oc_regime := add_subscriber (xc_exchange ex) (remove_subscriber (xc_exchange ex) (oc_regime s))\<rparr>"
    obtain p os where w: "wire_paper fa ex ?s1 = (Inr os, ?s1\<lparr>oc_papers := p\<rparr>)"
      using wire_paper_run [of fa ex ?s1] by blast
    obtain up w1 where m: "read_monotonic env (world s) = (up, w1)" by fastforce
    obtain n1 w2 where c1: "read_clock env w1 = (n1, w2)" by fastforce
    obtain n2 w3 where c2: "read_clock env w2 = (n2, w3)" by fastforce
    have "r = Inr ()" "s' = add_bot ex up n1 (utc_ordinal n2) os (?s1\<lparr>oc_papers := p, world := w3\<rparr>)"
      using assms(1) c f w m c1 c2
      by (simp_all add: wire_exchange_def liftR_def seqE_def bindE_def Let_def modE_def envE_def now_s_def)
    then show ?thesis
      using assms(2)
      by (auto simp: wired_def add_bot_def Let_def new_bot_def set_update_wf dom_update split: option.splits)
  qed
qed

lemma wire_all_run:
  assumes "for_each (wire_exchange fa env) exs s = (r, s')" and "wired s"
  shows "wired s' \<and> oc_config s' = oc_config s \<and> oc_live_mode s' = oc_live_mode s \<and>
    (r = Inr () \<longrightarrow> set (dict_keys (oc_bots s')) = set (map xc_exchange exs) \<union> set (dict_keys (oc_bots s)))"
  using assms
proof (induction exs arbitrary: s)
  case (Cons ex exs)
  obtain r1 s1 where w: "wire_exchange fa env ex s = (r1, s1)" by fastforce
  note h = wire_exchange_run [OF w Cons.prems(2)]
  show ?case
  proof (cases r1)
    case (Inl e)
    with w Cons.prems(1) h show ?thesis by (auto simp: seqE_def bindE_def)
  next
    case (Inr u)
    with w Cons.prems(1) have "for_each (wire_exchange fa env) exs s1 = (r, s')" by (simp add: seqE_def bindE_def)
    from Cons.IH [OF this] h Inr show ?thesis by auto
  qed
qed (auto simp: ret_def)

text \<open>
  Starting wires every enabled exchange or raises, and a dry-run configuration never gets a live
  bot: after \<open>start\<close>, returned or not, every bot places real orders exactly if live mode was asked
  for and the configuration is not a dry run, none runs or tracks an order yet and each has its
  connector; if it returns, the bots are those of the enabled exchanges.
\<close>

theorem start_wires_bots:
  assumes "oc_bots s = []" and "oc_connectors s = []" and "orch_start fa env s = (r, s')"
  shows "list_all (\<lambda>b. (\<not> dry_run b) = (oc_live_mode s \<and> \<not> bc_dry_run (oc_config s)) \<and> \<not> b_running b \<and>
            open_orders b = []) (dict_values (oc_bots s')) \<and>
         dict_wf (oc_bots s') \<and> set (dict_keys (oc_bots s')) \<subseteq> set (oc_connectors s') \<and>
         (r = Inr () \<longrightarrow> set (dict_keys (oc_bots s')) = set (map xc_exchange (enabled_exchanges (oc_config s))))"
proof -
  let ?s0 = "s\<lparr>oc_running := True\<rparr>"
  have w0: "wired ?s0" using assms(1,2) by (simp add: wired_def)
  obtain r1 s1 where f: "for_each (wire_exchange fa env) (enabled_exchanges (oc_config s)) ?s0 = (r1, s1)" by fastforce
  note h = wire_all_run [OF f w0]
  have "oc_bots s' = oc_bots s1 \<and> oc_connectors s' = oc_connectors s1 \<and> (r = Inr () \<longrightarrow> r1 = Inr ())"
    using assms(3) f by (cases r1) (auto simp: orch_start_def seqE_def bindE_def modE_def getsE_def)
  with h assms(1) show ?thesis by (auto simp: wired_def list_all_iff)
qed

section \<open>A sample orchestrator\<close>

text \<open>Two exchanges on the sample environment; the bot of the first tracks an order.\<close>

definition sample_config :: bot_config where
  "sample_config =
     \<lparr>bc_dry_run = True,
      bc_weights = \<lparr>w_kucoin = 0.45, w_gate = 0.45, w_mexc = 0.05, w_kraken = 0.05, w_binance = 0\<rparr>,
      bc_volatility = sample_volatility, bc_exchanges = [sample_exchange, sample_exchange\<lparr>xc_exchange := ''gate''\<rparr>],
      bc_initial_balances = []\<rparr>"

definition sample_orch :: "(nat, unit) orch" where
  "sample_orch =
     \<lparr>world = 0, limiter = new_rate_limiter 8 1000, db = new_database\<lparr>db_pool := True\<rparr>, feed = new_live_feed,
      oc_config = sample_config, oc_live_mode = True, oc_vol = new_vol_engine sample_volatility,
      oc_agg_cfg = sample_volatility, oc_hmm = None, oc_regime = new_regime_master,
      oc_connectors = [''kucoin'', ''gate''],
      oc_bots = [(''kucoin'', sample_bot), (''gate'', sample_bot\<lparr>b_exchange := ''gate''\<rparr>)],
      oc_papers = [], oc_running = True, oc_state = None, oc_last_candle_fetch_at = 1000\<rparr>"

lemma sample_orch_simps [simp]:
  "oc_connectors sample_orch = [''kucoin'', ''gate'']" "oc_state sample_orch = None"
  "oc_config sample_orch = sample_config" "dict_wf (oc_bots sample_orch)"
  "get_bot ''kucoin'' sample_orch = Some sample_bot"
  by (simp_all add: sample_orch_def dict_wf_def get_bot_def)

lemma sample_mids:
  "fetch_mids (\<lambda>_. sample_env) [''kucoin'', ''gate''] s = (Inr [(''kucoin'', 100), (''gate'', 100)], s\<lparr>world := world s\<rparr>)"
  by (simp add: fetch_mids_def fetch_mid_def sample_env_def eff_simps)

lemma sample_tick_prices: "oc_state (snd (tick_prices (\<lambda>_. sample_env) sample_env sample_hmm_lib sample_orch)) \<noteq> None"
proof -
  obtain st w v det t where "update_market (\<lambda>_. sample_env) sample_env sample_hmm_lib [''kucoin'', ''gate''] 100 sample_orch =
     (Inr (), publish_state st (sample_orch\<lparr>world := w, oc_vol := v, oc_hmm := det, oc_last_candle_fetch_at := t\<rparr>))"
    using update_market_run [of "\<lambda>_. sample_env" sample_env sample_hmm_lib "[''kucoin'', ''gate'']" 100 sample_orch] by blast
  then show ?thesis
    by (simp add: tick_prices_def bindE_def getsE_def sample_mids active_weights_def normalize_weights_def
        weights_as_dict_def sample_config_def weighted_mid_def Let_def publish_state_def)
qed

theorem global_mid_is_average_witness:
  "\<exists>st. oc_state (snd (tick_prices (\<lambda>_. sample_env) sample_env sample_hmm_lib sample_orch)) = Some st \<and>
     fst (tick_prices (\<lambda>_. sample_env) sample_env sample_hmm_lib sample_orch) = Inr () \<and> 0 < gs_global_mid st \<and>
     100 \<le> gs_global_mid st \<and> gs_global_mid st \<le> 100 \<and>
     gs_contributing st \<noteq> [] \<and> subseq (gs_contributing st) (oc_connectors sample_orch) \<and>
     map (\<lambda>(n, b). (n, b_queue b)) (oc_bots (snd (tick_prices (\<lambda>_. sample_env) sample_env sample_hmm_lib sample_orch))) =
       map (\<lambda>(n, b). (n, offer put_nowait st (b_queue b))) (oc_bots sample_orch)"
  by (rule global_mid_is_average [OF _ _ _ prod.collapse [symmetric]])
    (simp_all add: sample_tick_prices, simp_all add: sample_config_def weights_as_dict_def sample_env_def)

theorem emergency_stop_all_stops_early_witness:
  "case emergency_stop_all (\<lambda>_. sample_env) sample_env ''test'' sample_orch of
     (Inr _, s') \<Rightarrow> dict_keys (oc_bots s') = dict_keys (oc_bots sample_orch) \<and> list_all stopped (dict_values (oc_bots s'))
   | (Inl _, s') \<Rightarrow> \<exists>pre pre' n b b' post. oc_bots sample_orch = pre @ (n, b) # post \<and> oc_bots s' = pre' @ (n, b') # post \<and>
       dict_keys pre' = dict_keys pre \<and> list_all stopped (dict_values pre') \<and> qs_triggered (b_q_switch b')"
  by (rule emergency_stop_all_stops_early) simp

theorem reload_keeps_old_safety_witness:
  "\<exists>b'. get_bot (xc_exchange sample_exchange) (trigger_config_reload None sample_config sample_orch) = Some b' \<and>
    b_config b' = sample_exchange \<and> se_cfg (b_spread b') = xc_spread sample_exchange \<and> b_depth b' = xc_depth sample_exchange \<and>
    b_agg_cfg b' = bc_volatility sample_config \<and>
    b_q_switch b' = b_q_switch sample_bot \<and> b_breaker b' = b_breaker sample_bot \<and>
    b_heartbeat b' = b_heartbeat sample_bot \<and>
    limiter b' = limiter sample_bot \<and> om_config b' = om_config sample_bot \<and> open_orders b' = open_orders sample_bot \<and>
    rolling_vol (oc_vol (trigger_config_reload None sample_config sample_orch)) = 0"
  by (rule reload_keeps_old_safety)
    (simp_all add: sample_config_def enabled_exchanges_def, simp_all add: sample_exchange_def)

theorem start_wires_bots_witness:
  "let s = sample_orch\<lparr>oc_bots := [], oc_connectors := []\<rparr>;
       fa = \<lparr>fa_credentials = (\<lambda>_. Inr ()), fa_connector = (\<lambda>_. Inr ()), fa_ws_connector = (\<lambda>_. Inl NetworkError)\<rparr>;
       p = orch_start fa sample_env s; s' = snd p
   in list_all (\<lambda>b. (\<not> dry_run b) = (oc_live_mode s \<and> \<not> bc_dry_run (oc_config s)) \<and> \<not> b_running b \<and>
            open_orders b = []) (dict_values (oc_bots s')) \<and>
      dict_wf (oc_bots s') \<and> set (dict_keys (oc_bots s')) \<subseteq> set (oc_connectors s') \<and>
      (fst p = Inr () \<longrightarrow> set (dict_keys (oc_bots s')) = set (map xc_exchange (enabled_exchanges (oc_config s))))"
  unfolding Let_def by (rule start_wires_bots [OF _ _ prod.collapse [symmetric]]) simp_all

end
