(* ===== verification/Settings.thy ===== *)
theory Settings
  imports Aggressiveness
begin

text \<open>
  \<open>config/settings.py\<close>: credentials and runtime settings from the environment, and the
  configuration file.  A file is the JSON value its text denotes, None if the text is no JSON;
  what pydantic-settings collects from the environment and \<open>.env\<close> is a JSON object with one
  string per variable.  \<open>model_dump\<close> is a definition per model, \<open>dump_...\<close>.
\<close>

section \<open>Credentials and runtime settings\<close>

record exchange_secrets =
  kucoin_api_key :: string
  kucoin_api_secret :: string
  kucoin_passphrase :: string
  gate_api_key :: string
  gate_api_secret :: string
  mexc_api_key :: string
  mexc_api_secret :: string
  kraken_api_key :: string
  kraken_api_secret :: string

definition credentials_for :: "exchange_secrets \<Rightarrow> string \<Rightarrow> (string \<times> string) list result" where
  "credentials_for s exchange =
     (if exchange = ''kucoin'' then
        Inr [(''api_key'', kucoin_api_key s), (''api_secret'', kucoin_api_secret s),
             (''passphrase'', kucoin_passphrase s)]
      else if exchange = ''gate'' then
        Inr [(''api_key'', gate_api_key s), (''api_secret'', gate_api_secret s)]
      else if exchange = ''mexc'' then
        Inr [(''api_key'', mexc_api_key s), (''api_secret'', mexc_api_secret s)]
      else if exchange = ''kraken'' then
        Inr [(''api_key'', kraken_api_key s), (''api_secret'', kraken_api_secret s)]
      else Inl (ValueError (''Unknown exchange: '' @ exchange)))"

record runtime_settings =
  rs_live_mode :: bool
  rs_port :: int
  rs_supabase_db_url :: string
  rs_bot_config_path :: string
  rs_log_level :: string
  rs_alert_webhook_url :: "string option"
  rs_api_key :: "string option"

definition get_runtime_settings :: "coercions \<Rightarrow> (string \<times> json) list \<Rightarrow> runtime_settings result" where
  "get_runtime_settings c env =
     bindR (field (as_bool c) (\<lambda>_. True) ''live_mode'' False env) (\<lambda>lm.
     bindR (field (as_int c) (\<lambda>_. True) ''port'' 8000 env) (\<lambda>pt.
     bindR (field (as_str c) (\<lambda>_. True) ''supabase_db_url'' '''' env) (\<lambda>db.
     bindR (field (as_str c) (\<lambda>_. True) ''bot_config_path'' ''bot.json'' env) (\<lambda>bc.
     bindR (field (as_str c) (\<lambda>_. True) ''log_level'' ''INFO'' env) (\<lambda>ll.
     bindR (field (opt (as_str c)) (\<lambda>_. True) ''alert_webhook_url'' None env) (\<lambda>wh.
     bindR (field (opt (as_str c)) (\<lambda>_. True) ''api_key'' None env) (\<lambda>key.
       Inr \<lparr>rs_live_mode = lm, rs_port = pt, rs_supabase_db_url = db, rs_bot_config_path = bc,
            rs_log_level = ll, rs_alert_webhook_url = wh, rs_api_key = key\<rparr>)))))))"

section \<open>Dumping a configuration\<close>

definition dump_opt :: "('a \<Rightarrow> json) \<Rightarrow> 'a option \<Rightarrow> json" where
  "dump_opt f x = (case x of None \<Rightarrow> JNull | Some v \<Rightarrow> f v)"

definition JInt :: "int \<Rightarrow> json" where
  "JInt n = JNum (of_int n)"

definition dump_spread :: "spread_config \<Rightarrow> (string \<times> json) list" where
  "dump_spread s =
     [(''buy_min_pct'', JNum (buy_min_pct s)), (''buy_max_pct'', JNum (buy_max_pct s)),
      (''sell_min_pct'', JNum (sell_min_pct s)), (''sell_max_pct'', JNum (sell_max_pct s)),
      (''curve_strength'', JNum (sp_curve_strength s)),
      (''buy_levels'', dump_opt JInt (buy_levels s)), (''sell_levels'', dump_opt JInt (sell_levels s)),
      (''buy_curve_strength'', dump_opt JNum (buy_curve_strength s)),
      (''sell_curve_strength'', dump_opt JNum (sell_curve_strength s)),
      (''buy_min_step'', JNum (buy_min_step s)), (''sell_min_step'', JNum (sell_min_step s)),
      (''tick_size'', JNum (tick_size s))]"

definition dump_depth :: "depth_config \<Rightarrow> (string \<times> json) list" where
  "dump_depth d =
     [(''levels'', JInt (dp_levels d)), (''total_budget_usd'', JNum (total_budget_usd d)),
      (''curve_strength'', JNum (dp_curve_strength d)), (''min_order_usd'', JNum (min_order_usd d)),
      (''min_step_usd'', JNum (min_step_usd d))]"

definition dump_hmm :: "hmm_config \<Rightarrow> (string \<times> json) list" where
  "dump_hmm h =
     [(''enabled'', JBool (hmm_enabled h)), (''hmm_lookback'', JInt (hmm_lookback h)),
      (''hmm_min_observations'', JInt (hmm_min_observations h)), (''refit_interval'', JInt (refit_interval h)),
      (''crash_buy_agg_floor'', JNum (crash_buy_agg_floor h)),
      (''crash_sell_agg_ceiling'', JNum (crash_sell_agg_ceiling h)),
      (''crash_buy_depth_multiplier'', JNum (crash_buy_depth_multiplier h)),
      (''crash_sell_depth_factor'', JNum (crash_sell_depth_factor h)),
      (''recovery_buy_agg_boost'', JNum (recovery_buy_agg_boost h)),
      (''recovery_sell_agg_dampen'', JNum (recovery_sell_agg_dampen h))]"

definition dump_volatility :: "volatility_config \<Rightarrow> (string \<times> json) list" where
  "dump_volatility v =
     [(''window_minutes'', JInt (window_minutes v)), (''low_threshold'', JNum (low_threshold v)),
      (''high_threshold'', JNum (high_threshold v)), (''power'', JNum (vol_power v)),
      (''base_aggressiveness'', JNum (base_aggressiveness v)),
      (''trending_threshold'', JNum (trending_threshold v)),
      (''choppy_threshold'', JNum (choppy_threshold v)), (''hmm'', JObj (dump_hmm (hmm v)))]"

definition dump_safety :: "safety_config \<Rightarrow> (string \<times> json) list" where
  "dump_safety s =
     [(''min_balance_usd'', JNum (min_balance_usd s)), (''min_balance_token'', JNum (min_balance_token s)),
      (''max_requests_per_second'', JInt (max_requests_per_second s)),
      (''heartbeat_interval_s'', JNum (heartbeat_interval_s s)),
      (''max_missed_heartbeats'', JInt (max_missed_heartbeats s)),
      (''max_daily_loss_pct'', JNum (max_daily_loss_pct s)),
      (''max_drawdown_pct'', JNum (max_drawdown_pct s)),
      (''alert_webhook_url'', dump_opt JStr (alert_webhook_url s))]"

definition dump_exchange :: "exchange_bot_config \<Rightarrow> (string \<times> json) list" where
  "dump_exchange x =
     [(''exchange'', JStr (xc_exchange x)), (''symbol'', JStr (xc_symbol x)),
      (''quote_currency'', JStr (xc_quote_currency x)), (''enabled'', JBool (xc_enabled x)),
      (''spread'', JObj (dump_spread (xc_spread x))), (''depth'', JObj (dump_depth (xc_depth x))),
      (''safety'', JObj (dump_safety (xc_safety x))), (''ccxt_options'', JObj (xc_ccxt_options x)),
      (''use_cpp_connector'', dump_opt JBool (xc_use_cpp_connector x))]"

definition dump_weights :: "global_mid_weights \<Rightarrow> (string \<times> json) list" where
  "dump_weights w = map (\<lambda>(k, x). (k, JNum x)) (weights_as_dict w)"

definition dump_balance :: "initial_balance \<Rightarrow> (string \<times> json) list" where
  "dump_balance b = [(''usd'', JNum (ib_usd b)), (''token'', JNum (ib_token b))]"

definition dump_bot_config :: "bot_config \<Rightarrow> (string \<times> json) list" where
  "dump_bot_config cfg =
     [(''dry_run'', JBool (bc_dry_run cfg)), (''global_mid_weights'', JObj (dump_weights (bc_weights cfg))),
      (''volatility'', JObj (dump_volatility (bc_volatility cfg))),
      (''exchanges'', JArr (map (JObj \<circ> dump_exchange) (bc_exchanges cfg))),
      (''initial_balances'', JObj (map (\<lambda>(k, b). (k, JObj (dump_balance b))) (bc_initial_balances cfg)))]"

section \<open>The configuration file\<close>

type_synonym files = "(string \<times> json option) list"

definition config_path :: "string option \<Rightarrow> string option \<Rightarrow> string" where
  "config_path path env_path =
     (case path of
        Some p \<Rightarrow> if p \<noteq> [] then p else (case env_path of None \<Rightarrow> ''bot.json'' | Some q \<Rightarrow> q)
      | None \<Rightarrow> (case env_path of None \<Rightarrow> ''bot.json'' | Some q \<Rightarrow> q))"

definition load_bot_config :: "coercions \<Rightarrow> string option \<Rightarrow> string option \<Rightarrow> files \<Rightarrow> bot_config result" where
  "load_bot_config c env_path path fs =
     (case dict_get fs (config_path path env_path) of
        None \<Rightarrow> Inl (FileNotFoundError (config_path path env_path))
      | Some None \<Rightarrow> Inl (ValueError ''JSON'')
      | Some (Some j) \<Rightarrow> validate_bot_config c j)"

definition save_bot_config :: "string option \<Rightarrow> bot_config \<Rightarrow> string option \<Rightarrow> files \<Rightarrow> files" where
  "save_bot_config env_path cfg path fs =
     AList.update (config_path path env_path) (Some (JObj (dump_bot_config cfg))) fs"

section \<open>Codecs\<close>

text \<open>
  Pydantic reads back what it dumped: a number as that number, an integer as that integer, a
  bool and a string as themselves.
\<close>

definition coercions_ok :: "coercions \<Rightarrow> bool" where
  "coercions_ok c \<longleftrightarrow>
     (\<forall>x. as_float c (JNum x) = Some x) \<and> (\<forall>n. as_int c (JNum (of_int n)) = Some n) \<and>
     (\<forall>b. as_bool c (JBool b) = Some b) \<and> (\<forall>s. as_str c (JStr s) = Some s)"

lemma coercions_read:
  assumes "coercions_ok c"
  shows "as_float c (JNum x) = Some x" "as_int c (JInt n) = Some n" "as_bool c (JBool b) = Some b"
    "as_str c (JStr s) = Some s" "opt (as_float c) (dump_opt JNum xo) = Some xo"
    "opt (as_int c) (dump_opt JInt no) = Some no" "opt (as_bool c) (dump_opt JBool bo) = Some bo"
    "opt (as_str c) (dump_opt JStr so) = Some so"
  using assms
  by (auto simp: coercions_ok_def opt_def dump_opt_def JInt_def split: option.split)

definition rejected :: "'a result \<Rightarrow> bool" where
  "rejected r \<longleftrightarrow> (case r of Inl (ValueError _) \<Rightarrow> True | _ \<Rightarrow> False)"

lemma rejected_simps [simp]: "rejected (Inl (ValueError f))" "\<not> rejected (Inr x)"
  by (simp_all add: rejected_def)

lemma rejected_bind: "rejected r \<Longrightarrow> rejected (bindR r f)"
  by (auto simp: rejected_def split: sum.splits)

text \<open>
  A model, its dump and what it accepts: every field is in the dump, so validating a dump checks
  every field, those that validation let pass as defaults too.
\<close>

locale codec =
  fixes validate :: "coercions \<Rightarrow> (string \<times> json) list \<Rightarrow> 'a result"
    and dump :: "'a \<Rightarrow> (string \<times> json) list"
    and ok :: "'a \<Rightarrow> bool"
  assumes accepts: "coercions_ok c \<Longrightarrow> ok x \<Longrightarrow> validate c (dump x) = Inr x"
    and rejects: "coercions_ok c \<Longrightarrow> \<not> ok x \<Longrightarrow> rejected (validate c (dump x))"
begin

lemma nested:
  assumes "coercions_ok c" and "dict_get obj name = Some (JObj (dump x))"
  shows "ok x \<Longrightarrow> submodel (validate c) name obj = Inr x"
    and "\<not> ok x \<Longrightarrow> rejected (submodel (validate c) name obj)"
  using assms by (simp_all add: submodel_def as_obj_def accepts rejects)

lemma items:
  assumes "coercions_ok c"
  shows "list_all ok xs \<Longrightarrow> validate_items (validate c) (map (JObj \<circ> dump) xs) = Inr xs"
    and "\<not> list_all ok xs \<Longrightarrow> rejected (validate_items (validate c) (map (JObj \<circ> dump) xs))"
proof (induction xs)
  case (Cons x xs)
  {
    case 1
    with Cons.IH(1) assms show ?case by (simp add: as_obj_def accepts)
  next
    case 2
    show ?case
    proof (cases "ok x")
      case True
      with 2 Cons.IH(2) assms show ?thesis by (simp add: as_obj_def accepts rejected_bind)
    next
      case False
      with assms show ?thesis by (simp add: as_obj_def rejects rejected_bind)
    qed
  }
qed simp_all

lemma entries:
  assumes "coercions_ok c"
  shows "list_all (\<lambda>(k, x). k \<in> set exchange_names \<and> ok x) kvs \<Longrightarrow>
      validate_entries (validate c) (map (\<lambda>(k, x). (k, JObj (dump x))) kvs) = Inr kvs"
    and "\<not> list_all (\<lambda>(k, x). k \<in> set exchange_names \<and> ok x) kvs \<Longrightarrow>
      rejected (validate_entries (validate c) (map (\<lambda>(k, x). (k, JObj (dump x))) kvs))"
proof (induction kvs)
  case (Cons p kvs)
  obtain k x where p: "p = (k, x)" by fastforce
  {
    case 1
    with p Cons.IH(1) assms show ?case by (simp add: as_obj_def accepts)
  next
    case 2
    show ?case
    proof (cases "ok x")
      case True
      with 2 p Cons.IH(2) assms show ?thesis by (simp add: as_obj_def accepts rejected_bind)
    next
      case False
      with p assms show ?thesis by (simp add: as_obj_def rejects rejected_bind)
    qed
  }
qed simp_all

end

section \<open>The models as codecs\<close>

lemma codecI:
  "(\<And>c x. coercions_ok c \<Longrightarrow>
     validate c (dump x) = Inr x \<and> ok x \<or> rejected (validate c (dump x)) \<and> \<not> ok x) \<Longrightarrow> codec validate dump ok"
  by unfold_locales fastforce+

definition volatility_ok :: "volatility_config \<Rightarrow> bool" where
  "volatility_ok v \<longleftrightarrow> between 1 60 (window_minutes v) \<and> 0 < low_threshold v \<and> low_threshold v < high_threshold v
     \<and> between 1 5 (vol_power v) \<and> between 0 1 (base_aggressiveness v) \<and> 0 < trending_threshold v
     \<and> 0 \<le> choppy_threshold v \<and> hmm_ok (hmm v)"

definition weights_sum :: "global_mid_weights \<Rightarrow> bool" where
  "weights_sum w \<longleftrightarrow> \<bar>w_kucoin w + w_gate w + w_mexc w + w_kraken w + w_binance w - 1\<bar> \<le> 0.001"

definition weights_ok :: "global_mid_weights \<Rightarrow> bool" where
  "weights_ok w \<longleftrightarrow> between 0 1 (w_kucoin w) \<and> between 0 1 (w_gate w) \<and> between 0 1 (w_mexc w)
     \<and> between 0 1 (w_kraken w) \<and> between 0 1 (w_binance w) \<and> weights_sum w"

definition balance_ok :: "initial_balance \<Rightarrow> bool" where
  "balance_ok b \<longleftrightarrow> 0 \<le> ib_usd b \<and> 0 \<le> ib_token b"

definition exchange_ok :: "exchange_bot_config \<Rightarrow> bool" where
  "exchange_ok x \<longleftrightarrow> xc_exchange x \<in> set exchange_names
     \<and> (xc_quote_currency x = ''USDT'' \<or> xc_quote_currency x = ''USD'')
     \<and> spread_ok (xc_spread x) \<and> depth_ok (xc_depth x) \<and> safety_ok (xc_safety x)"

definition bot_config_ok :: "bot_config \<Rightarrow> bool" where
  "bot_config_ok cfg \<longleftrightarrow> weights_ok (bc_weights cfg) \<and> volatility_ok (bc_volatility cfg)
     \<and> bc_exchanges cfg \<noteq> [] \<and> list_all exchange_ok (bc_exchanges cfg)
     \<and> list_all (\<lambda>(k, b). k \<in> set exchange_names \<and> balance_ok b) (bc_initial_balances cfg)"

lemmas given = field_def required_def coercions_read

lemma spread_dumped: "coercions_ok c \<Longrightarrow>
  validate_spread c (dump_spread s) = Inr s \<and> spread_ok s \<or> rejected (validate_spread c (dump_spread s)) \<and> \<not> spread_ok s"
  by (simp add: validate_spread_def dump_spread_def given spread_ok_def)

interpretation spread: codec validate_spread dump_spread spread_ok
  by (rule codecI) (rule spread_dumped)

lemma depth_dumped: "coercions_ok c \<Longrightarrow>
  validate_depth c (dump_depth d) = Inr d \<and> depth_ok d \<or> rejected (validate_depth c (dump_depth d)) \<and> \<not> depth_ok d"
  by (simp add: validate_depth_def dump_depth_def given depth_ok_def)

interpretation depth: codec validate_depth dump_depth depth_ok
  by (rule codecI) (rule depth_dumped)

lemma hmm_dumped: "coercions_ok c \<Longrightarrow>
  validate_hmm c (dump_hmm h) = Inr h \<and> hmm_ok h \<or> rejected (validate_hmm c (dump_hmm h)) \<and> \<not> hmm_ok h"
  by (simp add: validate_hmm_def dump_hmm_def given hmm_ok_def)

interpretation hmm: codec validate_hmm dump_hmm hmm_ok
  by (rule codecI) (rule hmm_dumped)

lemma safety_dumped: "coercions_ok c \<Longrightarrow>
  validate_safety c (dump_safety s) = Inr s \<and> safety_ok s \<or> rejected (validate_safety c (dump_safety s)) \<and> \<not> safety_ok s"
  by (simp add: validate_safety_def dump_safety_def given safety_ok_def) auto

interpretation safety: codec validate_safety dump_safety safety_ok
  by (rule codecI) (rule safety_dumped)

lemma weights_dumped: "coercions_ok c \<Longrightarrow>
  validate_weights c (dump_weights w) = Inr w \<and> weights_ok w \<or> rejected (validate_weights c (dump_weights w)) \<and> \<not> weights_ok w"
  by (simp add: validate_weights_def dump_weights_def weights_as_dict_def given weights_ok_def weights_sum_def not_less)

interpretation weights: codec validate_weights dump_weights weights_ok
  by (rule codecI) (rule weights_dumped)

lemma balance_dumped: "coercions_ok c \<Longrightarrow>
  validate_balance c (dump_balance b) = Inr b \<and> balance_ok b \<or> rejected (validate_balance c (dump_balance b)) \<and> \<not> balance_ok b"
  by (simp add: validate_balance_def dump_balance_def given balance_ok_def)

interpretation balance: codec validate_balance dump_balance balance_ok
  by (rule codecI) (rule balance_dumped)

lemma volatility_dumped: "coercions_ok c \<Longrightarrow>
  validate_volatility c (dump_volatility v) = Inr v \<and> volatility_ok v \<or>
  rejected (validate_volatility c (dump_volatility v)) \<and> \<not> volatility_ok v"
  by (cases "hmm_ok (hmm v)")
    (simp_all add: validate_volatility_def dump_volatility_def given volatility_ok_def submodel_def as_obj_def
      hmm.accepts hmm.rejects rejected_bind, auto)

interpretation volatility: codec validate_volatility dump_volatility volatility_ok
  by (rule codecI) (rule volatility_dumped)

lemma exchange_dumped: "coercions_ok c \<Longrightarrow>
  validate_exchange c (dump_exchange x) = Inr x \<and> exchange_ok x \<or>
  rejected (validate_exchange c (dump_exchange x)) \<and> \<not> exchange_ok x"
  by (cases "spread_ok (xc_spread x)"; cases "depth_ok (xc_depth x)"; cases "safety_ok (xc_safety x)")
    (simp_all add: validate_exchange_def dump_exchange_def given exchange_ok_def submodel_def as_obj_def
      spread.accepts spread.rejects depth.accepts depth.rejects safety.accepts safety.rejects rejected_bind)

interpretation exchange: codec validate_exchange dump_exchange exchange_ok
  by (rule codecI) (rule exchange_dumped)

lemma bot_config_dumped:
  assumes "coercions_ok c"
  shows "validate_bot_config c (JObj (dump_bot_config cfg)) = Inr cfg \<and> bot_config_ok cfg \<or>
    rejected (validate_bot_config c (JObj (dump_bot_config cfg))) \<and> \<not> bot_config_ok cfg"
  using assms
  by (cases "weights_ok (bc_weights cfg)"; cases "volatility_ok (bc_volatility cfg)";
      cases "list_all exchange_ok (bc_exchanges cfg)";
      cases "list_all (\<lambda>(k, b). k \<in> set exchange_names \<and> balance_ok b) (bc_initial_balances cfg)")
    (simp_all add: validate_bot_config_def dump_bot_config_def given bot_config_ok_def submodel_def as_obj_def
      weights.accepts weights.rejects volatility.accepts volatility.rejects
      validate_exchanges_def exchange.items validate_balances_def balance.entries rejected_bind)

section \<open>What validation leaves open\<close>

lemma field_weakE:
  assumes "bindR (field conv ok name dflt obj) f = Inr y" and "\<And>v. ok v \<Longrightarrow> ok' v" and "ok' dflt"
  obtains x where "ok' x" and "f x = Inr y"
proof -
  from assms(1) obtain x where x: "field conv ok name dflt obj = Inr x" "f x = Inr y"
    by (auto simp: bindR_eq_Inr)
  then have "ok' x" using assms(2,3) by (auto simp: field_def split: option.splits if_splits)
  from this x(2) show thesis by (rule that)
qed

lemma submodel_holds:
  "submodel v name obj = Inr x \<Longrightarrow> (\<And>o'. v o' = Inr x \<Longrightarrow> P x) \<Longrightarrow> P x"
  by (auto simp: submodel_def split: option.splits)

lemma validate_volatility_range:
  "validate_volatility c obj = Inr v \<Longrightarrow> volatility_ok v \<longleftrightarrow> low_threshold v < high_threshold v"
  unfolding validate_volatility_def
  apply (erule field_bindE, simp add: between_def)
  apply (erule field_bindE, simp)
  apply (erule field_weakE [where ok' = "\<lambda>v. 0 < v"], simp, simp)
  apply (erule field_bindE, simp add: between_def)+
  apply (erule bindR_eq_Inr [THEN iffD1, elim_format])
  apply (auto simp: volatility_ok_def dest: submodel_holds [where P = hmm_ok, OF _ validate_hmm_ok])
  done

lemma validate_weights_range: "validate_weights c obj = Inr w \<Longrightarrow> weights_ok w \<longleftrightarrow> weights_sum w"
  unfolding validate_weights_def
  apply (erule field_bindE, (simp add: between_def; fail))+
  apply (erule field_weakE [where ok' = "between 0 1"], simp, simp add: between_def)
  apply (auto simp: weights_ok_def)
  done

lemma validate_balance_ok: "validate_balance c obj = Inr b \<Longrightarrow> balance_ok b"
  by (auto simp: validate_balance_def balance_ok_def bindR_eq_Inr field_def split: option.splits if_splits)

lemma validate_exchange_ok: "validate_exchange c obj = Inr x \<Longrightarrow> exchange_ok x"
  unfolding validate_exchange_def exchange_ok_def
  by (auto simp: bindR_eq_Inr dest!: submodel_holds [where P = spread_ok, OF _ validate_spread_ok]
      submodel_holds [where P = depth_ok, OF _ validate_depth_ok]
      submodel_holds [where P = safety_ok, OF _ validate_safety_ok] field_ok split: if_splits)

lemma validate_items_ok:
  "validate_items v js = Inr xs \<Longrightarrow> (\<And>o' x. v o' = Inr x \<Longrightarrow> ok x) \<Longrightarrow> list_all ok xs"
  by (induction js arbitrary: xs) (auto simp: bindR_eq_Inr split: option.splits)

lemma validate_entries_ok:
  "validate_entries v kvs = Inr xs \<Longrightarrow> (\<And>o' x. v o' = Inr x \<Longrightarrow> ok x) \<Longrightarrow>
   list_all (\<lambda>(k, x). k \<in> set exchange_names \<and> ok x) xs"
  by (induction kvs arbitrary: xs) (auto simp: bindR_eq_Inr split: option.splits if_splits)

lemma validate_exchanges_ok: "validate_exchanges c obj = Inr xs \<Longrightarrow> list_all exchange_ok xs"
  by (auto simp: validate_exchanges_def split: option.splits json.splits if_splits
      intro: validate_items_ok validate_exchange_ok)

lemma validate_balances_ok: "validate_balances c obj = Inr xs \<Longrightarrow>
  list_all (\<lambda>(k, b). k \<in> set exchange_names \<and> balance_ok b) xs"
  by (auto simp: validate_balances_def split: option.splits json.splits
      intro: validate_entries_ok validate_balance_ok)

text \<open>
  The checks that a default evades: the weights sum to one only if \<open>binance\<close> is given, the
  thresholds are in order only if the high one is given, and \<open>exchanges\<close> is not empty only if given.
\<close>

definition settled :: "bot_config \<Rightarrow> bool" where
  "settled cfg \<longleftrightarrow> weights_sum (bc_weights cfg)
     \<and> low_threshold (bc_volatility cfg) < high_threshold (bc_volatility cfg) \<and> bc_exchanges cfg \<noteq> []"

lemma validate_bot_config_ok:
  assumes "validate_bot_config c j = Inr cfg"
  shows "bot_config_ok cfg \<longleftrightarrow> settled cfg"
proof -
  obtain obj w v where "submodel (validate_weights c) ''global_mid_weights'' obj = Inr w"
    "submodel (validate_volatility c) ''volatility'' obj = Inr v"
    "validate_exchanges c obj = Inr (bc_exchanges cfg)"
    "validate_balances c obj = Inr (bc_initial_balances cfg)"
    "w = bc_weights cfg" "v = bc_volatility cfg"
    using assms by (auto simp: validate_bot_config_def bindR_eq_Inr split: option.splits)
  moreover from calculation(1) have "weights_ok w \<longleftrightarrow> weights_sum w"
    by (rule submodel_holds) (rule validate_weights_range)
  moreover from calculation(2) have "volatility_ok v \<longleftrightarrow> low_threshold v < high_threshold v"
    by (rule submodel_holds) (rule validate_volatility_range)
  ultimately show ?thesis
    by (simp add: bot_config_ok_def settled_def validate_exchanges_ok validate_balances_ok)
qed

text \<open>
  C16. A configuration that was accepted and saved is read back exactly as it was, unless one of the
  checks that defaults evade fails for it: then the saved file is rejected, and the bot no longer
  starts from it.
\<close>

theorem save_then_load:
  assumes "coercions_ok c" and "validate_bot_config c j = Inr cfg"
  shows "case load_bot_config c env_path path (save_bot_config env_path cfg path fs) of
    Inr cfg' \<Rightarrow> cfg' = cfg \<and> settled cfg
  | Inl e \<Rightarrow> \<not> settled cfg \<and> (\<exists>f. e = ValueError f)"
proof -
  have "load_bot_config c env_path path (save_bot_config env_path cfg path fs) =
      validate_bot_config c (JObj (dump_bot_config cfg))"
    by (simp add: load_bot_config_def save_bot_config_def update_conv')
  with bot_config_dumped [OF assms(1), of cfg] validate_bot_config_ok [OF assms(2)] show ?thesis
    by (auto simp: rejected_def split: sum.splits exn.splits)
qed

text \<open>Only \<open>binance\<close>, which the schema admits, has no credentials: starting such a bot raises.\<close>

lemma binance_has_no_credentials:
  "exchange \<in> set exchange_names \<Longrightarrow> (\<exists>e. credentials_for s exchange = Inl e) \<longleftrightarrow> exchange = ''binance''"
  by (auto simp: exchange_names_def credentials_for_def)

section \<open>Samples\<close>

definition sample_coercions :: coercions where
  "sample_coercions =
     \<lparr>as_float = (\<lambda>j. case j of JNum x \<Rightarrow> Some x | _ \<Rightarrow> None),
      as_int = (\<lambda>j. case j of JNum x \<Rightarrow> if x = of_int \<lfloor>x\<rfloor> then Some \<lfloor>x\<rfloor> else None | _ \<Rightarrow> None),
      as_bool = (\<lambda>j. case j of JBool b \<Rightarrow> Some b | _ \<Rightarrow> None),
      as_str = (\<lambda>j. case j of JStr s \<Rightarrow> Some s | _ \<Rightarrow> None)\<rparr>"

lemma sample_coercions_ok: "coercions_ok sample_coercions"
  by (simp add: coercions_ok_def sample_coercions_def)

text \<open>A body with one exchange, and weights that leave \<open>binance\<close> out.\<close>

definition sample_body :: "(string \<times> json) list \<Rightarrow> json" where
  "sample_body w =
     JObj [(''global_mid_weights'', JObj w),
           (''exchanges'', JArr [JObj [(''exchange'', JStr ''kucoin''), (''symbol'', JStr ''ALKIMI/USDT'')]])]"

lemma default_volatility: "validate_volatility c [] = Inr sample_volatility"
  by (simp add: validate_volatility_def field_def submodel_def validate_hmm_def sample_volatility_def
      default_hmm_config_def)

lemma sample_body_valid:
  "validate_bot_config sample_coercions (sample_body [(''kucoin'', JNum 0.9)]) =
     Inr \<lparr>bc_dry_run = True,
          bc_weights = \<lparr>w_kucoin = 0.9, w_gate = 0.45, w_mexc = 0.05, w_kraken = 0.05, w_binance = 0\<rparr>,
          bc_volatility = sample_volatility, bc_exchanges = [sample_exchange], bc_initial_balances = []\<rparr>"
  by (simp add: validate_bot_config_def sample_body_def as_obj_def field_def submodel_def validate_weights_def
      default_volatility default_models validate_exchanges_def validate_balances_def validate_exchange_def
      required_def sample_coercions_def between_def exchange_names_def sample_exchange_def)

theorem save_then_load_witness:
  "\<exists>cfg. validate_bot_config sample_coercions (sample_body [(''kucoin'', JNum 0.9)]) = Inr cfg \<and>
     (case load_bot_config sample_coercions None None (save_bot_config None cfg None []) of
        Inr cfg' \<Rightarrow> cfg' = cfg \<and> settled cfg
      | Inl e \<Rightarrow> \<not> settled cfg \<and> (\<exists>f. e = ValueError f))"
  using save_then_load [OF sample_coercions_ok sample_body_valid] sample_body_valid by blast

text \<open>Those weights are accepted and sum to 1.45, so what is saved cannot be loaded.\<close>

lemma saved_weights_do_not_load:
  "\<exists>cfg f. validate_bot_config sample_coercions (sample_body [(''kucoin'', JNum 0.9)]) = Inr cfg \<and>
     load_bot_config sample_coercions None None (save_bot_config None cfg None []) = Inl (ValueError f)"
proof -
  let ?cfg = "\<lparr>bc_dry_run = True,
     bc_weights = \<lparr>w_kucoin = 0.9, w_gate = 0.45, w_mexc = 0.05, w_kraken = 0.05, w_binance = 0\<rparr>,
     bc_volatility = sample_volatility, bc_exchanges = [sample_exchange], bc_initial_balances = []\<rparr>"
  have "\<not> bot_config_ok ?cfg" by (simp add: bot_config_ok_def weights_ok_def weights_sum_def)
  with bot_config_dumped [OF sample_coercions_ok, of ?cfg] sample_body_valid show ?thesis
    by (intro exI [of _ ?cfg])
      (auto simp: load_bot_config_def save_bot_config_def rejected_def split: sum.splits exn.splits)
qed

end
