(* ===== verification/Api.thy ===== *)
theory Api
  imports Orchestrator Settings
begin

text \<open>
  \<open>api/routes.py\<close>, \<open>api/models.py\<close> and the middleware of \<open>api/app.py\<close>: the HTTP routes and the
  WebSocket endpoint on the orchestrator, the database, the live feed and the configuration file.
  FastAPI is the caller: it matches the path to a \<open>route\<close>, parses the parameters, runs middleware,
  dependency and handler in this order and turns what is raised into a status.  A body is the JSON
  value it denotes, None if it is no JSON.  \<open>app.state.orchestrator\<close> is None until the database is
  connected; \<open>ap_started\<close> tells whether it is set, and using it before raises \<open>AttributeError\<close>.
\<close>

section \<open>State, requests and responses\<close>

record ('w, 'm) app =
  ap_orch :: "('w, 'm) orch"
  ap_started :: bool
  ap_files :: files

definition on_orch :: "(('w, 'm) orch, 'a) eff \<Rightarrow> (('w, 'm) app, 'a) eff" where
  "on_orch m s = (let (r, t) = m (ap_orch s) in (r, s\<lparr>ap_orch := t\<rparr>))"

definition with_orch :: "(('w, 'm) orch, 'a) eff \<Rightarrow> (('w, 'm) app, 'a) eff" where
  "with_orch m = bindE (getsE ap_started) (\<lambda>b. if b then on_orch m else raiseE (OtherError ''AttributeError''))"

datatype route =
    Health | Status | ExchangeStatus string | Orders "string option" int
  | Fills "string option" int "real option" | Balances | Regime | Metrics
  | PauseAll | ResumeAll | EmergencyStop | PauseExchange string | ResumeExchange string
  | GetConfig | PutConfig | PutExchangeConfig string

fun route_path :: "route \<Rightarrow> string" where
  "route_path Health = ''/health''"
| "route_path Status = ''/api/status''"
| "route_path (ExchangeStatus ex) = ''/api/exchanges/'' @ ex"
| "route_path (Orders _ _) = ''/api/orders''"
| "route_path (Fills _ _ _) = ''/api/fills''"
| "route_path Balances = ''/api/balances''"
| "route_path Regime = ''/api/regime''"
| "route_path Metrics = ''/api/metrics''"
| "route_path PauseAll = ''/api/control/pause''"
| "route_path ResumeAll = ''/api/control/resume''"
| "route_path EmergencyStop = ''/api/control/emergency_stop''"
| "route_path (PauseExchange ex) = ''/api/control/exchanges/'' @ ex @ ''/pause''"
| "route_path (ResumeExchange ex) = ''/api/control/exchanges/'' @ ex @ ''/resume''"
| "route_path GetConfig = ''/api/config''"
| "route_path PutConfig = ''/api/config''"
| "route_path (PutExchangeConfig ex) = ''/api/config/exchanges/'' @ ex"

text \<open>The routes declared with \<open>Depends(_require_api_key)\<close>.\<close>

fun guarded :: "route \<Rightarrow> bool" where
  "guarded PauseAll = True"
| "guarded ResumeAll = True"
| "guarded EmergencyStop = True"
| "guarded (PauseExchange _) = True"
| "guarded (ResumeExchange _) = True"
| "guarded PutConfig = True"
| "guarded (PutExchangeConfig _) = True"
| "guarded _ = False"

record request =
  rq_route :: route
  rq_authorization :: string
  rq_x_api_key :: "string option"
  rq_body :: "json option"

definition require_api_key :: "runtime_settings \<Rightarrow> string option \<Rightarrow> ('s, unit) eff" where
  "require_api_key rs key =
     (case rs_api_key rs of
        None \<Rightarrow> ret ()
      | Some k \<Rightarrow> if k \<noteq> [] \<and> key \<noteq> Some k then raiseE (HTTPException 401 ''Invalid or missing API key'') else ret ())"

text \<open>\<open>s.replace(pat, "")\<close>\<close>

function remove_all :: "string \<Rightarrow> string \<Rightarrow> string" where
  "remove_all pat s =
     (if pat = [] \<or> s = [] then s
      else if take (length pat) s = pat then remove_all pat (drop (length pat) s)
      else hd s # remove_all pat (tl s))"
  by pat_completeness auto
termination
  by (relation "measure (\<lambda>(_, s). length s)") auto

declare remove_all.simps [simp del]

definition starts_with :: "string \<Rightarrow> string \<Rightarrow> bool" where
  "starts_with p s \<longleftrightarrow> take (length p) s = p"

section \<open>Reading\<close>

definition health :: "'w env \<Rightarrow> real \<Rightarrow> (('w, 'm) app, json) eff" where
  "health env start_time =
     bindE (on_orch (now_s env)) (\<lambda>now.
       ret (JObj [(''status'', JStr ''ok''), (''version'', JStr ''1.0.0''),
                  (''uptime_s'', JNum (py_round_n 1 (now - start_time)))]))"

text \<open>\<open>ExchangeStatus(**s)\<close> keeps the fields it declares; the regime fields of the bot are not among them.\<close>

definition status_fields :: "string list" where
  "status_fields =
     [''exchange'', ''running'', ''dry_run'', ''q_switch_triggered'', ''circuit_breaker_tripped'',
      ''circuit_breaker_reason'', ''open_orders'', ''global_mid'', ''volatility'', ''aggressiveness'',
      ''zz_regime'', ''balance_usd'', ''balance_token'', ''skew_factor'', ''token_drift_pct'']"

definition exchange_status :: "(string \<times> json) list \<Rightarrow> json" where
  "exchange_status s = JObj (filter (\<lambda>(k, _). k \<in> set status_fields) s)"

definition get_status :: "(trip_reason \<Rightarrow> string) \<Rightarrow> (('w, 'm) app, json) eff" where
  "get_status show =
     with_orch (getsE (\<lambda>s. let st = oc_state s in JObj
       [(''exchanges'', JArr (map exchange_status (get_all_statuses show s))),
        (''global_mid'', jopt (JNum \<circ> gs_global_mid) st), (''volatility'', jopt (JNum \<circ> gs_volatility) st),
        (''aggressiveness'', jopt (JNum \<circ> gs_aggressiveness) st), (''zz_vol'', jopt (JNum \<circ> gs_zz_vol) st),
        (''zz_regime'', jopt (JStr \<circ> gs_zz_regime) st),
        (''contributing_exchanges'', JArr (case st of None \<Rightarrow> [] | Some g \<Rightarrow> map JStr (gs_contributing g)))]))"

definition not_found :: "string \<Rightarrow> exn" where
  "not_found ex = HTTPException 404 (''Exchange '' @ ex @ '' not found'')"

definition get_exchange_status :: "(trip_reason \<Rightarrow> string) \<Rightarrow> string \<Rightarrow> (('w, 'm) app, json) eff" where
  "get_exchange_status show ex =
     with_orch (bindE (getsE (get_bot ex)) (\<lambda>b. case b of
       None \<Rightarrow> raiseE (not_found ex)
     | Some x \<Rightarrow> ret (exchange_status (bot_get_status show x))))"

definition order_json :: "string \<times> order_row \<Rightarrow> json" where
  "order_json p = (case p of (i, r) \<Rightarrow> JObj
     [(''id'', JStr i), (''exchange'', JStr (or_exchange r)), (''symbol'', JStr (or_symbol r)),
      (''side'', JStr (or_side r)), (''price'', JNum (or_price r)), (''amount'', JNum (or_amount r)),
      (''amount_usd'', JNum (or_amount_usd r)), (''status'', JStr (or_status r)),
      (''placed_at'', JNum (or_placed_at r)), (''updated_at'', JNum (or_updated_at r))])"

definition fill_json :: "string \<times> fill_row \<Rightarrow> json" where
  "fill_json p = (case p of (i, r) \<Rightarrow> JObj
     [(''id'', JStr i), (''order_id'', JStr (fr_order_id r)), (''exchange'', JStr (fr_exchange r)),
      (''symbol'', JStr (fr_symbol r)), (''side'', JStr (fr_side r)), (''filled_price'', JNum (fr_price r)),
      (''filled_amount'', JNum (fr_amount r)), (''fee'', JNum (fr_fee r)),
      (''fee_currency'', JStr (fr_fee_currency r)), (''filled_at'', JNum (fr_filled_at r)),
      (''pnl_usd'', jopt JNum (fr_pnl_usd r))])"

definition get_all_orders :: "'w env \<Rightarrow> string option \<Rightarrow> int \<Rightarrow> (('w, 'm) app, json) eff" where
  "get_all_orders env ex limit =
     bindE (on_orch (get_orders env ex limit)) (\<lambda>rows.
       ret (JObj [(''orders'', JArr (map order_json rows)), (''count'', JNum (real (length rows)))]))"

definition get_all_fills :: "'w env \<Rightarrow> string option \<Rightarrow> int \<Rightarrow> real option \<Rightarrow> (('w, 'm) app, json) eff" where
  "get_all_fills env ex limit since =
     bindE (on_orch (get_fills env ex since limit)) (\<lambda>rows.
       ret (JObj [(''fills'', JArr (map fill_json rows)), (''count'', JNum (real (length rows)))]))"

definition balance_json :: "'w bot \<Rightarrow> json" where
  "balance_json b =
     (let inv = inv_state (b_inventory b) in JObj
       [(''exchange'', JStr (b_exchange b)), (''usd'', JNum (st_usd inv)), (''token'', JNum (st_token inv)),
        (''quote_currency'', JStr (xc_quote_currency (b_config b))),
        (''initial_usd'', JNum (st_initial_usd inv)), (''initial_token'', JNum (st_initial_token inv)),
        (''usd_drift_pct'', JNum (py_round_n 2 (st_usd_drift_pct inv))),
        (''token_drift_pct'', JNum (py_round_n 2 (st_token_drift_pct inv))),
        (''skew_factor'', JNum (py_round_n 4 (st_skew_factor inv)))])"

definition get_balances :: "(('w, 'm) app, json) eff" where
  "get_balances =
     with_orch (getsE (\<lambda>s. JObj [(''balances'', JArr (map balance_json (dict_values (oc_bots s))))]))"

definition get_regime_route :: "(('w, 'm) app, json) eff" where
  "get_regime_route =
     with_orch (getsE (\<lambda>s. let rs = rm_current (oc_regime s) in JObj
       [(''regime'', JStr (rs_regime rs)), (''confidence'', JNum (py_round_n 4 (rs_confidence rs))),
        (''zz_regime'', JStr (rs_zz_regime rs)), (''agreement'', JBool (rs_agreement rs)),
        (''mm_params'', mm_json (rs_mm_params rs)), (''timestamp'', JNum (rs_timestamp rs))]))"

definition get_metrics :: "'w env \<Rightarrow> (('w, 'm) app, json) eff" where
  "get_metrics env =
     bindE (with_orch (getsE oc_state)) (\<lambda>st.
     bindE (on_orch (get_fill_rate env 60)) (\<lambda>fill_rate.
     bindE (on_orch (get_recent_pnl env 3600)) (\<lambda>pnl_1h.
     bindE (on_orch (getsE (\<lambda>s. \<Sum>b\<leftarrow>dict_values (oc_bots s). open_order_count b))) (\<lambda>total.
       ret (JObj
         [(''global_mid'', jopt (JNum \<circ> gs_global_mid) st), (''volatility'', jopt (JNum \<circ> gs_volatility) st),
          (''aggressiveness'', jopt (JNum \<circ> gs_aggressiveness) st), (''zz_vol'', jopt (JNum \<circ> gs_zz_vol) st),
          (''zz_regime'', jopt (JStr \<circ> gs_zz_regime) st), (''fill_rate_1m'', JNum (py_round_n 4 fill_rate)),
          (''pnl_1h'', JNum (py_round_n 4 pnl_1h)), (''total_open_orders'', JNum (real total))])))))"

section \<open>Control\<close>

definition control_response :: "string \<Rightarrow> json" where
  "control_response msg = JObj [(''success'', JBool True), (''message'', JStr msg)]"

definition pause_bot :: "'w env \<Rightarrow> ('w bot, unit) eff" where
  "pause_bot env = q_trigger env ''Paused via API''"

definition resume_bot :: "('w bot, unit) eff" where
  "resume_bot = modE (\<lambda>b. b\<lparr>b_q_switch := qs_reset (b_q_switch b), b_breaker := cb_reset (b_breaker b)\<rparr>)"

definition pause_all :: "(string \<Rightarrow> 'w env) \<Rightarrow> (('w, 'm) app, json) eff" where
  "pause_all envs =
     seqE (with_orch (bindE (getsE (\<lambda>s. dict_keys (oc_bots s)))
            (\<lambda>names. for_each (\<lambda>n. on_bot n (pause_bot (envs n))) names)))
          (ret (control_response ''All bots paused''))"

definition resume_all :: "(('w, 'm) app, json) eff" where
  "resume_all =
     seqE (with_orch (bindE (getsE (\<lambda>s. dict_keys (oc_bots s))) (\<lambda>names. for_each (\<lambda>n. on_bot n resume_bot) names)))
          (ret (control_response ''All bots resumed''))"

definition emergency_stop :: "(string \<Rightarrow> 'w env) \<Rightarrow> 'w env \<Rightarrow> (('w, 'm) app, json) eff" where
  "emergency_stop envs env =
     seqE (with_orch (emergency_stop_all envs env ''Emergency stop via API''))
          (ret (control_response ''Emergency stop executed on all exchanges''))"

definition pause_exchange :: "(string \<Rightarrow> 'w env) \<Rightarrow> string \<Rightarrow> (('w, 'm) app, json) eff" where
  "pause_exchange envs ex =
     seqE (with_orch (bindE (getsE (get_bot ex)) (\<lambda>b.
             if b = None then raiseE (not_found ex) else on_bot ex (pause_bot (envs ex)))))
          (ret (control_response (ex @ '' paused'')))"

definition resume_exchange :: "string \<Rightarrow> (('w, 'm) app, json) eff" where
  "resume_exchange ex =
     seqE (with_orch (bindE (getsE (get_bot ex)) (\<lambda>b.
             if b = None then raiseE (not_found ex) else on_bot ex resume_bot)))
          (ret (control_response (ex @ '' resumed'')))"

section \<open>Configuration\<close>

definition config_response :: "(string \<times> json) list \<Rightarrow> string \<Rightarrow> json" where
  "config_response cfg msg = JObj [(''config'', JObj cfg), (''message'', JStr msg)]"

definition get_config :: "(('w, 'm) app, json) eff" where
  "get_config = with_orch (getsE (\<lambda>s. config_response (dump_bot_config (oc_config s)) ''ok''))"

text \<open>What the two updating routes share: validate, save to the default path, reload, announce.\<close>

definition apply_config ::
  "coercions \<Rightarrow> 'm option \<Rightarrow> string option \<Rightarrow> 'w env \<Rightarrow> json \<Rightarrow> string \<Rightarrow> (('w, 'm) app, json) eff" where
  "apply_config c hmm0 env_path env body msg =
     (case validate_bot_config c body of
        Inl _ \<Rightarrow> raiseE (HTTPException 422 ''validation error'')
      | Inr cfg \<Rightarrow>
          seqE (modE (\<lambda>s. s\<lparr>ap_files := save_bot_config env_path cfg None (ap_files s)\<rparr>))
          (seqE (with_orch (modE (trigger_config_reload hmm0 cfg)))
          (seqE (on_orch (emit_config_reloaded env))
            (ret (config_response (dump_bot_config cfg) msg)))))"

definition update_config ::
  "coercions \<Rightarrow> 'm option \<Rightarrow> string option \<Rightarrow> 'w env \<Rightarrow> json option \<Rightarrow> (('w, 'm) app, json) eff" where
  "update_config c hmm0 env_path env body =
     (case body of
        None \<Rightarrow> raiseE (ValueError ''JSON'')
      | Some j \<Rightarrow> apply_config c hmm0 env_path env j ''Config updated and hot-reloaded'')"

text \<open>\<open>d.update(o)\<close>\<close>

definition dict_update :: "('k \<times> 'v) list \<Rightarrow> ('k \<times> 'v) list \<Rightarrow> ('k \<times> 'v) list" where
  "dict_update o' d = fold (\<lambda>(k, v). AList.update k v) o' d"

text \<open>
  The first exchange of that name is updated with the body, which has to be an object: \<open>update\<close>
  raises on anything else (an array of pairs, which it also takes, is not modelled and raises
  here).
\<close>

fun find_exchange :: "string \<Rightarrow> exchange_bot_config list \<Rightarrow>
   (exchange_bot_config list \<times> exchange_bot_config \<times> exchange_bot_config list) option" where
  "find_exchange ex [] = None"
| "find_exchange ex (x # xs) =
     (if xc_exchange x = ex then Some ([], x, xs)
      else map_option (\<lambda>(pre, y, post). (x # pre, y, post)) (find_exchange ex xs))"

definition current_with ::
  "bot_config \<Rightarrow> exchange_bot_config list \<Rightarrow> (string \<times> json) list \<Rightarrow> exchange_bot_config list \<Rightarrow> json" where
  "current_with cfg pre o' post =
     JObj (AList.update ''exchanges''
       (JArr (map (JObj \<circ> dump_exchange) pre @ JObj o' # map (JObj \<circ> dump_exchange) post))
       (dump_bot_config cfg))"

definition update_exchange_config ::
  "coercions \<Rightarrow> 'm option \<Rightarrow> string option \<Rightarrow> 'w env \<Rightarrow> string \<Rightarrow> json option \<Rightarrow> (('w, 'm) app, json) eff" where
  "update_exchange_config c hmm0 env_path env ex body =
     (case body of
        None \<Rightarrow> raiseE (ValueError ''JSON'')
      | Some j \<Rightarrow>
          bindE (with_orch (getsE oc_config)) (\<lambda>cfg.
            case find_exchange ex (bc_exchanges cfg) of
              None \<Rightarrow> raiseE (HTTPException 404 (''Exchange '' @ ex @ '' not in config''))
            | Some (pre, x, post) \<Rightarrow>
                (case as_obj j of
                   None \<Rightarrow> raiseE (OtherError ''TypeError'')
                 | Some o' \<Rightarrow>
                     apply_config c hmm0 env_path env
                       (current_with cfg pre (dict_update o' (dump_exchange x)) post)
                       (ex @ '' config updated''))))"

section \<open>A request\<close>

record ('w, 'm) api_env =
  ae_envs :: "string \<Rightarrow> 'w env"
  ae_env :: "'w env"
  ae_coercions :: coercions
  ae_hmm0 :: "'m option"
  ae_env_path :: "string option"
  ae_show :: "trip_reason \<Rightarrow> string"
  ae_start_time :: real
  ae_settings :: runtime_settings
  ae_mm_api_key :: string

definition handler :: "('w, 'm) api_env \<Rightarrow> request \<Rightarrow> (('w, 'm) app, json) eff" where
  "handler a rq = (case rq_route rq of
       Health \<Rightarrow> health (ae_env a) (ae_start_time a)
     | Status \<Rightarrow> get_status (ae_show a)
     | ExchangeStatus ex \<Rightarrow> get_exchange_status (ae_show a) ex
     | Orders ex limit \<Rightarrow> get_all_orders (ae_env a) ex limit
     | Fills ex limit since \<Rightarrow> get_all_fills (ae_env a) ex limit since
     | Balances \<Rightarrow> get_balances
     | Regime \<Rightarrow> get_regime_route
     | Metrics \<Rightarrow> get_metrics (ae_env a)
     | PauseAll \<Rightarrow> pause_all (ae_envs a)
     | ResumeAll \<Rightarrow> resume_all
     | EmergencyStop \<Rightarrow> emergency_stop (ae_envs a) (ae_env a)
     | PauseExchange ex \<Rightarrow> pause_exchange (ae_envs a) ex
     | ResumeExchange ex \<Rightarrow> resume_exchange ex
     | GetConfig \<Rightarrow> get_config
     | PutConfig \<Rightarrow> update_config (ae_coercions a) (ae_hmm0 a) (ae_env_path a) (ae_env a) (rq_body rq)
     | PutExchangeConfig ex \<Rightarrow>
         update_exchange_config (ae_coercions a) (ae_hmm0 a) (ae_env_path a) (ae_env a) ex (rq_body rq))"

text \<open>What FastAPI makes of an exception.\<close>

fun error_response :: "exn \<Rightarrow> nat \<times> json" where
  "error_response (HTTPException n d) = (n, JObj [(''detail'', JStr d)])"
| "error_response _ = (500, JStr ''Internal Server Error'')"

text \<open>\<open>auth_middleware\<close>: its key guards the paths under \<open>/api/control\<close> only.\<close>

definition auth_middleware :: "string \<Rightarrow> request \<Rightarrow> bool" where
  "auth_middleware key rq \<longleftrightarrow>
     \<not> (key \<noteq> [] \<and> starts_with ''/api/control'' (route_path (rq_route rq))
        \<and> remove_all ''Bearer '' (rq_authorization rq) \<noteq> key)"

definition serve :: "('w, 'm) api_env \<Rightarrow> request \<Rightarrow> (('w, 'm) app, nat \<times> json) eff" where
  "serve a rq =
     (if \<not> auth_middleware (ae_mm_api_key a) rq then ret (401, JObj [(''error'', JStr ''unauthorized'')])
      else catchE
        (seqE (if guarded (rq_route rq) then require_api_key (ae_settings a) (rq_x_api_key rq) else ret ())
          (bindE (handler a rq) (\<lambda>j. ret (200, j))))
        (\<lambda>e. ret (error_response e)))"

section \<open>Reading changes nothing\<close>

lemma keeps_on_orch [keeps_intros]: "keeps P m \<Longrightarrow> keeps (\<lambda>s. P (ap_orch s) \<and> ap_files s = f) (on_orch m)"
  by (auto simp: keeps_def on_orch_def split: prod.split)

lemma keeps_with_orch [keeps_intros]: "keeps P m \<Longrightarrow> keeps (\<lambda>s. P (ap_orch s) \<and> ap_files s = f) (with_orch m)"
  by (auto simp: with_orch_def intro!: keeps_intros)

definition core :: "bot_config \<Rightarrow> (string \<times> 'w bot) list \<Rightarrow> ('w, 'm) orch \<Rightarrow> bool" where
  "core cfg bots o' \<longleftrightarrow> oc_config o' = cfg \<and> oc_bots o' = bots"

lemma core_db_free: "db_free (core cfg bots)"
  by (rule db_freeI) (simp add: core_def)

lemmas reading_defs = health_def get_status_def get_exchange_status_def get_all_orders_def get_all_fills_def
  get_balances_def get_regime_route_def get_metrics_def get_config_def

lemma reading_keeps:
  assumes "\<not> guarded (rq_route rq)"
  shows "keeps (\<lambda>s. core cfg bots (ap_orch s) \<and> ap_files s = f) (handler a rq)"
proof -
  note [simp] = core_db_free db_free_world [OF core_db_free]
  show ?thesis
    using assms
    by (cases "rq_route rq")
      (auto simp: handler_def reading_defs get_orders_def get_fills_def fetch_limited_def split: option.split intro!: keeps_intros)
qed

text \<open>
  C15. Without the key nothing can be changed: when an API key is configured and a request does not
  carry it, the bots, the configuration in force and the configuration file are as before,
  whatever the route; the routes that control or configure answer 401 and leave all state alone.
\<close>

theorem no_key_no_change:
  assumes "rs_api_key (ae_settings a) = Some key" and "key \<noteq> []" and "rq_x_api_key rq \<noteq> Some key"
  shows "case serve a rq s of (r, s') \<Rightarrow>
    oc_bots (ap_orch s') = oc_bots (ap_orch s) \<and> oc_config (ap_orch s') = oc_config (ap_orch s) \<and>
    ap_files s' = ap_files s \<and> (guarded (rq_route rq) \<longrightarrow> s' = s \<and> (\<exists>j. r = Inr (401, j)))"
proof (cases "guarded (rq_route rq)")
  case True
  with assms have "\<exists>j. serve a rq s = (Inr (401, j), s)"
    by (auto simp: serve_def eff_simps require_api_key_def)
  with True show ?thesis by auto
next
  case False
  let ?P = "\<lambda>t. core (oc_config (ap_orch s)) (oc_bots (ap_orch s)) (ap_orch t) \<and> ap_files t = ap_files s"
  have "keeps ?P (serve a rq)"
    using False by (auto simp: serve_def intro!: keeps_intros reading_keeps)
  moreover have "?P s" by (simp add: core_def)
  ultimately have "?P (snd (serve a rq s))" by (rule keepsD)
  with False show ?thesis by (auto simp: core_def split: prod.split)
qed

text \<open>The key of the middleware does not protect the configuration.\<close>

lemma middleware_ignores_config:
  "rq_route rq = PutConfig \<or> rq_route rq = PutExchangeConfig ex \<Longrightarrow> serve (a\<lparr>ae_mm_api_key := k\<rparr>) rq = serve a rq"
  by (auto simp: serve_def auth_middleware_def starts_with_def handler_def fun_eq_iff)

section \<open>Pausing and resuming\<close>

text \<open>A method of the bots run on each of them in turn.\<close>

definition load :: "('w, 'm) orch \<Rightarrow> 'w bot \<Rightarrow> 'w bot" where
  "load s b = b\<lparr>world := world s, db := db s, feed := feed s\<rparr>"

lemma update_middle:
  "n \<notin> set (dict_keys pre) \<Longrightarrow> AList.update n b (pre @ (n, b0) # post) = pre @ (n, b) # post"
  by (induction pre) auto

lemma resume_loop:
  assumes "oc_bots s = pre @ post" and "dict_wf (oc_bots s)"
  shows "\<exists>bots. for_each (\<lambda>n. on_bot n resume_bot) (dict_keys post) s =
      (Inr (), s\<lparr>oc_bots := pre @ bots\<rparr>) \<and>
    bots = map (\<lambda>(n, b). (n, (load s b)\<lparr>b_q_switch := qs_reset (b_q_switch b), b_breaker := cb_reset (b_breaker b)\<rparr>)) post"
  using assms
proof (induction post arbitrary: s pre)
  case (Cons p post)
  obtain n b where p: "p = (n, b)" by fastforce
  let ?b = "(load s b)\<lparr>b_q_switch := qs_reset (b_q_switch b), b_breaker := cb_reset (b_breaker b)\<rparr>"
  from Cons.prems p have fresh: "n \<notin> set (dict_keys pre)" by (auto simp: dict_wf_def)
  then have "dict_get (oc_bots s) n = Some b"
    using Cons.prems(1) p by (simp add: map_add_Some_iff map_of_eq_None_iff)
  then have step: "on_bot n resume_bot s = (Inr (), s\<lparr>oc_bots := pre @ (n, ?b) # post\<rparr>)"
    using Cons.prems(1) p fresh
    by (simp add: on_bot_def resume_bot_def modE_def load_def update_middle)
  let ?s = "s\<lparr>oc_bots := pre @ (n, ?b) # post\<rparr>"
  have "dict_wf (oc_bots ?s)" using Cons.prems p by (auto simp: dict_wf_def)
  from Cons.IH [of ?s "pre @ [(n, ?b)]"] this step p show ?case
    by (simp add: seqE_def bindE_def load_def)
qed (simp add: ret_def)

text \<open>
  Resuming clears every halt and starts nothing: after it every Q-Switch is off and every circuit
  breaker closed, while the bots that had stopped running stay stopped, although the response
  reports success, and open orders stay as they are.
\<close>

theorem resume_does_not_restart:
  assumes "ap_started s" and "dict_wf (oc_bots (ap_orch s))"
  shows "case resume_all s of (r, s') \<Rightarrow> r = Inr (control_response ''All bots resumed'') \<and>
    list_all2 (\<lambda>(n, b) (n', b'). n' = n \<and> \<not> qs_triggered (b_q_switch b') \<and> \<not> cb_tripped (b_breaker b') \<and>
       b_running b' = b_running b \<and> open_orders b' = open_orders b)
      (oc_bots (ap_orch s)) (oc_bots (ap_orch s'))"
proof -
  obtain bots where "for_each (\<lambda>n. on_bot n resume_bot) (dict_keys (oc_bots (ap_orch s))) (ap_orch s) =
      (Inr (), (ap_orch s)\<lparr>oc_bots := bots\<rparr>)"
    and "bots = map (\<lambda>(n, b). (n, (load (ap_orch s) b)\<lparr>b_q_switch := qs_reset (b_q_switch b),
           b_breaker := cb_reset (b_breaker b)\<rparr>)) (oc_bots (ap_orch s))"
    using resume_loop [of "ap_orch s" "[]" "oc_bots (ap_orch s)"] assms(2) by auto
  with assms(1) show ?thesis
    by (simp add: resume_all_def with_orch_def on_orch_def eff_simps list_all2_map2 list_all2_same load_def
        cb_reset_def case_prod_unfold)
qed

section \<open>Updating the configuration\<close>

lemma emit_reloaded_run: "\<exists>f w. emit_config_reloaded env s = (Inr (), s\<lparr>feed := f, world := w\<rparr>)"
  using broadcast_run [of env CONFIG_RELOADED _ s] unfolding emit_config_reloaded_def by blast

lemma apply_config_run:
  assumes "validate_bot_config c j = Inr cfg"
  shows "\<exists>f w. apply_config c hmm0 ep env j msg s =
    (let s1 = s\<lparr>ap_files := save_bot_config ep cfg None (ap_files s)\<rparr>
     in if ap_started s
        then (Inr (config_response (dump_bot_config cfg) msg),
              s1\<lparr>ap_orch := (trigger_config_reload hmm0 cfg (ap_orch s))\<lparr>feed := f, world := w\<rparr>\<rparr>)
        else (Inl (OtherError ''AttributeError''), s1))"
proof -
  obtain f w where "emit_config_reloaded env (trigger_config_reload hmm0 cfg (ap_orch s)) =
      (Inr (), (trigger_config_reload hmm0 cfg (ap_orch s))\<lparr>feed := f, world := w\<rparr>)"
    using emit_reloaded_run [of env "trigger_config_reload hmm0 cfg (ap_orch s)"] by blast
  then show ?thesis
    using assms by (intro exI [of _ f] exI [of _ w])
      (simp add: apply_config_def with_orch_def on_orch_def eff_simps Let_def)
qed


text \<open>
  Updating one exchange.  What \<open>update\<close> does to the dumped exchange is shallow: a nested object in the
  body replaces the nested settings as a whole.
\<close>

lemma find_exchange_split:
  "find_exchange ex xs = Some (pre, x, post) \<Longrightarrow> xs = pre @ x # post \<and> xc_exchange x = ex"
  by (induction xs arbitrary: pre) (auto split: if_splits)

lemma validate_items_append:
  "validate_items v (as @ bs) = Inr xs \<longleftrightarrow>
     (\<exists>ys zs. validate_items v as = Inr ys \<and> validate_items v bs = Inr zs \<and> xs = ys @ zs)"
  by (induction as arbitrary: xs) (auto simp: bindR_eq_Inr split: option.splits)

lemma validate_current:
  assumes "coercions_ok c" and "bc_exchanges cfg = pre @ x # post"
    and "validate_bot_config c (current_with cfg pre o' post) = Inr cfg'"
  shows "\<exists>x'. validate_exchange c o' = Inr x' \<and> bc_exchanges cfg' = pre @ x' # post"
proof -
  have "dict_get (AList.update ''exchanges'' (JArr js) (dump_bot_config cfg)) ''exchanges'' = Some (JArr js)" for js
    by (simp add: update_conv')
  then have "validate_items (validate_exchange c)
      (map (JObj \<circ> dump_exchange) pre @ JObj o' # map (JObj \<circ> dump_exchange) post) = Inr (bc_exchanges cfg')"
    using assms(3)
    by (auto simp: validate_bot_config_def current_with_def as_obj_def bindR_eq_Inr validate_exchanges_def
        split: if_splits)
  then obtain ys x' zs where items: "validate_items (validate_exchange c) (map (JObj \<circ> dump_exchange) pre) = Inr ys"
    "validate_exchange c o' = Inr x'"
    "validate_items (validate_exchange c) (map (JObj \<circ> dump_exchange) post) = Inr zs"
    "bc_exchanges cfg' = ys @ x' # zs"
    by (auto simp: validate_items_append as_obj_def bindR_eq_Inr)
  have same: "validate_items (validate_exchange c) (map (JObj \<circ> dump_exchange) xs) = Inr us \<Longrightarrow> us = xs" for xs us
    using exchange.items [OF assms(1), of xs] by (cases "list_all exchange_ok xs") auto
  from same [OF items(1)] same [OF items(3)] items(2,4) show ?thesis by blast
qed

lemma get_dict_update:
  "dict_wf o' \<Longrightarrow> dict_get (dict_update o' d) k = (case dict_get o' k of None \<Rightarrow> dict_get d k | Some v \<Rightarrow> Some v)"
  unfolding dict_update_def dict_wf_def
proof (induction o' arbitrary: d)
  case (Cons p o')
  obtain a v where p: "p = (a, v)" by fastforce
  with Cons.prems have "dict_get o' a = None" "distinct (dict_keys o')" by (auto simp: map_of_eq_None_iff)
  with Cons.IH [of "AList.update a v d"] p show ?case by (auto simp: update_conv' split: option.split)
qed simp

lemma validate_exchange_depth:
  "validate_exchange c obj = Inr x \<Longrightarrow> dict_get obj ''depth'' = Some (JObj d) \<Longrightarrow> validate_depth c d = Inr (xc_depth x)"
  by (auto simp: validate_exchange_def bindR_eq_Inr submodel_def as_obj_def split: if_splits)

text \<open>
  Updating one exchange leaves every other exchange's settings, and resets what it does not
  mention: if the body gives \<open>depth\<close> (the same holds for \<open>spread\<close> and \<open>safety\<close>), the new depth settings
  are those that validation makes of the given object alone, so each depth setting it leaves out goes
  back to the default, whatever it was.
\<close>

theorem exchange_update_resets_nested:
  assumes "coercions_ok c" and "ap_started s"
    and "update_exchange_config c hmm0 ep env ex (Some (JObj o')) s = (Inr r, s')"
    and "dict_wf o'" and "dict_get o' ''depth'' = Some (JObj d)"
  shows "\<exists>pre x x' post. bc_exchanges (oc_config (ap_orch s)) = pre @ x # post \<and> xc_exchange x = ex \<and>
    bc_exchanges (oc_config (ap_orch s')) = pre @ x' # post \<and> validate_depth c d = Inr (xc_depth x')"
proof -
  let ?cfg = "oc_config (ap_orch s)"
  have "\<exists>pre x post. find_exchange ex (bc_exchanges ?cfg) = Some (pre, x, post)"
    using assms(2,3) by (cases "find_exchange ex (bc_exchanges ?cfg)")
      (auto simp: update_exchange_config_def with_orch_def on_orch_def eff_simps)
  then obtain pre x post where f: "find_exchange ex (bc_exchanges ?cfg) = Some (pre, x, post)" by blast
  note at = find_exchange_split [OF f]
  let ?body = "current_with ?cfg pre (dict_update o' (dump_exchange x)) post"
  have run: "apply_config c hmm0 ep env ?body (ex @ '' config updated'') s = (Inr r, s')"
    using assms(2,3) f by (simp add: update_exchange_config_def with_orch_def on_orch_def eff_simps as_obj_def)
  then obtain cfg' where v: "validate_bot_config c ?body = Inr cfg'"
    by (cases "validate_bot_config c ?body") (auto simp: apply_config_def raiseE_def)
  obtain f w where "s' = s\<lparr>ap_files := save_bot_config ep cfg' None (ap_files s),
      ap_orch := (trigger_config_reload hmm0 cfg' (ap_orch s))\<lparr>feed := f, world := w\<rparr>\<rparr>"
    using apply_config_run [OF v, of hmm0 ep env "ex @ '' config updated''" s] run assms(2) by (auto simp: Let_def)
  then have "oc_config (ap_orch s') = cfg'" by (simp add: trigger_config_reload_def)
  moreover obtain x' where "validate_exchange c (dict_update o' (dump_exchange x)) = Inr x'"
    "bc_exchanges cfg' = pre @ x' # post"
    using validate_current [OF assms(1) _ v] at by blast
  moreover have "validate_depth c d = Inr (xc_depth x')"
    by (rule validate_exchange_depth [OF calculation(2)]) (simp add: get_dict_update [OF assms(4)] assms(5))
  ultimately show ?thesis using at by blast
qed

section \<open>Samples\<close>

definition sample_app :: "(nat, unit) app" where
  "sample_app = \<lparr>ap_orch = sample_orch, ap_started = True, ap_files = []\<rparr>"

definition sample_settings :: runtime_settings where
  "sample_settings =
     \<lparr>rs_live_mode = False, rs_port = 8000, rs_supabase_db_url = '''', rs_bot_config_path = ''bot.json'',
      rs_log_level = ''INFO'', rs_alert_webhook_url = None, rs_api_key = Some ''secret''\<rparr>"

definition sample_api_env :: "(nat, unit) api_env" where
  "sample_api_env =
     \<lparr>ae_envs = (\<lambda>_. sample_env), ae_env = sample_env, ae_coercions = sample_coercions, ae_hmm0 = None,
      ae_env_path = None, ae_show = (\<lambda>_. ''''), ae_start_time = 0, ae_settings = sample_settings,
      ae_mm_api_key = ''''\<rparr>"

definition sample_request :: "route \<Rightarrow> request" where
  "sample_request r = \<lparr>rq_route = r, rq_authorization = '''', rq_x_api_key = None, rq_body = None\<rparr>"

theorem no_key_no_change_witness:
  "case serve sample_api_env (sample_request EmergencyStop) sample_app of (r, s') \<Rightarrow>
    oc_bots (ap_orch s') = oc_bots (ap_orch sample_app) \<and> oc_config (ap_orch s') = oc_config (ap_orch sample_app) \<and>
    ap_files s' = ap_files sample_app \<and>
    (guarded (rq_route (sample_request EmergencyStop)) \<longrightarrow> s' = sample_app \<and> (\<exists>j. r = Inr (401, j)))"
  by (rule no_key_no_change [of _ "''secret''"]) (simp_all add: sample_api_env_def sample_settings_def sample_request_def)

theorem resume_does_not_restart_witness:
  "case resume_all sample_app of (r, s') \<Rightarrow> r = Inr (control_response ''All bots resumed'') \<and>
    list_all2 (\<lambda>(n, b) (n', b'). n' = n \<and> \<not> qs_triggered (b_q_switch b') \<and> \<not> cb_tripped (b_breaker b') \<and>
       b_running b' = b_running b \<and> open_orders b' = open_orders b)
      (oc_bots (ap_orch sample_app)) (oc_bots (ap_orch s'))"
  by (rule resume_does_not_restart) (simp_all add: sample_app_def)

text \<open>An update of one depth setting of the running configuration.\<close>

lemma sample_oks: "weights_ok (bc_weights sample_config)" "volatility_ok sample_volatility" "exchange_ok sample_exchange"
  "exchange_ok (sample_exchange\<lparr>xc_exchange := ''gate''\<rparr>)"
  by (simp_all add: weights_ok_def weights_sum_def sample_config_def volatility_ok_def sample_volatility_def between_def
      hmm_ok_def default_hmm_config_def exchange_ok_def sample_exchange_def sample_spread_ok sample_depth_ok
      sample_safety_ok exchange_names_def)

lemma sample_depth_update:
  "validate_exchange sample_coercions (dict_update [(''depth'', JObj [(''levels'', JNum 5)])] (dump_exchange sample_exchange)) =
     Inr (sample_exchange\<lparr>xc_depth := sample_depth\<lparr>dp_levels := 5\<rparr>\<rparr>)"
proof -
  have five: "as_int sample_coercions (JNum 5) = Some 5" by (simp add: sample_coercions_def)
  show ?thesis
    by (simp add: dict_update_def dump_exchange_def validate_exchange_def coercions_read [OF sample_coercions_ok] submodel_def
        as_obj_def spread.accepts safety.accepts sample_coercions_ok five validate_depth_def between_def
        sample_spread_ok sample_safety_ok exchange_names_def sample_exchange_def sample_depth_def field_def required_def)
qed

lemma sample_update:
  "\<exists>r s'. update_exchange_config sample_coercions None None sample_env ''kucoin''
     (Some (JObj [(''depth'', JObj [(''levels'', JNum 5)])])) sample_app = (Inr r, s')"
proof -
  let ?x = "sample_exchange\<lparr>xc_depth := sample_depth\<lparr>dp_levels := 5\<rparr>\<rparr>"
  let ?j = "current_with sample_config [] (dict_update [(''depth'', JObj [(''levels'', JNum 5)])] (dump_exchange sample_exchange))
      [sample_exchange\<lparr>xc_exchange := ''gate''\<rparr>]"
  have "\<exists>cfg. validate_bot_config sample_coercions ?j = Inr cfg"
    using sample_coercions_ok sample_oks sample_depth_update
    by (simp add: validate_bot_config_def current_with_def dump_bot_config_def as_obj_def field_def submodel_def
        coercions_read weights.accepts volatility.accepts validate_exchanges_def validate_balances_def exchange.accepts
        sample_config_def)
  then obtain cfg where v: "validate_bot_config sample_coercions ?j = Inr cfg" by blast
  have "bc_exchanges sample_config = [sample_exchange, sample_exchange\<lparr>xc_exchange := ''gate''\<rparr>]"
    "xc_exchange sample_exchange = ''kucoin''"
    by (simp_all add: sample_config_def sample_exchange_def)
  then have "update_exchange_config sample_coercions None None sample_env ''kucoin''
     (Some (JObj [(''depth'', JObj [(''levels'', JNum 5)])])) sample_app =
     apply_config sample_coercions None None sample_env ?j (''kucoin'' @ '' config updated'') sample_app"
    by (simp add: update_exchange_config_def with_orch_def on_orch_def eff_simps sample_app_def as_obj_def)
  then show ?thesis
    using apply_config_run [OF v, of None None sample_env "''kucoin'' @ '' config updated''" sample_app]
    by (auto simp: sample_app_def Let_def)
qed

theorem exchange_update_resets_nested_witness:
  "let d = [(''levels'', JNum 5)];
       p = update_exchange_config sample_coercions None None sample_env ''kucoin''
             (Some (JObj [(''depth'', JObj d)])) sample_app
   in \<exists>pre x x' post. bc_exchanges (oc_config (ap_orch sample_app)) = pre @ x # post \<and> xc_exchange x = ''kucoin'' \<and>
      bc_exchanges (oc_config (ap_orch (snd p))) = pre @ x' # post \<and> validate_depth sample_coercions d = Inr (xc_depth x')"
proof -
  obtain r s' where u: "update_exchange_config sample_coercions None None sample_env ''kucoin''
     (Some (JObj [(''depth'', JObj [(''levels'', JNum 5)])])) sample_app = (Inr r, s')"
    using sample_update by blast
  show ?thesis
    unfolding Let_def u snd_conv
    by (rule exchange_update_resets_nested [OF sample_coercions_ok _ u]) (simp_all add: sample_app_def dict_wf_def)
qed

end
