(* ===== verification/System.thy ===== *)
theory System
  imports Api
begin

text \<open>
  The tasks of the event loop as one transition system: the price loop, the regime loop, the loop of
  every bot, the heartbeat monitors and the API requests that control the bots.  A tick of a bot
  awaits the exchange between its two halves, planning and trading, and other tasks run there;
  the plans that are waiting for their second half are part of the state.
\<close>

section \<open>The two halves of a pass of the run loop\<close>

definition on_error :: "'w env \<Rightarrow> exn \<Rightarrow> ('w bot, unit) eff" where
  "on_error env e =
     (if e = TimeoutError then ret ()
      else bindE (getsE (\<lambda>s. is_connected env (world s))) (\<lambda>c. if c then ret () else try_reconnect env))"

definition loop_plan :: "'w env \<Rightarrow> ('w bot, (global_state \<times> tick_plan) option) eff" where
  "loop_plan env =
     bindE (getsE b_running) (\<lambda>go. if \<not> go then ret None else
     bindE (getsE (\<lambda>s. get_nowait (b_queue s))) (\<lambda>r. case r of
       None \<Rightarrow> ret None
     | Some (st, q) \<Rightarrow>
         seqE (modE (\<lambda>s. s\<lparr>b_queue := q\<rparr>))
           (catchE
             (bindE (tick_plan_step env st) (\<lambda>p. case p of
                None \<Rightarrow> seqE (beat env) (ret None)
              | Some p \<Rightarrow> ret (Some (st, p))))
             (\<lambda>e. seqE (on_error env e) (ret None)))))"

definition loop_trade :: "'w env \<Rightarrow> global_state \<Rightarrow> tick_plan \<Rightarrow> ('w bot, unit) eff" where
  "loop_trade env st p = catchE (seqE (tick_trade_step env st p) (beat env)) (on_error env)"

lemma beat_run: "\<exists>s'. beat env s = (Inr (), s')"
  by (cases "read_clock env (world s)") (simp add: beat_def eff_simps)

lemma on_error_abs: "on_error env = (\<lambda>e. if e = TimeoutError then ret ()
    else bindE (getsE (\<lambda>s. is_connected env (world s))) (\<lambda>c. if c then ret () else try_reconnect env))"
  by (simp add: on_error_def fun_eq_iff)

text \<open>
  Splitting a pass of the run loop loses nothing: planning and, if there is a plan, trading right
  after it is exactly one pass of the loop as the source has it.
\<close>

theorem loop_halves:
  "bot_loop_step env = bindE (loop_plan env) (\<lambda>r. case r of None \<Rightarrow> ret () | Some (st, p) \<Rightarrow> loop_trade env st p)"
proof
  fix s :: "'a bot"
  show "bot_loop_step env s =
    bindE (loop_plan env) (\<lambda>r. case r of None \<Rightarrow> ret () | Some (st, p) \<Rightarrow> loop_trade env st p) s"
  proof (cases "b_running s \<and> q_items (b_queue s) \<noteq> []")
    case False
    then show ?thesis
      by (auto simp: bot_loop_step_def loop_plan_def eff_simps get_nowait_def split: list.split)
  next
    case True
    then obtain st rest where q: "get_nowait (b_queue s) = Some (st, (b_queue s)\<lparr>q_items := rest\<rparr>)"
      by (auto simp: get_nowait_def neq_Nil_conv)
    let ?s = "s\<lparr>b_queue := (b_queue s)\<lparr>q_items := rest\<rparr>\<rparr>"
    obtain r s1 where p: "tick_plan_step env st ?s = (r, s1)" by fastforce
    obtain s2 where b: "beat env s1 = (Inr (), s2)" using beat_run by blast
    show ?thesis
    proof (cases r)
      case (Inl e)
      obtain x s3 where "on_error env e s1 = (x, s3)" by fastforce
      then show ?thesis using True q p Inl
        by (cases x) (simp_all add: bot_loop_step_def loop_plan_def tick_def bindE_def seqE_def getsE_def modE_def
            catchE_def on_error_abs ret_def)
    next
      case (Inr z)
      with True q p b show ?thesis
        by (cases z) (simp_all add: bot_loop_step_def loop_plan_def loop_trade_def tick_def bindE_def seqE_def
            getsE_def modE_def catchE_def on_error_abs ret_def)
    qed
  qed
qed

section \<open>The transition system\<close>

definition regime_queues_of :: "(string \<times> 'w bot) list \<Rightarrow> regime_queues" where
  "regime_queues_of bots =
     concat (map (\<lambda>(n, b). case b_regime_queue b of None \<Rightarrow> [] | Some q \<Rightarrow> [(n, q)]) bots)"

definition store_queue :: "regime_queues \<Rightarrow> string \<Rightarrow> 'w bot \<Rightarrow> 'w bot" where
  "store_queue qs n b = (case dict_get qs n of None \<Rightarrow> b | Some q \<Rightarrow> b\<lparr>b_regime_queue := Some q\<rparr>)"

text \<open>The regime loop on the queues of the bots.\<close>

definition regime_loop_step :: "('w, 'm) orch \<Rightarrow> ('w, 'm) orch" where
  "regime_loop_step s =
     (let (m, qs) = regime_step (oc_regime s, regime_queues_of (oc_bots s))
      in s\<lparr>oc_regime := m, oc_bots := map (\<lambda>(n, b). (n, store_queue qs n b)) (oc_bots s)\<rparr>)"

record ('w, 'm) system =
  sy_orch :: "('w, 'm) orch"
  sy_flight :: "(string \<times> global_state \<times> tick_plan) list"

datatype act =
    PriceTick | RegimeTick | PlanTick string | TradeTick string | HeartbeatLost string
  | StopAll string | Pause string | Resume string | Reload bot_config

inductive step ::
  "(string \<Rightarrow> 'w env) \<Rightarrow> 'w env \<Rightarrow> 'm hmm_lib \<Rightarrow> 'm option \<Rightarrow> act \<Rightarrow> ('w, 'm) system \<Rightarrow> ('w, 'm) system \<Rightarrow> bool"
  for envs env lib hmm0
where
  price: "step envs env lib hmm0 PriceTick S
     (S\<lparr>sy_orch := snd (price_loop_step envs env lib (sy_orch S))\<rparr>)"
| regime: "step envs env lib hmm0 RegimeTick S (S\<lparr>sy_orch := regime_loop_step (sy_orch S)\<rparr>)"
| plan: "n \<notin> set (dict_keys (sy_flight S)) \<Longrightarrow> on_bot n (loop_plan (envs n)) (sy_orch S) = (Inr r, t) \<Longrightarrow>
     step envs env lib hmm0 (PlanTick n) S
       (S\<lparr>sy_orch := t, sy_flight := (case r of None \<Rightarrow> sy_flight S | Some f \<Rightarrow> (n, f) # sy_flight S)\<rparr>)"
| trade: "dict_get (sy_flight S) n = Some (st, p) \<Longrightarrow> on_bot n (loop_trade (envs n) st p) (sy_orch S) = (r, t) \<Longrightarrow>
     step envs env lib hmm0 (TradeTick n) S (S\<lparr>sy_orch := t, sy_flight := AList.delete n (sy_flight S)\<rparr>)"
| heartbeat: "on_bot n (bot_emergency_stop (envs n)) (sy_orch S) = (r, t) \<Longrightarrow>
     step envs env lib hmm0 (HeartbeatLost n) S (S\<lparr>sy_orch := t\<rparr>)"
| stop_all: "emergency_stop_all envs env reason (sy_orch S) = (r, t) \<Longrightarrow>
     step envs env lib hmm0 (StopAll reason) S (S\<lparr>sy_orch := t\<rparr>)"
| pause: "on_bot n (pause_bot (envs n)) (sy_orch S) = (r, t) \<Longrightarrow>
     step envs env lib hmm0 (Pause n) S (S\<lparr>sy_orch := t\<rparr>)"
| resume: "on_bot n resume_bot (sy_orch S) = (r, t) \<Longrightarrow> step envs env lib hmm0 (Resume n) S (S\<lparr>sy_orch := t\<rparr>)"
| reload: "step envs env lib hmm0 (Reload cfg) S (S\<lparr>sy_orch := trigger_config_reload hmm0 cfg (sy_orch S)\<rparr>)"

inductive_cases planE: "step envs env lib hmm0 (PlanTick n) S S'"
inductive_cases tradeE: "step envs env lib hmm0 (TradeTick n) S S'"
inductive_simps stop_all_step: "step envs env lib hmm0 (StopAll reason) S S'"

inductive run ::
  "(string \<Rightarrow> 'w env) \<Rightarrow> 'w env \<Rightarrow> 'm hmm_lib \<Rightarrow> 'm option \<Rightarrow> act list \<Rightarrow> ('w, 'm) system \<Rightarrow> ('w, 'm) system \<Rightarrow> bool"
  for envs env lib hmm0
where
  nil: "run envs env lib hmm0 [] S S"
| cons: "step envs env lib hmm0 a S T \<Longrightarrow> run envs env lib hmm0 as T U \<Longrightarrow> run envs env lib hmm0 (a # as) S U"

section \<open>Properties of single bots that survive every step\<close>

definition all_bots :: "(string \<Rightarrow> 'w bot \<Rightarrow> bool) \<Rightarrow> string list \<Rightarrow> ('w, 'm) orch \<Rightarrow> bool" where
  "all_bots Q ks s \<longleftrightarrow> dict_keys (oc_bots s) = ks \<and> distinct ks \<and> (\<forall>(n, b) \<in> set (oc_bots s). Q n b)"

lemma all_bots_frame [simp]:
  "all_bots Q ks (s\<lparr>world := w\<rparr>) = all_bots Q ks s" "all_bots Q ks (s\<lparr>feed := f\<rparr>) = all_bots Q ks s"
  "all_bots Q ks (s\<lparr>oc_vol := v\<rparr>) = all_bots Q ks s" "all_bots Q ks (s\<lparr>oc_hmm := h\<rparr>) = all_bots Q ks s"
  "all_bots Q ks (s\<lparr>oc_last_candle_fetch_at := t\<rparr>) = all_bots Q ks s"
  by (simp_all add: all_bots_def)

lemma all_bots_free [keeps_intros]: "world_free (all_bots Q ks)" "feed_free (all_bots Q ks)"
  by (simp_all add: world_free_def feed_free_def)

lemma keeps_sum [keeps_intros]:
  "(\<And>e. keeps P (f e)) \<Longrightarrow> (\<And>x. keeps P (g x)) \<Longrightarrow> keeps P (case z of Inl e \<Rightarrow> f e | Inr x \<Rightarrow> g x)"
  by (cases z) simp_all

lemma map_entry_set:
  "(a, c) \<in> set (AList.map_entry k f d) \<Longrightarrow> (a, c) \<in> set d \<or> a = k \<and> (\<exists>b. (k, b) \<in> set d \<and> c = f b)"
  by (induction d) (auto split: if_splits)

lemma map_entry_keys: "dict_keys (AList.map_entry k f d) = dict_keys d"
  by (induction d) auto

lemma map_entry_all:
  "(\<And>b. R k b \<Longrightarrow> R k (f b)) \<Longrightarrow> \<forall>(n, b) \<in> set d. R n b \<Longrightarrow> \<forall>(n, b) \<in> set (AList.map_entry k f d). R n b"
  by (auto dest!: map_entry_set)

text \<open>Every queue a regime step leaves has been offered some states.\<close>

lemma regime_broadcast_offers:
  assumes "dict_get (regime_broadcast rs subs qs) n = Some q'"
  shows "\<exists>q rss. dict_get qs n = Some q \<and> q' = offer_all put_nowait rss q"
  using assms unfolding regime_broadcast_def
proof (induction subs arbitrary: qs)
  case Nil
  then show ?case by (auto intro!: exI [of _ "[]"] simp: offer_all_def)
next
  case (Cons k subs)
  obtain q rss where q: "dict_get (AList.map_entry k (offer put_nowait rs) qs) n = Some q"
    "q' = offer_all put_nowait rss q"
    using Cons.IH [of "AList.map_entry k (offer put_nowait rs) qs"] Cons.prems by auto
  show ?case
  proof (cases "n = k")
    case True
    with q obtain q0 where "dict_get qs n = Some q0" "q = offer put_nowait rs q0" by (auto simp: map_entry_get)
    with q(2) show ?thesis by (intro exI [of _ q0] exI [of _ "rs # rss"]) (simp add: offer_all_def)
  next
    case False
    with q show ?thesis by (auto simp: map_entry_get)
  qed
qed

lemma regime_step_offers:
  assumes "dict_get (snd (regime_step (m, qs))) n = Some q'"
  shows "\<exists>q rss. dict_get qs n = Some q \<and> q' = offer_all put_nowait rss q"
proof (cases "rm_running m \<and> get_nowait (rm_pending m) \<noteq> None")
  case True
  then show ?thesis
    using assms by (auto simp: regime_step_def process_state_def Let_def dest!: regime_broadcast_offers) blast
next
  case False
  with assms show ?thesis
    by (intro exI [of _ q'] exI [of _ "[]"]) (auto simp: regime_step_def offer_all_def split: option.splits)
qed

lemma regime_queues_get:
  "dict_wf bots \<Longrightarrow> (n, b) \<in> set bots \<Longrightarrow> dict_get (regime_queues_of bots) n = Some q \<Longrightarrow> b_regime_queue b = Some q"
proof -
  assume a: "dict_wf bots" "(n, b) \<in> set bots" "dict_get (regime_queues_of bots) n = Some q"
  from map_of_SomeD [OF a(3)] obtain b' where "(n, b') \<in> set bots" "b_regime_queue b' = Some q"
    by (auto simp: regime_queues_of_def split: option.splits)
  with a(1,2) show ?thesis by (auto simp: dict_wf_def dest: eq_key_imp_eq_value)
qed

text \<open>
  What the methods of a bot owe to a property \<open>Q\<close> of bots for it to hold on every reachable state;
  \<open>trades\<close> tells which bots may ever get from a plan to a trade.
\<close>

locale bot_property =
  fixes envs :: "string \<Rightarrow> 'w env"
    and Q :: "string \<Rightarrow> 'w bot \<Rightarrow> bool"
    and trades :: "string \<Rightarrow> bool"
  assumes shared: "Q n b \<Longrightarrow> Q n (b\<lparr>world := w, db := d, feed := f\<rparr>)"
    and keeps_plan: "keeps (Q n) (loop_plan (envs n))"
    and idle: "\<not> trades n \<Longrightarrow> Q n b \<Longrightarrow> fst (loop_plan (envs n) b) = Inr None"
    and keeps_trade: "trades n \<Longrightarrow> keeps (Q n) (loop_trade (envs n) st p)"
    and keeps_heartbeat: "keeps (Q n) (bot_emergency_stop (envs n))"
    and keeps_stop: "keeps (Q n) (stop_one (envs n) reason)"
    and keeps_pause: "keeps (Q n) (pause_bot (envs n))"
    and after_news: "Q n b \<Longrightarrow> Q n (b\<lparr>b_queue := offer put_nowait st (b_queue b)\<rparr>)"
    and after_regime: "Q n b \<Longrightarrow> b_regime_queue b = Some q \<Longrightarrow>
      Q n (b\<lparr>b_regime_queue := Some (offer_all put_nowait rss q)\<rparr>)"
    and after_reload: "Q n b \<Longrightarrow> Q n (reload_bot cfg ex b)"
begin

lemma on_bot_all:
  assumes "keeps (Q n) m"
  shows "keeps (all_bots Q ks) (on_bot n m)"
proof (rule keepsI)
  fix s :: "('w, 'm) orch"
  assume s: "all_bots Q ks s"
  show "all_bots Q ks (snd (on_bot n m s))"
  proof (cases "dict_get (oc_bots s) n")
    case None
    with s show ?thesis by (simp add: on_bot_def)
  next
    case (Some b)
    obtain r b' where m: "m (b\<lparr>world := world s, db := db s, feed := feed s\<rparr>) = (r, b')" by fastforce
    from s map_of_SomeD [OF Some] have "Q n b" by (auto simp: all_bots_def)
    from keepsE [OF assms m shared [OF this]] s Some m show ?thesis
      by (force simp: on_bot_def all_bots_def set_update_wf dict_wf_def update_keys)
  qed
qed

lemma price_all: "keeps (all_bots Q ks) (price_loop_step envs' env lib)"
proof -
  have pub: "all_bots Q ks (publish_state st s)" if "all_bots Q ks s" for st and s :: "('w, 'm) orch"
    using that by (auto simp: all_bots_def publish_state_def dict_wf_def comp_def case_prod_unfold intro: after_news)
  show ?thesis
    unfolding price_loop_step_def tick_prices_def fetch_mids_def fetch_mid_def update_market_def refresh_candles_def
      case_prod_unfold Let_def
    by (intro keeps_intros keeps_mod) (simp_all add: pub)
qed

lemma regime_all: "all_bots Q ks s \<Longrightarrow> all_bots Q ks (regime_loop_step s)"
proof -
  assume s: "all_bots Q ks s"
  obtain m qs where r: "regime_step (oc_regime s, regime_queues_of (oc_bots s)) = (m, qs)" by fastforce
  have "Q n (store_queue qs n b)" if "(n, b) \<in> set (oc_bots s)" for n b
  proof (cases "dict_get qs n")
    case None
    with s that show ?thesis by (auto simp: store_queue_def all_bots_def)
  next
    case (Some q')
    then obtain q rss where "dict_get (regime_queues_of (oc_bots s)) n = Some q" "q' = offer_all put_nowait rss q"
      using regime_step_offers [of "oc_regime s" "regime_queues_of (oc_bots s)" n q'] r by auto
    with s that Some show ?thesis
      using regime_queues_get [of "oc_bots s" n b q]
      by (auto simp: store_queue_def all_bots_def dict_wf_def intro!: after_regime)
  qed
  with s r show ?thesis
    by (auto simp: regime_loop_step_def all_bots_def dict_wf_def comp_def case_prod_unfold)
qed

lemma stop_all_bots: "keeps (all_bots Q ks) (emergency_stop_all envs env reason)"
  unfolding emergency_stop_all_def emit_emergency_stop_def by (intro keeps_intros on_bot_all keeps_stop)

lemma reload_all: "all_bots Q ks s \<Longrightarrow> all_bots Q ks (trigger_config_reload hmm0 cfg s)"
proof -
  assume s: "all_bots Q ks s"
  have "dict_keys (fold (\<lambda>ex. AList.map_entry (xc_exchange ex) (reload_bot cfg ex)) exs d) = dict_keys d \<and>
      (\<forall>(n, b) \<in> set (fold (\<lambda>ex. AList.map_entry (xc_exchange ex) (reload_bot cfg ex)) exs d). Q n b)"
    if "\<forall>(n, b) \<in> set d. Q n b" for exs d
    using that
  proof (induction exs arbitrary: d)
    case (Cons ex exs)
    from Cons.IH [OF map_entry_all [OF after_reload Cons.prems]] show ?case by (simp add: map_entry_keys)
  qed simp
  from this [of "oc_bots s" "enabled_exchanges cfg"] s show ?thesis
    by (auto simp: all_bots_def trigger_config_reload_def dict_wf_def)
qed

lemma step_all:
  assumes "step envs env lib hmm0 a S T" and "all_bots Q ks (sy_orch S)"
    and "\<forall>n \<in> set (dict_keys (sy_flight S)). trades n"
    and "\<And>n. a = Resume n \<Longrightarrow> keeps (Q n) resume_bot"
  shows "all_bots Q ks (sy_orch T) \<and> (\<forall>n \<in> set (dict_keys (sy_flight T)). trades n)"
  using assms
proof (cases rule: step.cases)
  case price
  with assms keepsD [OF price_all] show ?thesis by simp
next
  case regime
  with assms regime_all show ?thesis by simp
next
  case (plan n r t)
  have "all_bots Q ks t" by (rule keepsE [OF on_bot_all [OF keeps_plan] plan(4) assms(2)])
  moreover have "trades n" if "r = Some x" for x
  proof (rule ccontr)
    assume no: "\<not> trades n"
    obtain b where b: "dict_get (oc_bots (sy_orch S)) n = Some b"
      using plan(4) by (cases "dict_get (oc_bots (sy_orch S)) n") (auto simp: on_bot_def)
    with assms(2) have "Q n b" by (auto simp: all_bots_def dest!: map_of_SomeD)
    then have "fst (loop_plan (envs n) (b\<lparr>world := world (sy_orch S), db := db (sy_orch S),
        feed := feed (sy_orch S)\<rparr>)) = Inr None"
      by (intro idle no shared)
    with b plan(4) that show False by (auto simp: on_bot_def split: prod.splits)
  qed
  ultimately show ?thesis using plan assms(3) by (cases r) auto
next
  case (trade n st p r t)
  then have "trades n" using assms(3) by (force dest: map_of_SomeD)
  from keepsE [OF on_bot_all [OF keeps_trade [OF this]] trade(4) assms(2)] trade(2) assms(3) show ?thesis
    by (auto simp: set_delete)
next
  case (heartbeat n r t)
  from keepsE [OF on_bot_all [OF keeps_heartbeat] heartbeat(3) assms(2)] heartbeat assms(3) show ?thesis by simp
next
  case (stop_all reason r t)
  from keepsE [OF stop_all_bots stop_all(3) assms(2)] stop_all assms(3) show ?thesis by simp
next
  case (pause n r t)
  from keepsE [OF on_bot_all [OF keeps_pause] pause(3) assms(2)] pause assms(3) show ?thesis by simp
next
  case (resume n r t)
  from keepsE [OF on_bot_all [OF assms(4) [OF resume(1)]] resume(3) assms(2)] resume assms(3) show ?thesis by simp
next
  case (reload cfg)
  with assms reload_all show ?thesis by simp
qed

lemma run_all:
  assumes "run envs env lib hmm0 as S T" and "all_bots Q ks (sy_orch S)"
    and "\<forall>n \<in> set (dict_keys (sy_flight S)). trades n"
    and "\<And>n. Resume n \<in> set as \<Longrightarrow> keeps (Q n) resume_bot"
  shows "all_bots Q ks (sy_orch T)"
  using assms
proof (induction rule: run.induct)
  case (cons a S T as U)
  from step_all [OF cons.hyps(1) cons.prems(1,2)] cons.prems(3) cons.IH show ?case by auto
qed

end

end
