(* ===== verification/SystemSafety.thy ===== *)
theory SystemSafety
  imports System
begin

text \<open>
  What holds on every run of \<open>System\<close>: the state invariant, the halts that last until a resume, and the
  stop that a planned tick escapes.  The two interpretations of \<open>bot_property\<close> carry the proofs.
\<close>

section \<open>The methods of a bot\<close>

lemmas plan_defs = tick_plan_step_def get_balance_def refresh_balance_def q_check_def breaker_record_def
lemmas trade_defs = tick_trade_step_def poll_fills_def ingest_fills_def ingest_one_def write_snapshot_def
  write_features_def emit_tick_def
lemmas error_defs = on_error_def try_reconnect_def q_trigger_def beat_def

lemma keeps_loop_plan:
  assumes "\<And>s st q. P s \<Longrightarrow> get_nowait (b_queue s) = Some (st, q) \<Longrightarrow> P (s\<lparr>b_queue := q\<rparr>)"
    and "\<And>st. keeps P (tick_plan_step env st)" and "keeps P (beat env)" and "\<And>e. keeps P (on_error env e)"
  shows "keeps P (loop_plan env)"
proof -
  let ?body = "\<lambda>st. catchE (bindE (tick_plan_step env st) (\<lambda>p. case p of
      None \<Rightarrow> seqE (beat env) (ret None) | Some p \<Rightarrow> ret (Some (st, p)))) (\<lambda>e. seqE (on_error env e) (ret None))"
  have body: "keeps P (?body st)" for st by (intro keeps_intros assms(2-4))
  show ?thesis
  proof (rule keepsI)
    fix s assume s: "P s"
    show "P (snd (loop_plan env s))"
    proof (cases "get_nowait (b_queue s)")
      case None
      with s show ?thesis by (simp add: loop_plan_def bindE_def getsE_def ret_def)
    next
      case (Some r)
      obtain st q where "r = (st, q)" by fastforce
      with Some have q: "get_nowait (b_queue s) = Some (st, q)" by simp
      with keepsD [OF body assms(1) [OF s q]] s show ?thesis
        by (simp add: loop_plan_def bindE_def [of "getsE _"] getsE_def seqE_def [of "modE _"] bindE_def [of "modE _"] modE_def
            ret_def)
    qed
  qed
qed

lemma keeps_loop_trade:
  "keeps P (tick_trade_step env st p) \<Longrightarrow> keeps P (beat env) \<Longrightarrow> (\<And>e. keeps P (on_error env e)) \<Longrightarrow>
   keeps P (loop_trade env st p)"
  unfolding loop_trade_def by (intro keeps_intros)

text \<open>What speaks of the order manager's own state only is touched by its methods only.\<close>

definition om_core where
  "om_core s = (open_orders s, order_created_at s, dry_run s)"

definition orders_only where
  "orders_only P \<longleftrightarrow> (\<forall>s s'. om_core s = om_core s' \<longrightarrow> P s \<longrightarrow> P s')"

lemma orders_only_cong: "orders_only P \<Longrightarrow> P s \<Longrightarrow> om_core s = om_core s' \<Longrightarrow> P s'"
  unfolding orders_only_def by blast

lemma orders_only_free:
  assumes "orders_only P"
  shows "om_only P" "feed_free P" "db_free P" "world_free P" "limiter_free P"
  using assms
  by (auto simp: om_only_def om_frame_def feed_free_def db_free_def world_free_def limiter_free_def om_core_def
      elim!: orders_only_cong)

lemma orders_mod: "orders_only P \<Longrightarrow> (\<And>s. om_core (f s) = om_core s) \<Longrightarrow> keeps P (modE f)"
  by (rule keeps_mod) (metis orders_only_cong)

lemma om_core_drain [simp]: "om_core (drain_regime_queue s) = om_core s"
  by (auto simp: om_core_def drain_regime_queue_def Let_def split: option.split prod.split)

lemma om_core_upd [simp]:
  "om_core (s\<lparr>b_balance := x1\<rparr>) = om_core s" "om_core (s\<lparr>b_balance_cached_at := x2\<rparr>) = om_core s"
  "om_core (s\<lparr>b_inventory := x3\<rparr>) = om_core s" "om_core (s\<lparr>b_last_global_state := x4\<rparr>) = om_core s"
  "om_core (s\<lparr>b_running := x5\<rparr>) = om_core s" "om_core (s\<lparr>b_heartbeat := x6\<rparr>) = om_core s"
  "om_core (s\<lparr>b_paper_orders := x7\<rparr>) = om_core s" "om_core (s\<lparr>b_last_fill_poll_at := x8\<rparr>) = om_core s"
  "om_core (s\<lparr>b_last_snapshot_at := x9\<rparr>) = om_core s" "om_core (s\<lparr>b_last_rl_at := x10\<rparr>) = om_core s"
  "om_core (s\<lparr>b_last_fill_ts := x11\<rparr>) = om_core s" "om_core (s\<lparr>b_q_switch := x12\<rparr>) = om_core s"
  "om_core (s\<lparr>b_breaker := x13\<rparr>) = om_core s" "om_core (s\<lparr>b_queue := x14\<rparr>) = om_core s"
  by (simp_all add: om_core_def)

lemma keeps_om_plan:
  assumes "orders_only P"
  shows "keeps P (tick_plan_step env st)"
  unfolding plan_defs case_prod_unfold
  by (intro orders_only_free [OF assms(1)] assms orders_mod keeps_intros) (simp_all split: option.split)

lemma keeps_om_beat:
  assumes "orders_only P"
  shows "keeps P (beat env)"
  unfolding beat_def case_prod_unfold
  by (intro orders_only_free [OF assms(1)] assms orders_mod keeps_intros) (simp_all split: option.split)

lemma keeps_om_error:
  assumes "orders_only P"
  shows "keeps P (on_error env e)"
  unfolding error_defs case_prod_unfold
  by (intro orders_only_free [OF assms(1)] assms orders_mod keeps_intros) (simp_all split: option.split)

lemma keeps_om_trigger:
  assumes "orders_only P"
  shows "keeps P (q_trigger env r)"
  unfolding q_trigger_def case_prod_unfold
  by (intro orders_only_free [OF assms(1)] assms orders_mod keeps_intros) (simp_all split: option.split)

lemma keeps_om_records:
  assumes "orders_only P"
  shows "keeps P (poll_fills env ts)" and "keeps P (write_snapshot env ts st p)"
    and "keeps P (write_features env ts st p)" and "keeps P (emit_tick env st p k)"
    and "keeps P (modE (\<lambda>s. case b_paper_orders s of None \<Rightarrow> s | Some _ \<Rightarrow> s\<lparr>b_paper_orders := f s\<rparr>))"
proof -
  note free = orders_only_free [OF assms]
  show "keeps P (poll_fills env ts)"
    unfolding poll_fills_def ingest_fills_def ingest_one_def
    by (intro free assms orders_mod keeps_intros) (simp_all split: option.split)
  show "keeps P (write_snapshot env ts st p)"
    unfolding write_snapshot_def case_prod_unfold by (intro free assms orders_mod keeps_intros) simp_all
  show "keeps P (write_features env ts st p)"
    unfolding write_features_def by (intro free assms orders_mod keeps_intros) simp_all
  show "keeps P (emit_tick env st p k)"
    unfolding emit_tick_def case_prod_unfold by (intro free keeps_intros)
  show "keeps P (modE (\<lambda>s. case b_paper_orders s of None \<Rightarrow> s | Some _ \<Rightarrow> s\<lparr>b_paper_orders := f s\<rparr>))"
    by (intro assms orders_mod) (simp split: option.split)
qed

lemma keeps_om_trade:
  assumes "orders_only P" and "keeps P (diff_and_repost env (tp_grid p))"
  shows "keeps P (tick_trade_step env st p)"
  unfolding tick_trade_step_def
  by (intro orders_only_free [OF assms(1)] keeps_om_records assms keeps_intros)

lemma keeps_om_emergency:
  assumes "orders_only P" and "keeps P (cancel_all env)"
  shows "keeps P (bot_emergency_stop env)"
  unfolding bot_emergency_stop_def emit_emergency_stop_def q_trigger_def case_prod_unfold
  by (intro orders_only_free [OF assms(1)] assms orders_mod keeps_intros) (simp_all split: option.split)

lemma keeps_om_loop_plan: "orders_only P \<Longrightarrow> keeps P (loop_plan env)"
  by (intro keeps_loop_plan keeps_om_plan keeps_om_beat keeps_om_error) (auto elim!: orders_only_cong)

lemma keeps_om_loop_trade: "orders_only P \<Longrightarrow> keeps P (diff_and_repost env (tp_grid p)) \<Longrightarrow> keeps P (loop_trade env st p)"
  by (intro keeps_loop_trade keeps_om_trade keeps_om_beat keeps_om_error)

section \<open>The invariant of every bot\<close>

definition queue_of :: "nat \<Rightarrow> 'a aqueue \<Rightarrow> bool" where
  "queue_of n q \<longleftrightarrow> q_maxsize q = n \<and> length (q_items q) \<le> n"

lemma queue_of_offer: "queue_of n q \<Longrightarrow> 0 < n \<Longrightarrow> queue_of n (offer put_nowait x q)"
  by (auto simp: queue_of_def aq.offer_items)

lemma queue_of_offer_all: "queue_of n q \<Longrightarrow> 0 < n \<Longrightarrow> queue_of n (offer_all put_nowait xs q)"
  unfolding offer_all_def by (induction xs arbitrary: q) (auto simp: queue_of_offer)

lemma queue_of_get: "queue_of n q \<Longrightarrow> get_nowait q = Some (x, q') \<Longrightarrow> queue_of n q'"
  by (auto simp: queue_of_def get_nowait_def split: list.splits)

definition parts_ok :: "'w bot \<Rightarrow> bool" where
  "parts_ok b \<longleftrightarrow> qs_inv (b_q_switch b) \<and> cb_inv (b_breaker b) \<and> queue_of 5 (b_queue b) \<and>
     (case b_regime_queue b of None \<Rightarrow> True | Some q \<Rightarrow> queue_of 5 q)"

lemma more_only_parts [keeps_intros]: "more_only parts_ok"
proof (rule more_onlyI)
  fix s s' :: "'a bot"
  assume "om.more s = om.more s'" "parts_ok s"
  then show "parts_ok s'" by (cases s; cases s') (simp add: parts_ok_def)
qed

lemma parts_ok_free [keeps_intros]: "world_free parts_ok" "limiter_free parts_ok" "db_free parts_ok" "feed_free parts_ok"
  by (intro keeps_intros)+

lemma parts_ok_upd [simp]:
  "parts_ok (s\<lparr>b_balance := x1\<rparr>) = parts_ok s" "parts_ok (s\<lparr>b_balance_cached_at := x2\<rparr>) = parts_ok s"
  "parts_ok (s\<lparr>b_inventory := x3\<rparr>) = parts_ok s" "parts_ok (s\<lparr>b_last_global_state := x4\<rparr>) = parts_ok s"
  "parts_ok (s\<lparr>b_running := x5\<rparr>) = parts_ok s" "parts_ok (s\<lparr>b_heartbeat := x6\<rparr>) = parts_ok s"
  "parts_ok (s\<lparr>b_paper_orders := x7\<rparr>) = parts_ok s" "parts_ok (s\<lparr>b_last_fill_poll_at := x8\<rparr>) = parts_ok s"
  "parts_ok (s\<lparr>b_last_snapshot_at := x9\<rparr>) = parts_ok s" "parts_ok (s\<lparr>b_last_rl_at := x10\<rparr>) = parts_ok s"
  "parts_ok (s\<lparr>b_last_fill_ts := x11\<rparr>) = parts_ok s"
  by (simp_all add: parts_ok_def)

lemma parts_ok_drain: "parts_ok s \<Longrightarrow> parts_ok (drain_regime_queue s)"
  by (auto simp: parts_ok_def drain_regime_queue_def drain_result Let_def queue_of_def split: option.splits)

lemma parts_ok_switch:
  "parts_ok s \<Longrightarrow> parts_ok (s\<lparr>b_q_switch := snd (qs_check now b (b_q_switch s))\<rparr>)"
  "parts_ok s \<Longrightarrow> parts_ok (s\<lparr>b_q_switch := qs_trigger_manually now r (b_q_switch s)\<rparr>)"
  "parts_ok s \<Longrightarrow> parts_ok (s\<lparr>b_breaker := record_equity d u t m (b_breaker s)\<rparr>)"
  using qs_step_inv [of "b_q_switch s" "QCheck now b"] qs_step_inv [of "b_q_switch s" "QTrigger now r"]
    record_equity_inv [of "b_breaker s" d u t m]
  by (simp_all add: parts_ok_def)

lemma keeps_parts_q_check: "keeps parts_ok (q_check env b)"
proof (rule keepsI)
  fix s :: "'a bot" assume s: "parts_ok s"
  obtain now w where c: "read_clock env (world s) = (now, w)" by fastforce
  have "parts_ok (s\<lparr>world := w\<rparr>)" using parts_ok_free(1) s by (auto simp: world_free_def)
  from parts_ok_switch(1) [OF this, of now b] s c show "parts_ok (snd (q_check env b s))"
    by (auto simp: q_check_def eff_simps)
qed

lemma keeps_parts_trigger: "keeps parts_ok (q_trigger env r)"
  unfolding q_trigger_def by (intro keeps_intros keeps_mod parts_ok_switch)

lemma keeps_parts_plan: "keeps parts_ok (tick_plan_step env st)"
  unfolding tick_plan_step_def get_balance_def refresh_balance_def breaker_record_def case_prod_unfold
  by (intro keeps_intros keeps_mod keeps_parts_q_check parts_ok_drain parts_ok_switch) simp_all

lemma keeps_parts_beat: "keeps parts_ok (beat env)"
  unfolding beat_def by (intro keeps_intros keeps_mod) simp_all

lemma keeps_parts_error: "keeps parts_ok (on_error env e)"
  unfolding on_error_def try_reconnect_def by (intro keeps_intros keeps_mod keeps_parts_trigger) simp_all

lemma keeps_parts_trade: "keeps parts_ok (tick_trade_step env st p)"
  unfolding trade_defs case_prod_unfold by (intro keeps_intros keeps_mod) (auto split: option.split)

lemma keeps_parts_loop_plan: "keeps parts_ok (loop_plan env)"
  by (intro keeps_loop_plan keeps_parts_plan keeps_parts_beat keeps_parts_error)
    (auto simp: parts_ok_def dest: queue_of_get)

lemma keeps_parts_emergency: "keeps parts_ok (bot_emergency_stop env)"
  unfolding bot_emergency_stop_def emit_emergency_stop_def
  by (intro keeps_intros keeps_mod keeps_parts_trigger) simp_all

lemma keeps_parts_stop: "keeps parts_ok (stop_one env r)"
  unfolding stop_one_def by (intro keeps_intros keeps_parts_trigger)

lemma keeps_dry_eq_diff: "keeps (\<lambda>s. dry_run s = d) (diff_and_repost env g)"
  unfolding diff_and_repost_def case_prod_unfold place_one_def Let_def
  by (intro keeps_intros keeps_mod keeps_dry_eq_sync keeps_dry_eq_age keeps_cancel_one keeps_track_order) simp_all

lemma keeps_dry_eq_cancel_all: "keeps (\<lambda>s. dry_run s = d) (cancel_all env)"
  unfolding cancel_all_def by (intro keeps_intros keeps_mod) simp_all

definition bot_ok :: "(string \<Rightarrow> bool) \<Rightarrow> string \<Rightarrow> 'w bot \<Rightarrow> bool" where
  "bot_ok dry n b \<longleftrightarrow> om_ok b \<and> parts_ok b \<and> dry_run b = dry n"

lemma keeps_bot_ok:
  "keeps om_ok m \<Longrightarrow> keeps parts_ok m \<Longrightarrow> keeps (\<lambda>s. dry_run s = dry n) m \<Longrightarrow> keeps (bot_ok dry n) m"
  by (auto simp: bot_ok_def keeps_def)

lemma orders_only_ok [keeps_intros]: "orders_only om_ok" "orders_only (\<lambda>s. dry_run s = d)"
  by (simp_all add: orders_only_def om_core_def om_ok_def)

interpretation sound: bot_property envs "bot_ok dry" "\<lambda>_. True"
  for envs :: "string \<Rightarrow> 'w env" and dry
proof (unfold_locales, goal_cases)
  case (1 n b w d f)
  then show ?case by (simp add: bot_ok_def om_ok_def parts_ok_def)
next
  case (2 n)
  show ?case by (intro keeps_bot_ok keeps_om_loop_plan keeps_parts_loop_plan keeps_intros)
next
  case (4 n st p)
  show ?case
    by (intro keeps_bot_ok keeps_om_loop_trade keeps_loop_trade keeps_parts_trade keeps_parts_beat keeps_parts_error
        keeps_dry_eq_diff keeps_intros)
next
  case (5 n)
  show ?case by (intro keeps_bot_ok keeps_om_emergency keeps_parts_emergency keeps_dry_eq_cancel_all keeps_intros)
next
  case (6 n reason)
  show ?case
    unfolding stop_one_def
    by (intro keeps_bot_ok keeps_seq keeps_om_trigger keeps_parts_trigger keeps_dry_eq_cancel_all keeps_intros)
next
  case (7 n)
  show ?case unfolding pause_bot_def by (intro keeps_bot_ok keeps_om_trigger keeps_parts_trigger keeps_intros)
next
  case (8 n b st)
  then show ?case by (simp add: bot_ok_def om_ok_def parts_ok_def queue_of_offer)
next
  case (9 n b q rss)
  then show ?case by (simp add: bot_ok_def om_ok_def parts_ok_def queue_of_offer_all)
next
  case (10 n b cfg ex)
  then show ?case by (simp add: bot_ok_def om_ok_def parts_ok_def reload_bot_def)
qed simp

section \<open>Every reachable state is sound\<close>

definition system_ok :: "(string \<Rightarrow> bool) \<Rightarrow> ('w, 'm) system \<Rightarrow> bool" where
  "system_ok dry S \<longleftrightarrow>
     dict_wf (oc_bots (sy_orch S)) \<and> (\<forall>(n, b) \<in> set (oc_bots (sy_orch S)). bot_ok dry n b) \<and>
     rm_ok (oc_regime (sy_orch S))"

lemma keeps_regime_on_bot [keeps_intros]: "keeps (\<lambda>s. oc_regime s = R) (on_bot n m)"
  by (auto simp: keeps_def on_bot_def split: option.split prod.split)

lemma price_regime: "keeps (\<lambda>s. rm_ok (oc_regime s)) (price_loop_step envs env lib)"
proof -
  have free: "world_free (\<lambda>s :: ('a, 'b) orch. rm_ok (oc_regime s))" by (simp add: world_free_def)
  show ?thesis
    unfolding price_loop_step_def tick_prices_def fetch_mids_def fetch_mid_def update_market_def refresh_candles_def
      case_prod_unfold Let_def
    by (intro keeps_intros keeps_mod free) (simp_all add: publish_state_def rm_ok_push)
qed

lemma step_regime:
  fixes S T :: "('w, 'm) system"
  assumes "step envs env lib hmm0 a S T" and "rm_ok (oc_regime (sy_orch S))"
  shows "rm_ok (oc_regime (sy_orch T))"
  using assms
proof (cases rule: step.cases)
  case price
  with assms(2) keepsD [OF price_regime] show ?thesis by simp
next
  case regime
  with assms(2) rm_ok_step [of "oc_regime (sy_orch S)"] show ?thesis
    by (auto simp: regime_loop_step_def case_prod_unfold Let_def)
next
  case (stop_all reason r t)
  have free: "feed_free (\<lambda>s :: ('w, 'm) orch. oc_regime s = oc_regime (sy_orch S))" by (simp add: feed_free_def)
  have "keeps (\<lambda>s :: ('w, 'm) orch. oc_regime s = oc_regime (sy_orch S)) (emergency_stop_all envs env reason)"
    unfolding emergency_stop_all_def emit_emergency_stop_def by (intro free keeps_intros)
  from keepsE [OF this stop_all(3)] stop_all assms(2) show ?thesis by simp
next
  case (reload cfg)
  with assms(2) show ?thesis by (simp add: trigger_config_reload_def)
qed (use assms(2) in \<open>auto dest: keepsE [OF keeps_regime_on_bot [of "oc_regime (sy_orch S)"]]\<close>)

text \<open>
  C14. Every reachable state is sound: whatever tasks, ticks, stops, pauses, resumes, reloads and failures
  are interleaved, and in whatever order, the order books of all bots stay well formed, their
  switches and breakers consistent and their queues within their bounds, the regime master
  keeps a probability distribution, and a dry-run bot never becomes live, nor a live one dry.
\<close>

theorem reachable_states_sound:
  fixes S T :: "('w, 'm) system"
  assumes "run envs env lib hmm0 as S T" and "system_ok dry S"
  shows "system_ok dry T"
proof -
  let ?ks = "dict_keys (oc_bots (sy_orch S))"
  have resume: "keeps (bot_ok dry n) (resume_bot :: ('w bot, unit) eff)" for n
    unfolding resume_bot_def
    by (rule keeps_mod) (use qs_step_inv [where e = QReset] in \<open>auto simp: bot_ok_def om_ok_def parts_ok_def cb_reset_inv\<close>)
  have "all_bots (bot_ok dry) ?ks (sy_orch S)" using assms(2) by (simp add: system_ok_def all_bots_def dict_wf_def)
  from sound.run_all [OF assms(1) this] resume have "all_bots (bot_ok dry) ?ks (sy_orch T)" by simp
  moreover have "rm_ok (oc_regime (sy_orch S)) \<Longrightarrow> rm_ok (oc_regime (sy_orch T))"
    using assms(1) by (induction rule: run.induct) (auto dest: step_regime)
  ultimately show ?thesis using assms(2) by (auto simp: system_ok_def all_bots_def dict_wf_def)
qed

section \<open>A halt holds until it is lifted\<close>

definition quiet :: "string \<Rightarrow> (string \<times> order) set \<Rightarrow> string \<Rightarrow> 'w bot \<Rightarrow> bool" where
  "quiet n0 X n b \<longleftrightarrow> n = n0 \<longrightarrow> qs_triggered (b_q_switch b) \<and> set (open_orders b) \<subseteq> X"

definition calm :: "(string \<times> order) set \<Rightarrow> 'w bot \<Rightarrow> bool" where
  "calm X b \<longleftrightarrow> qs_triggered (b_q_switch b) \<and> set (open_orders b) \<subseteq> X"

lemma keeps_quiet: "(n = n0 \<Longrightarrow> keeps (calm X) m) \<Longrightarrow> keeps (quiet n0 X n) m"
  by (auto simp: quiet_def calm_def keeps_def)

lemma calm_free: "world_free (calm X)" "limiter_free (calm X)" "feed_free (calm X)" "db_free (calm X)"
  by (simp_all add: world_free_def limiter_free_def feed_free_def db_free_def calm_def)

lemma calm_plan: "calm X s \<Longrightarrow> \<exists>s'. tick_plan_step env st s = (Inr None, s') \<and> calm X s'"
proof -
  assume c: "calm X s"
  then obtain s' where p: "tick_plan_step env st s = (Inr None, s')" "qs_triggered (b_q_switch s')"
    using plan_halted [of s env st] by (auto simp: calm_def)
  have "trade_frame s' = trade_frame s" by (rule keepsE [OF keeps_frame_plan p(1)]) simp
  with p c show ?thesis by (auto simp: calm_def trade_frame_def)
qed

lemma keeps_calm_beat: "keeps (calm X) (beat env)"
  unfolding beat_def by (intro calm_free keeps_intros keeps_mod) (simp add: calm_def)

lemma keeps_calm_trigger: "keeps (calm X) (q_trigger env r)"
  unfolding q_trigger_def by (intro calm_free keeps_intros keeps_mod) (auto simp: calm_def qs_trigger_on)

lemma keeps_calm_error: "keeps (calm X) (on_error env e)"
  unfolding on_error_def try_reconnect_def
  by (intro calm_free keeps_intros keeps_mod keeps_calm_trigger) (simp_all add: calm_def)

lemma keeps_calm_loop_plan: "keeps (calm X) (loop_plan env)"
proof (intro keeps_loop_plan keeps_calm_beat keeps_calm_error)
  show "keeps (calm X) (tick_plan_step env st)" for st
    by (rule keepsI) (use calm_plan [of X _ env st] in fastforce)
qed (simp add: calm_def)

lemma calm_no_plan: "calm X b \<Longrightarrow> fst (loop_plan env b) = Inr None"
proof -
  assume c: "calm X b"
  show ?thesis
  proof (cases "get_nowait (b_queue b)")
    case None
    then show ?thesis by (simp add: loop_plan_def bindE_def getsE_def ret_def)
  next
    case (Some r)
    obtain st q where r: "r = (st, q)" by fastforce
    from c have "calm X (b\<lparr>b_queue := q\<rparr>)" by (simp add: calm_def)
    then obtain s' where p: "tick_plan_step env st (b\<lparr>b_queue := q\<rparr>) = (Inr None, s')" using calm_plan by blast
    obtain s2 where "beat env s' = (Inr (), s2)" using beat_run by blast
    with p Some r show ?thesis
      by (simp add: loop_plan_def bindE_def getsE_def ret_def seqE_def modE_def catchE_def)
  qed
qed

lemma keeps_calm_cancel_all: "keeps (calm X) (cancel_all env :: ('w bot, unit) eff)"
proof -
  have "keeps (\<lambda>s. set (open_orders s) \<subseteq> X) (cancel_all env)"
    unfolding cancel_all_def
    by (intro keeps_intros keeps_mod om_onlyI) (auto simp: om_frame_def)
  moreover have "more_only (\<lambda>s :: 'w bot. qs_triggered (b_q_switch s))"
  proof (rule more_onlyI)
    fix s s' :: "'w bot"
    assume "om.more s = om.more s'" "qs_triggered (b_q_switch s)"
    then show "qs_triggered (b_q_switch s')" by (cases s; cases s') simp
  qed
  ultimately show ?thesis
    using keeps_conj [OF keeps_more_cancel_all] unfolding calm_def by blast
qed

interpretation halted: bot_property envs "quiet n0 X" "\<lambda>n. n \<noteq> n0"
  for envs :: "string \<Rightarrow> 'w env" and n0 X
proof (unfold_locales, goal_cases)
  case (2 n)
  show ?case by (intro keeps_quiet keeps_calm_loop_plan)
next
  case (3 n b)
  then show ?case by (intro calm_no_plan [of X]) (simp add: quiet_def calm_def)
next
  case (5 n)
  show ?case
    unfolding bot_emergency_stop_def emit_emergency_stop_def
    by (intro keeps_quiet calm_free keeps_calm_trigger keeps_calm_cancel_all keeps_intros keeps_mod) (simp add: calm_def)
next
  case (6 n reason)
  show ?case unfolding stop_one_def by (intro keeps_quiet keeps_seq keeps_calm_trigger keeps_calm_cancel_all)
next
  case (7 n)
  show ?case unfolding pause_bot_def by (intro keeps_quiet keeps_calm_trigger)
qed (auto simp: quiet_def keeps_def reload_bot_def)

text \<open>
  C12. A halt holds until somebody resumes the bot: from any state in which the Q-Switch of a bot is
  triggered and no tick of it is between planning and trading, no sequence of steps without a
  resume of that bot makes it place an order; its switch stays triggered and it tracks at most
  the orders it had.
\<close>

theorem halted_until_resumed:
  assumes "run envs env lib hmm0 as S T" and "dict_wf (oc_bots (sy_orch S))"
    and "get_bot n (sy_orch S) = Some b" and "qs_triggered (b_q_switch b)"
    and "n \<notin> set (dict_keys (sy_flight S))" and "Resume n \<notin> set as"
  shows "\<exists>b'. get_bot n (sy_orch T) = Some b' \<and> qs_triggered (b_q_switch b') \<and>
    set (open_orders b') \<subseteq> set (open_orders b)"
proof -
  let ?Q = "quiet n (set (open_orders b))" and ?ks = "dict_keys (oc_bots (sy_orch S))"
  have mem: "(n, b) \<in> set (oc_bots (sy_orch S))" using assms(3) by (simp add: get_bot_def map_of_SomeD)
  have "b2 = b" if "(n, b2) \<in> set (oc_bots (sy_orch S))" for b2
    using that mem assms(2) by (auto simp: dict_wf_def dest: eq_key_imp_eq_value)
  then have "all_bots ?Q ?ks (sy_orch S)" using assms(2,4) by (auto simp: all_bots_def quiet_def dict_wf_def)
  moreover have "keeps (?Q k) resume_bot" if "Resume k \<in> set as" for k
    using that assms(6) by (intro keeps_quiet) auto
  ultimately have T: "all_bots ?Q ?ks (sy_orch T)"
    using halted.run_all [OF assms(1), of n "set (open_orders b)" ?ks] assms(5) by auto
  moreover have "n \<in> set (dict_keys (oc_bots (sy_orch T)))" using T mem by (force simp: all_bots_def)
  then obtain b' where "dict_get (oc_bots (sy_orch T)) n = Some b'" by (metis map_of_eq_None_iff not_Some_eq set_map)
  ultimately show ?thesis by (auto simp: get_bot_def all_bots_def quiet_def dest!: map_of_SomeD)
qed

section \<open>A stop does not stop a tick that has planned\<close>

lemma keeps_after_repost:
  assumes "orders_only P" and "diff_and_repost env (tp_grid p) s = (Inr placed, s2)" and "P s2"
  shows "P (snd (loop_trade env st p s))"
proof -
  note free = orders_only_free [OF assms(1)]
  have rest: "keeps P (seqE (seqE (modE (\<lambda>s. case b_paper_orders s of None \<Rightarrow> s
                     | Some _ \<Rightarrow> s\<lparr>b_paper_orders := Some (open_order_list s)\<rparr>))
     (bindE (now_s env) (\<lambda>ts. seqE (poll_fills env ts) (seqE (write_snapshot env ts st p)
       (seqE (write_features env ts st p) (emit_tick env st p (length placed))))))) (beat env))" (is "keeps P ?rest")
    by (intro free assms(1) keeps_om_records keeps_om_beat keeps_intros)
  have "keeps P (catchE ?rest (on_error env))" by (intro keeps_catch rest keeps_om_error assms(1))
  moreover have "loop_trade env st p s = catchE ?rest (on_error env) s2"
    using assms(2)
    by (cases "?rest s2") (simp add: loop_trade_def tick_trade_step_def catchE_def seqE_def bindE_def split: sum.split)
  ultimately show ?thesis using assms(3) by (simp add: keeps_def)
qed

lemma keeps_triggered_loop_trade: "keeps (\<lambda>b. qs_triggered (b_q_switch b)) (loop_trade env st p)"
proof -
  have calm: "(\<lambda>b. qs_triggered (b_q_switch b)) = calm UNIV" by (simp add: calm_def fun_eq_iff)
  have "keeps (calm UNIV) (tick_trade_step env st p)"
  proof (rule keepsI)
    fix s :: "'a bot"
    assume "calm UNIV s"
    moreover have "halts (snd (tick_trade_step env st p s)) = halts s"
      using keepsD [OF keeps_halts_trade [of "halts s" env st p], of s] by simp
    ultimately show "calm UNIV (snd (tick_trade_step env st p s))" by (simp add: calm_def halts_def)
  qed
  then show ?thesis unfolding calm by (intro keeps_loop_trade keeps_calm_beat keeps_calm_error)
qed

text \<open>
  C13. A stop does not reach a tick that has already planned: if a bot is stopped, its switch triggered and
  all its orders cancelled, while a plan of it waits for the second half of the tick, then that half
  still places the planned grid: the bot is triggered and has an order near every level of positive
  price and amount, as far as reposting returns and the new ids are distinct.
\<close>

theorem stop_misses_planned_tick:
  assumes "step envs env lib hmm0 (TradeTick n) S T"
    and "dict_get (sy_flight S) n = Some (st, p)" and "get_bot n (sy_orch S) = Some b"
    and "stopped b" and "dry_run b" and "om_ok b"
    and "diff_and_repost (envs n) (tp_grid p) (load (sy_orch S) b) = (Inr placed, b2)"
    and "distinct (map ord_id placed)" and "(price, amount) \<in> set (grid_levels (tp_grid p))"
    and "0 < price" and "0 < amount"
  shows "\<exists>b'. get_bot n (sy_orch T) = Some b' \<and> qs_triggered (b_q_switch b') \<and> covered b' price"
proof -
  let ?b = "load (sy_orch S) b"
  have b: "open_orders ?b = []" "dry_run ?b" "om_ok ?b" "qs_triggered (b_q_switch ?b)"
    using assms(4-6) by (simp_all add: load_def stopped_def om_ok_def)
  have "covered b2 price"
    by (rule repost_covers [OF b(3,2) assms(7,8) _ assms(9-11)]) (simp add: b(1))
  moreover have "orders_only (\<lambda>b. covered b price)"
    by (simp add: orders_only_def om_core_def covered_def)
  ultimately have c: "covered (snd (loop_trade (envs n) st p ?b)) price"
    by (rule keeps_after_repost [where P = "\<lambda>b. covered b price", OF _ assms(7), rotated])
  have t: "qs_triggered (b_q_switch (snd (loop_trade (envs n) st p ?b)))"
    using keepsD [OF keeps_triggered_loop_trade b(4)] .
  from assms(1) obtain r t where o: "on_bot n (loop_trade (envs n) st p) (sy_orch S) = (r, t)" and T: "sy_orch T = t"
    using assms(2) by (auto elim!: tradeE)
  from o have "get_bot n t = Some (snd (loop_trade (envs n) st p ?b))"
    using assms(3) by (auto simp: on_bot_def get_bot_def load_def update_conv' split: prod.splits)
  with c t T show ?thesis by blast
qed

section \<open>A sample system\<close>

definition sample_system :: "(nat, unit) system" where
  "sample_system = \<lparr>sy_orch = sample_orch, sy_flight = []\<rparr>"

lemma sample_system_ok: "system_ok (\<lambda>_. True) sample_system"
  by (simp add: system_ok_def sample_system_def sample_orch_def bot_ok_def dict_wf_def sample_bot_def om_ok_def
      sample_order_def parts_ok_def qs_inv_new cb_inv_def new_circuit_breaker_def queue_of_def new_queue_def rm_ok_new)

lemma sample_run:
  "\<exists>T. run (\<lambda>_. sample_env) sample_env sample_hmm_lib None [PriceTick, RegimeTick, StopAll ''test''] sample_system T"
  by (meson step.price step.regime step.stop_all run.nil run.cons surj_pair)

theorem reachable_states_sound_witness:
  "\<exists>T. run (\<lambda>_. sample_env) sample_env sample_hmm_lib None [PriceTick, RegimeTick, StopAll ''test''] sample_system T \<and>
     system_ok (\<lambda>_. True) T"
  using sample_run reachable_states_sound [OF _ sample_system_ok] by blast

definition halted_orch :: "(nat, unit) orch" where
  "halted_orch = sample_orch\<lparr>oc_bots :=
     [(''kucoin'', sample_bot\<lparr>b_q_switch := qs_trigger_manually 1000 ''x'' (b_q_switch sample_bot), open_orders := []\<rparr>)]\<rparr>"

theorem halted_until_resumed_witness:
  "\<exists>T b'. run (\<lambda>_. sample_env) sample_env sample_hmm_lib None [PriceTick]
       \<lparr>sy_orch = halted_orch, sy_flight = []\<rparr> T \<and>
     get_bot ''kucoin'' (sy_orch T) = Some b' \<and> qs_triggered (b_q_switch b') \<and> open_orders b' = []"
proof -
  obtain T where r: "run (\<lambda>_. sample_env) sample_env sample_hmm_lib None [PriceTick]
      \<lparr>sy_orch = halted_orch, sy_flight = []\<rparr> T"
    by (meson step.price run.nil run.cons)
  from halted_until_resumed [OF r, of "''kucoin''"] r show ?thesis
    by (fastforce simp: halted_orch_def get_bot_def dict_wf_def qs_trigger_on)
qed

text \<open>The stopped bot with the plan of a tick in flight.\<close>

definition sample_tick_plan :: tick_plan where
  "sample_tick_plan =
     \<lparr>tp_balance = \<lparr>bal_usd = 1000, bal_token = 1000, bal_quote_currency = ''USDT''\<rparr>, tp_skew = 1,
      tp_grid = sample_grid, tp_buy_spreads = [-1, -2], tp_sell_spreads = [1], tp_buy_usd = [99, 196],
      tp_sell_usd = [303]\<rparr>"

definition planned_system :: "(nat, unit) system" where
  "planned_system = \<lparr>sy_orch = halted_orch, sy_flight = [(''kucoin'', sample_state, sample_tick_plan)]\<rparr>"

theorem stop_misses_planned_tick_witness:
  "\<exists>T b'. step (\<lambda>_. sample_env) sample_env sample_hmm_lib None (TradeTick ''kucoin'') planned_system T \<and>
     get_bot ''kucoin'' (sy_orch T) = Some b' \<and> qs_triggered (b_q_switch b') \<and> covered b' 98"
proof -
  let ?b = "sample_bot\<lparr>b_q_switch := qs_trigger_manually 1000 ''x'' (b_q_switch sample_bot), open_orders := []\<rparr>"
  have g: "get_bot ''kucoin'' (sy_orch planned_system) = Some ?b"
    by (simp add: planned_system_def halted_orch_def get_bot_def)
  have "fst (diff_and_repost sample_env sample_grid (load (sy_orch planned_system) ?b)) = Inr sample_placed"
    by (simp add: om_eval sample_env_def sample_grid_def sample_exchange_def new_rate_limiter_def new_database_def
        load_def planned_system_def halted_orch_def sample_orch_def sample_bot_def sample_placed_def)
  then obtain b2 where "diff_and_repost sample_env sample_grid (load (sy_orch planned_system) ?b) = (Inr sample_placed, b2)"
    by (metis prod.collapse)
  moreover have "tp_grid sample_tick_plan = sample_grid" by (simp add: sample_tick_plan_def)
  ultimately have d: "diff_and_repost sample_env (tp_grid sample_tick_plan) (load (sy_orch planned_system) ?b) =
      (Inr sample_placed, b2)"
    by simp
  obtain r t where o: "on_bot ''kucoin'' (loop_trade sample_env sample_state sample_tick_plan) (sy_orch planned_system) = (r, t)"
    by fastforce
  have f: "dict_get (sy_flight planned_system) ''kucoin'' = Some (sample_state, sample_tick_plan)"
    by (simp add: planned_system_def)
  note s = step.trade [where envs = "\<lambda>_. sample_env" and env = sample_env and lib = sample_hmm_lib and ?hmm0.0 = None,
      OF f o]
  show ?thesis
    using stop_misses_planned_tick [OF s f g _ _ _ d sample_ids, of 98 2] s
    by (auto simp: stopped_def sample_bot_def om_ok_def qs_trigger_on grid_levels_def sample_grid_def sample_tick_plan_def)
qed

end
