(* ===== verification/CcxtConnector.thy ===== *)
theory CcxtConnector
  imports ExchangeBase ConfigSchema
begin

text \<open>
  \<open>exchange/ccxt_connector.py\<close> and \<open>exchange/factory.py\<close>.  The ccxt exchange object is a parameter,
  \<open>ccxt_lib\<close>: one function per unified method, which may raise.  The raw dicts it returns are records
  of the keys the parsers read; None is a missing key or a null, both of which \<open>raw.get(k) or d\<close>
  skips.  (A \<open>status\<close> that is present but null, which \<open>raw.get\<close> would hand on, is not modelled.)
\<close>

section \<open>The library\<close>

record raw_ticker =
  rt_bid :: "real option"
  rt_ask :: "real option"
  rt_last :: "real option"
  rt_timestamp :: "real option"

record raw_order =
  ro_id :: string
  ro_side :: string
  ro_price :: "real option"
  ro_average :: "real option"
  ro_amount :: "real option"
  ro_filled :: "real option"
  ro_status :: "string option"
  ro_timestamp :: "real option"
  ro_fee_cost :: "real option"
  ro_fee_currency :: "string option"

record raw_trade =
  rw_id :: string
  rw_order :: "string option"
  rw_side :: string
  rw_price :: "real option"
  rw_amount :: "real option"
  rw_timestamp :: "real option"
  rw_fee_cost :: "real option"
  rw_fee_currency :: "string option"

record 'w ccxt_lib =
  cx_load_markets :: "'w \<Rightarrow> unit result \<times> 'w"
  cx_close :: "'w \<Rightarrow> unit result \<times> 'w"
  cx_fetch_ticker :: "string \<Rightarrow> 'w \<Rightarrow> raw_ticker result \<times> 'w"
  cx_fetch_ohlcv :: "string \<Rightarrow> string \<Rightarrow> nat \<Rightarrow> 'w \<Rightarrow> (real \<times> real \<times> real \<times> real \<times> real \<times> real) list result \<times> 'w"
  cx_fetch_balance :: "'w \<Rightarrow> (string \<times> real option) list result \<times> 'w"
  cx_create_limit_order :: "string \<Rightarrow> string \<Rightarrow> real \<Rightarrow> real \<Rightarrow> 'w \<Rightarrow> raw_order result \<times> 'w"
  cx_cancel_order :: "string \<Rightarrow> string \<Rightarrow> 'w \<Rightarrow> unit result \<times> 'w"
  cx_cancel_all_orders :: "string \<Rightarrow> 'w \<Rightarrow> unit result \<times> 'w"
  cx_fetch_open_orders :: "string \<Rightarrow> 'w \<Rightarrow> raw_order list result \<times> 'w"
  cx_fetch_my_trades :: "string \<Rightarrow> int option \<Rightarrow> nat \<Rightarrow> 'w \<Rightarrow> raw_trade list result \<times> 'w"
  cx_sleep :: "real \<Rightarrow> 'w \<Rightarrow> 'w"
  cx_time :: "'w \<Rightarrow> real \<times> 'w"

section \<open>Retrying\<close>

fun retryable :: "exn \<Rightarrow> bool" where
  "retryable NetworkError = True"
| "retryable RequestTimeout = True"
| "retryable DDoSProtection = True"
| "retryable RateLimitExceeded = True"
| "retryable _ = False"

text \<open>
  The loop of \<open>_retry\<close> at its \<open>attempt\<close>, with \<open>left\<close> more attempts allowed: a retryable error on the
  last attempt, and any other error, is raised.
\<close>

fun retry_from :: "(real \<Rightarrow> 'w \<Rightarrow> 'w) \<Rightarrow> ('w \<Rightarrow> 'a result \<times> 'w) \<Rightarrow> nat \<Rightarrow> nat \<Rightarrow> 'w \<Rightarrow> 'a result \<times> 'w" where
  "retry_from sleep call attempt 0 w = call w"
| "retry_from sleep call attempt (Suc left) w =
     (case call w of
        (Inr x, w') \<Rightarrow> (Inr x, w')
      | (Inl e, w') \<Rightarrow>
          if retryable e then retry_from sleep call (Suc attempt) left (sleep (1 * 2 ^ attempt) w')
          else (Inl e, w'))"

definition retry :: "'w ccxt_lib \<Rightarrow> ('w \<Rightarrow> 'a result \<times> 'w) \<Rightarrow> 'w \<Rightarrow> 'a result \<times> 'w" where
  "retry lib call = retry_from (cx_sleep lib) call 0 3"

section \<open>The connector\<close>

text \<open>The connector's own state is its connection flag, beside the world of the library.\<close>

record 'w cx_state =
  cx_world :: 'w
  cx_connected :: bool

record cx_config =
  cc_exchange :: string
  cc_symbol :: string
  cc_quote :: string
  cc_token :: string

text \<open>\<open>symbol.split("/")[0]\<close>\<close>

definition base_of :: "string \<Rightarrow> string" where
  "base_of symbol = takeWhile (\<lambda>c. c \<noteq> CHR ''/'') symbol"

definition new_cx :: "string \<Rightarrow> string \<Rightarrow> string \<Rightarrow> cx_config" where
  "new_cx exchange symbol quote =
     \<lparr>cc_exchange = exchange, cc_symbol = symbol, cc_quote = quote, cc_token = base_of symbol\<rparr>"

definition lib_call :: "('w \<Rightarrow> 'a result \<times> 'w) \<Rightarrow> ('w cx_state, 'a) eff" where
  "lib_call f s = (let (r, w) = f (cx_world s) in (r, s\<lparr>cx_world := w\<rparr>))"

definition time_now :: "'w ccxt_lib \<Rightarrow> ('w cx_state, real) eff" where
  "time_now lib = lib_call (\<lambda>w. let (t, w') = cx_time lib w in (Inr t, w'))"

definition connect :: "'w ccxt_lib \<Rightarrow> ('w cx_state, unit) eff" where
  "connect lib = seqE (lib_call (retry lib (cx_load_markets lib))) (modE (\<lambda>s. s\<lparr>cx_connected := True\<rparr>))"

definition disconnect :: "'w ccxt_lib \<Rightarrow> ('w cx_state, unit) eff" where
  "disconnect lib =
     seqE (catchE (lib_call (cx_close lib)) (\<lambda>_. ret ())) (modE (\<lambda>s. s\<lparr>cx_connected := False\<rparr>))"

definition reconnect :: "'w ccxt_lib \<Rightarrow> ('w cx_state, unit) eff" where
  "reconnect lib =
     seqE (modE (\<lambda>s. s\<lparr>cx_connected := False\<rparr>))
     (seqE (catchE (lib_call (cx_close lib)) (\<lambda>_. ret ()))
     (seqE (modE (\<lambda>s. s\<lparr>cx_world := cx_sleep lib 2 (cx_world s)\<rparr>))
       (connect lib)))"

text \<open>\<open>a or b\<close> on numbers that may be missing, and \<open>float\<close>, which raises on None.\<close>

definition or_num :: "real option \<Rightarrow> real option \<Rightarrow> real option" where
  "or_num x y = (case x of Some v \<Rightarrow> if v \<noteq> 0 then x else y | None \<Rightarrow> y)"

definition or_zero :: "real option \<Rightarrow> real" where
  "or_zero x = (case x of Some v \<Rightarrow> v | None \<Rightarrow> 0)"

definition py_float :: "real option \<Rightarrow> ('s, real) eff" where
  "py_float x = (case x of Some v \<Rightarrow> ret v | None \<Rightarrow> raiseE (OtherError ''TypeError''))"

text \<open>\<open>raw["timestamp"] / 1000.0 if raw["timestamp"] else time.time()\<close>\<close>

definition stamp :: "'w ccxt_lib \<Rightarrow> real option \<Rightarrow> ('w cx_state, real) eff" where
  "stamp lib t = (case or_num t None of Some v \<Rightarrow> ret (v / 1000) | None \<Rightarrow> time_now lib)"

definition cx_ticker :: "'w ccxt_lib \<Rightarrow> cx_config \<Rightarrow> ('w cx_state, ticker) eff" where
  "cx_ticker lib c =
     bindE (lib_call (retry lib (cx_fetch_ticker lib (cc_symbol c)))) (\<lambda>raw.
     bindE (py_float (or_num (rt_bid raw) (rt_last raw))) (\<lambda>bid.
     bindE (py_float (or_num (rt_ask raw) (rt_last raw))) (\<lambda>ask.
     bindE (py_float (rt_last raw)) (\<lambda>lst.
     bindE (stamp lib (rt_timestamp raw)) (\<lambda>ts.
       ret \<lparr>tk_bid = bid, tk_ask = ask, tk_mid = (bid + ask) / 2, tk_last = lst, tk_timestamp = ts\<rparr>)))))"

definition cx_candles :: "'w ccxt_lib \<Rightarrow> cx_config \<Rightarrow> string \<Rightarrow> nat \<Rightarrow> ('w cx_state, candle list) eff" where
  "cx_candles lib c timeframe limit =
     bindE (lib_call (retry lib (cx_fetch_ohlcv lib (cc_symbol c) timeframe limit))) (\<lambda>raw.
       ret (map (\<lambda>(ts, o', h, l, cl, v).
         \<lparr>cd_timestamp = ts / 1000, cd_open = o', cd_high = h, cd_low = l, cd_close = cl, cd_volume = v\<rparr>) raw))"

definition free_of :: "(string \<times> real option) list \<Rightarrow> string \<Rightarrow> real" where
  "free_of free cur = (case dict_get free cur of Some x \<Rightarrow> or_zero x | None \<Rightarrow> 0)"

definition cx_balance :: "'w ccxt_lib \<Rightarrow> cx_config \<Rightarrow> ('w cx_state, balance) eff" where
  "cx_balance lib c =
     bindE (lib_call (retry lib (cx_fetch_balance lib))) (\<lambda>free.
       ret \<lparr>bal_usd = free_of free (cc_quote c), bal_token = free_of free (cc_token c), bal_quote_currency = cc_quote c\<rparr>)"

definition parse_order :: "'w ccxt_lib \<Rightarrow> cx_config \<Rightarrow> raw_order \<Rightarrow> ('w cx_state, order) eff" where
  "parse_order lib c raw =
     (let price = or_zero (or_num (ro_price raw) (ro_average raw)); amount = or_zero (ro_amount raw)
      in bindE (stamp lib (ro_timestamp raw)) (\<lambda>ts.
        ret \<lparr>ord_id = ro_id raw, ord_exchange = cc_exchange c, ord_symbol = cc_symbol c, ord_side = ro_side raw,
             ord_price = price, ord_amount = amount, ord_amount_usd = price * amount,
             ord_status = (case ro_status raw of Some st \<Rightarrow> st | None \<Rightarrow> ''open''),
             ord_timestamp = ts, ord_filled_amount = or_zero (ro_filled raw),
             ord_filled_price = or_zero (ro_average raw), ord_fee = or_zero (ro_fee_cost raw),
             ord_fee_currency = (case ro_fee_currency raw of Some f \<Rightarrow> f | None \<Rightarrow> '''')\<rparr>))"

definition parse_fill :: "'w ccxt_lib \<Rightarrow> cx_config \<Rightarrow> raw_trade \<Rightarrow> ('w cx_state, fill) eff" where
  "parse_fill lib c raw =
     bindE (stamp lib (rw_timestamp raw)) (\<lambda>ts.
       ret \<lparr>fl_id = rw_id raw, fl_order_id = (case rw_order raw of Some i \<Rightarrow> i | None \<Rightarrow> ''''),
            fl_exchange = cc_exchange c, fl_symbol = cc_symbol c, fl_side = rw_side raw,
            fl_filled_price = or_zero (rw_price raw), fl_filled_amount = or_zero (rw_amount raw),
            fl_fee = or_zero (rw_fee_cost raw),
            fl_fee_currency = (case rw_fee_currency raw of Some f \<Rightarrow> f | None \<Rightarrow> ''''), fl_timestamp = ts,
            fl_pnl_usd = 0\<rparr>)"

definition cx_create :: "'w ccxt_lib \<Rightarrow> cx_config \<Rightarrow> string \<Rightarrow> real \<Rightarrow> real \<Rightarrow> ('w cx_state, order) eff" where
  "cx_create lib c side price amount =
     bindE (lib_call (retry lib (cx_create_limit_order lib (cc_symbol c) side amount price))) (parse_order lib c)"

definition cx_cancel :: "'w ccxt_lib \<Rightarrow> cx_config \<Rightarrow> string \<Rightarrow> ('w cx_state, unit) eff" where
  "cx_cancel lib c oid =
     catchE (lib_call (retry lib (cx_cancel_order lib oid (cc_symbol c))))
       (\<lambda>e. if e = OrderNotFound then ret () else raiseE e)"

definition cx_open_orders :: "'w ccxt_lib \<Rightarrow> cx_config \<Rightarrow> ('w cx_state, order list) eff" where
  "cx_open_orders lib c =
     bindE (lib_call (retry lib (cx_fetch_open_orders lib (cc_symbol c)))) (\<lambda>raw.
       for_collect (\<lambda>o'. bindE (parse_order lib c o') (\<lambda>x. ret (Some x))) raw)"

definition cx_cancel_all :: "'w ccxt_lib \<Rightarrow> cx_config \<Rightarrow> ('w cx_state, unit) eff" where
  "cx_cancel_all lib c =
     catchE (lib_call (retry lib (cx_cancel_all_orders lib (cc_symbol c))))
       (\<lambda>e. if e = NotSupported
            then bindE (cx_open_orders lib c) (for_each (\<lambda>o'. cx_cancel lib c (ord_id o')))
            else raiseE e)"

definition cx_fills :: "'w ccxt_lib \<Rightarrow> cx_config \<Rightarrow> real option \<Rightarrow> nat \<Rightarrow> ('w cx_state, fill list) eff" where
  "cx_fills lib c since limit =
     bindE (catchE
       (bindE (lib_call (retry lib (cx_fetch_my_trades lib (cc_symbol c)
           (map_option (\<lambda>t. py_int (t * 1000)) since) limit))) (\<lambda>raw. ret (Some raw)))
       (\<lambda>e. if e = NotSupported then ret None else raiseE e))
     (\<lambda>r. case r of None \<Rightarrow> ret [] | Some raw \<Rightarrow> for_collect (\<lambda>t. bindE (parse_fill lib c t) (\<lambda>x. ret (Some x))) raw)"

text \<open>The connector as the bot sees it.\<close>

definition ccxt_connector :: "'w ccxt_lib \<Rightarrow> cx_config \<Rightarrow> 'w cx_state connector" where
  "ccxt_connector lib c =
     \<lparr>is_connected = cx_connected, cn_connect = connect lib, cn_disconnect = disconnect lib,
      cn_reconnect = reconnect lib, fetch_ticker = cx_ticker lib c, fetch_candles = cx_candles lib c,
      fetch_balance = cx_balance lib c, create_limit_order = cx_create lib c, cancel_order = cx_cancel lib c,
      cancel_all_orders = cx_cancel_all lib c, fetch_open_orders = cx_open_orders lib c,
      fetch_fills = (\<lambda>since. cx_fills lib c since 100)\<rparr>"

section \<open>Retrying ends\<close>

lemma retry_from_first:
  "fst (call w) = Inr x \<or> fst (call w) = Inl e \<and> \<not> retryable e \<Longrightarrow> retry_from sleep call a k w = call w"
  by (cases k) (auto split: prod.split sum.split)

text \<open>A library whose answers are given, in a world that counts the calls and the seconds slept.\<close>

definition scripted :: "(nat \<Rightarrow> 'a result) \<Rightarrow> nat \<times> real \<Rightarrow> 'a result \<times> (nat \<times> real)" where
  "scripted r = (\<lambda>(n, t). (r n, (Suc n, t)))"

definition gives_up :: "'a result \<Rightarrow> bool" where
  "gives_up r \<longleftrightarrow> (case r of Inl e \<Rightarrow> \<not> retryable e | Inr _ \<Rightarrow> True)"

lemma retry_from_scripted:
  assumes "\<And>d n t. sleep d (n, t) = (n, t + d)"
  shows "\<exists>j \<le> k. retry_from sleep (scripted r) a k (n, t) = (r (n + j), (n + Suc j, t + 2 ^ (a + j) - 2 ^ a)) \<and>
    (\<forall>i < j. \<not> gives_up (r (n + i))) \<and> (j = k \<or> gives_up (r (n + j)))"
proof (induction k arbitrary: a n t)
  case 0
  show ?case by (simp add: scripted_def)
next
  case (Suc k)
  show ?case
  proof (cases "gives_up (r n)")
    case True
    then show ?thesis
      by (intro exI [of _ 0]) (auto simp: scripted_def gives_up_def split: sum.splits)
  next
    case False
    then obtain e where e: "r n = Inl e" "retryable e" by (auto simp: gives_up_def split: sum.splits)
    obtain j where j: "j \<le> k" "retry_from sleep (scripted r) (Suc a) k (Suc n, t + 2 ^ a) =
        (r (Suc n + j), (Suc n + Suc j, t + 2 ^ a + 2 ^ (Suc a + j) - 2 ^ Suc a))"
      "\<forall>i < j. \<not> gives_up (r (Suc n + i))" "j = k \<or> gives_up (r (Suc n + j))"
      using Suc.IH [of "Suc a" "Suc n" "t + 2 ^ a"] by blast
    have "retry_from sleep (scripted r) a (Suc k) (n, t) = retry_from sleep (scripted r) (Suc a) k (Suc n, t + 2 ^ a)"
      using e assms by (simp add: scripted_def)
    moreover have "\<forall>i < Suc j. \<not> gives_up (r (n + i))" using j(3) False by (auto simp: less_Suc_eq_0_disj)
    ultimately show ?thesis using j(1,2,4) by (intro exI [of _ "Suc j"]) (auto simp: algebra_simps)
  qed
qed

text \<open>
  C20. Retrying ends: whatever the library answers, a call is made at most four times; the answer handed on
  is that of the last call, every earlier one was a retryable error, and one less than a power
  of two seconds were slept, at most seven.
\<close>

theorem retry_bounded:
  assumes "\<And>d n t. cx_sleep lib d (n, t) = (n, t + d)"
  shows "\<exists>k \<le> 3. retry lib (scripted r) (0, 0) = (r k, (Suc k, 2 ^ k - 1)) \<and>
    (\<forall>i < k. \<not> gives_up (r i)) \<and> (k = 3 \<or> gives_up (r k))"
  using retry_from_scripted [of "cx_sleep lib" 3 r 0 0 0, OF assms] by (simp add: retry_def)

section \<open>Retrying an order places it again\<close>

text \<open>
  An exchange that accepts every order it is sent, but whose answers to the first \<open>f\<close> of them are lost:
  the world is the list of accepted orders and the number of answers still to be lost.
\<close>

lemma retry_from_loses:
  assumes "\<And>os f. call (os, f) = (if f = 0 then (Inr x, (os @ [y], 0)) else (Inl RequestTimeout, (os @ [y], f - 1)))"
    and "\<And>d w. sleep d w = w"
  shows "retry_from sleep call a k (os, f) =
    (if f \<le> k then Inr x else Inl RequestTimeout, (os @ replicate (min (Suc f) (Suc k)) y, f - Suc k :: nat))"
proof (induction k arbitrary: a os f)
  case 0
  then show ?case using assms(1) [of os f] by simp
next
  case (Suc k)
  show ?case
  proof (cases f)
    case 0
    then show ?thesis using assms(1) [of os 0] by simp
  next
    case (Suc g)
    with Suc.IH [of "Suc a" "os @ [y]" g] assms(1) [of os f] show ?thesis
      by (simp add: assms(2) replicate_app_Cons_same)
  qed
qed

text \<open>
  C18. A lost answer duplicates an order: if the exchange accepts every order it is sent and the answers to
  the first \<open>f\<close> requests are lost as timeouts, then placing one order leaves \<open>f + 1\<close> identical
  orders resting on the exchange, at most four.  With \<open>f\<close> at most three the call returns one
  order and the bot knows none of the others; with more it raises and the bot knows none of the four.
\<close>

theorem lost_answer_duplicates_order:
  assumes "\<And>sym sd a p os f. cx_create_limit_order lib sym sd a p (os, f) =
      (if f = 0 then (Inr (raw sd p a), (os @ [(sd, p, a)], 0))
       else (Inl RequestTimeout, (os @ [(sd, p, a)], f - 1)))"
    and "\<And>d w. cx_sleep lib d w = w" and "ro_timestamp (raw side price amount) = Some ts" and "ts \<noteq> 0"
  shows "\<exists>ord. cx_create lib c side price amount \<lparr>cx_world = (os, f :: nat), cx_connected = b\<rparr> =
    (if f \<le> 3 then Inr ord else Inl RequestTimeout,
     \<lparr>cx_world = (os @ replicate (min (f + 1) 4) (side, price, amount), f - 4), cx_connected = b\<rparr>)"
proof -
  have "retry_from (cx_sleep lib) (cx_create_limit_order lib (cc_symbol c) side amount price) 0 3 (os, f) =
      (if f \<le> 3 then Inr (raw side price amount) else Inl RequestTimeout,
       (os @ replicate (min (Suc f) (Suc 3)) (side, price, amount), f - Suc 3))"
    by (rule retry_from_loses) (simp_all add: assms(1,2))
  then have "retry lib (cx_create_limit_order lib (cc_symbol c) side amount price) (os, f) =
      (if f \<le> 3 then Inr (raw side price amount) else Inl RequestTimeout,
       (os @ replicate (min (f + 1) 4) (side, price, amount), f - 4))"
    by (simp add: retry_def)
  then show ?thesis
    using assms(3,4)
    by (cases "f \<le> 3")
      (simp_all add: cx_create_def lib_call_def bindE_def parse_order_def Let_def stamp_def or_num_def ret_def)
qed

section \<open>The connection flag\<close>

text \<open>
  What the run loop of a bot relies on when a tick fails: the flag tells the outcome of the last
  attempt to connect.
\<close>

locale connection =
  fixes up :: "'s \<Rightarrow> bool"
    and conn disc recon :: "('s, unit) eff"
  assumes conn_up: "conn s = (Inr (), s') \<Longrightarrow> up s'"
    and disc_down: "disc s = (r, s') \<Longrightarrow> r = Inr () \<and> \<not> up s'"
    and recon_flag: "recon s = (r, s') \<Longrightarrow> up s' \<longleftrightarrow> r = Inr ()"
begin

text \<open>A lost connection is noticed: after a failed reconnect the flag is down, so the next failed tick tries again.\<close>

lemma failed_recon: "recon s = (Inl e, s') \<Longrightarrow> \<not> up s'"
  using recon_flag by fastforce

lemma recon_after_disc: "disc s = (r, s') \<Longrightarrow> recon s' = (Inr (), s'') \<Longrightarrow> up s''"
  using recon_flag by fastforce

end

lemma lib_call_connected: "lib_call f s = (r, s') \<Longrightarrow> cx_connected s' = cx_connected s"
  by (auto simp: lib_call_def split: prod.splits)

lemma connect_flag: "connect lib s = (r, s') \<Longrightarrow> cx_connected s' = (if r = Inr () then True else cx_connected s)"
  by (auto simp: connect_def seqE_def bindE_def modE_def dest!: lib_call_connected split: prod.splits sum.splits)

lemma close_run: "\<exists>w. catchE (lib_call (cx_close lib)) (\<lambda>_. ret ()) s = (Inr (), s\<lparr>cx_world := w\<rparr>)"
  by (cases "cx_close lib (cx_world s)"; cases "fst (cx_close lib (cx_world s))")
    (auto simp: catchE_def lib_call_def ret_def)

lemma disconnect_run: "\<exists>w. disconnect lib s = (Inr (), s\<lparr>cx_world := w, cx_connected := False\<rparr>)"
proof -
  obtain w where "catchE (lib_call (cx_close lib)) (\<lambda>_. ret ()) s = (Inr (), s\<lparr>cx_world := w\<rparr>)"
    using close_run [of lib s] by (elim exE)
  then show ?thesis by (auto simp: disconnect_def seqE_def bindE_def modE_def)
qed

lemma reconnect_run: "\<exists>w. reconnect lib s = connect lib (s\<lparr>cx_connected := False, cx_world := w\<rparr>)"
proof -
  obtain w where "catchE (lib_call (cx_close lib)) (\<lambda>_. ret ()) (s\<lparr>cx_connected := False\<rparr>) =
      (Inr (), s\<lparr>cx_connected := False, cx_world := w\<rparr>)"
    using close_run [of lib "s\<lparr>cx_connected := False\<rparr>"] by (elim exE)
  then show ?thesis by (auto simp: reconnect_def seqE_def bindE_def modE_def)
qed

interpretation rest: connection cx_connected "connect lib" "disconnect lib" "reconnect lib"
  for lib :: "'w ccxt_lib"
proof
  fix s s' :: "'w cx_state" and r :: "unit result"
  show "connect lib s = (Inr (), s') \<Longrightarrow> cx_connected s'" using connect_flag by fastforce
  show "disconnect lib s = (r, s') \<Longrightarrow> r = Inr () \<and> \<not> cx_connected s'"
    using disconnect_run [of lib s] by auto
  show "reconnect lib s = (r, s') \<Longrightarrow> cx_connected s' \<longleftrightarrow> r = Inr ()"
    using reconnect_run [of lib s] by (auto dest!: connect_flag [OF sym] split: if_splits)
qed

section \<open>Instances\<close>

definition quiet_lib :: "(nat \<times> real) ccxt_lib" where
  "quiet_lib =
     \<lparr>cx_load_markets = (\<lambda>w. (Inr (), w)), cx_close = (\<lambda>w. (Inr (), w)),
      cx_fetch_ticker = (\<lambda>_ w. (Inl NetworkError, w)), cx_fetch_ohlcv = (\<lambda>_ _ _ w. (Inr [], w)),
      cx_fetch_balance = (\<lambda>w. (Inr [], w)), cx_create_limit_order = (\<lambda>_ _ _ _ w. (Inl NetworkError, w)),
      cx_cancel_order = (\<lambda>_ _ w. (Inr (), w)), cx_cancel_all_orders = (\<lambda>_ w. (Inl NotSupported, w)),
      cx_fetch_open_orders = (\<lambda>_ w. (Inr [], w)), cx_fetch_my_trades = (\<lambda>_ _ _ w. (Inl NotSupported, w)),
      cx_sleep = (\<lambda>d (n, t). (n, t + d)), cx_time = (\<lambda>w. (snd w, w))\<rparr>"

lemma retry_bounded_witness:
  "\<exists>k \<le> 3. retry quiet_lib (scripted (\<lambda>n. if n < 2 then Inl NetworkError else Inr (0 :: nat))) (0, 0) =
     (if k < 2 then Inl NetworkError else Inr 0, (Suc k, 2 ^ k - 1)) \<and>
    (\<forall>i < k. \<not> gives_up (if i < 2 then Inl NetworkError else Inr (0 :: nat))) \<and>
    (k = 3 \<or> gives_up (if k < 2 then Inl NetworkError else Inr (0 :: nat)))"
  by (rule retry_bounded) (simp add: quiet_lib_def)

definition accepted_raw :: "string \<Rightarrow> real \<Rightarrow> real \<Rightarrow> raw_order" where
  "accepted_raw side price amount =
     \<lparr>ro_id = ''1'', ro_side = side, ro_price = Some price, ro_average = None, ro_amount = Some amount,
      ro_filled = None, ro_status = None, ro_timestamp = Some 1000, ro_fee_cost = None, ro_fee_currency = None\<rparr>"

definition lossy_lib :: "((string \<times> real \<times> real) list \<times> nat) ccxt_lib" where
  "lossy_lib =
     \<lparr>cx_load_markets = (\<lambda>w. (Inr (), w)), cx_close = (\<lambda>w. (Inr (), w)),
      cx_fetch_ticker = (\<lambda>_ w. (Inl NetworkError, w)), cx_fetch_ohlcv = (\<lambda>_ _ _ w. (Inr [], w)),
      cx_fetch_balance = (\<lambda>w. (Inr [], w)),
      cx_create_limit_order = (\<lambda>_ side amount price (os, f).
        if f = 0 then (Inr (accepted_raw side price amount), (os @ [(side, price, amount)], 0))
        else (Inl RequestTimeout, (os @ [(side, price, amount)], f - 1))),
      cx_cancel_order = (\<lambda>_ _ w. (Inr (), w)), cx_cancel_all_orders = (\<lambda>_ w. (Inr (), w)),
      cx_fetch_open_orders = (\<lambda>_ w. (Inr [], w)), cx_fetch_my_trades = (\<lambda>_ _ _ w. (Inr [], w)),
      cx_sleep = (\<lambda>d w. w), cx_time = (\<lambda>w. (0, w))\<rparr>"

lemma lost_answer_duplicates_order_witness:
  "(\<exists>ord. cx_create lossy_lib (new_cx ''mexc'' ''ALKIMI/USDT'' ''USDT'') ''buy'' 2 10
      \<lparr>cx_world = ([], 1), cx_connected = True\<rparr> =
    (Inr ord, \<lparr>cx_world = ([(''buy'', 2, 10), (''buy'', 2, 10)], 0), cx_connected = True\<rparr>)) \<and>
   cx_create lossy_lib (new_cx ''mexc'' ''ALKIMI/USDT'' ''USDT'') ''buy'' 2 10
      \<lparr>cx_world = ([], 5), cx_connected = True\<rparr> =
    (Inl RequestTimeout, \<lparr>cx_world = (replicate 4 (''buy'', 2, 10), 1), cx_connected = True\<rparr>)"
proof -
  have "\<exists>ord. cx_create lossy_lib (new_cx ''mexc'' ''ALKIMI/USDT'' ''USDT'') ''buy'' 2 10
      \<lparr>cx_world = ([], f), cx_connected = True\<rparr> =
    (if f \<le> 3 then Inr ord else Inl RequestTimeout,
     \<lparr>cx_world = ([] @ replicate (min (f + 1) 4) (''buy'', 2, 10), f - 4), cx_connected = True\<rparr>)" for f
    by (rule lost_answer_duplicates_order [where raw = accepted_raw and ts = "1000"])
      (simp_all add: lossy_lib_def accepted_raw_def)
  from this [of 1] this [of 5] show ?thesis by (simp add: numeral_2_eq_2)
qed

end
