(* ===== verification/CppConnector.thy ===== *)
theory CppConnector
  imports CcxtConnector
begin

text \<open>
  \<open>exchange/cpp_connector.py\<close>: the wrapper around a compiled connector.  The compiled object is a
  parameter, \<open>cpp_lib\<close>, one blocking function per method; its structs are the records \<open>cpp_...\<close>.
  The thread pool only moves the call off the event loop, so \<open>_run\<close> is the call.
\<close>

section \<open>The library and its structs\<close>

record cpp_ticker =
  ct_bid :: real
  ct_ask :: real
  ct_mid :: real
  ct_last :: real
  ct_timestamp :: real

record cpp_candle =
  ca_timestamp :: real
  ca_open :: real
  ca_high :: real
  ca_low :: real
  ca_close :: real
  ca_volume :: real

record cpp_balance =
  cb_usd :: real
  cb_token :: real
  cb_quote_currency :: string

record cpp_order =
  co_id :: string
  co_exchange :: string
  co_symbol :: string
  co_side :: string
  co_price :: real
  co_amount :: real
  co_amount_usd :: real
  co_status :: string
  co_timestamp :: real
  co_filled_amount :: real
  co_filled_price :: real
  co_fee :: real
  co_fee_currency :: string

record cpp_fill =
  cf_id :: string
  cf_order_id :: string
  cf_exchange :: string
  cf_symbol :: string
  cf_side :: string
  cf_filled_price :: real
  cf_filled_amount :: real
  cf_fee :: real
  cf_fee_currency :: string
  cf_timestamp :: real
  cf_pnl_usd :: real

record 'w cpp_lib =
  cp_connect :: "'w \<Rightarrow> unit result \<times> 'w"
  cp_disconnect :: "'w \<Rightarrow> unit result \<times> 'w"
  cp_fetch_ticker :: "'w \<Rightarrow> cpp_ticker result \<times> 'w"
  cp_fetch_candles :: "string \<Rightarrow> nat \<Rightarrow> 'w \<Rightarrow> cpp_candle list result \<times> 'w"
  cp_fetch_balance :: "'w \<Rightarrow> cpp_balance result \<times> 'w"
  cp_create_limit_order :: "string \<Rightarrow> real \<Rightarrow> real \<Rightarrow> 'w \<Rightarrow> cpp_order result \<times> 'w"
  cp_cancel_order :: "string \<Rightarrow> 'w \<Rightarrow> unit result \<times> 'w"
  cp_cancel_all_orders :: "'w \<Rightarrow> unit result \<times> 'w"
  cp_fetch_open_orders :: "'w \<Rightarrow> cpp_order list result \<times> 'w"
  cp_fetch_fills :: "real \<Rightarrow> nat \<Rightarrow> 'w \<Rightarrow> cpp_fill list result \<times> 'w"
  cp_sleep :: "real \<Rightarrow> 'w \<Rightarrow> 'w"

section \<open>Conversions\<close>

definition to_ticker :: "cpp_ticker \<Rightarrow> ticker" where
  "to_ticker t = \<lparr>tk_bid = ct_bid t, tk_ask = ct_ask t, tk_mid = ct_mid t, tk_last = ct_last t, tk_timestamp = ct_timestamp t\<rparr>"

definition to_candle :: "cpp_candle \<Rightarrow> candle" where
  "to_candle c = \<lparr>cd_timestamp = ca_timestamp c, cd_open = ca_open c, cd_high = ca_high c, cd_low = ca_low c,
     cd_close = ca_close c, cd_volume = ca_volume c\<rparr>"

definition to_balance :: "cpp_balance \<Rightarrow> balance" where
  "to_balance b = \<lparr>bal_usd = cb_usd b, bal_token = cb_token b, bal_quote_currency = cb_quote_currency b\<rparr>"

definition to_order :: "cpp_order \<Rightarrow> order" where
  "to_order x =
     \<lparr>ord_id = co_id x, ord_exchange = co_exchange x, ord_symbol = co_symbol x, ord_side = co_side x,
      ord_price = co_price x, ord_amount = co_amount x, ord_amount_usd = co_amount_usd x,
      ord_status = co_status x, ord_timestamp = co_timestamp x, ord_filled_amount = co_filled_amount x,
      ord_filled_price = co_filled_price x, ord_fee = co_fee x, ord_fee_currency = co_fee_currency x\<rparr>"

definition to_fill :: "cpp_fill \<Rightarrow> fill" where
  "to_fill x =
     \<lparr>fl_id = cf_id x, fl_order_id = cf_order_id x, fl_exchange = cf_exchange x, fl_symbol = cf_symbol x,
      fl_side = cf_side x, fl_filled_price = cf_filled_price x, fl_filled_amount = cf_filled_amount x,
      fl_fee = cf_fee x, fl_fee_currency = cf_fee_currency x, fl_timestamp = cf_timestamp x,
      fl_pnl_usd = cf_pnl_usd x\<rparr>"

section \<open>The wrapper\<close>

definition cpp_connect :: "'w cpp_lib \<Rightarrow> ('w cx_state, unit) eff" where
  "cpp_connect lib =
     seqE (catchE (lib_call (cp_connect lib))
             (\<lambda>e. seqE (modE (\<lambda>s. s\<lparr>cx_connected := False\<rparr>)) (raiseE e)))
       (modE (\<lambda>s. s\<lparr>cx_connected := True\<rparr>))"

definition cpp_disconnect :: "'w cpp_lib \<Rightarrow> ('w cx_state, unit) eff" where
  "cpp_disconnect lib =
     seqE (catchE (lib_call (cp_disconnect lib)) (\<lambda>_. ret ())) (modE (\<lambda>s. s\<lparr>cx_connected := False\<rparr>))"

definition cpp_reconnect :: "'w cpp_lib \<Rightarrow> ('w cx_state, unit) eff" where
  "cpp_reconnect lib =
     seqE (cpp_disconnect lib)
     (seqE (modE (\<lambda>s. s\<lparr>cx_world := cp_sleep lib 2 (cx_world s)\<rparr>)) (cpp_connect lib))"

definition cpp_fetch_ticker :: "'w cpp_lib \<Rightarrow> ('w cx_state, ticker) eff" where
  "cpp_fetch_ticker lib = bindE (lib_call (cp_fetch_ticker lib)) (\<lambda>t. ret (to_ticker t))"

definition cpp_fetch_candles :: "'w cpp_lib \<Rightarrow> string \<Rightarrow> nat \<Rightarrow> ('w cx_state, candle list) eff" where
  "cpp_fetch_candles lib timeframe limit =
     bindE (lib_call (cp_fetch_candles lib timeframe limit)) (\<lambda>cs. ret (map to_candle cs))"

definition cpp_fetch_balance :: "'w cpp_lib \<Rightarrow> ('w cx_state, balance) eff" where
  "cpp_fetch_balance lib = bindE (lib_call (cp_fetch_balance lib)) (\<lambda>b. ret (to_balance b))"

definition cpp_create_limit_order :: "'w cpp_lib \<Rightarrow> string \<Rightarrow> real \<Rightarrow> real \<Rightarrow> ('w cx_state, order) eff" where
  "cpp_create_limit_order lib side price amount =
     bindE (lib_call (cp_create_limit_order lib side price amount)) (\<lambda>x. ret (to_order x))"

definition cpp_fetch_open_orders :: "'w cpp_lib \<Rightarrow> ('w cx_state, order list) eff" where
  "cpp_fetch_open_orders lib = bindE (lib_call (cp_fetch_open_orders lib)) (\<lambda>xs. ret (map to_order xs))"

text \<open>No lower bound is \<open>-1.0\<close> for the library.\<close>

definition cpp_fetch_fills :: "'w cpp_lib \<Rightarrow> real option \<Rightarrow> nat \<Rightarrow> ('w cx_state, fill list) eff" where
  "cpp_fetch_fills lib since limit =
     bindE (lib_call (cp_fetch_fills lib (case since of Some t \<Rightarrow> t | None \<Rightarrow> - 1) limit)) (\<lambda>fs.
       ret (map to_fill fs))"

definition cpp_connector :: "'w cpp_lib \<Rightarrow> 'w cx_state connector" where
  "cpp_connector lib =
     \<lparr>is_connected = cx_connected, cn_connect = cpp_connect lib, cn_disconnect = cpp_disconnect lib,
      cn_reconnect = cpp_reconnect lib, fetch_ticker = cpp_fetch_ticker lib,
      fetch_candles = cpp_fetch_candles lib, fetch_balance = cpp_fetch_balance lib,
      create_limit_order = cpp_create_limit_order lib, cancel_order = (\<lambda>i. lib_call (cp_cancel_order lib i)),
      cancel_all_orders = lib_call (cp_cancel_all_orders lib), fetch_open_orders = cpp_fetch_open_orders lib,
      fetch_fills = (\<lambda>since. cpp_fetch_fills lib since 100)\<rparr>"

section \<open>The connection flag\<close>

lemma cpp_connect_flag:
  assumes "cpp_connect lib s = (r, s')"
  shows "cx_connected s' \<longleftrightarrow> r = Inr ()"
proof -
  obtain q w where l: "lib_call (cp_connect lib) s = (q, s\<lparr>cx_world := w\<rparr>)"
    by (cases "cp_connect lib (cx_world s)") (simp add: lib_call_def)
  show ?thesis
    using assms by (cases q) (auto simp: cpp_connect_def seqE_def bindE_def catchE_def modE_def raiseE_def l)
qed

lemma cpp_disconnect_run: "\<exists>w. cpp_disconnect lib s = (Inr (), s\<lparr>cx_world := w, cx_connected := False\<rparr>)"
proof -
  obtain q w where l: "lib_call (cp_disconnect lib) s = (q, s\<lparr>cx_world := w\<rparr>)"
    by (cases "cp_disconnect lib (cx_world s)") (simp add: lib_call_def)
  show ?thesis by (cases q) (auto simp: cpp_disconnect_def seqE_def bindE_def catchE_def modE_def ret_def l)
qed

lemma cpp_reconnect_run: "\<exists>w. cpp_reconnect lib s = cpp_connect lib (s\<lparr>cx_connected := False, cx_world := w\<rparr>)"
  using cpp_disconnect_run [of lib s] by (auto simp: cpp_reconnect_def seqE_def bindE_def modE_def)

interpretation native: connection cx_connected "cpp_connect lib" "cpp_disconnect lib" "cpp_reconnect lib"
  for lib :: "'w cpp_lib"
proof
  fix s s' :: "'w cx_state" and r :: "unit result"
  show "cpp_connect lib s = (Inr (), s') \<Longrightarrow> cx_connected s'" using cpp_connect_flag by fastforce
  show "cpp_disconnect lib s = (r, s') \<Longrightarrow> r = Inr () \<and> \<not> cx_connected s'"
    using cpp_disconnect_run [of lib s] by auto
  show "cpp_reconnect lib s = (r, s') \<Longrightarrow> cx_connected s' \<longleftrightarrow> r = Inr ()"
    using cpp_reconnect_run [of lib s] by (auto dest!: cpp_connect_flag [OF sym])
qed

text \<open>
  The REST connector and the compiled one keep the same contract towards the bot: after
  \<open>reconnect\<close> the connection flag is up exactly if no error was raised, so the run loop, which
  reconnects when the flag is down after a failed tick, tries again as long as it has to.
\<close>

theorem connectors_agree_on_the_flag:
  "(case cn_reconnect (ccxt_connector lib c) s of (r, s') \<Rightarrow>
      is_connected (ccxt_connector lib c) s' = (r = Inr ())) \<and>
   (case cn_reconnect (cpp_connector clib) t of (r, t') \<Rightarrow>
      is_connected (cpp_connector clib) t' = (r = Inr ()))"
  by (auto simp: ccxt_connector_def cpp_connector_def rest.recon_flag native.recon_flag split: prod.split)

end
