(* ===== verification/WsConnector.thy ===== *)
theory WsConnector
  imports PaperTrader CcxtConnector "HOL-Library.Sublist"
begin

text \<open>
  \<open>exchange/ccxt_ws_connector.py\<close>: the streaming connector.  Its two background tasks are loops around
  a library call that waits for the next message.  What a wait ends with is an \<open>outcome\<close>: a message, an
  exception, or the cancellation of the task, and one turn of a loop is a function of the outcome; a loop
  is run on the list of the outcomes of its waits.  The network errors the loops count are
  \<open>ccxt.NetworkError\<close> and its subclasses, which are the errors that \<open>retryable\<close> accepts.
\<close>

section \<open>State\<close>

datatype 'a outcome = Message 'a | Failure exn | Cancelled

text \<open>A raw book: entries are arrays of numbers, normally of a price and a quantity.\<close>

record raw_book =
  rb_bids :: "real list list option"
  rb_asks :: "real list list option"
  rb_timestamp :: "real option"

record raw_quote =
  rq_bid :: "real option"
  rq_ask :: "real option"
  rq_last :: "real option"
  rq_timestamp :: "real option"

record ws_state =
  ws_exchange :: string
  ws_connected :: bool
  book_queue :: "order_book aqueue"
  ticker_queue :: "ticker aqueue"
  book_task :: bool
  ticker_task :: bool

definition new_ws :: "string \<Rightarrow> ws_state" where
  "new_ws ex =
     \<lparr>ws_exchange = ex, ws_connected = False, book_queue = new_queue 1, ticker_queue = new_queue 1,
      book_task = False, ticker_task = False\<rparr>"

section \<open>Lifecycle\<close>

text \<open>
  The tasks that are not done are cancelled; their exceptions and those of \<open>close\<close> are swallowed.
\<close>

definition ws_disconnect :: "ws_state \<Rightarrow> ws_state" where
  "ws_disconnect s = s\<lparr>book_task := False, ticker_task := False, ws_connected := False\<rparr>"

definition ws_connect :: "ws_state \<Rightarrow> ws_state" where
  "ws_connect s = (ws_disconnect s)\<lparr>book_task := True, ticker_task := True, ws_connected := True\<rparr>"

definition ws_watch_order_book :: "ws_state \<Rightarrow> order_book option \<times> ws_state" where
  "ws_watch_order_book s =
     (case get_nowait (book_queue s) of
        None \<Rightarrow> (None, s)
      | Some (b, q) \<Rightarrow> (Some b, s\<lparr>book_queue := q\<rparr>))"

definition ws_watch_ticker :: "ws_state \<Rightarrow> ticker option \<times> ws_state" where
  "ws_watch_ticker s =
     (case get_nowait (ticker_queue s) of
        None \<Rightarrow> (None, s)
      | Some (t, q) \<Rightarrow> (Some t, s\<lparr>ticker_queue := q\<rparr>))"

section \<open>Messages\<close>

text \<open>\<open>[(float(p), float(q)) for p, q in raw or [] if q > 0]\<close>; an entry of another length raises.\<close>

fun read_side :: "real list list \<Rightarrow> (real \<times> real) list result" where
  "read_side [] = Inr []"
| "read_side ([p, q] # es) = bindR (read_side es) (\<lambda>xs. Inr (if q > 0 then (p, q) # xs else xs))"
| "read_side (_ # _) = Inl (ValueError ''unpack'')"

definition or_now :: "real option \<Rightarrow> real \<Rightarrow> real" where
  "or_now t now = (case or_num t None of Some v \<Rightarrow> v / 1000 | None \<Rightarrow> now)"

text \<open>\<open>now\<close> is what \<open>now_s\<close> returns if it is asked.  Both sorts are stable.\<close>

definition read_book :: "string \<Rightarrow> real \<Rightarrow> raw_book \<Rightarrow> order_book result" where
  "read_book ex now raw =
     bindR (read_side (case rb_bids raw of Some b \<Rightarrow> b | None \<Rightarrow> [])) (\<lambda>bids.
     bindR (read_side (case rb_asks raw of Some a \<Rightarrow> a | None \<Rightarrow> [])) (\<lambda>asks.
       Inr \<lparr>ob_exchange = ex, ob_bids = sort_key (\<lambda>x. - fst x) bids, ob_asks = sort_key fst asks,
            ob_timestamp = or_now (rb_timestamp raw) now\<rparr>))"

definition read_quote :: "real \<Rightarrow> raw_quote \<Rightarrow> ticker" where
  "read_quote now raw =
     (let bid = or_zero (rq_bid raw); ask = or_zero (rq_ask raw); lst = or_zero (rq_last raw)
      in \<lparr>tk_bid = bid, tk_ask = ask,
          tk_mid = (if bid \<noteq> 0 \<and> ask \<noteq> 0 then (bid + ask) / 2 else lst),
          tk_last = lst, tk_timestamp = or_now (rq_timestamp raw) now\<rparr>)"

text \<open>\<open>if q.full(): q.get_nowait()\<close>, then \<open>await q.put(x)\<close>, which finds room.\<close>

definition overwrite :: "'a \<Rightarrow> 'a aqueue \<Rightarrow> 'a aqueue" where
  "overwrite x q =
     (let q' = (if 0 < q_maxsize q \<and> q_maxsize q \<le> length (q_items q)
                then (case get_nowait q of None \<Rightarrow> q | Some (_, q') \<Rightarrow> q') else q)
      in offer put_nowait x q')"

section \<open>The loops\<close>

text \<open>How a turn ends: with the loop's \<open>retries\<close> and the seconds it sleeps, or with the loop over.\<close>

datatype turn = Again nat real | Over

definition network_turn :: "nat \<Rightarrow> turn" where
  "network_turn retries = (if Suc retries > 5 then Over else Again (Suc retries) (1 * 2 ^ retries))"

fun book_turn :: "(real \<times> raw_book) outcome \<Rightarrow> nat \<Rightarrow> ws_state \<Rightarrow> turn \<times> ws_state" where
  "book_turn Cancelled retries s = (Over, s)"
| "book_turn (Message (now, raw)) retries s =
     (case read_book (ws_exchange s) now raw of
        Inr b \<Rightarrow> (Again 0 0, s\<lparr>book_queue := overwrite b (book_queue s)\<rparr>)
      | Inl e \<Rightarrow> (Again 0 1, s))"
| "book_turn (Failure e) retries s =
     (if retryable e
      then (network_turn retries, if network_turn retries = Over then s\<lparr>ws_connected := False\<rparr> else s)
      else (Again retries 1, s))"

fun ticker_turn :: "(real \<times> raw_quote) outcome \<Rightarrow> nat \<Rightarrow> ws_state \<Rightarrow> turn \<times> ws_state" where
  "ticker_turn Cancelled retries s = (Over, s)"
| "ticker_turn (Message (now, raw)) retries s =
     (Again 0 0, s\<lparr>ticker_queue := overwrite (read_quote now raw) (ticker_queue s)\<rparr>)"
| "ticker_turn (Failure e) retries s =
     (if retryable e then (network_turn retries, s) else (Again retries 1, s))"

text \<open>
  A loop on the outcomes of its waits: whether it still runs, the seconds slept, the state.
\<close>

fun watch_loop :: "('a outcome \<Rightarrow> nat \<Rightarrow> ws_state \<Rightarrow> turn \<times> ws_state) \<Rightarrow> 'a outcome list \<Rightarrow> nat \<Rightarrow> ws_state \<Rightarrow> bool \<times> real \<times> ws_state" where
  "watch_loop turn [] retries s = (True, 0, s)"
| "watch_loop turn (x # xs) retries s =
     (case turn x retries s of
        (Over, s') \<Rightarrow> (False, 0, s')
      | (Again r d, s') \<Rightarrow> (case watch_loop turn xs r s' of (go, t, s'') \<Rightarrow> (go, d + t, s'')))"

definition watch_book_loop :: "(real \<times> raw_book) outcome list \<Rightarrow> ws_state \<Rightarrow> bool \<times> real \<times> ws_state" where
  "watch_book_loop xs s =
     (case watch_loop book_turn xs 0 s of (go, t, s') \<Rightarrow> (go, t, if go then s' else s'\<lparr>book_task := False\<rparr>))"

definition watch_ticker_loop :: "(real \<times> raw_quote) outcome list \<Rightarrow> ws_state \<Rightarrow> bool \<times> real \<times> ws_state" where
  "watch_ticker_loop xs s =
     (case watch_loop ticker_turn xs 0 s of (go, t, s') \<Rightarrow> (go, t, if go then s' else s'\<lparr>ticker_task := False\<rparr>))"

section \<open>Published books\<close>

definition book_shape :: "order_book \<Rightarrow> bool" where
  "book_shape b \<longleftrightarrow> sorted_wrt (\<lambda>x y. fst x \<ge> fst y) (ob_bids b) \<and> sorted_wrt (\<lambda>x y. fst x \<le> fst y) (ob_asks b) \<and>
     (\<forall>(p, q) \<in> set (ob_bids b) \<union> set (ob_asks b). q > 0)"

definition ws_ok :: "ws_state \<Rightarrow> bool" where
  "ws_ok s \<longleftrightarrow> q_maxsize (book_queue s) = 1 \<and> length (q_items (book_queue s)) \<le> 1 \<and>
     list_all book_shape (q_items (book_queue s)) \<and>
     q_maxsize (ticker_queue s) = 1 \<and> length (q_items (ticker_queue s)) \<le> 1"

lemma read_side_pos: "read_side es = Inr xs \<Longrightarrow> (p, q) \<in> set xs \<Longrightarrow> q > 0 \<and> [p, q] \<in> set es"
  by (induction es arbitrary: xs rule: read_side.induct) (auto simp: bindR_eq_Inr split: if_splits)

lemma read_side_complete: "read_side es = Inr xs \<Longrightarrow> [p, q] \<in> set es \<Longrightarrow> q > 0 \<Longrightarrow> (p, q) \<in> set xs"
  by (induction es arbitrary: xs rule: read_side.induct) (auto simp: bindR_eq_Inr split: if_splits)

lemma sorted_bids: "sorted_wrt (\<lambda>x y. fst y \<le> fst x) (sort_key (\<lambda>x :: real \<times> real. - fst x) xs)"
  using sorted_sort_key [of "\<lambda>x :: real \<times> real. - fst x" xs] by (simp add: sorted_map)

lemma sorted_asks: "sorted_wrt (\<lambda>x y. fst x \<le> fst y) (sort_key (fst :: real \<times> real \<Rightarrow> real) xs)"
  using sorted_sort_key [of fst xs] by (simp add: sorted_map)

lemma read_book_shape: "read_book ex now raw = Inr b \<Longrightarrow> book_shape b"
  using sorted_bids sorted_asks
  by (auto simp: read_book_def bindR_eq_Inr book_shape_def dest: read_side_pos)

lemma overwrite_items:
  "q_maxsize q = 1 \<Longrightarrow> length (q_items q) \<le> 1 \<Longrightarrow> overwrite x q = q\<lparr>q_items := [x]\<rparr>"
  by (cases "q_items q") (auto simp: overwrite_def get_nowait_def offer_def put_nowait_def Let_def)

lemma book_turn_ok: "ws_ok s \<Longrightarrow> ws_ok (snd (book_turn x r s))"
  by (cases "(x, r, s)" rule: book_turn.cases)
    (auto simp: ws_ok_def overwrite_items dest: read_book_shape split: sum.split)

lemma ticker_turn_ok: "ws_ok s \<Longrightarrow> ws_ok (snd (ticker_turn x r s))"
  by (cases "(x, r, s)" rule: ticker_turn.cases) (auto simp: ws_ok_def overwrite_items)

text \<open>The two ways a turn can go on.\<close>

lemma watch_loop_Over: "turn x r s = (Over, s') \<Longrightarrow> watch_loop turn (x # xs) r s = (False, 0, s')"
  by simp

lemma watch_loop_Again:
  "turn x r s = (Again r' d, s') \<Longrightarrow> watch_loop turn xs r' s' = (go, t, s'') \<Longrightarrow>
   watch_loop turn (x # xs) r s = (go, d + t, s'')"
  by simp

lemma watch_loop_keeps:
  assumes "\<And>x r s. P s \<Longrightarrow> P (snd (turn x r s))"
  shows "P s \<Longrightarrow> watch_loop turn xs r s = (go, t, s') \<Longrightarrow> P s'"
proof (induction xs arbitrary: r s go t s')
  case (Cons x xs)
  obtain k s1 where k: "turn x r s = (k, s1)" by fastforce
  with assms [OF Cons.prems(1), of x r] have P1: "P s1" by simp
  show ?case
  proof (cases k)
    case (Again r' d)
    obtain go' t' s2 where "watch_loop turn xs r' s1 = (go', t', s2)" by (metis prod_cases3)
    with Cons.IH [OF P1 this] Cons.prems(2) k Again show ?thesis by simp
  qed (use k Cons.prems P1 in simp)
qed simp

lemma watch_book_loop_ok:
  assumes "ws_ok s" and "watch_book_loop xs s = (go, t, s')"
  shows "ws_ok s'"
proof -
  obtain g u v where w: "watch_loop book_turn xs 0 s = (g, u, v)" by (metis prod_cases3)
  have "ws_ok v" using watch_loop_keeps [where P = ws_ok, OF book_turn_ok assms(1) w] .
  with assms(2) w show ?thesis by (auto simp: watch_book_loop_def ws_ok_def)
qed

lemma watch_ticker_loop_ok:
  assumes "ws_ok s" and "watch_ticker_loop xs s = (go, t, s')"
  shows "ws_ok s'"
proof -
  obtain g u v where w: "watch_loop ticker_turn xs 0 s = (g, u, v)" by (metis prod_cases3)
  have "ws_ok v" using watch_loop_keeps [where P = ws_ok, OF ticker_turn_ok assms(1) w] .
  with assms(2) w show ?thesis by (auto simp: watch_ticker_loop_def ws_ok_def)
qed

lemma ws_ok_start: "ws_ok (ws_connect (new_ws ex))"
  by (simp add: ws_ok_def ws_connect_def ws_disconnect_def new_ws_def new_queue_def)

lemma book_shape_best_bid:
  "book_shape b \<Longrightarrow> (p, q) \<in> set (ob_bids b) \<Longrightarrow> q > 0 \<and> (\<exists>bb. best_bid b = Some bb \<and> p \<le> bb)"
  by (cases "ob_bids b") (auto simp: book_shape_def best_bid_def)

lemma book_shape_best_ask:
  "book_shape b \<Longrightarrow> (p, q) \<in> set (ob_asks b) \<Longrightarrow> q > 0 \<and> (\<exists>ba. best_ask b = Some ba \<and> ba \<le> p)"
  by (cases "ob_asks b") (auto simp: book_shape_def best_ask_def)

text \<open>
  C23. What the paper trader reads is a proper book: from a new connector on, whatever messages, errors and
  cancellations the two loops see, a book that \<open>watch_order_book\<close> returns has only positive quantities
  and its best bid and best ask are its extreme prices; it is read once.
\<close>

theorem watched_book_is_sorted:
  assumes "watch_book_loop xs (ws_connect (new_ws ex)) = (go, t, s)"
    and "watch_ticker_loop ys s = (go', t', s')" and "ws_watch_order_book s' = (Some b, s'')"
  shows "list_all (\<lambda>(p, q). q > 0 \<and> (\<exists>bb. best_bid b = Some bb \<and> p \<le> bb)) (ob_bids b) \<and>
    list_all (\<lambda>(p, q). q > 0 \<and> (\<exists>ba. best_ask b = Some ba \<and> ba \<le> p)) (ob_asks b) \<and>
    fst (ws_watch_order_book s'') = None"
proof -
  have ok: "ws_ok s'"
    using watch_ticker_loop_ok [OF watch_book_loop_ok [OF ws_ok_start assms(1)] assms(2)] .
  from assms(3) have "q_items (book_queue s') = b # q_items (book_queue s'')"
    by (auto simp: ws_watch_order_book_def dest: aq.get_items split: option.splits prod.splits)
  with ok have b: "book_shape b" and "q_items (book_queue s'') = []" by (auto simp: ws_ok_def)
  then have "fst (ws_watch_order_book s'') = None" by (simp add: ws_watch_order_book_def get_nowait_def)
  moreover have "list_all (\<lambda>(p, q). q > 0 \<and> (\<exists>bb. best_bid b = Some bb \<and> p \<le> bb)) (ob_bids b)"
    using book_shape_best_bid [OF b] by (auto simp: list_all_iff)
  moreover have "list_all (\<lambda>(p, q). q > 0 \<and> (\<exists>ba. best_ask b = Some ba \<and> ba \<le> p)) (ob_asks b)"
    using book_shape_best_ask [OF b] by (auto simp: list_all_iff)
  ultimately show ?thesis by blast
qed

section \<open>Giving up\<close>

fun survives :: "nat \<Rightarrow> 'a outcome list \<Rightarrow> bool" where
  "survives r [] = True"
| "survives r (Message _ # xs) = survives 0 xs"
| "survives r (Failure e # xs) = (if retryable e then r < 5 \<and> survives (Suc r) xs else survives r xs)"
| "survives r (Cancelled # xs) = False"

fun network_failure :: "'a outcome \<Rightarrow> bool" where
  "network_failure (Failure e) = retryable e"
| "network_failure _ = False"

fun is_message :: "'a outcome \<Rightarrow> bool" where
  "is_message (Message _) = True"
| "is_message _ = False"

text \<open>The network failures before the first message.\<close>

definition outage :: "'a outcome list \<Rightarrow> nat" where
  "outage xs = length (filter network_failure (takeWhile (\<lambda>x. \<not> is_message x) xs))"

lemma survives_iff:
  "Cancelled \<notin> set xs \<Longrightarrow> r \<le> 5 \<Longrightarrow>
   survives r xs \<longleftrightarrow> r + outage xs \<le> 5 \<and> list_all (\<lambda>zs. outage zs \<le> 5) (suffixes xs)"
proof (induction r xs rule: survives.induct)
  case (2 r m xs)
  have "list_all (\<lambda>zs. outage zs \<le> 5) (suffixes xs) \<Longrightarrow> outage xs \<le> 5" by (simp add: list_all_iff)
  with 2 show ?case by (auto simp: outage_def)
next
  case (3 r e xs)
  then show ?case by (auto simp: outage_def)
qed (auto simp: outage_def)

text \<open>A loop survives its outcomes if every turn does what \<open>survives\<close> says.\<close>

lemma watch_loop_survives:
  assumes "\<And>m r s. \<exists>d s'. turn (Message m) r s = (Again 0 d, s')"
    and "\<And>e r s. \<not> retryable e \<Longrightarrow> turn (Failure e) r s = (Again r 1, s)"
    and "\<And>e r s. retryable e \<Longrightarrow> \<exists>s'. turn (Failure e) r s = (network_turn r, s')"
    and "\<And>r s. turn Cancelled r s = (Over, s)"
  shows "fst (watch_loop turn xs r s) = survives r xs"
proof (induction r xs arbitrary: s rule: survives.induct)
  case (2 r m xs)
  obtain d s' where "turn (Message m) r s = (Again 0 d, s')" using assms(1) by blast
  with 2 [of s'] show ?case by (simp add: case_prod_unfold)
next
  case (3 r e xs)
  show ?case
  proof (cases "retryable e")
    case True
    obtain s' where "turn (Failure e) r s = (network_turn r, s')" using assms(3) [OF True] by blast
    with 3(1) [OF True, of s'] True show ?thesis by (simp add: network_turn_def case_prod_unfold)
  next
    case False
    with 3(2) [OF False, of s] show ?thesis by (simp add: assms(2) case_prod_unfold)
  qed
qed (simp_all add: assms(4))

lemma book_loop_survives: "fst (watch_loop book_turn xs r s) = survives r xs"
proof (rule watch_loop_survives)
  show "\<exists>d s'. book_turn (Message m) r s = (Again 0 d, s')" for m r s
    by (cases m) (auto split: sum.split)
qed simp_all

lemma ticker_loop_survives: "fst (watch_loop ticker_turn xs r s) = survives r xs"
proof (rule watch_loop_survives)
  show "\<exists>d s'. ticker_turn (Message m) r s = (Again 0 d, s')" for m r s by (cases m) auto
qed simp_all

lemma ticker_turn_connected: "ws_connected (snd (ticker_turn x r s)) = ws_connected s"
  by (cases "(x, r, s)" rule: ticker_turn.cases) auto

lemma book_loop_connected:
  "Cancelled \<notin> set xs \<Longrightarrow> watch_loop book_turn xs r s = (go, t, s') \<Longrightarrow>
   ws_connected s' \<longleftrightarrow> ws_connected s \<and> go"
proof (induction xs arbitrary: r s go t s')
  case (Cons x xs)
  obtain k s1 where k: "book_turn x r s = (k, s1)" by fastforce
  show ?case
  proof (cases k)
    case (Again r' d)
    obtain go' t' s2 where w: "watch_loop book_turn xs r' s1 = (go', t', s2)" by (metis prod_cases3)
    have "ws_connected s1 = ws_connected s"
      using k Again by (cases "(x, r, s)" rule: book_turn.cases) (auto split: sum.splits if_splits)
    with Cons.IH [OF _ w] Cons.prems k Again w show ?thesis by simp
  next
    case Over
    then have "\<not> ws_connected s1"
      using k Cons.prems(1) by (cases "(x, r, s)" rule: book_turn.cases) (auto split: sum.splits if_splits)
    with k Cons.prems Over show ?thesis by simp
  qed
qed simp

text \<open>
  C21. When a stream is given up: a loop that is not cancelled ends exactly if somewhere six network
  failures came without a message between them, other errors counting neither for nor against it.
  The book loop then takes the connection flag down; the ticker loop leaves it as it was.
\<close>

theorem stream_gives_up:
  assumes "Cancelled \<notin> set xs" and "Cancelled \<notin> set ys"
    and "watch_book_loop xs s = (go, t, s')" and "watch_ticker_loop ys s = (go', t', s'')"
  shows "go = list_all (\<lambda>zs. outage zs \<le> 5) (suffixes xs) \<and> ws_connected s' = (ws_connected s \<and> go) \<and>
    go' = list_all (\<lambda>zs. outage zs \<le> 5) (suffixes ys) \<and> ws_connected s'' = ws_connected s"
proof -
  have *: "survives 0 zs = list_all (\<lambda>zs. outage zs \<le> 5) (suffixes zs)" if "Cancelled \<notin> set zs" for zs :: "'x outcome list"
    using survives_iff [OF that, of 0] by (auto simp: list_all_iff)
  obtain s1 where b: "watch_loop book_turn xs 0 s = (go, t, s1)" and b': "ws_connected s' = ws_connected s1"
    using assms(3) by (auto simp: watch_book_loop_def split: prod.splits if_splits)
  obtain s2 where k: "watch_loop ticker_turn ys 0 s = (go', t', s2)" and k': "ws_connected s'' = ws_connected s2"
    using assms(4) by (auto simp: watch_ticker_loop_def split: prod.splits if_splits)
  have "ws_connected s2 = ws_connected s"
    using watch_loop_keeps [where P = "\<lambda>w. ws_connected w = ws_connected s" and turn = ticker_turn, OF _ _ k]
    by (simp add: ticker_turn_connected)
  moreover have "go = survives 0 xs" using book_loop_survives [of xs 0 s] b by simp
  moreover have "go' = survives 0 ys" using ticker_loop_survives [of ys 0 s] k by simp
  ultimately show ?thesis
    using book_loop_connected [OF assms(1) b] b' k' * [OF assms(1)] * [OF assms(2)] by simp
qed

text \<open>Giving up takes 31 seconds: five sleeps of 1, 2, 4, 8 and 16 seconds.\<close>

lemma outage_ends_book_loop:
  "length xs = 6 \<Longrightarrow> list_all network_failure xs \<Longrightarrow>
   watch_book_loop xs s = (False, 31, s\<lparr>ws_connected := False, book_task := False\<rparr>)"
  by (auto simp: watch_book_loop_def network_turn_def length_Suc_conv eval_nat_numeral elim!: network_failure.elims)

section \<open>The connector of the paper trader\<close>

text \<open>The connector in a world that holds its state beside the rest.\<close>

definition stream_connector :: "(ws_state \<times> 'w) ws_connector" where
  "stream_connector =
     \<lparr>connect_ws = (\<lambda>(s, w). (Inr (), (ws_connect s, w))),
      disconnect_ws = (\<lambda>(s, w). (Inr (), (ws_disconnect s, w))),
      watch_order_book = (\<lambda>(s, w). case ws_watch_order_book s of (b, s') \<Rightarrow> (Inr b, (s', w)))\<rparr>"

lemma poll_once_empty:
  assumes "fst (world s) = ws" and "q_items (book_queue ws) = []"
  shows "poll_once env stream_connector s = (Inr (), s\<lparr>world := do_sleep env (1 / 4) (world s)\<rparr>)"
proof -
  obtain w where w: "world s = (ws, w)" using assms(1) by (metis prod.collapse)
  then have "callE (watch_order_book stream_connector) s = (Inr None, s)"
    using assms(2) by (simp add: stream_connector_def callE_def ws_watch_order_book_def get_nowait_def)
  then show ?thesis by (simp add: poll_once_def poll_body_def eff_simps envE_def)
qed

text \<open>
  A given-up stream ends the simulation: the poll loop never connects again, so once the book loop is
  over and its last book read, however long the paper trader polls, it simulates no fill and
  reports no error. (While it sleeps, only a running loop changes the connector.)
\<close>

theorem lost_stream_ends_simulation:
  assumes "watch_book_loop xs ws0 = (False, t, ws1)" and "ws_watch_order_book ws1 = (b, ws)"
    and "\<And>d v w. \<not> book_task v \<Longrightarrow> book_task (fst (do_sleep env d (v, w))) = book_task v \<and>
           book_queue (fst (do_sleep env d (v, w))) = book_queue v"
    and "ws_ok ws0" and "fst (world s) = ws"
  shows "\<exists>w. poll_loop n env stream_connector s = (Inr (), s\<lparr>world := w\<rparr>) \<and> \<not> book_task (fst w)"
proof -
  have ok: "ws_ok ws1" by (rule watch_book_loop_ok [OF assms(4,1)])
  have off: "\<not> book_task ws1" using assms(1) by (auto simp: watch_book_loop_def split: prod.splits if_splits)
  have ws: "q_items (book_queue ws) = [] \<and> \<not> book_task ws"
    using ok off assms(2)
    by (cases "q_items (book_queue ws1)") (auto simp: ws_ok_def ws_watch_order_book_def get_nowait_def)
  have "\<exists>w. poll_loop n env stream_connector s' = (Inr (), s'\<lparr>world := w\<rparr>) \<and> \<not> book_task (fst w)"
    if "q_items (book_queue (fst (world s'))) = []" "\<not> book_task (fst (world s'))" for s'
    using that
  proof (induction n arbitrary: s')
    case 0
    then show ?case by (intro exI [of _ "world s'"]) (simp add: ret_def)
  next
    case (Suc n)
    let ?w = "do_sleep env (1 / 4) (world s')"
    have "book_task (fst ?w) = book_task (fst (world s')) \<and> book_queue (fst ?w) = book_queue (fst (world s'))"
      using assms(3) [of "fst (world s')" "1 / 4" "snd (world s')"] Suc.prems by simp
    with Suc.IH [of "s'\<lparr>world := ?w\<rparr>"] Suc.prems
    obtain w where w: "poll_loop n env stream_connector (s'\<lparr>world := ?w\<rparr>) = (Inr (), s'\<lparr>world := w\<rparr>)" "\<not> book_task (fst w)"
      by auto
    show ?case
    proof (cases "pt_running s'")
      case True
      with w poll_once_empty [OF refl Suc.prems(1), of env] show ?thesis
        by (intro exI [of _ w]) (simp add: bindE_def getsE_def seqE_def)
    next
      case False
      then show ?thesis
        using Suc.prems by (intro exI [of _ "world s'"]) (simp add: bindE_def getsE_def ret_def)
    qed
  qed
  from this [of s] ws assms(5) show ?thesis by simp
qed

section \<open>Instances\<close>

definition sample_raw_book :: raw_book where
  "sample_raw_book =
     \<lparr>rb_bids = Some [[1, 2], [3, 0], [2, 1]], rb_asks = Some [[5, 1], [4, 2]], rb_timestamp = None\<rparr>"

definition sorted_sample_book :: order_book where
  "sorted_sample_book = \<lparr>ob_exchange = ''mexc'', ob_bids = [(2, 1), (1, 2)], ob_asks = [(4, 2), (5, 1)], ob_timestamp = 7\<rparr>"

lemma sample_read_book [simp]: "read_book ''mexc'' 7 sample_raw_book = Inr sorted_sample_book"
  by (simp add: read_book_def sample_raw_book_def sorted_sample_book_def or_now_def or_num_def)

lemma watched_book_is_sorted_witness:
  "list_all (\<lambda>(p, q). q > 0 \<and> (\<exists>bb. best_bid sorted_sample_book = Some bb \<and> p \<le> bb)) (ob_bids sorted_sample_book) \<and>
   list_all (\<lambda>(p, q). q > 0 \<and> (\<exists>ba. best_ask sorted_sample_book = Some ba \<and> ba \<le> p)) (ob_asks sorted_sample_book) \<and>
   fst (ws_watch_order_book (ws_connect (new_ws ''mexc''))) = None"
  by (rule watched_book_is_sorted [of "[Message (7, sample_raw_book)]" "''mexc''" True 0
        "(ws_connect (new_ws ''mexc''))\<lparr>book_queue := \<lparr>q_maxsize = 1, q_items = [sorted_sample_book]\<rparr>\<rparr>" "[]" True 0
        "(ws_connect (new_ws ''mexc''))\<lparr>book_queue := \<lparr>q_maxsize = 1, q_items = [sorted_sample_book]\<rparr>\<rparr>"])
    (simp_all add: watch_book_loop_def watch_ticker_loop_def ws_connect_def ws_disconnect_def new_ws_def
       overwrite_items new_queue_def ws_watch_order_book_def get_nowait_def)

definition outage_6 :: "'a outcome list" where
  "outage_6 = replicate 6 (Failure NetworkError)"

lemma outage_6_simps: "length outage_6 = 6" "list_all network_failure outage_6"
  by (simp_all add: outage_6_def list_all_iff)

lemma stream_gives_up_witness:
  "False = list_all (\<lambda>zs. outage zs \<le> 5) (suffixes (outage_6 :: (real \<times> raw_book) outcome list)) \<and>
   False = (True \<and> False) \<and>
   True = list_all (\<lambda>zs. outage zs \<le> 5) (suffixes ([Failure ExchangeError] :: (real \<times> raw_quote) outcome list)) \<and>
   True = True"
  using stream_gives_up [of "outage_6 :: (real \<times> raw_book) outcome list"
      "[Failure ExchangeError] :: (real \<times> raw_quote) outcome list" "ws_connect (new_ws ''mexc'')" False 31
      "(ws_connect (new_ws ''mexc''))\<lparr>ws_connected := False, book_task := False\<rparr>" True 1 "ws_connect (new_ws ''mexc'')"]
    outage_ends_book_loop [OF outage_6_simps, of "ws_connect (new_ws ''mexc'')"]
  by (simp add: outage_6_def watch_ticker_loop_def ws_connect_def ws_disconnect_def new_ws_def)

text \<open>A connector in the world beside another environment.\<close>

definition beside :: "('w \<Rightarrow> 'a \<times> 'w) \<Rightarrow> 'v \<times> 'w \<Rightarrow> 'a \<times> 'v \<times> 'w" where
  "beside f = (\<lambda>(v, w). case f w of (x, w') \<Rightarrow> (x, (v, w')))"

definition beside_env :: "'w env \<Rightarrow> ('v \<times> 'w) env" where
  "beside_env e =
     \<lparr>is_connected = is_connected e \<circ> snd, cn_connect = beside (cn_connect e),
      cn_disconnect = beside (cn_disconnect e), cn_reconnect = beside (cn_reconnect e),
      fetch_ticker = beside (fetch_ticker e), fetch_candles = (\<lambda>tf n. beside (fetch_candles e tf n)),
      fetch_balance = beside (fetch_balance e),
      create_limit_order = (\<lambda>side p a. beside (create_limit_order e side p a)),
      cancel_order = (\<lambda>i. beside (cancel_order e i)), cancel_all_orders = beside (cancel_all_orders e),
      fetch_open_orders = beside (fetch_open_orders e), fetch_fills = (\<lambda>t. beside (fetch_fills e t)),
      read_clock = beside (read_clock e), read_monotonic = beside (read_monotonic e),
      do_sleep = (\<lambda>d (v, w). (v, do_sleep e d w)), uuid_hex8 = beside (uuid_hex8 e), db_fault = beside (db_fault e)\<rparr>"

definition lost_ws :: ws_state where
  "lost_ws = (ws_connect (new_ws ''mexc''))\<lparr>ws_connected := False, book_task := False\<rparr>"

definition lost_paper :: "(ws_state \<times> nat) paper" where
  "lost_paper = (new_paper ''mexc'' 10
     \<lparr>world = (lost_ws, 0), limiter = new_rate_limiter 8 1000, db = new_database, feed = new_live_feed\<rparr>)
     \<lparr>pt_running := True, pt_open_orders_ref := [sample_order ''1'' ''buy'' 1 1]\<rparr>"

lemma lost_stream_ends_simulation_witness:
  "\<exists>w. poll_loop 100 (beside_env sample_env) stream_connector lost_paper = (Inr (), lost_paper\<lparr>world := w\<rparr>) \<and>
     \<not> book_task (fst w)"
proof (rule lost_stream_ends_simulation)
  show "watch_book_loop outage_6 (ws_connect (new_ws ''mexc'')) = (False, 31, lost_ws)"
    using outage_ends_book_loop [OF outage_6_simps] by (simp add: lost_ws_def)
  show "ws_watch_order_book lost_ws = (None, lost_ws)"
    by (simp add: lost_ws_def ws_connect_def ws_disconnect_def new_ws_def new_queue_def ws_watch_order_book_def get_nowait_def)
  show "ws_ok (ws_connect (new_ws ''mexc''))" by (rule ws_ok_start)
qed (simp_all add: beside_env_def lost_paper_def new_paper_def init_paper_trader_def)

end
