(* ===== verification/Factory.thy ===== *)
theory Factory
  imports CppConnector WsConnector Settings Orchestrator
begin

text \<open>
  \<open>exchange/factory.py\<close>: which connector an exchange gets.  What the choice depends on outside the
  repository is a record: the variable \<open>USE_CPP_CONNECTOR\<close>, whether the compiled module imports, and
  whether \<open>ccxt\<close> and \<open>ccxt.pro\<close> have a class for a name.
\<close>

record surroundings =
  use_cpp_var :: "string option"
  cpp_available :: bool
  ccxt_has :: "string \<Rightarrow> bool"
  ccxt_pro_has :: "string \<Rightarrow> bool"
  secrets_of :: exchange_secrets

section \<open>What is built\<close>

text \<open>The parameters of a ccxt exchange object, and the three kinds of connector.\<close>

record init_params =
  ip_api_key :: string
  ip_secret :: string
  ip_password :: "string option"
  ip_options :: "(string \<times> json) list"

datatype built =
    Rest cx_config init_params
  | Streaming cx_config init_params
  | Compiled cx_config string string string

definition want_cpp :: "surroundings \<Rightarrow> bool option \<Rightarrow> bool" where
  "want_cpp w override =
     (case override of
        Some b \<Rightarrow> b
      | None \<Rightarrow> map lower_char (case use_cpp_var w of Some v \<Rightarrow> v | None \<Rightarrow> '''') \<in> {''true'', ''1'', ''yes''})"

definition cpp_exchanges :: "string list" where
  "cpp_exchanges = [''kucoin'', ''gate'', ''mexc'', ''kraken'']"

definition ccxt_names :: "string list" where
  "ccxt_names = [''kucoin'', ''gate'', ''mexc'', ''kraken'', ''binance'']"

definition cred :: "(string \<times> string) list \<Rightarrow> string \<Rightarrow> string" where
  "cred creds k = (case dict_get creds k of Some v \<Rightarrow> v | None \<Rightarrow> '''')"

definition ccxt_params :: "(string \<times> string) list \<Rightarrow> (string \<times> json) list \<Rightarrow> init_params" where
  "ccxt_params creds options =
     \<lparr>ip_api_key = cred creds ''api_key'', ip_secret = cred creds ''api_secret'',
      ip_password = (if cred creds ''passphrase'' \<noteq> '''' then Some (cred creds ''passphrase'') else None),
      ip_options = fold (\<lambda>(k, v). AList.update k v) options [(''defaultType'', JStr ''spot'')]\<rparr>"

text \<open>\<open>CCXTConnector.__init__\<close>, \<open>CCXTWSConnector.__init__\<close> and the constructors of the wrappers.\<close>

definition init_ccxt ::
  "surroundings \<Rightarrow> string \<Rightarrow> string \<Rightarrow> (string \<times> string) list \<Rightarrow> string \<Rightarrow> (string \<times> json) list \<Rightarrow> built result" where
  "init_ccxt w name symbol creds quote options =
     (if ccxt_has w name then Inr (Rest (new_cx name symbol quote) (ccxt_params creds options))
      else Inl (ValueError (''CCXT does not support exchange: '' @ name)))"

definition init_ccxt_ws ::
  "surroundings \<Rightarrow> string \<Rightarrow> string \<Rightarrow> (string \<times> string) list \<Rightarrow> string \<Rightarrow> (string \<times> json) list \<Rightarrow> built result" where
  "init_ccxt_ws w name symbol creds quote options =
     bindR (init_ccxt w name symbol creds quote options) (\<lambda>_.
       if ccxt_pro_has w name then Inr (Streaming (new_cx name symbol quote) (ccxt_params creds options))
       else Inl (ValueError (''ccxt.pro does not support exchange: '' @ name)))"

definition init_cpp ::
  "surroundings \<Rightarrow> string \<Rightarrow> string \<Rightarrow> (string \<times> string) list \<Rightarrow> string \<Rightarrow> built result" where
  "init_cpp w name symbol creds quote =
     (if cpp_available w
      then Inr (Compiled (new_cx name symbol quote) (cred creds ''api_key'') (cred creds ''api_secret'')
                  (if name = ''kucoin'' then cred creds ''passphrase'' else ''''))
      else Inl (ImportError ''C++ connectors not built. See exchange/cpp/README.''))"

section \<open>The factory\<close>

definition make_ccxt_connector ::
  "surroundings \<Rightarrow> string \<Rightarrow> string \<Rightarrow> (string \<times> string) list \<Rightarrow> string \<Rightarrow> (string \<times> json) list \<Rightarrow> bool \<Rightarrow> built result" where
  "make_ccxt_connector w name symbol creds quote options use_websocket =
     (if name \<notin> set ccxt_names then Inl (ValueError (''Unsupported exchange: '' @ name))
      else if use_websocket then init_ccxt_ws w name symbol creds quote options
      else init_ccxt w name symbol creds quote options)"

definition create_ws_connector ::
  "surroundings \<Rightarrow> string \<Rightarrow> string \<Rightarrow> (string \<times> string) list \<Rightarrow> string \<Rightarrow> (string \<times> json) list \<Rightarrow> built result" where
  "create_ws_connector w name symbol creds quote options =
     (if name \<notin> set ccxt_names then Inl (ValueError (''Unsupported exchange: '' @ name))
      else init_ccxt_ws w name symbol creds quote options)"

definition create_connector ::
  "surroundings \<Rightarrow> string \<Rightarrow> string \<Rightarrow> (string \<times> string) list \<Rightarrow> string \<Rightarrow> (string \<times> json) list \<Rightarrow> bool \<Rightarrow>
   bool option \<Rightarrow> built result" where
  "create_connector w name symbol creds quote options use_websocket use_cpp =
     (if want_cpp w use_cpp \<and> name \<in> set cpp_exchanges \<and> cpp_available w
      then init_cpp w name symbol creds quote
      else make_ccxt_connector w name symbol creds quote options use_websocket)"

fun is_compiled :: "built \<Rightarrow> bool" where
  "is_compiled (Compiled _ _ _ _) = True"
| "is_compiled _ = False"

fun config_of :: "built \<Rightarrow> cx_config" where
  "config_of (Rest c _) = c"
| "config_of (Streaming c _) = c"
| "config_of (Compiled c _ _ _) = c"

text \<open>
  Asking for C++ never costs the connector: for every exchange the schema allows, if ccxt has it,
  creation succeeds whatever the override, the environment variable and the build say; it is the
  compiled connector exactly if C++ is wanted, built and written for the exchange, and the override
  of the configuration beats the variable.
\<close>

theorem create_connector_falls_back:
  assumes "name \<in> set exchange_names" and "ccxt_has w name" and "ccxt_pro_has w name"
  shows "case create_connector w name symbol creds quote options ws cpp of
      Inl e \<Rightarrow> False
    | Inr b \<Rightarrow> config_of b = new_cx name symbol quote \<and>
        is_compiled b = ((case cpp of Some x \<Rightarrow> x | None \<Rightarrow> want_cpp w None) \<and> cpp_available w \<and> name \<noteq> ''binance'')"
proof -
  have n: "name \<in> set ccxt_names" "name \<in> set cpp_exchanges \<longleftrightarrow> name \<noteq> ''binance''"
    using assms(1) by (auto simp: exchange_names_def ccxt_names_def cpp_exchanges_def)
  show ?thesis
    using assms n
    by (auto simp: create_connector_def make_ccxt_connector_def init_cpp_def init_ccxt_def init_ccxt_ws_def
        want_cpp_def split: option.splits)
qed

section \<open>The factory of the orchestrator\<close>

definition unit_of :: "'a result \<Rightarrow> unit result" where
  "unit_of r = bindR r (\<lambda>_. Inr ())"

definition creds_of :: "surroundings \<Rightarrow> string \<Rightarrow> (string \<times> string) list" where
  "creds_of w name = (case credentials_for (secrets_of w) name of Inr c \<Rightarrow> c | Inl _ \<Rightarrow> [])"

text \<open>The calls of \<open>start\<close>: credentials, \<open>create_connector\<close> and \<open>create_ws_connector\<close>.\<close>

definition bot_factory :: "surroundings \<Rightarrow> 'w factory" where
  "bot_factory w =
     \<lparr>fa_credentials = (\<lambda>name. unit_of (credentials_for (secrets_of w) name)),
      fa_connector = (\<lambda>ex. unit_of (create_connector w (xc_exchange ex) (xc_symbol ex) (creds_of w (xc_exchange ex))
         (xc_quote_currency ex) (xc_ccxt_options ex) False (xc_use_cpp_connector ex))),
      fa_ws_connector = (\<lambda>ex. unit_of (create_ws_connector w (xc_exchange ex) (xc_symbol ex)
         (creds_of w (xc_exchange ex)) (xc_quote_currency ex) (xc_ccxt_options ex)))\<rparr>"

lemma wire_exchange_ok:
  assumes "fa_credentials fa (xc_exchange ex) = Inr ()" and "fa_connector fa ex = Inr ()"
  shows "\<exists>s'. wire_exchange fa env ex s = (Inr (), s') \<and>
    set (dict_keys (oc_bots s')) = insert (xc_exchange ex) (set (dict_keys (oc_bots s))) \<and>
    set (oc_connectors s') = insert (xc_exchange ex) (set (oc_connectors s))"
proof -
  let ?cs = "if xc_exchange ex \<in> set (oc_connectors s) then oc_connectors s else oc_connectors s @ [xc_exchange ex]"
  let ?s1 = "s\<lparr>oc_connectors := ?cs,
     oc_regime := add_subscriber (xc_exchange ex) (remove_subscriber (xc_exchange ex) (oc_regime s))\<rparr>"
  obtain p os where w: "wire_paper fa ex ?s1 = (Inr os, ?s1\<lparr>oc_papers := p\<rparr>)"
    using wire_paper_run [of fa ex ?s1] by blast
  obtain up w1 where m: "read_monotonic env (world s) = (up, w1)" by fastforce
  obtain n1 w2 where c1: "read_clock env w1 = (n1, w2)" by fastforce
  obtain n2 w3 where c2: "read_clock env w2 = (n2, w3)" by fastforce
  have "wire_exchange fa env ex s = (Inr (), add_bot ex up n1 (utc_ordinal n2) os (?s1\<lparr>oc_papers := p, world := w3\<rparr>))"
    using assms w m c1 c2 by (simp add: wire_exchange_def liftR_def seqE_def bindE_def Let_def modE_def envE_def now_s_def)
  then show ?thesis
    by (auto simp: add_bot_def Let_def new_bot_def dom_update split: option.splits)
qed

lemma wire_exchange_raises:
  "fa_credentials fa (xc_exchange ex) = Inl e \<Longrightarrow> wire_exchange fa env ex s = (Inl e, s)"
  by (simp add: wire_exchange_def liftR_def seqE_def bindE_def Let_def)

lemma credentials_exist:
  assumes "name \<in> set exchange_names" and "name \<noteq> ''binance''"
  shows "\<exists>c. credentials_for s name = Inr c"
proof -
  have "name \<in> {''kucoin'', ''gate'', ''mexc'', ''kraken''}" using assms by (auto simp: exchange_names_def)
  then show ?thesis by (auto simp: credentials_for_def)
qed

lemma create_connector_ok:
  assumes "name \<in> set exchange_names" and "ccxt_has w name"
  shows "\<exists>b. create_connector w name symbol creds quote options False cpp = Inr b"
proof -
  have "name \<in> set ccxt_names" using assms(1) by (auto simp: exchange_names_def ccxt_names_def)
  with assms(2) show ?thesis
    by (cases "want_cpp w cpp \<and> name \<in> set cpp_exchanges \<and> cpp_available w")
      (simp_all add: create_connector_def make_ccxt_connector_def init_cpp_def init_ccxt_def)
qed

text \<open>The exchanges wired before the first that has no credentials.\<close>

abbreviation wired_names :: "exchange_bot_config list \<Rightarrow> string list" where
  "wired_names exs \<equiv> takeWhile (\<lambda>n. n \<noteq> ''binance'') (map xc_exchange exs)"

lemma for_each_wire:
  assumes "\<And>ex. ex \<in> set exs \<Longrightarrow> xc_exchange ex \<in> set exchange_names \<and> ccxt_has w (xc_exchange ex)"
  shows "case for_each (wire_exchange (bot_factory w) env) exs s of (r, s') \<Rightarrow>
    r = (if ''binance'' \<in> set (map xc_exchange exs) then Inl (ValueError ''Unknown exchange: binance'') else Inr ()) \<and>
    set (dict_keys (oc_bots s')) = set (wired_names exs) \<union> set (dict_keys (oc_bots s)) \<and>
    set (oc_connectors s') = set (wired_names exs) \<union> set (oc_connectors s)"
  using assms
proof (induction exs arbitrary: s)
  case (Cons ex exs)
  then have n: "xc_exchange ex \<in> set exchange_names" "ccxt_has w (xc_exchange ex)" by auto
  show ?case
  proof (cases "xc_exchange ex = ''binance''")
    case True
    then have "fa_credentials (bot_factory w) (xc_exchange ex) = Inl (ValueError ''Unknown exchange: binance'')"
      by (simp add: bot_factory_def unit_of_def credentials_for_def)
    from wire_exchange_raises [OF this, of env s] True show ?thesis by (simp add: seqE_def bindE_def)
  next
    case False
    obtain c where "credentials_for (secrets_of w) (xc_exchange ex) = Inr c"
      using credentials_exist [OF n(1) False] by blast
    moreover obtain b where "create_connector w (xc_exchange ex) (xc_symbol ex) (creds_of w (xc_exchange ex))
         (xc_quote_currency ex) (xc_ccxt_options ex) False (xc_use_cpp_connector ex) = Inr b"
      using create_connector_ok [OF n] by blast
    ultimately have "fa_credentials (bot_factory w) (xc_exchange ex) = Inr ()" "fa_connector (bot_factory w) ex = Inr ()"
      by (simp_all add: bot_factory_def unit_of_def)
    from wire_exchange_ok [OF this, of env s] obtain s1 where
      w: "wire_exchange (bot_factory w) env ex s = (Inr (), s1)"
      and k: "set (dict_keys (oc_bots s1)) = insert (xc_exchange ex) (set (dict_keys (oc_bots s)))"
        "set (oc_connectors s1) = insert (xc_exchange ex) (set (oc_connectors s))" by blast
    obtain r s' where f: "for_each (wire_exchange (bot_factory w) env) exs s1 = (r, s')" by fastforce
    have "for_each (wire_exchange (bot_factory w) env) (ex # exs) s = (r, s')" using w f by (simp add: seqE_def bindE_def)
    with Cons.IH [where s = s1] Cons.prems f k False show ?thesis by auto
  qed
qed (simp add: ret_def)

text \<open>
  C24. Which configurations start: with the real factory, and ccxt knowing every enabled exchange,
  \<open>start\<close> creates the connectors and the bots of all enabled exchanges, unless \<open>binance\<close> is one of
  them.  Then it raises, since the settings have no credentials for an exchange that the schema, the
  weights and the factory accept, and only the exchanges configured before it have been wired.
\<close>

theorem binance_prevents_start:
  assumes "list_all (\<lambda>ex. xc_exchange ex \<in> set exchange_names \<and> ccxt_has w (xc_exchange ex)) (enabled_exchanges (oc_config s))"
  shows "case orch_start (bot_factory w) env s of (r, s') \<Rightarrow>
    r = (if ''binance'' \<in> set (map xc_exchange (enabled_exchanges (oc_config s)))
         then Inl (ValueError ''Unknown exchange: binance'') else Inr ()) \<and>
    set (dict_keys (oc_bots s')) = set (takeWhile (\<lambda>n. n \<noteq> ''binance'') (map xc_exchange (enabled_exchanges (oc_config s))))
      \<union> set (dict_keys (oc_bots s)) \<and>
    set (oc_connectors s') = set (takeWhile (\<lambda>n. n \<noteq> ''binance'') (map xc_exchange (enabled_exchanges (oc_config s))))
      \<union> set (oc_connectors s)"
proof -
  let ?exs = "enabled_exchanges (oc_config s)"
  obtain r s1 where f: "for_each (wire_exchange (bot_factory w) env) ?exs (s\<lparr>oc_running := True\<rparr>) = (r, s1)" by fastforce
  have "r = (if ''binance'' \<in> set (map xc_exchange ?exs) then Inl (ValueError ''Unknown exchange: binance'') else Inr ())"
    "set (dict_keys (oc_bots s1)) = set (wired_names ?exs) \<union> set (dict_keys (oc_bots s))"
    "set (oc_connectors s1) = set (wired_names ?exs) \<union> set (oc_connectors s)"
    using for_each_wire [where exs = ?exs and w = w and env = env and s = "s\<lparr>oc_running := True\<rparr>"] assms
    unfolding f by (simp_all add: list_all_iff)
  with f show ?thesis
    by (cases "''binance'' \<in> set (map xc_exchange ?exs)")
      (simp_all add: orch_start_def seqE_def bindE_def modE_def getsE_def)
qed

section \<open>Instances\<close>

definition sample_surroundings :: surroundings where
  "sample_surroundings =
     \<lparr>use_cpp_var = Some ''TRUE'', cpp_available = True, ccxt_has = (\<lambda>_. True), ccxt_pro_has = (\<lambda>_. True),
      secrets_of = \<lparr>kucoin_api_key = ''k'', kucoin_api_secret = ''s'', kucoin_passphrase = ''p'',
        gate_api_key = [], gate_api_secret = [], mexc_api_key = [], mexc_api_secret = [],
        kraken_api_key = [], kraken_api_secret = []\<rparr>\<rparr>"

lemma create_connector_falls_back_witness:
  "case create_connector sample_surroundings ''binance'' ''ALKIMI/USDT'' [] ''USDT'' [] False None of
      Inl e \<Rightarrow> False
    | Inr b \<Rightarrow> config_of b = new_cx ''binance'' ''ALKIMI/USDT'' ''USDT'' \<and>
        is_compiled b = ((case None of Some x \<Rightarrow> x | None \<Rightarrow> want_cpp sample_surroundings None) \<and>
          cpp_available sample_surroundings \<and> ''binance'' \<noteq> ''binance'')"
  by (rule create_connector_falls_back) (simp_all add: sample_surroundings_def exchange_names_def)

definition binance_orch :: "(nat, unit) orch" where
  "binance_orch = sample_orch\<lparr>oc_bots := [], oc_connectors := [], oc_config := sample_config\<lparr>bc_exchanges :=
     [sample_exchange, sample_exchange\<lparr>xc_exchange := ''binance''\<rparr>, sample_exchange\<lparr>xc_exchange := ''gate''\<rparr>]\<rparr>\<rparr>"

lemma binance_prevents_start_witness:
  "case orch_start (bot_factory sample_surroundings) sample_env binance_orch of (r, s') \<Rightarrow>
     r = Inl (ValueError ''Unknown exchange: binance'') \<and>
     set (dict_keys (oc_bots s')) = {''kucoin''} \<and> set (oc_connectors s') = {''kucoin''}"
proof -
  have e: "enabled_exchanges (oc_config binance_orch) =
      [sample_exchange, sample_exchange\<lparr>xc_exchange := ''binance''\<rparr>, sample_exchange\<lparr>xc_exchange := ''gate''\<rparr>]"
    "oc_bots binance_orch = []" "oc_connectors binance_orch = []" "xc_exchange sample_exchange = ''kucoin''"
    by (simp_all add: binance_orch_def sample_config_def enabled_exchanges_def sample_exchange_def)
  have "list_all (\<lambda>ex. xc_exchange ex \<in> set exchange_names \<and> ccxt_has sample_surroundings (xc_exchange ex))
      (enabled_exchanges (oc_config binance_orch))"
    by (simp add: e sample_surroundings_def exchange_names_def)
  from binance_prevents_start [OF this, of sample_env] show ?thesis by (simp add: e case_prod_unfold)
qed

end
