(* ===== verification/Startup.thy ===== *)
theory Startup
  imports Api Factory
begin

text \<open>
  \<open>main.py\<close>: the gate for live trading, the connection to the database, the start of the
  orchestrator and the shutdown.  \<open>sys.exit\<close> before the event loop runs is an outcome of its own.
  The web server, the signal handlers and \<open>asyncio.gather\<close> are the caller: they run \<open>run_bot\<close> and, once
  \<open>shutdown_event\<close> is set, \<open>wait_for_shutdown\<close>.
\<close>

section \<open>Before the event loop\<close>

datatype boot_outcome = Exit int | Crash exn | Boot runtime_settings bot_config

text \<open>\<open>gate\<close> is whether \<open>.enable_live_mode\<close> exists.\<close>

definition boot :: "coercions \<Rightarrow> (string \<times> json) list \<Rightarrow> string option \<Rightarrow> bool \<Rightarrow> files \<Rightarrow> boot_outcome" where
  "boot c vars env_path gate fs =
     (case get_runtime_settings c vars of
        Inl e \<Rightarrow> Crash e
      | Inr rs \<Rightarrow>
          if rs_live_mode rs \<and> \<not> gate then Exit 1
          else (case load_bot_config c env_path (Some (rs_bot_config_path rs)) fs of
                  Inl e \<Rightarrow> Crash e
                | Inr cfg \<Rightarrow> Boot rs cfg))"

section \<open>The database\<close>

text \<open>The attempts left, the first of ten included; the process waits five seconds between two.\<close>

fun connect_attempts :: "nat \<Rightarrow> 'w env \<Rightarrow> (('w, 'z) db_sys_scheme, bool) eff" where
  "connect_attempts 0 env = ret False"
| "connect_attempts (Suc k) env =
     catchE (seqE (connect_db env) (ret True))
       (\<lambda>_. seqE (if 0 < k then envE (\<lambda>w. ((), do_sleep env 5 w)) else ret ()) (connect_attempts k env))"

definition connect_db_with_retries :: "'w env \<Rightarrow> (('w, 'z) db_sys_scheme, bool) eff" where
  "connect_db_with_retries env = connect_attempts 10 env"

section \<open>The process\<close>

record ('w, 'm) process =
  pr_app :: "('w, 'm) app"
  pr_should_exit :: bool
  pr_shutdown_event :: bool

definition on_app :: "(('w, 'm) app, 'a) eff \<Rightarrow> (('w, 'm) process, 'a) eff" where
  "on_app m s = (let (r, a) = m (pr_app s) in (r, s\<lparr>pr_app := a\<rparr>))"

text \<open>
  \<open>run_bot\<close> up to the point where it waits for the tasks of the orchestrator, which ends only with the
  shutdown; when it does not come so far, it sets the event.
\<close>

definition start_bot ::
  "'m option \<Rightarrow> 'w factory \<Rightarrow> 'w env \<Rightarrow> runtime_settings \<Rightarrow> bot_config \<Rightarrow> (('w, 'm) process, unit) eff" where
  "start_bot hmm0 fa env rs cfg =
     bindE (on_app (on_orch (connect_db_with_retries env))) (\<lambda>connected.
       if \<not> connected then raiseE (OtherError ''not connected'')
       else seqE (on_app (modE (\<lambda>a. a\<lparr>ap_orch := init_orch hmm0 cfg (rs_live_mode rs) (ap_orch a), ap_started := True\<rparr>)))
              (on_app (on_orch (orch_start fa env))))"

definition run_bot ::
  "'m option \<Rightarrow> 'w factory \<Rightarrow> 'w env \<Rightarrow> runtime_settings \<Rightarrow> bot_config \<Rightarrow> (('w, 'm) process, unit) eff" where
  "run_bot hmm0 fa env rs cfg =
     catchE (start_bot hmm0 fa env rs cfg) (\<lambda>_. modE (\<lambda>s. s\<lparr>pr_shutdown_event := True\<rparr>))"

definition wait_for_shutdown ::
  "(string \<Rightarrow> 'w env) \<Rightarrow> (string \<Rightarrow> 'w ws_connector) \<Rightarrow> 'w env \<Rightarrow> (('w, 'm) process, unit) eff" where
  "wait_for_shutdown envs wss env =
     seqE (bindE (getsE (\<lambda>s. ap_started (pr_app s))) (\<lambda>up. if up then on_app (on_orch (orch_stop envs wss)) else ret ()))
     (seqE (modE (\<lambda>s. s\<lparr>pr_should_exit := True\<rparr>))
       (on_app (on_orch (disconnect_db env))))"

section \<open>Connecting\<close>

lemma server_call_run: "\<exists>r w. server_call env s = (r, s\<lparr>world := w\<rparr>)"
  by (cases "db_fault env (world s)") (auto simp: server_call_def envE_def bindE_def ret_def raiseE_def split: option.splits)

lemma server_calls_run: "\<exists>r w. for_each (\<lambda>_. server_call env) xs s = (r, s\<lparr>world := w\<rparr>)"
proof (induction xs arbitrary: s)
  case Nil
  show ?case by (intro exI [of _ "Inr ()"] exI [of _ "world s"]) (simp add: ret_def)
next
  case (Cons x xs)
  obtain r w where c: "server_call env s = (r, s\<lparr>world := w\<rparr>)" using server_call_run [of env s] by blast
  show ?case
  proof (cases r)
    case (Inl e)
    with c show ?thesis by (auto simp: seqE_def bindE_def)
  next
    case (Inr u)
    with c Cons.IH [of "s\<lparr>world := w\<rparr>"] show ?thesis by (simp add: seqE_def bindE_def)
  qed
qed

lemma connect_db_run:
  "\<exists>r w p. connect_db env s = (r, s\<lparr>world := w, db := db s\<lparr>db_pool := p\<rparr>\<rparr>) \<and> (r = Inr () \<longrightarrow> p)"
proof -
  obtain r w where c: "server_call env s = (r, s\<lparr>world := w\<rparr>)" using server_call_run [of env s] by blast
  show ?thesis
  proof (cases r)
    case (Inl e)
    with c show ?thesis
      by (intro exI [of _ "Inl e"] exI [of _ w] exI [of _ "db_pool (db s)"]) (simp add: connect_db_def seqE_def bindE_def)
  next
    case (Inr u)
    let ?s1 = "s\<lparr>world := w, db := db s\<lparr>db_pool := True\<rparr>\<rparr>"
    obtain r' w' where "for_each (\<lambda>_. server_call env) schema_statements ?s1 = (r', ?s1\<lparr>world := w'\<rparr>)"
      using server_calls_run [of env schema_statements ?s1] by blast
    with c Inr show ?thesis
      by (intro exI [of _ r'] exI [of _ w'] exI [of _ True]) (simp add: connect_db_def seqE_def bindE_def modE_def)
  qed
qed

text \<open>Connecting never raises, touches the pool alone, and reports success only with a pool.\<close>

lemma connect_attempts_run:
  "\<exists>ok w p. connect_attempts k env s = (Inr ok, s\<lparr>world := w, db := db s\<lparr>db_pool := p\<rparr>\<rparr>) \<and> (ok \<longrightarrow> p)"
proof (induction k arbitrary: s)
  case 0
  show ?case by (intro exI [of _ False] exI [of _ "world s"] exI [of _ "db_pool (db s)"]) (simp add: ret_def)
next
  case (Suc k)
  obtain r w p where c: "connect_db env s = (r, s\<lparr>world := w, db := db s\<lparr>db_pool := p\<rparr>\<rparr>)" "r = Inr () \<longrightarrow> p"
    using connect_db_run [of env s] by blast
  show ?case
  proof (cases r)
    case (Inr u)
    with c show ?thesis by (intro exI [of _ True] exI [of _ w] exI [of _ p]) (simp add: catchE_def seqE_def bindE_def ret_def)
  next
    case (Inl e)
    define s1 where "s1 = s\<lparr>db := db s\<lparr>db_pool := p\<rparr>, world := (if 0 < k then do_sleep env 5 w else w)\<rparr>"
    have step: "connect_attempts (Suc k) env s = connect_attempts k env s1"
      using c Inl by (cases s) (simp add: s1_def catchE_def seqE_def bindE_def envE_def ret_def)
    obtain ok w' p' where h: "connect_attempts k env s1 = (Inr ok, s1\<lparr>world := w', db := db s1\<lparr>db_pool := p'\<rparr>\<rparr>)" "ok \<longrightarrow> p'"
      using Suc.IH [of s1] by blast
    have "s1\<lparr>world := w', db := db s1\<lparr>db_pool := p'\<rparr>\<rparr> = s\<lparr>world := w', db := db s\<lparr>db_pool := p'\<rparr>\<rparr>"
      by (cases s) (simp add: s1_def)
    with h(1) have "connect_attempts (Suc k) env s = (Inr ok, s\<lparr>world := w', db := db s\<lparr>db_pool := p'\<rparr>\<rparr>)"
      by (simp only: step)
    with h(2) show ?thesis by (intro exI conjI)
  qed
qed

section \<open>Live trading\<close>

lemma run_bot_wired:
  assumes "run_bot hmm0 fa env rs cfg s = (r, s')" and "oc_bots (ap_orch (pr_app s)) = []"
  shows "r = Inr () \<and> list_all (\<lambda>b. (\<not> dry_run b) = (rs_live_mode rs \<and> \<not> bc_dry_run cfg)) (dict_values (oc_bots (ap_orch (pr_app s'))))
    \<and> (pr_shutdown_event s' \<or> ap_started (pr_app s'))"
proof -
  let ?o = "ap_orch (pr_app s)"
  obtain ok w p where c: "connect_db_with_retries env ?o = (Inr ok, ?o\<lparr>world := w, db := db ?o\<lparr>db_pool := p\<rparr>\<rparr>)"
    using connect_attempts_run [of 10 env ?o] unfolding connect_db_with_retries_def by blast
  let ?o1 = "?o\<lparr>world := w, db := db ?o\<lparr>db_pool := p\<rparr>\<rparr>"
  let ?o2 = "init_orch hmm0 cfg (rs_live_mode rs) ?o1"
  show ?thesis
  proof (cases ok)
    case False
    with c assms show ?thesis
      by (auto simp: run_bot_def start_bot_def on_app_def on_orch_def catchE_def bindE_def raiseE_def modE_def)
  next
    case True
    obtain r1 o3 where f: "for_each (wire_exchange fa env) (enabled_exchanges cfg) (?o2\<lparr>oc_running := True\<rparr>) = (r1, o3)"
      by fastforce
    have "wired (?o2\<lparr>oc_running := True\<rparr>)" by (simp add: wired_def init_orch_def)
    from wire_all_run [OF f this]
    have o3: "list_all (\<lambda>b. (\<not> dry_run b) = (rs_live_mode rs \<and> \<not> bc_dry_run cfg)) (dict_values (oc_bots o3))"
      by (auto simp: wired_def init_orch_def list_all_iff)
    have cfg: "oc_config ?o2 = cfg" by (simp add: init_orch_def)
    have st: "\<exists>o4. orch_start fa env ?o2 = (r1, o4) \<and> oc_bots o4 = oc_bots o3"
      using f by (cases r1) (simp_all add: orch_start_def seqE_def bindE_def modE_def getsE_def cfg)
    then obtain o4 where o4: "orch_start fa env ?o2 = (r1, o4)" "oc_bots o4 = oc_bots o3" by blast
    show ?thesis
      using assms(1) True c o4 o3
      by (cases r1) (auto simp: run_bot_def start_bot_def on_app_def on_orch_def catchE_def seqE_def bindE_def modE_def)
  qed
qed

text \<open>
  C10. Real orders need three confirmations: if after start-up a bot is not in dry-run mode, then
  \<open>LIVE_MODE\<close> is set, the gate file exists and the configuration file does not ask for a dry run;
  with all three every bot is live.  Start-up itself never raises; if the database cannot be
  reached or the orchestrator cannot start, it asks for the shutdown or the orchestrator is there
  to be shut down.
\<close>

theorem live_orders_need_gate:
  assumes "boot c vars env_path gate fs = Boot rs cfg"
    and "run_bot hmm0 fa env rs cfg s = (r, s')" and "oc_bots (ap_orch (pr_app s)) = []"
  shows "r = Inr () \<and>
    list_all (\<lambda>b. (\<not> dry_run b) = (rs_live_mode rs \<and> gate \<and> \<not> bc_dry_run cfg)) (dict_values (oc_bots (ap_orch (pr_app s')))) \<and>
    (pr_shutdown_event s' \<or> ap_started (pr_app s')) \<and>
    load_bot_config c env_path (Some (rs_bot_config_path rs)) fs = Inr cfg"
proof -
  have g: "(rs_live_mode rs \<and> gate \<and> \<not> bc_dry_run cfg) = (rs_live_mode rs \<and> \<not> bc_dry_run cfg)"
    and l: "load_bot_config c env_path (Some (rs_bot_config_path rs)) fs = Inr cfg"
    using assms(1) by (auto simp: boot_def split: sum.splits if_splits)
  show ?thesis unfolding g using run_bot_wired [OF assms(2,3)] l by blast
qed

section \<open>Shutting down\<close>

lemma papers_stop_run:
  assumes "\<And>n w. fst (disconnect_ws (wss n) w) = Inr ()" and "set names \<subseteq> set (dict_keys (oc_papers s))"
  shows "\<exists>w d f p. for_each (\<lambda>n. on_paper n (paper_stop (wss n))) names s =
    (Inr (), s\<lparr>world := w, db := d, feed := f, oc_papers := p\<rparr>)"
  using assms(2)
proof (induction names arbitrary: s)
  case Nil
  show ?case by (rule exI [of _ "world s"], rule exI [of _ "db s"], rule exI [of _ "feed s"], rule exI [of _ "oc_papers s"]) (simp add: ret_def)
next
  case (Cons n names)
  then obtain p where p: "dict_get (oc_papers s) n = Some p" by (metis dom_map_of_conv_image_fst domD insert_subset list.simps(15) list.set_map)
  let ?p = "set_open_orders (bot_orders n s) (p\<lparr>world := world s, db := db s, feed := feed s\<rparr>)"
  obtain p' where p': "paper_stop (wss n) ?p = (Inr (), p')"
    using assms(1) [of n "world s"]
    by (cases "disconnect_ws (wss n) (world s)")
      (simp add: paper_stop_def seqE_def bindE_def modE_def callE_def set_open_orders_def)
  let ?s1 = "s\<lparr>world := world p', db := db p', feed := feed p', oc_papers := AList.update n p' (oc_papers s)\<rparr>"
  have step: "on_paper n (paper_stop (wss n)) s = (Inr (), ?s1)" by (simp add: on_paper_def p p')
  have "set names \<subseteq> set (dict_keys (oc_papers ?s1))" using Cons.prems by (auto simp: dom_update)
  from Cons.IH [OF this] obtain w d f q where
    "for_each (\<lambda>n. on_paper n (paper_stop (wss n))) names ?s1 = (Inr (), ?s1\<lparr>world := w, db := d, feed := f, oc_papers := q\<rparr>)"
    by blast
  with step show ?case by (auto simp: seqE_def bindE_def)
qed

lemma for_each_bots_frame:
  "for_each (\<lambda>n. on_bot n (m n)) names s = (r, s') \<Longrightarrow> oc_running s' = oc_running s"
proof (induction names arbitrary: s)
  case (Cons n names)
  obtain r1 s1 where o1: "on_bot n (m n) s = (r1, s1)" by fastforce
  then have k: "oc_running s1 = oc_running s" by (auto simp: on_bot_def split: option.splits prod.splits)
  show ?case
  proof (cases r1)
    case (Inl e)
    with o1 Cons.prems k show ?thesis by (auto simp: seqE_def bindE_def)
  next
    case (Inr u)
    with o1 Cons.prems have "for_each (\<lambda>n. on_bot n (m n)) names s1 = (r, s')" by (simp add: seqE_def bindE_def)
    from Cons.IH [OF this] k show ?thesis by simp
  qed
qed (simp add: ret_def)

lemma keeps_disconnect_db: "keeps (\<lambda>x. oc_bots x = bs) (disconnect_db env)"
proof -
  have [keeps_intros]: "keeps (\<lambda>x. oc_bots x = bs) (server_call env)"
    by (rule keeps_server_call) (simp add: world_free_def)
  show ?thesis
    unfolding disconnect_db_def end_batch_def need_pool_def by (intro keeps_intros keeps_mod) simp_all
qed

text \<open>
  C11. A failed shutdown leaves bots trading: when the orchestrator is up and a shutdown is
  requested, either every bot is stopped and tracks no order, and the server is told to exit; or
  cancelling or disconnecting failed for one bot, and then the server is not told to exit, the
  price loop's flag is down, the bots before it are closed, and every bot after it is exactly as
  it was, still running, with its orders on the exchange.
\<close>

theorem failed_shutdown_keeps_bots:
  assumes "ap_started (pr_app s)" and "dict_wf (oc_bots (ap_orch (pr_app s)))"
    and "\<And>n w. fst (disconnect_ws (wss n) w) = Inr ()"
    and "wait_for_shutdown envs wss env s = (r, s')" and "\<not> pr_should_exit s"
  shows "if pr_should_exit s'
    then list_all closed_down (dict_values (oc_bots (ap_orch (pr_app s')))) \<and>
      dict_keys (oc_bots (ap_orch (pr_app s'))) = dict_keys (oc_bots (ap_orch (pr_app s)))
    else (\<exists>e. r = Inl e) \<and> \<not> oc_running (ap_orch (pr_app s')) \<and>
      (\<exists>pre pre' n b b' post. oc_bots (ap_orch (pr_app s)) = pre @ (n, b) # post \<and>
        oc_bots (ap_orch (pr_app s')) = pre' @ (n, b') # post \<and>
        dict_keys pre' = dict_keys pre \<and> list_all closed_down (dict_values pre') \<and> \<not> b_running b')"
proof -
  let ?o = "(ap_orch (pr_app s))\<lparr>oc_running := False\<rparr>"
  obtain r1 o1 where b: "for_each (\<lambda>n. on_bot n (bot_stop (envs n))) (dict_keys (oc_bots ?o)) ?o = (r1, o1)" by fastforce
  note h = closing.round_run [OF b]
  have keep: "oc_running o1 = False" using for_each_bots_frame [OF b] by simp
  show ?thesis
  proof (cases r1)
    case (Inl e)
    have "orch_stop envs wss (ap_orch (pr_app s)) = (Inl e, o1)"
      using b Inl by (simp add: orch_stop_def seqE_def bindE_def modE_def getsE_def)
    then have "r = Inl e" "s' = s\<lparr>pr_app := (pr_app s)\<lparr>ap_orch := o1\<rparr>\<rparr>"
      using assms(1,4) by (simp_all add: wait_for_shutdown_def seqE_def bindE_def getsE_def on_app_def on_orch_def)
    with h assms(2,5) Inl keep show ?thesis by simp
  next
    case (Inr u)
    obtain w d f p where q: "for_each (\<lambda>n. on_paper n (paper_stop (wss n))) (dict_keys (oc_papers o1)) o1 =
        (Inr (), o1\<lparr>world := w, db := d, feed := f, oc_papers := p\<rparr>)"
      using papers_stop_run [of wss "dict_keys (oc_papers o1)" o1] assms(3) by blast
    let ?o2 = "o1\<lparr>world := w, db := d, feed := f, oc_papers := p, oc_regime := (oc_regime o1)\<lparr>rm_running := False\<rparr>\<rparr>"
    have st: "orch_stop envs wss (ap_orch (pr_app s)) = (Inr (), ?o2)"
      using b Inr q by (simp add: orch_stop_def seqE_def bindE_def modE_def getsE_def)
    obtain r3 o3 where d: "disconnect_db env ?o2 = (r3, o3)" by fastforce
    have "keeps (\<lambda>x. oc_bots x = oc_bots ?o2) (disconnect_db env)" by (rule keeps_disconnect_db)
    from keepsE [OF this d] have "oc_bots o3 = oc_bots o1" by simp
    moreover have "ap_orch (pr_app s') = o3" "pr_should_exit s'"
      using assms(1,4) st d by (auto simp: wait_for_shutdown_def seqE_def bindE_def getsE_def modE_def on_app_def on_orch_def)
    ultimately show ?thesis using h assms(2) Inr by simp
  qed
qed

section \<open>Instances\<close>

definition sample_process :: "bool \<Rightarrow> (nat, unit) process" where
  "sample_process up =
     \<lparr>pr_app = \<lparr>ap_orch = (if up then sample_orch else sample_orch\<lparr>oc_bots := []\<rparr>), ap_started = up, ap_files = []\<rparr>,
      pr_should_exit = False, pr_shutdown_event = False\<rparr>"

definition live_vars :: "(string \<times> json) list" where
  "live_vars = [(''live_mode'', JBool True)]"

definition live_settings :: runtime_settings where
  "live_settings = \<lparr>rs_live_mode = True, rs_port = 8000, rs_supabase_db_url = [], rs_bot_config_path = ''bot.json'',
     rs_log_level = ''INFO'', rs_alert_webhook_url = None, rs_api_key = None\<rparr>"

definition small_config :: bot_config where
  "small_config =
     \<lparr>bc_dry_run = True,
      bc_weights = \<lparr>w_kucoin = 0.9, w_gate = 0.45, w_mexc = 0.05, w_kraken = 0.05, w_binance = 0\<rparr>,
      bc_volatility = sample_volatility, bc_exchanges = [sample_exchange], bc_initial_balances = []\<rparr>"

lemma live_boot:
  "boot sample_coercions live_vars None True [(''bot.json'', Some (sample_body [(''kucoin'', JNum 0.9)]))] =
     Boot live_settings small_config"
proof -
  have "get_runtime_settings sample_coercions live_vars = Inr live_settings"
    by (simp add: get_runtime_settings_def live_vars_def live_settings_def field_def sample_coercions_def)
  moreover have "load_bot_config sample_coercions None (Some ''bot.json'')
      [(''bot.json'', Some (sample_body [(''kucoin'', JNum 0.9)]))] = Inr small_config"
    using sample_body_valid by (simp add: load_bot_config_def config_path_def small_config_def)
  ultimately show ?thesis by (simp add: boot_def live_settings_def)
qed

theorem live_orders_need_gate_witness:
  "case run_bot None (bot_factory sample_surroundings) sample_env live_settings small_config (sample_process False) of (r, s') \<Rightarrow>
    r = Inr () \<and>
    list_all (\<lambda>b. (\<not> dry_run b) = (rs_live_mode live_settings \<and> True \<and> \<not> bc_dry_run small_config))
      (dict_values (oc_bots (ap_orch (pr_app s')))) \<and>
    (pr_shutdown_event s' \<or> ap_started (pr_app s')) \<and>
    load_bot_config sample_coercions None (Some (rs_bot_config_path live_settings))
      [(''bot.json'', Some (sample_body [(''kucoin'', JNum 0.9)]))] = Inr small_config"
proof -
  let ?x = "run_bot None (bot_factory sample_surroundings) sample_env live_settings small_config (sample_process False)"
  have "oc_bots (ap_orch (pr_app (sample_process False))) = []" by (simp add: sample_process_def)
  from live_orders_need_gate [OF live_boot prod.collapse [of ?x, symmetric] this] show ?thesis
    by (simp add: case_prod_unfold)
qed

definition quiet_ws :: "nat ws_connector" where
  "quiet_ws = \<lparr>connect_ws = (\<lambda>w. (Inr (), w)), disconnect_ws = (\<lambda>w. (Inr (), w)), watch_order_book = (\<lambda>w. (Inr None, w))\<rparr>"

theorem failed_shutdown_keeps_bots_witness:
  "case wait_for_shutdown (\<lambda>_. sample_env) (\<lambda>_. quiet_ws) sample_env (sample_process True) of (r, s') \<Rightarrow>
    if pr_should_exit s'
    then list_all closed_down (dict_values (oc_bots (ap_orch (pr_app s')))) \<and>
      dict_keys (oc_bots (ap_orch (pr_app s'))) = dict_keys (oc_bots (ap_orch (pr_app (sample_process True))))
    else (\<exists>e. r = Inl e) \<and> \<not> oc_running (ap_orch (pr_app s')) \<and>
      (\<exists>pre pre' n b b' post. oc_bots (ap_orch (pr_app (sample_process True))) = pre @ (n, b) # post \<and>
        oc_bots (ap_orch (pr_app s')) = pre' @ (n, b') # post \<and>
        dict_keys pre' = dict_keys pre \<and> list_all closed_down (dict_values pre') \<and> \<not> b_running b')"
proof -
  let ?x = "wait_for_shutdown (\<lambda>_. sample_env) (\<lambda>_. quiet_ws) sample_env (sample_process True)"
  have "ap_started (pr_app (sample_process True))" "dict_wf (oc_bots (ap_orch (pr_app (sample_process True))))"
    "\<not> pr_should_exit (sample_process True)" "\<And>n w. fst (disconnect_ws ((\<lambda>_. quiet_ws) n) w) = Inr ()"
    by (simp_all add: sample_process_def quiet_ws_def)
  from failed_shutdown_keeps_bots [OF this(1,2,4) prod.collapse [of ?x, symmetric] this(3)]
  show ?thesis by (simp add: case_prod_unfold)
qed

end
