(* ===== verification/Rebalancer.thy ===== *)
theory Rebalancer
  imports Prelude
begin

text \<open>
  \<open>core/rebalancer.py\<close>: advice on moving tokens between exchanges.  The text of the reason is left out.
\<close>

record suggestion =
  sg_from :: string
  sg_to :: string
  sg_amount :: real

record rebalancer =
  excess_threshold :: real
  deficit_threshold :: real

definition default_rebalancer :: rebalancer where
  "default_rebalancer = \<lparr>excess_threshold = 0.60, deficit_threshold = 0.20\<rparr>"

definition overweight :: "rebalancer \<Rightarrow> real \<Rightarrow> (string \<times> real) list \<Rightarrow> (string \<times> real) list" where
  "overweight r total_tokens balances = filter (\<lambda>(_, tokens). tokens / total_tokens > excess_threshold r) balances"

definition underweight :: "rebalancer \<Rightarrow> real \<Rightarrow> (string \<times> real) list \<Rightarrow> (string \<times> real) list" where
  "underweight r total_tokens balances =
     filter (\<lambda>(_, tokens). \<not> tokens / total_tokens > excess_threshold r \<and> tokens / total_tokens < deficit_threshold r) balances"

definition suggest :: "real \<Rightarrow> nat \<Rightarrow> string \<times> real \<Rightarrow> string \<times> real \<Rightarrow> suggestion list" where
  "suggest total_tokens n = (\<lambda>(over_ex, over_tokens) (under_ex, _).
     let suggested_amount = (over_tokens / total_tokens - 1 / real n) * total_tokens * 0.5
     in if suggested_amount > 0
        then [\<lparr>sg_from = over_ex, sg_to = under_ex, sg_amount = py_round_n 2 suggested_amount\<rparr>] else [])"

definition check_imbalance :: "rebalancer \<Rightarrow> (string \<times> real) list \<Rightarrow> suggestion list" where
  "check_imbalance r balances =
     (let total_tokens = sum_list (map snd balances)
      in if total_tokens \<le> 0 then []
         else concat (map (\<lambda>over. concat (map (suggest total_tokens (length balances) over) (underweight r total_tokens balances)))
                (overweight r total_tokens balances)))"

lemma member_le_sum: "(k, x) \<in> set bs \<Longrightarrow> list_all (\<lambda>(_, t). 0 \<le> t) bs \<Longrightarrow> x \<le> sum_list (map snd bs)" for x :: real
proof (induction bs)
  case (Cons b bs)
  have "0 \<le> sum_list (map snd bs)" using Cons.prems(2) by (intro sum_list_nonneg) (auto simp: list_all_iff)
  with Cons show ?case by (cases b) auto
qed simp

lemma two_members_le_sum:
  "dict_wf bs \<Longrightarrow> (k, x) \<in> set bs \<Longrightarrow> (l, y) \<in> set bs \<Longrightarrow> k \<noteq> l \<Longrightarrow> list_all (\<lambda>(_, t). 0 \<le> t) bs \<Longrightarrow>
   x + y \<le> sum_list (map snd bs)" for x y :: real
proof (induction bs)
  case (Cons b bs)
  have wf: "dict_wf bs" using Cons.prems(1) by (simp add: dict_wf_def)
  have nn: "list_all (\<lambda>(_, t). 0 \<le> t) bs" and b0: "0 \<le> snd b" using Cons.prems(5) by (auto simp: list_all_iff)
  consider "b = (k, x)" "(l, y) \<in> set bs" | "b = (l, y)" "(k, x) \<in> set bs" | "(k, x) \<in> set bs" "(l, y) \<in> set bs"
    using Cons.prems(2,3,4) by auto
  then show ?case
  proof cases
    case 1 then show ?thesis using member_le_sum [OF _ nn, of l y] by simp
  next
    case 2 then show ?thesis using member_le_sum [OF _ nn, of k x] by simp
  next
    case 3
    from Cons.IH [OF wf 3 Cons.prems(4) nn] b0 show ?thesis by simp
  qed
qed simp

text \<open>More than half of the tokens can only be on one exchange.\<close>

lemma overweight_unique:
  assumes "dict_wf bs" and "list_all (\<lambda>(_, t). 0 \<le> t) bs" and "0 < sum_list (map snd bs)" and "1 / 2 \<le> excess_threshold r"
  shows "overweight r (sum_list (map snd bs)) bs = [] \<or> (\<exists>k x. overweight r (sum_list (map snd bs)) bs = [(k, x)])"
proof (rule ccontr)
  let ?T = "sum_list (map snd bs)"
  assume "\<not> ?thesis"
  then obtain a b os where o: "overweight r ?T bs = a # b # os"
    by (cases "overweight r ?T bs" rule: remdups_adj.cases) auto
  have "distinct (map fst (overweight r ?T bs))"
    using assms(1) by (simp add: overweight_def dict_wf_def distinct_map_filter)
  with o have ne: "fst a \<noteq> fst b" by simp
  have "set (overweight r ?T bs) \<subseteq> set bs" by (auto simp: overweight_def)
  with o have ab: "(fst a, snd a) \<in> set bs" "(fst b, snd b) \<in> set bs" by auto
  have "x / ?T > 1 / 2" if "(k, x) \<in> set (overweight r ?T bs)" for k x
  proof -
    have "excess_threshold r < x / ?T" using that by (simp add: overweight_def)
    with assms(4) show ?thesis by linarith
  qed
  from this [of "fst a" "snd a"] this [of "fst b" "snd b"] o
  have "snd a > ?T / 2" "snd b > ?T / 2" using assms(3) by (auto simp: field_simps)
  with two_members_le_sum [OF assms(1) ab ne assms(2)] show False by linarith
qed

text \<open>
  What is suggested: for holdings of at least zero, all suggestions name one source, the exchange with
  more than 60 percent, one for every exchange with less than 20 percent, and each is half of the
  source's excess over an equal share.  Two suggestions therefore move the whole excess, and three
  or more move more than the excess.
\<close>

theorem suggestions_halve_excess:
  assumes "dict_wf bs" and "list_all (\<lambda>(_, t). 0 \<le> t) bs" and "check_imbalance default_rebalancer bs \<noteq> []"
  shows "\<exists>src x. (src, x) \<in> set bs \<and> x > 0.6 * sum_list (map snd bs) \<and>
    check_imbalance default_rebalancer bs =
      map (\<lambda>(u, _). \<lparr>sg_from = src, sg_to = u,
                    sg_amount = py_round_n 2 ((x - sum_list (map snd bs) / real (length bs)) / 2)\<rparr>)
        (filter (\<lambda>(_, t). t < 0.2 * sum_list (map snd bs)) bs)"
proof -
  let ?T = "sum_list (map snd bs)" and ?r = default_rebalancer
  have T: "0 < ?T" using assms(3) by (auto simp: check_imbalance_def Let_def split: if_splits)
  have t: "1 / 2 \<le> excess_threshold ?r" by (simp add: default_rebalancer_def)
  have "overweight ?r ?T bs \<noteq> []" using assms(3) T by (auto simp: check_imbalance_def Let_def)
  with overweight_unique [OF assms(1,2) T t] obtain src x where o: "overweight ?r ?T bs = [(src, x)]" by blast
  then have "(src, x) \<in> set (overweight ?r ?T bs)" by simp
  then have m: "(src, x) \<in> set bs" and x: "x > 0.6 * ?T"
    using T by (auto simp: overweight_def default_rebalancer_def field_simps)
  have u: "underweight ?r ?T bs = filter (\<lambda>(_, t). t < 0.2 * ?T) bs"
    unfolding underweight_def using T by (intro filter_cong) (auto simp: default_rebalancer_def field_simps)
  have "underweight ?r ?T bs \<noteq> []" using assms(3) T by (auto simp: check_imbalance_def Let_def)
  then obtain v y where "(v, y) \<in> set bs" "y < 0.2 * ?T" unfolding u by (auto simp: filter_empty_conv)
  with m x T have l: "2 \<le> length bs" by (cases bs rule: remdups_adj.cases) auto
  then have "0 < real (length bs)" by linarith
  then have n: "?T / real (length bs) \<le> ?T / 2" using T l by (intro divide_left_mono) auto
  have s: "suggest ?T (length bs) (src, x) = (\<lambda>(u, _). [\<lparr>sg_from = src, sg_to = u,
      sg_amount = py_round_n 2 ((x - ?T / real (length bs)) / 2)\<rparr>])"
  proof -
    have "(x / ?T - 1 / real (length bs)) * ?T * 0.5 = (x - ?T / real (length bs)) / 2" using T by (simp add: field_simps)
    moreover have "(x - ?T / real (length bs)) / 2 > 0" using x n T by simp
    ultimately show ?thesis by (auto simp: suggest_def Let_def fun_eq_iff)
  qed
  have c: "concat (map (\<lambda>(u, _). [f u]) us) = map (\<lambda>(u, _). f u) us" for f :: "string \<Rightarrow> suggestion" and us :: "(string \<times> real) list"
    by (induction us) auto
  have "check_imbalance ?r bs = concat (map (suggest ?T (length bs) (src, x)) (underweight ?r ?T bs))"
    using T by (simp add: check_imbalance_def Let_def o)
  with m x show ?thesis unfolding s u c by blast
qed

text \<open>Three suggestions can ask for more than the source holds.\<close>

lemma suggestions_exceed_holdings:
  "map sg_amount (check_imbalance default_rebalancer [(''kucoin'', 900), (''gate'', 30), (''mexc'', 30), (''kraken'', 30)]) =
     [326.25, 326.25, 326.25] \<and> 900 < (326.25 + 326.25 + 326.25 :: real)"
  by (simp add: check_imbalance_def overweight_def underweight_def suggest_def default_rebalancer_def Let_def
      py_round_n_def py_round_def)

theorem suggestions_halve_excess_witness:
  "\<exists>src x. (src, x) \<in> set [(''kucoin'', 900), (''gate'', 30), (''mexc'', 60 :: real)] \<and> x > 0.6 * 990 \<and>
    check_imbalance default_rebalancer [(''kucoin'', 900), (''gate'', 30), (''mexc'', 60)] =
      map (\<lambda>(u, _). \<lparr>sg_from = src, sg_to = u, sg_amount = py_round_n 2 ((x - 990 / 3) / 2)\<rparr>)
        (filter (\<lambda>(_, t). t < 0.2 * (990 :: real)) [(''kucoin'', 900), (''gate'', 30), (''mexc'', 60)])"
  using suggestions_halve_excess [of "[(''kucoin'', 900), (''gate'', 30), (''mexc'', 60)]"]
  by (simp add: dict_wf_def check_imbalance_def overweight_def underweight_def suggest_def default_rebalancer_def Let_def)

end
