(* ===== verification/Sessions.thy ===== *)
theory Sessions
  imports LiveFeed "HOL-Library.Sublist"
begin

text \<open>
  The \<open>/ws\<close> endpoint of \<open>api/routes.py\<close>: one session per connected client, which forwards its queue of
  the live feed to the socket and sends a heartbeat when nothing arrives for thirty seconds.  The
  sessions and the broadcasts of the bots interleave as the steps of \<open>ws_step\<close>.  Every broadcast of
  the program has a typed event, so the raw variant of \<open>emit\<close> does not occur.
\<close>

section \<open>State\<close>

datatype frame = Event message | Beat real

text \<open>
  The set of the feed holds the queues by reference: a queue the feed has thrown out (\<open>hub_loose\<close>)
  is still the session's, which goes on reading from it.
\<close>

record hub =
  hub_feed :: live_feed
  hub_loose :: "(nat \<times> message aqueue) list"
  hub_open :: "nat list"
  hub_sent :: "nat \<Rightarrow> frame list"

definition new_hub :: hub where
  "new_hub = \<lparr>hub_feed = new_live_feed, hub_loose = [], hub_open = [], hub_sent = (\<lambda>_. [])\<rparr>"

definition session_queue :: "hub \<Rightarrow> nat \<Rightarrow> message aqueue option" where
  "session_queue h c =
     (case dict_get (lf_clients (hub_feed h)) c of Some q \<Rightarrow> Some q | None \<Rightarrow> dict_get (hub_loose h) c)"

definition set_queue :: "nat \<Rightarrow> message aqueue \<Rightarrow> (nat \<times> message aqueue) list \<Rightarrow> (nat \<times> message aqueue) list" where
  "set_queue c q = map (\<lambda>(k, q'). if k = c then (k, q) else (k, q'))"

section \<open>Steps\<close>

text \<open>\<open>accept\<close> and \<open>subscribe\<close>\<close>

definition ws_accept :: "hub \<Rightarrow> nat \<times> hub" where
  "ws_accept h =
     (let (c, f) = subscribe (hub_feed h)
      in (c, h\<lparr>hub_feed := f, hub_open := c # hub_open h, hub_sent := (hub_sent h)(c := [])\<rparr>))"

text \<open>A broadcast; the queues that leave the set become loose.\<close>

definition ws_publish :: "message \<Rightarrow> hub \<Rightarrow> hub" where
  "ws_publish m h =
     (let cs = lf_clients (hub_feed h)
      in h\<lparr>hub_feed := hub_feed h\<lparr>lf_clients := deliver m cs\<rparr>,
           hub_loose := filter (\<lambda>(c, q). put_nowait m q = None) cs @ hub_loose h\<rparr>)"

text \<open>One pass of the session's loop: a waiting message is sent, otherwise the wait times out at \<open>t\<close>.\<close>

definition ws_pass :: "nat \<Rightarrow> real \<Rightarrow> hub \<Rightarrow> hub" where
  "ws_pass c t h =
     (case session_queue h c of
        None \<Rightarrow> h
      | Some q \<Rightarrow>
          (case get_nowait q of
             None \<Rightarrow> h\<lparr>hub_sent := (hub_sent h)(c := hub_sent h c @ [Beat t])\<rparr>
           | Some (m, q') \<Rightarrow>
               h\<lparr>hub_feed := hub_feed h\<lparr>lf_clients := set_queue c q' (lf_clients (hub_feed h))\<rparr>,
                 hub_loose := set_queue c q' (hub_loose h),
                 hub_sent := (hub_sent h)(c := hub_sent h c @ [Event m])\<rparr>))"

text \<open>A disconnect, or any error of a send: the session unsubscribes and is over.\<close>

definition ws_leave :: "nat \<Rightarrow> hub \<Rightarrow> hub" where
  "ws_leave c h =
     h\<lparr>hub_feed := unsubscribe c (hub_feed h), hub_loose := AList.delete c (hub_loose h),
       hub_open := removeAll c (hub_open h)\<rparr>"

text \<open>
  The hubs that can be reached, with what has been broadcast since each client connected.
\<close>

inductive ws_reach :: "hub \<Rightarrow> (nat \<Rightarrow> message list) \<Rightarrow> bool" where
  start: "ws_reach new_hub (\<lambda>_. [])"
| accept: "ws_reach h since \<Longrightarrow> ws_accept h = (c, h') \<Longrightarrow> ws_reach h' (since(c := []))"
| publish: "ws_reach h since \<Longrightarrow> ws_reach (ws_publish m h) (\<lambda>c. since c @ [m])"
| pass: "ws_reach h since \<Longrightarrow> c \<in> set (hub_open h) \<Longrightarrow> ws_reach (ws_pass c t h) since"
| leave: "ws_reach h since \<Longrightarrow> c \<in> set (hub_open h) \<Longrightarrow> ws_reach (ws_leave c h) since"

section \<open>What a client sees\<close>

fun events :: "frame list \<Rightarrow> message list" where
  "events [] = []"
| "events (Event m # fs) = m # events fs"
| "events (Beat t # fs) = events fs"

lemma events_append [simp]: "events (xs @ ys) = events xs @ events ys"
  by (induction xs rule: events.induct) simp_all

lemma map_of_set_queue: "map_of (set_queue c q cs) k = (if k = c \<and> map_of cs c \<noteq> None then Some q else map_of cs k)"
  unfolding set_queue_def by (induction cs) auto

lemma keys_set_queue [simp]: "map fst (set_queue c q cs) = map fst cs"
  unfolding set_queue_def by (induction cs) auto

lemma set_queue_absent: "map_of cs c = None \<Longrightarrow> set_queue c q cs = cs"
  unfolding set_queue_def by (induction cs) (auto split: if_splits)

lemma map_of_filter_wf:
  "distinct (map fst xs) \<Longrightarrow> map_of (filter P xs) k =
     (case map_of xs k of None \<Rightarrow> None | Some v \<Rightarrow> if P (k, v) then Some v else None)"
proof (induction xs)
  case (Cons x xs)
  then have "map_of xs (fst x) = None" by (simp add: map_of_eq_None_iff)
  with Cons show ?case by (cases x) (auto split: option.split)
qed simp

text \<open>
  What holds of every session: its queue is in the set, and then it holds exactly what has not been
  sent yet; or the queue was thrown out, and a broadcast is missing behind what it still holds.
\<close>

definition session_ok :: "hub \<Rightarrow> (nat \<Rightarrow> message list) \<Rightarrow> nat \<Rightarrow> bool" where
  "session_ok h since c \<longleftrightarrow>
     (case dict_get (lf_clients (hub_feed h)) c of
        Some q \<Rightarrow> events (hub_sent h c) @ q_items q = since c
      | None \<Rightarrow> (\<exists>q. dict_get (hub_loose h) c = Some q \<and> strict_prefix (events (hub_sent h c) @ q_items q) (since c)))"

definition hub_ok :: "hub \<Rightarrow> (nat \<Rightarrow> message list) \<Rightarrow> bool" where
  "hub_ok h since \<longleftrightarrow> feed_ok (hub_feed h) \<and>
     (\<forall>k. dict_get (hub_loose h) k \<noteq> None \<longrightarrow> k < lf_next (hub_feed h) \<and> dict_get (lf_clients (hub_feed h)) k = None) \<and>
     (\<forall>c \<in> set (hub_open h). session_ok h since c \<and> c < lf_next (hub_feed h))"

lemma feed_ok_get: "feed_ok f \<Longrightarrow> map_of (lf_clients f) c = Some q \<Longrightarrow> c < lf_next f \<and> q_maxsize q = 100 \<and> length (q_items q) \<le> 100"
  by (auto simp: feed_ok_def dest!: map_of_SomeD)

lemma feed_ok_set_queue:
  assumes "feed_ok f" "q_maxsize q = 100" "length (q_items q) \<le> 100"
  shows "feed_ok (f\<lparr>lf_clients := set_queue c q (lf_clients f)\<rparr>)"
  using assms by (auto simp: feed_ok_def dict_wf_def) (auto simp: set_queue_def split: if_splits)

lemma hub_ok_accept:
  assumes "hub_ok h since" "ws_accept h = (c, h')"
  shows "hub_ok h' (since(c := []))"
proof -
  let ?f = "hub_feed h"
  have ok: "feed_ok ?f" using assms(1) by (simp add: hub_ok_def)
  have h': "h' = h\<lparr>hub_feed := snd (subscribe ?f), hub_open := lf_next ?f # hub_open h, hub_sent := (hub_sent h)(lf_next ?f := [])\<rparr>"
    and c: "c = lf_next ?f" using assms(2) by (auto simp: ws_accept_def subscribe_def)
  have cs: "map_of (lf_clients (snd (subscribe ?f))) k = (if k = lf_next ?f then Some (new_queue 100) else map_of (lf_clients ?f) k)" for k
    using feed_ok_get [OF ok, of "lf_next ?f"]
    by (cases "map_of (lf_clients ?f) (lf_next ?f)") (auto simp: subscribe_def map_add_def split: option.split)
  have next': "lf_next (snd (subscribe ?f)) = Suc (lf_next ?f)" by (simp add: subscribe_def)
  show ?thesis
    using assms(1) feed_ok_subscribe [OF ok]
    by (auto simp: hub_ok_def h' c cs next' session_ok_def new_queue_def less_Suc_eq split: option.splits)
qed

lemma strict_prefix_snocI: "strict_prefix xs ys \<Longrightarrow> strict_prefix xs (ys @ [y])"
  by (auto simp: strict_prefix_def prefix_def)

lemma strict_prefix_snoc_self [simp]: "strict_prefix xs (xs @ [x])"
  by (simp add: strict_prefix_def)

lemma hub_ok_publish:
  assumes "hub_ok h since"
  shows "hub_ok (ws_publish m h) (\<lambda>c. since c @ [m])"
proof -
  let ?f = "hub_feed h"
  have ok: "feed_ok ?f" and wf: "dict_wf (lf_clients ?f)" using assms by (simp_all add: hub_ok_def feed_ok_def)
  have cs: "map_of (deliver m (lf_clients ?f)) k = Option.bind (map_of (lf_clients ?f) k) (put_nowait m)" for k
    by (rule map_of_deliver [OF wf])
  have loose: "map_of (filter (\<lambda>(c, q). put_nowait m q = None) (lf_clients ?f) @ hub_loose h) k =
      (case map_of (lf_clients ?f) k of
         Some q \<Rightarrow> if put_nowait m q = None then Some q else map_of (hub_loose h) k
       | None \<Rightarrow> map_of (hub_loose h) k)" for k
    using wf by (simp add: dict_wf_def map_add_def map_of_filter_wf split: option.split)
  have items: "put_nowait m q = Some q' \<Longrightarrow> q_items q' = q_items q @ [m]" for q q'
    by (auto simp: put_nowait_def split: if_splits)
  have session: "session_ok (ws_publish m h) (\<lambda>c. since c @ [m]) c" if "session_ok h since c" for c
  proof (cases "map_of (lf_clients ?f) c")
    case None
    with that show ?thesis
      by (auto simp: session_ok_def ws_publish_def Let_def cs loose strict_prefix_snocI simp del: map_of_append)
  next
    case (Some q)
    with that show ?thesis
      by (cases "put_nowait m q") (auto simp: session_ok_def ws_publish_def Let_def cs loose items simp del: map_of_append)
  qed
  have bound: "k < lf_next ?f \<and> map_of (deliver m (lf_clients ?f)) k = None"
    if "map_of (filter (\<lambda>(c, q). put_nowait m q = None) (lf_clients ?f) @ hub_loose h) k \<noteq> None" for k
    using that assms feed_ok_get [OF ok, of k]
    by (cases "map_of (lf_clients ?f) k") (auto simp: loose cs hub_ok_def simp del: map_of_append split: if_splits)
  show ?thesis
    using assms session bound feed_ok_deliver [OF ok, of m] unfolding hub_ok_def
    by (simp add: ws_publish_def Let_def del: map_of_append)
qed

lemma hub_ok_pass:
  assumes "hub_ok h since" "c \<in> set (hub_open h)"
  shows "hub_ok (ws_pass c t h) since"
proof -
  let ?f = "hub_feed h"
  have ok: "feed_ok ?f" using assms by (simp add: hub_ok_def)
  show ?thesis
  proof (cases "session_queue h c")
    case None
    with assms show ?thesis by (simp add: ws_pass_def)
  next
    case (Some q)
    show ?thesis
    proof (cases "q_items q")
      case Nil
      have "session_ok (h\<lparr>hub_sent := (hub_sent h)(c := hub_sent h c @ [Beat t])\<rparr>) since k = session_ok h since k" for k
        by (simp add: session_ok_def split: option.split)
      with Some Nil assms show ?thesis by (simp add: ws_pass_def get_nowait_def hub_ok_def)
    next
      case (Cons m ms)
      let ?q = "q\<lparr>q_items := ms\<rparr>"
      have pass: "ws_pass c t h = h\<lparr>hub_feed := ?f\<lparr>lf_clients := set_queue c ?q (lf_clients ?f)\<rparr>,
          hub_loose := set_queue c ?q (hub_loose h), hub_sent := (hub_sent h)(c := hub_sent h c @ [Event m])\<rparr>"
        using Some Cons by (simp add: ws_pass_def get_nowait_def)
      have "feed_ok (?f\<lparr>lf_clients := set_queue c ?q (lf_clients ?f)\<rparr>)"
      proof (cases "map_of (lf_clients ?f) c")
        case None
        with ok show ?thesis by (simp add: set_queue_absent)
      next
        case (Some q')
        with \<open>session_queue h c = Some q\<close> have "q' = q" by (simp add: session_queue_def)
        with feed_ok_get [OF ok Some] Cons show ?thesis by (intro feed_ok_set_queue [OF ok]) simp_all
      qed
      then show ?thesis
        using assms Some Cons
        by (auto simp: hub_ok_def pass map_of_set_queue session_ok_def session_queue_def split: option.splits if_splits)
    qed
  qed
qed

lemma hub_ok_leave:
  assumes "hub_ok h since"
  shows "hub_ok (ws_leave c h) since"
  using assms feed_ok_unsubscribe [of "hub_feed h" c]
  by (auto simp: hub_ok_def ws_leave_def unsubscribe_def session_ok_def delete_conv' split: option.splits)

lemma hub_ok_reach: "ws_reach h since \<Longrightarrow> hub_ok h since"
proof (induction rule: ws_reach.induct)
  case start
  then show ?case by (simp add: hub_ok_def new_hub_def feed_ok_new)
qed (simp_all only: hub_ok_accept hub_ok_publish hub_ok_pass hub_ok_leave)

text \<open>
  C39. Whatever the interleaving of connects, broadcasts, sends and disconnects, an open session has
  sent its client a prefix, in order and without a gap, of what was broadcast since it connected, and
  while its queue is in the set the rest is waiting in the queue.  A session whose queue was thrown
  out stays open all the same: it has lost a broadcast for good, and nothing tells the client.
\<close>

theorem client_sees_a_prefix:
  assumes "ws_reach h since" and "c \<in> set (hub_open h)"
  shows "prefix (events (hub_sent h c)) (since c) \<and>
    (case dict_get (lf_clients (hub_feed h)) c of
       Some q \<Rightarrow> since c = events (hub_sent h c) @ q_items q
     | None \<Rightarrow> \<exists>q. session_queue h c = Some q \<and> strict_prefix (events (hub_sent h c) @ q_items q) (since c))"
proof -
  have "session_ok h since c" using hub_ok_reach [OF assms(1)] assms(2) by (simp add: hub_ok_def)
  then show ?thesis
    by (cases "dict_get (lf_clients (hub_feed h)) c")
      (auto simp: session_ok_def session_queue_def strict_prefix_def prefix_def intro: sym)
qed

text \<open>One client, two broadcasts, one of them already sent.\<close>

definition hello :: message where
  "hello = \<lparr>msg_event = ''bot_started'', msg_data = JNull, msg_timestamp = 0\<rparr>"

definition sample_hub :: hub where
  "sample_hub = ws_pass 0 0 (ws_publish hello (ws_publish hello (snd (ws_accept new_hub))))"

theorem client_sees_a_prefix_witness:
  "prefix (events (hub_sent sample_hub 0)) [hello, hello] \<and>
    (case dict_get (lf_clients (hub_feed sample_hub)) 0 of
       Some q \<Rightarrow> [hello, hello] = events (hub_sent sample_hub 0) @ q_items q
     | None \<Rightarrow> \<exists>q. session_queue sample_hub 0 = Some q \<and>
         strict_prefix (events (hub_sent sample_hub 0) @ q_items q) [hello, hello])"
proof -
  have "ws_accept new_hub = (0, snd (ws_accept new_hub))"
    by (simp add: ws_accept_def subscribe_def new_hub_def new_live_feed_def)
  from ws_reach.publish [OF ws_reach.publish [OF ws_reach.accept [OF ws_reach.start this], of hello], of hello]
  have "ws_reach sample_hub (\<lambda>c. (((\<lambda>_. [])(0 := [])) c @ [hello]) @ [hello])"
    unfolding sample_hub_def
    by (rule ws_reach.pass) (simp add: ws_publish_def ws_accept_def subscribe_def new_hub_def new_live_feed_def Let_def)
  then have "ws_reach sample_hub (\<lambda>_. [hello, hello])" by simp
  moreover have "0 \<in> set (hub_open sample_hub)"
    by (simp add: sample_hub_def ws_pass_def session_queue_def get_nowait_def ws_publish_def ws_accept_def subscribe_def
        new_hub_def new_live_feed_def new_queue_def put_nowait_def Let_def)
  ultimately show ?thesis by (rule client_sees_a_prefix)
qed

end
