(* ===== verification/Agents.thy ===== *)
theory Agents
  imports Database
begin

text \<open>
  \<open>agents/\<close>: the observation and action of an agent, the pass-through agent, and the feature collector,
  which stores what it returns.  Nothing else in the program calls them.
\<close>

record agent_observation =
  obs_vol_simple :: real
  obs_vol_zz :: real
  obs_zz_regime :: string
  obs_aggressiveness :: real
  obs_skew_factor :: real
  obs_token_drift_pct :: real
  obs_global_mid :: real
  obs_bid_ask_spread_bps :: real
  obs_fill_rate_1m :: real
  obs_pnl_1h :: real

record agent_action =
  aggressiveness_override :: "real option"

definition passthrough_observe :: "agent_observation \<Rightarrow> agent_action" where
  "passthrough_observe obs = \<lparr>aggressiveness_override = None\<rparr>"

definition record_reward :: "real \<Rightarrow> real \<Rightarrow> 's \<Rightarrow> 's" where
  "record_reward pnl_delta fill_delta s = s"

definition spread_in_bps :: "real option \<Rightarrow> real option \<Rightarrow> real" where
  "spread_in_bps buy_spread_l1 sell_spread_l1 =
     (case (buy_spread_l1, sell_spread_l1) of (Some b, Some a) \<Rightarrow> (a - b) * 100 | _ \<Rightarrow> 0)"

definition collect ::
  "'w env \<Rightarrow> real \<Rightarrow> real \<Rightarrow> string \<Rightarrow> real \<Rightarrow> real \<Rightarrow> real \<Rightarrow> real \<Rightarrow> real option \<Rightarrow> real option \<Rightarrow>
   (('w, 'z) db_sys_scheme, agent_observation) eff"
where
  "collect env vol_simple vol_zz zz_regime aggressiveness skew_factor token_drift_pct global_mid buy_spread_l1 sell_spread_l1 =
     bindE (get_fill_rate env 60) (\<lambda>fill_rate.
     bindE (get_recent_pnl env 3600) (\<lambda>pnl_1h.
     seqE (insert_rl_features env
       \<lparr>ft_timestamp = 0, ft_vol_simple = vol_simple, ft_vol_zz = (if vol_zz \<noteq> 0 then Some vol_zz else None),
        ft_zz_regime = Some zz_regime, ft_hmm_regime = None, ft_hmm_confidence = None, ft_aggressiveness = aggressiveness,
        ft_global_mid = global_mid, ft_buy_spread_l1 = buy_spread_l1, ft_sell_spread_l1 = sell_spread_l1,
        ft_skew_factor = skew_factor, ft_fill_rate_1m = fill_rate, ft_pnl_1h = Some pnl_1h\<rparr>)
     (ret \<lparr>obs_vol_simple = vol_simple, obs_vol_zz = vol_zz, obs_zz_regime = zz_regime, obs_aggressiveness = aggressiveness,
        obs_skew_factor = skew_factor, obs_token_drift_pct = token_drift_pct, obs_global_mid = global_mid,
        obs_bid_ask_spread_bps = spread_in_bps buy_spread_l1 sell_spread_l1, obs_fill_rate_1m = fill_rate,
        obs_pnl_1h = pnl_1h\<rparr>)))"

text \<open>An observation is only returned once its features are the last row of the table, with the same figures.\<close>

lemma collect_stores_observation:
  assumes "collect env v z r a sk dr mid b l s = (Inr obs, s')"
  shows "\<exists>rows row. t_features (db s') = rows @ [row] \<and> ft_vol_simple row = obs_vol_simple obs \<and>
    ft_vol_zz row = (if obs_vol_zz obs \<noteq> 0 then Some (obs_vol_zz obs) else None) \<and>
    ft_zz_regime row = Some (obs_zz_regime obs) \<and> ft_skew_factor row = obs_skew_factor obs \<and>
    ft_fill_rate_1m row = obs_fill_rate_1m obs \<and> ft_pnl_1h row = Some (obs_pnl_1h obs)"
proof -
  obtain n p s1 s2 where "get_fill_rate env 60 s = (Inr n, s1)" "get_recent_pnl env 3600 s1 = (Inr p, s2)"
    and rest: "seqE (insert_rl_features env
       \<lparr>ft_timestamp = 0, ft_vol_simple = v, ft_vol_zz = (if z \<noteq> 0 then Some z else None), ft_zz_regime = Some r,
        ft_hmm_regime = None, ft_hmm_confidence = None, ft_aggressiveness = a, ft_global_mid = mid,
        ft_buy_spread_l1 = b, ft_sell_spread_l1 = l, ft_skew_factor = sk, ft_fill_rate_1m = n, ft_pnl_1h = Some p\<rparr>)
      (ret \<lparr>obs_vol_simple = v, obs_vol_zz = z, obs_zz_regime = r, obs_aggressiveness = a, obs_skew_factor = sk,
        obs_token_drift_pct = dr, obs_global_mid = mid, obs_bid_ask_spread_bps = spread_in_bps b l, obs_fill_rate_1m = n,
        obs_pnl_1h = p\<rparr>) s2 = (Inr obs, s')"
    using assms unfolding collect_def bindE_eq_Inr by blast
  define row where "row = \<lparr>ft_timestamp = 0, ft_vol_simple = v, ft_vol_zz = (if z \<noteq> 0 then Some z else None), ft_zz_regime = Some r,
        ft_hmm_regime = None, ft_hmm_confidence = None, ft_aggressiveness = a, ft_global_mid = mid,
        ft_buy_spread_l1 = b, ft_sell_spread_l1 = l, ft_skew_factor = sk, ft_fill_rate_1m = n, ft_pnl_1h = Some p\<rparr>"
  have ins: "insert_rl_features env row s2 = (Inr (), s')"
    and obs: "obs = \<lparr>obs_vol_simple = v, obs_vol_zz = z, obs_zz_regime = r, obs_aggressiveness = a, obs_skew_factor = sk,
        obs_token_drift_pct = dr, obs_global_mid = mid, obs_bid_ask_spread_bps = spread_in_bps b l, obs_fill_rate_1m = n,
        obs_pnl_1h = p\<rparr>"
    using rest unfolding row_def [symmetric] by (auto simp: seqE_eq_Inr ret_def)
  obtain t s3 where "execute env (\<lambda>d. d\<lparr>t_features := t_features d @ [row\<lparr>ft_timestamp := t\<rparr>]\<rparr>) s3 = (Inr (), s')"
    using ins by (auto simp: insert_rl_features_def bindE_eq_Inr)
  then have "t_features (db s') = t_features (db s3) @ [row\<lparr>ft_timestamp := t\<rparr>]"
    using execute_cases [of env "\<lambda>d. d\<lparr>t_features := t_features d @ [row\<lparr>ft_timestamp := t\<rparr>]\<rparr>" s3] by force
  then show ?thesis by (intro exI [of _ "t_features (db s3)"] exI [of _ "row\<lparr>ft_timestamp := t\<rparr>"]) (simp add: row_def obs)
qed

end
