(* ===== verification/RegimeFiles.thy ===== *)
theory RegimeFiles
  imports RegimeDetector HmmRegime
begin

text \<open>
  How the two detectors get their parameters: \<open>RegimeDetector.save\<close> and \<open>load\<close>, and the hand-tuned
  start of the Gaussian model of \<open>quant/hmm_regime.py\<close>.
\<close>

section \<open>The pickle file of the regime detector\<close>

text \<open>The dict a file holds; None is a key it does not have.\<close>

record saved_state =
  sv_pi :: "vec option"
  sv_A :: "matrix option"
  sv_B :: "matrix option"
  sv_belief :: "vec option"

definition rd_save :: "regime_detector \<Rightarrow> saved_state" where
  "rd_save d = \<lparr>sv_pi = Some (rd_pi d), sv_A = Some (rd_A d), sv_B = Some (rd_B d), sv_belief = Some (rd_belief d)\<rparr>"

text \<open>
  No file, a file that cannot be read, or the dict in it.  The assignments are made one by one, so a
  missing key leaves the earlier ones in place and answers False.
\<close>

definition rd_load :: "saved_state result option \<Rightarrow> regime_detector \<Rightarrow> bool \<times> regime_detector" where
  "rd_load file d =
     (case file of
        None \<Rightarrow> (False, d)
      | Some (Inl e) \<Rightarrow> (False, d)
      | Some (Inr st) \<Rightarrow>
          (case sv_pi st of
             None \<Rightarrow> (False, d)
           | Some p \<Rightarrow>
               (let d1 = d\<lparr>rd_pi := p\<rparr>
                in case sv_A st of
                     None \<Rightarrow> (False, d1)
                   | Some A \<Rightarrow>
                       (let d2 = d1\<lparr>rd_A := A\<rparr>
                        in case sv_B st of
                             None \<Rightarrow> (False, d2)
                           | Some B \<Rightarrow>
                               (True, d2\<lparr>rd_B := B, rd_belief := (case sv_belief st of Some b \<Rightarrow> b | None \<Rightarrow> p)\<rparr>)))))"

text \<open>Loading what was saved restores everything but the last observation, into whatever detector.\<close>

lemma load_after_save:
  "rd_load (Some (Inr (rd_save d))) d' = (True, d\<lparr>rd_last_obs := rd_last_obs d'\<rparr>)"
  by (cases d, cases d') (simp add: rd_load_def rd_save_def)

text \<open>An older file without a belief starts from its prior.\<close>

lemma load_without_belief:
  "rd_load (Some (Inr ((rd_save d)\<lparr>sv_belief := None\<rparr>))) d' =
     (True, d\<lparr>rd_last_obs := rd_last_obs d', rd_belief := rd_pi d\<rparr>)"
  by (cases d, cases d') (simp add: rd_load_def rd_save_def)

text \<open>A load that answers False may all the same have replaced the prior and the transitions.\<close>

lemma failed_load_mixes:
  "rd_load (Some (Inr ((rd_save d)\<lparr>sv_B := None\<rparr>))) d' = (False, d'\<lparr>rd_pi := rd_pi d, rd_A := rd_A d\<rparr>)"
  by (simp add: rd_load_def rd_save_def)

section \<open>The start of the Gaussian model\<close>

record hmm_params =
  hp_startprob :: "real list"
  hp_transmat :: "real list list"
  hp_means :: "real list list"
  hp_covars :: "real list list"

definition default_transition_matrix :: "real list list" where
  "default_transition_matrix =
     [[0.90, 0.08, 0.02, 0.00, 0.00],
      [0.05, 0.85, 0.08, 0.01, 0.01],
      [0.02, 0.10, 0.70, 0.15, 0.03],
      [0.00, 0.02, 0.08, 0.60, 0.30],
      [0.10, 0.35, 0.05, 0.00, 0.50]]"

definition default_start_probs :: "real list" where
  "default_start_probs = [0.15, 0.60, 0.15, 0.05, 0.05]"

definition default_means :: "real list list" where
  "default_means =
     [[0.0005, 0, 0, 0],
      [0.0015, 0, 0.10, 0.0010],
      [0.0040, - 0.0010, 0.30, - 0.0020],
      [0.0080, - 0.0050, 0.80, - 0.0080],
      [0.0030, 0.0020, 0.40, 0.0030]]"

definition default_covars :: "real list list" where
  "default_covars =
     [[1 / 10 ^ 6, 1 / 10 ^ 6, 0.01, 1 / 10 ^ 6],
      [5 / 10 ^ 6, 5 / 10 ^ 6, 0.05, 5 / 10 ^ 6],
      [1 / 10 ^ 5, 1 / 10 ^ 5, 0.10, 1 / 10 ^ 5],
      [5 / 10 ^ 5, 5 / 10 ^ 5, 0.30, 5 / 10 ^ 5],
      [1 / 10 ^ 5, 1 / 10 ^ 5, 0.15, 1 / 10 ^ 5]]"

definition default_hmm_params :: hmm_params where
  "default_hmm_params =
     \<lparr>hp_startprob = default_start_probs, hp_transmat = default_transition_matrix, hp_means = default_means,
      hp_covars = default_covars\<rparr>"

text \<open>\<open>__init__\<close>: \<open>gaussian\<close> makes hmmlearn's model of the parameters, None when the package is missing.\<close>

definition make_hmm_detector :: "(hmm_params \<Rightarrow> 'm) option \<Rightarrow> hmm_config \<Rightarrow> 'm hmm_detector" where
  "make_hmm_detector gaussian cfg = new_hmm_detector cfg (map_option (\<lambda>g. g default_hmm_params) gaussian)"

text \<open>
  The hand-tuned numbers are what the package asks for: a start and five rows that are probability
  distributions over the five regimes, and positive variances.
\<close>

lemma default_hmm_params_ok:
  "dist 5 (hp_startprob default_hmm_params)" "\<forall>row \<in> set (hp_transmat default_hmm_params). dist 5 row"
  "\<forall>row \<in> set (hp_covars default_hmm_params). \<forall>v \<in> set row. 0 < v"
  by (simp_all add: default_hmm_params_def default_start_probs_def default_transition_matrix_def default_covars_def dist_def)

text \<open>No transition leads straight from a crash to a calm market, or from a recovery into a crash.\<close>

lemma crash_does_not_calm_at_once:
  "hp_transmat default_hmm_params ! 3 ! 0 = 0" "hp_transmat default_hmm_params ! 4 ! 3 = 0"
  by (simp_all add: default_hmm_params_def default_transition_matrix_def)

end
