(* ===== verification/BotFills.thy ===== *)
theory BotFills
  imports BotSafety
begin

text \<open>
  The ingestion of fills (\<open>ExchangeBot._ingest_fills\<close>): the watermark \<open>_last_fill_ts\<close> against the history
  of fills of the exchange, whatever fails on the way.
\<close>

text \<open>
  The exchange answers with fills of its history \<open>h\<close> from the time asked for, or a little before (the
  connector cuts the time off to milliseconds), oldest first as ccxt documents for
  \<open>fetchMyTrades\<close>; how many it gives, and how many have happened yet, is open.  Or it raises.
\<close>

definition serves_fills :: "'w env \<Rightarrow> fill list \<Rightarrow> bool" where
  "serves_fills env h \<longleftrightarrow> sorted_wrt (\<lambda>a b. fl_timestamp a \<le> fl_timestamp b) h \<and>
     (\<forall>t w fs w'. fetch_fills env (Some t) w = (Inr fs, w') \<longrightarrow>
       (\<exists>k c. c \<le> t \<and> fs = take k (filter (\<lambda>f. c \<le> fl_timestamp f) h)))"

definition recorded :: "('w, 'z) bot_scheme \<Rightarrow> fill \<Rightarrow> bool" where
  "recorded s f \<longleftrightarrow> fl_id f \<in> set (dict_keys (t_fills (db s)))"

text \<open>The second fill happened less than a millisecond after the first.\<close>

definition within_ms :: "fill \<Rightarrow> fill \<Rightarrow> bool" where
  "within_ms g f \<longleftrightarrow> fl_timestamp g \<le> fl_timestamp f \<and> fl_timestamp f < fl_timestamp g + 0.001"

text \<open>No two fills of a history in the same millisecond.\<close>

definition history_ok :: "fill list \<Rightarrow> bool" where
  "history_ok h \<longleftrightarrow> sorted_wrt (\<lambda>a b. fl_timestamp a + 0.001 \<le> fl_timestamp b) h"

text \<open>
  The watermark is the time of a recorded fill, and of the history since \<open>t0\<close> up to the watermark
  everything is in the table, or happened less than a millisecond after something that is.
\<close>

definition fills_recorded :: "fill list \<Rightarrow> real \<Rightarrow> ('w, 'z) bot_scheme \<Rightarrow> bool" where
  "fills_recorded h t0 s \<longleftrightarrow> (case b_last_fill_ts s of None \<Rightarrow> True | Some t \<Rightarrow>
     (\<exists>g \<in> set h. recorded s g \<and> fl_timestamp g = t) \<and>
     (\<forall>f \<in> set h. t0 \<le> fl_timestamp f \<and> fl_timestamp f \<le> t \<longrightarrow> (\<exists>g \<in> set h. recorded s g \<and> within_ms g f)))"

lemma keys_insert: "fst ` set (t_fills (sql_insert_fill f p d)) = insert (fl_id f) (fst ` set (t_fills d))"
  by (auto simp: sql_insert_fill_def image_iff intro: rev_bexI)

text \<open>The watermark after a fill.\<close>

definition later :: "fill \<Rightarrow> real option \<Rightarrow> real option" where
  "later f w = (case w of None \<Rightarrow> Some (fl_timestamp f) | Some t \<Rightarrow> Some (max t (fl_timestamp f)))"

lemma fold_later:
  assumes "fold later fs w = Some t"
  shows "w = Some t \<or> (\<exists>g \<in> set fs. fl_timestamp g = t)"
proof -
  have "fold later fs w = w \<or> (\<exists>g \<in> set fs. fold later fs w = Some (fl_timestamp g))"
  proof (induction fs arbitrary: w)
    case (Cons f fs)
    have "later f w = w \<or> later f w = Some (fl_timestamp f)"
      by (auto simp: later_def max_def split: option.split)
    with Cons.IH [of "later f w"] show ?case by auto
  qed simp
  with assms show ?thesis by auto
qed

text \<open>One fill: it is recorded and the watermark moves on, or nothing changes.\<close>

lemma ingest_one_cases:
  assumes "ingest_one env f s = (r, s')"
  shows "if isl r then t_fills (db s') = t_fills (db s) \<and> b_last_fill_ts s' = b_last_fill_ts s
    else fst ` set (t_fills (db s')) = insert (fl_id f) (fst ` set (t_fills (db s))) \<and>
      b_last_fill_ts s' = later f (b_last_fill_ts s)"
proof (cases rule: execute_cases [of env "sql_insert_fill f None" s])
  case (failed e w)
  with assms show ?thesis by (auto simp: ingest_one_def insert_fill_def seqE_def bindE_def)
next
  case (ran w)
  with assms have "r = Inr () \<and> db s' = sql_insert_fill f None (db s) \<and> b_last_fill_ts s' = later f (b_last_fill_ts s)"
    by (auto simp: ingest_one_def insert_fill_def seqE_def bindE_def modE_def later_def split: option.splits)
  then show ?thesis by (simp add: keys_insert)
qed

text \<open>A list of fills: a first part of it is recorded, all of it when nothing is raised.\<close>

lemma ingest_all_cases:
  assumes "for_each (ingest_one env) fs s = (r, s')"
  shows "\<exists>j. fst ` set (t_fills (db s')) = fl_id ` set (take j fs) \<union> fst ` set (t_fills (db s)) \<and>
    b_last_fill_ts s' = fold later (take j fs) (b_last_fill_ts s) \<and> (isl r \<or> length fs \<le> j)"
  using assms
proof (induction fs arbitrary: s)
  case (Cons f fs)
  obtain r1 s1 where 1: "ingest_one env f s = (r1, s1)" by fastforce
  note step = ingest_one_cases [OF 1]
  show ?case
  proof (cases r1)
    case (Inl e)
    with 1 step Cons.prems show ?thesis
      by (intro exI [of _ 0]) (auto simp: seqE_def bindE_def)
  next
    case (Inr x)
    with 1 Cons.prems have "for_each (ingest_one env) fs s1 = (r, s')" by (simp add: seqE_def bindE_def)
    from Cons.IH [OF this] obtain j where
      "fst ` set (t_fills (db s')) = fl_id ` set (take j fs) \<union> fst ` set (t_fills (db s1)) \<and>
       b_last_fill_ts s' = fold later (take j fs) (b_last_fill_ts s1) \<and> (isl r \<or> length fs \<le> j)" by blast
    with step Inr show ?thesis by (intro exI [of _ "Suc j"]) auto
  qed
qed (simp add: ret_def)

text \<open>In a history in order, what precedes a fill of a first part belongs to that part, or is simultaneous.\<close>

lemma first_part:
  assumes "sorted_wrt (\<lambda>a b. fl_timestamp a \<le> fl_timestamp b) L" "g \<in> set (take n L)" "f \<in> set L"
    and "fl_timestamp f \<le> fl_timestamp g"
  shows "f \<in> set (take n L) \<or> fl_timestamp f = fl_timestamp g"
proof (cases "f \<in> set (take n L)")
  case False
  with assms(3) have "f \<in> set (drop n L)" by (metis Un_iff append_take_drop_id set_append)
  moreover have "sorted_wrt (\<lambda>a b. fl_timestamp a \<le> fl_timestamp b) (take n L @ drop n L)"
    using assms(1) by simp
  ultimately have "fl_timestamp g \<le> fl_timestamp f"
    using assms(2) unfolding sorted_wrt_append by blast
  with assms(4) show ?thesis by simp
qed simp

text \<open>One ingestion from a moment no later than \<open>t0\<close>, or than the millisecond after the watermark.\<close>

lemma ingested:
  assumes h: "sorted_wrt (\<lambda>a b. fl_timestamp a \<le> fl_timestamp b) h" and old: "fills_recorded h t0 s"
    and keys: "fst ` set (t_fills (db s')) = fl_id ` set P \<union> fst ` set (t_fills (db s))"
    and wm: "b_last_fill_ts s' = fold later P (b_last_fill_ts s)"
    and P: "P = take n (filter (\<lambda>f. c \<le> fl_timestamp f) h)"
    and c: "case b_last_fill_ts s of None \<Rightarrow> c \<le> t0 | Some t \<Rightarrow> c \<le> t + 0.001"
  shows "fills_recorded h t0 s'"
proof (cases "b_last_fill_ts s'")
  case None
  then show ?thesis by (simp add: fills_recorded_def)
next
  case (Some t)
  let ?L = "filter (\<lambda>f. c \<le> fl_timestamp f) h"
  have sub: "set P \<subseteq> set h" using set_take_subset [of n ?L] by (auto simp: P)
  have recP: "recorded s' f" if "f \<in> set P" for f using that keys by (auto simp: recorded_def)
  have mono: "recorded s' f" if "recorded s f" for f using that keys by (auto simp: recorded_def)
  have self: "within_ms f f" for f by (simp add: within_ms_def)
  have sL: "sorted_wrt (\<lambda>a b. fl_timestamp a \<le> fl_timestamp b) ?L" using h by (rule sorted_wrt_filter)
  consider (same) "b_last_fill_ts s = Some t" | (moved) g where "g \<in> set P" "fl_timestamp g = t"
    using fold_later [of P "b_last_fill_ts s" t] wm Some by auto
  then have "(\<exists>g \<in> set h. recorded s' g \<and> fl_timestamp g = t) \<and>
     (\<forall>f \<in> set h. t0 \<le> fl_timestamp f \<and> fl_timestamp f \<le> t \<longrightarrow> (\<exists>g \<in> set h. recorded s' g \<and> within_ms g f))"
  proof cases
    case same
    with old mono show ?thesis by (fastforce simp: fills_recorded_def)
  next
    case (moved g)
    have new: "\<exists>g \<in> set h. recorded s' g \<and> within_ms g f"
      if "f \<in> set h" "c \<le> fl_timestamp f" "fl_timestamp f \<le> t" for f
    proof -
      have "f \<in> set P \<or> fl_timestamp f = fl_timestamp g"
        using first_part [OF sL, of g n f] moved that by (simp add: P)
      then show ?thesis
      proof
        assume "f \<in> set P"
        with recP self sub show ?thesis by blast
      next
        assume "fl_timestamp f = fl_timestamp g"
        then have "within_ms g f" by (simp add: within_ms_def)
        with moved(1) recP sub show ?thesis by blast
      qed
    qed
    have "\<exists>g \<in> set h. recorded s' g \<and> within_ms g f"
      if f: "f \<in> set h" "t0 \<le> fl_timestamp f" "fl_timestamp f \<le> t" for f
    proof (cases "b_last_fill_ts s")
      case None
      with c f new show ?thesis by force
    next
      case (Some t1)
      with old obtain g1 where g1: "g1 \<in> set h" "recorded s g1" "fl_timestamp g1 = t1"
        by (auto simp: fills_recorded_def)
      consider "fl_timestamp f \<le> t1" | "t1 \<le> fl_timestamp f" "fl_timestamp f < c" | "c \<le> fl_timestamp f"
        by linarith
      then show ?thesis
      proof cases
        case 1
        with old Some f mono show ?thesis by (fastforce simp: fills_recorded_def)
      next
        case 2
        with c Some g1 have "within_ms g1 f" by (simp add: within_ms_def)
        with g1 mono show ?thesis by blast
      next
        case 3
        with f new show ?thesis by blast
      qed
    qed
    moreover from moved recP sub have "\<exists>g \<in> set h. recorded s' g \<and> fl_timestamp g = t" by blast
    ultimately show ?thesis by blast
  qed
  then show ?thesis by (simp add: fills_recorded_def Some)
qed

text \<open>The moment an ingestion asks for, and the ingestion from there.\<close>

definition asked_since :: "'w env \<Rightarrow> ('w, 'z) bot_scheme \<Rightarrow> real" where
  "asked_since env s = (case b_last_fill_ts s of Some t \<Rightarrow> t + 0.001 | None \<Rightarrow> fst (read_clock env (world s)) - 3600)"

lemma ingest_fills_cases:
  obtains (none) e w w' s' where "fetch_fills env (Some (asked_since env s)) w = (Inl e, w')"
      "ingest_fills env s = (Inr (), s')" "db s' = db s" "b_last_fill_ts s' = b_last_fill_ts s"
  | (some) fs w w' s1 where "fetch_fills env (Some (asked_since env s)) w = (Inr fs, w')"
      "ingest_fills env s = for_each (ingest_one env) fs s1" "db s1 = db s" "b_last_fill_ts s1 = b_last_fill_ts s"
proof -
  obtain w0 where since: "(case b_last_fill_ts s of Some t \<Rightarrow> ret (t + 0.001) | None \<Rightarrow> bindE (now_s env) (\<lambda>now. ret (now - 3600))) s
      = (Inr (asked_since env s), s\<lparr>world := w0\<rparr>)"
  proof (cases "b_last_fill_ts s")
    case None
    obtain now w where "read_clock env (world s) = (now, w)" by fastforce
    with None that show ?thesis by (simp add: asked_since_def bindE_def now_s_def envE_def ret_def)
  next
    case (Some t)
    then show ?thesis using that [of "world s"] by (simp add: asked_since_def ret_def)
  qed
  obtain l w where acq: "acquire env (s\<lparr>world := w0\<rparr>) = (Inr (), s\<lparr>limiter := l, world := w\<rparr>)"
    using acquire_result [of env "s\<lparr>world := w0\<rparr>"] by auto
  obtain r w' where call: "fetch_fills env (Some (asked_since env s)) w = (r, w')" by fastforce
  show thesis
  proof (cases r)
    case (Inl e)
    with since acq call have "ingest_fills env s = (Inr (), s\<lparr>limiter := l, world := w'\<rparr>)"
      by (simp add: ingest_fills_def getsE_def bindE_def catchE_def callE_def ret_def)
    with none call Inl show ?thesis by simp
  next
    case (Inr fs)
    with since acq call have "ingest_fills env s = for_each (ingest_one env) fs (s\<lparr>limiter := l, world := w'\<rparr>)"
      by (simp add: ingest_fills_def getsE_def bindE_def catchE_def callE_def ret_def)
    with some call Inr show ?thesis by simp
  qed
qed

lemma recorded_below_watermark:
  assumes "history_ok h" "fills_recorded h t0 s" "b_last_fill_ts s = Some t" "f \<in> set h" "t0 \<le> fl_timestamp f" "fl_timestamp f \<le> t"
  shows "recorded s f"
proof -
  from assms(2-) obtain g where g: "g \<in> set h" "recorded s g" "within_ms g f"
    by (auto simp: fills_recorded_def)
  obtain i j where ij: "i < length h" "h ! i = g" "j < length h" "h ! j = f"
    using g(1) assms(4) by (auto simp: in_set_conv_nth)
  note sep = assms(1) [unfolded history_ok_def sorted_wrt_iff_nth_less, rule_format]
  consider "i = j" | "i < j" | "j < i" by linarith
  then show ?thesis
  proof cases
    case 1
    with ij g(2) show ?thesis by simp
  next
    case 2
    with sep [of i j] ij g(3) show ?thesis by (simp add: within_ms_def)
  next
    case 3
    with sep [of j i] ij g(3) show ?thesis by (simp add: within_ms_def)
  qed
qed

text \<open>
  C19. No fill is lost below the watermark, up to a millisecond: if everything since \<open>t0\<close> up to the
  watermark is in the table or happened less than a millisecond after a fill that is, then so it is
  after an ingestion, whatever the exchange leaves out at the end of its answer and whatever
  insertion fails half-way; the first ingestion may start at any time less than an hour after
  \<open>t0\<close>.  Hence when no two fills share a millisecond, all of them are in the table.  An ingestion
  that raises nothing records every fill it was answered.
\<close>

theorem no_fill_below_watermark_lost:
  assumes "serves_fills env h" and "fills_recorded h t0 s"
    and "b_last_fill_ts s = None \<Longrightarrow> \<forall>w. fst (read_clock env w) - 3600 \<le> t0"
    and "ingest_fills env s = (r, s')"
  shows "fills_recorded h t0 s' \<and>
    (history_ok h \<longrightarrow> (\<forall>t f. b_last_fill_ts s' = Some t \<and> f \<in> set h \<and> t0 \<le> fl_timestamp f \<and> fl_timestamp f \<le> t
       \<longrightarrow> recorded s' f)) \<and>
    (\<forall>fs. r = Inr () \<and> (\<forall>w. fst (fetch_fills env (Some (asked_since env s)) w) = Inr fs)
       \<longrightarrow> (\<forall>f \<in> set fs. recorded s' f))"
proof -
  have "fills_recorded h t0 s' \<and>
    (\<forall>fs. r = Inr () \<and> (\<forall>w. fst (fetch_fills env (Some (asked_since env s)) w) = Inr fs)
       \<longrightarrow> (\<forall>f \<in> set fs. recorded s' f))"
  proof (cases rule: ingest_fills_cases [of env s])
    case (none e w w' s'')
    then have "fst (fetch_fills env (Some (asked_since env s)) w) \<noteq> Inr fs" for fs by simp
    moreover from none(2-4) assms(4) have "db s' = db s" "b_last_fill_ts s' = b_last_fill_ts s" by auto
    with assms(2) have "fills_recorded h t0 s'"
      unfolding fills_recorded_def recorded_def by (simp only: )
    ultimately show ?thesis by blast
  next
    case (some fs w w' s1)
    then have "for_each (ingest_one env) fs s1 = (r, s')" using assms(4) by simp
    from ingest_all_cases [OF this] obtain j where
      j: "fst ` set (t_fills (db s')) = fl_id ` set (take j fs) \<union> fst ` set (t_fills (db s))"
      "b_last_fill_ts s' = fold later (take j fs) (b_last_fill_ts s)" "isl r \<or> length fs \<le> j"
      using some(3,4) by auto
    obtain k c where c: "c \<le> asked_since env s" "fs = take k (filter (\<lambda>f. c \<le> fl_timestamp f) h)"
      using assms(1) some(1) unfolding serves_fills_def by blast
    have "fills_recorded h t0 s'"
    proof (rule ingested [OF _ assms(2) j(1,2)])
      show "sorted_wrt (\<lambda>a b. fl_timestamp a \<le> fl_timestamp b) h" using assms(1) by (simp add: serves_fills_def)
      show "take j fs = take (min j k) (filter (\<lambda>f. c \<le> fl_timestamp f) h)" by (simp add: c(2) min.commute)
      show "case b_last_fill_ts s of None \<Rightarrow> c \<le> t0 | Some t \<Rightarrow> c \<le> t + 0.001"
      proof (cases "b_last_fill_ts s")
        case None
        with assms(3) have "fst (read_clock env (world s)) - 3600 \<le> t0" by blast
        with None c(1) show ?thesis by (simp add: asked_since_def)
      next
        case (Some t)
        with c(1) show ?thesis by (simp add: asked_since_def)
      qed
    qed
    moreover have "recorded s' f" if "r = Inr ()" "f \<in> set fs" for f
      using that j by (auto simp: recorded_def)
    moreover have "gs = fs" if "\<forall>w. fst (fetch_fills env (Some (asked_since env s)) w) = Inr gs" for gs
      using that some(1) by (metis fst_conv sum.inject(2))
    ultimately show ?thesis by blast
  qed
  with recorded_below_watermark [of h t0 s'] show ?thesis by blast
qed

definition sample_fill :: fill where
  "sample_fill = \<lparr>fl_id = ''t1'', fl_order_id = ''a'', fl_exchange = ''kucoin'', fl_symbol = ''ALKIMI/USDT'', fl_side = ''buy'',
     fl_filled_price = 90, fl_filled_amount = 1, fl_fee = 0, fl_fee_currency = ''USDT'', fl_timestamp = 500, fl_pnl_usd = 0\<rparr>"

definition filled_env :: "nat env" where
  "filled_env = sample_env\<lparr>fetch_fills := (\<lambda>t w. (Inr (filter (\<lambda>f. (case t of None \<Rightarrow> True | Some c \<Rightarrow> c \<le> fl_timestamp f)) [sample_fill]), w))\<rparr>"

lemma sample_watermark:
  "fst (ingest_fills filled_env sample_bot) = Inr ()"
  "b_last_fill_ts (snd (ingest_fills filled_env sample_bot)) = Some 500"
  by (simp_all add: ingest_fills_def ingest_one_def insert_fill_def execute_def executor_ready_def need_pool_def server_call_def
      acquire_def eff_simps filled_env_def sample_env_def sample_bot_def sample_fill_def new_rate_limiter_def refill_def
      take_token_def new_database_def sql_insert_fill_def Let_def)

theorem no_fill_below_watermark_lost_witness:
  "fills_recorded [sample_fill] 0 (snd (ingest_fills filled_env sample_bot)) \<and>
   b_last_fill_ts (snd (ingest_fills filled_env sample_bot)) = Some 500 \<and>
   recorded (snd (ingest_fills filled_env sample_bot)) sample_fill"
proof -
  have serves: "serves_fills filled_env [sample_fill]"
    by (auto simp: serves_fills_def filled_env_def intro!: exI [of _ "1::nat"])
  have start: "fills_recorded [sample_fill] 0 sample_bot"
    by (simp add: fills_recorded_def sample_bot_def)
  have run: "ingest_fills filled_env sample_bot = (Inr (), snd (ingest_fills filled_env sample_bot))"
    using sample_watermark(1) by (metis prod.collapse)
  show ?thesis
    using no_fill_below_watermark_lost [OF serves start _ run] sample_watermark(2)
    by (simp add: history_ok_def filled_env_def sample_env_def sample_fill_def)
qed

text \<open>
  Fills of the same millisecond are another matter: one that appears after the watermark has reached
  its time is never asked for again.
\<close>

lemma keeps_unrecorded: "fl_id g \<noteq> fl_id f \<Longrightarrow> keeps (\<lambda>s. \<not> recorded s f) (ingest_one env g)"
proof (rule keepsI)
  fix s :: "('a, 'b) bot_scheme"
  assume ne: "fl_id g \<noteq> fl_id f" and s: "\<not> recorded s f"
  show "\<not> recorded (snd (ingest_one env g s)) f"
  proof (cases rule: execute_cases [of env "sql_insert_fill g None" s])
    case (failed e w)
    with s show ?thesis by (simp add: ingest_one_def insert_fill_def seqE_def bindE_def recorded_def)
  next
    case (ran w)
    have "\<not> recorded (s\<lparr>db := sql_insert_fill g None (db s), world := w\<rparr>) f"
      using s ne by (auto simp: recorded_def sql_insert_fill_def)
    with ran show ?thesis
      by (auto simp: ingest_one_def insert_fill_def seqE_def bindE_def modE_def recorded_def split: option.split)
  qed
qed

lemma same_millisecond_is_lost:
  fixes s :: "('w, 'z) bot_scheme"
  assumes wm: "b_last_fill_ts s = Some (fl_timestamp f)" and "\<not> recorded s f"
    and answers: "\<And>c w fs w' g. fetch_fills env (Some c) w = (Inr fs, w') \<Longrightarrow> g \<in> set fs \<Longrightarrow>
      c \<le> fl_timestamp g \<and> (fl_id g = fl_id f \<longrightarrow> fl_timestamp g = fl_timestamp f)"
  shows "\<not> recorded (snd (ingest_fills env s)) f"
proof -
  obtain l w where acq: "acquire env s = (Inr (), s\<lparr>limiter := l, world := w\<rparr>)" using acquire_result [of env s] by blast
  obtain r w' where call: "fetch_fills env (Some (fl_timestamp f + 0.001)) w = (r, w')" by fastforce
  let ?s = "s\<lparr>limiter := l, world := w'\<rparr>"
  have s: "\<not> recorded ?s f" using assms(2) by (simp add: recorded_def)
  show ?thesis
  proof (cases r)
    case (Inl e)
    with acq call s wm show ?thesis
      by (simp add: ingest_fills_def getsE_def bindE_def catchE_def callE_def ret_def)
  next
    case (Inr fs)
    with call answers have "\<And>g. g \<in> set fs \<Longrightarrow> fl_id g \<noteq> fl_id f" by fastforce
    then have "keeps (\<lambda>s :: ('w, 'z) bot_scheme. \<not> recorded s f) (for_each (ingest_one env) fs)"
      by (intro keeps_for_each keeps_unrecorded)
    then have "\<not> recorded (snd (for_each (ingest_one env) fs ?s)) f" using s by (simp add: keeps_def)
    with acq call Inr wm show ?thesis
      by (simp add: ingest_fills_def getsE_def bindE_def catchE_def callE_def ret_def)
  qed
qed

end
