(* ===== verification/ApiModels.thy ===== *)
theory ApiModels
  imports Api
begin

text \<open>
  The response models of \<open>api/models.py\<close>, as the types of their fields, and what every route answers.
\<close>

section \<open>Types of fields\<close>

datatype field_type =
    TStr | TBool | TInt | TFloat | TDict | TOptional field_type | TList field_type | TModel "(string \<times> field_type) list"

text \<open>A model asks for its fields; \<open>conforms\<close> also lets a value have more of them.\<close>

fun conforms :: "field_type \<Rightarrow> json \<Rightarrow> bool"
  and conforms_fields :: "(string \<times> field_type) list \<Rightarrow> (string \<times> json) list \<Rightarrow> bool" where
  "conforms TStr j = (case j of JStr _ \<Rightarrow> True | _ \<Rightarrow> False)"
| "conforms TBool j = (case j of JBool _ \<Rightarrow> True | _ \<Rightarrow> False)"
| "conforms TInt j = (case j of JNum x \<Rightarrow> x = of_int \<lfloor>x\<rfloor> | _ \<Rightarrow> False)"
| "conforms TFloat j = (case j of JNum _ \<Rightarrow> True | _ \<Rightarrow> False)"
| "conforms TDict j = (case j of JObj _ \<Rightarrow> True | _ \<Rightarrow> False)"
| "conforms (TOptional t) j = (j = JNull \<or> conforms t j)"
| "conforms (TList t) j = (case j of JArr xs \<Rightarrow> list_all (conforms t) xs | _ \<Rightarrow> False)"
| "conforms (TModel fs) j = (case j of JObj d \<Rightarrow> conforms_fields fs d | _ \<Rightarrow> False)"
| "conforms_fields [] d = True"
| "conforms_fields ((k, t) # fs) d = ((case dict_get d k of Some v \<Rightarrow> conforms t v | None \<Rightarrow> False) \<and> conforms_fields fs d)"

section \<open>The models\<close>

definition health_response :: field_type where
  "health_response = TModel [(''status'', TStr), (''version'', TStr), (''uptime_s'', TFloat)]"

definition exchange_status_model :: field_type where
  "exchange_status_model = TModel
     [(''exchange'', TStr), (''running'', TBool), (''dry_run'', TBool), (''q_switch_triggered'', TBool),
      (''circuit_breaker_tripped'', TBool), (''circuit_breaker_reason'', TStr), (''open_orders'', TInt),
      (''global_mid'', TOptional TFloat), (''volatility'', TOptional TFloat), (''aggressiveness'', TOptional TFloat),
      (''zz_regime'', TOptional TStr), (''balance_usd'', TFloat), (''balance_token'', TFloat), (''skew_factor'', TFloat),
      (''token_drift_pct'', TFloat)]"

definition all_status_response :: field_type where
  "all_status_response = TModel
     [(''exchanges'', TList exchange_status_model), (''global_mid'', TOptional TFloat), (''volatility'', TOptional TFloat),
      (''aggressiveness'', TOptional TFloat), (''zz_vol'', TOptional TFloat), (''zz_regime'', TOptional TStr),
      (''contributing_exchanges'', TList TStr)]"

definition order_response :: field_type where
  "order_response = TModel
     [(''id'', TStr), (''exchange'', TStr), (''symbol'', TStr), (''side'', TStr), (''price'', TFloat), (''amount'', TFloat),
      (''amount_usd'', TFloat), (''status'', TStr), (''placed_at'', TFloat)]"

definition fill_response :: field_type where
  "fill_response = TModel
     [(''id'', TStr), (''order_id'', TStr), (''exchange'', TStr), (''symbol'', TStr), (''side'', TStr), (''filled_price'', TFloat),
      (''filled_amount'', TFloat), (''fee'', TFloat), (''fee_currency'', TStr), (''filled_at'', TFloat),
      (''pnl_usd'', TOptional TFloat)]"

definition balance_response :: field_type where
  "balance_response = TModel [(''exchange'', TStr), (''usd'', TFloat), (''token'', TFloat), (''quote_currency'', TStr)]"

definition metrics_response :: field_type where
  "metrics_response = TModel
     [(''global_mid'', TOptional TFloat), (''volatility'', TOptional TFloat), (''aggressiveness'', TOptional TFloat),
      (''zz_vol'', TOptional TFloat), (''zz_regime'', TOptional TStr), (''fill_rate_1m'', TFloat), (''pnl_1h'', TFloat),
      (''total_open_orders'', TInt)]"

definition control_response_model :: field_type where
  "control_response_model = TModel [(''success'', TBool), (''message'', TStr)]"

definition config_response_model :: field_type where
  "config_response_model = TModel [(''config'', TDict), (''message'', TStr)]"

text \<open>What a route answers; the lists of orders, fills and balances have no model of their own.\<close>

fun response_of :: "route \<Rightarrow> field_type" where
  "response_of Health = health_response"
| "response_of Status = all_status_response"
| "response_of (ExchangeStatus _) = exchange_status_model"
| "response_of (Orders _ _) = TModel [(''orders'', TList order_response), (''count'', TInt)]"
| "response_of (Fills _ _ _) = TModel [(''fills'', TList fill_response), (''count'', TInt)]"
| "response_of Balances = TModel [(''balances'', TList balance_response)]"
| "response_of Regime = TModel [(''regime'', TStr), (''confidence'', TFloat), (''zz_regime'', TStr), (''agreement'', TBool),
     (''mm_params'', TDict), (''timestamp'', TFloat)]"
| "response_of Metrics = metrics_response"
| "response_of PauseAll = control_response_model"
| "response_of ResumeAll = control_response_model"
| "response_of EmergencyStop = control_response_model"
| "response_of (PauseExchange _) = control_response_model"
| "response_of (ResumeExchange _) = control_response_model"
| "response_of GetConfig = config_response_model"
| "response_of PutConfig = config_response_model"
| "response_of (PutExchangeConfig _) = config_response_model"

section \<open>Every answer conforms\<close>

named_theorems answer_intros \<open>introduction rules: whatever a method returns satisfies a property\<close>

definition answers_with :: "('a \<Rightarrow> bool) \<Rightarrow> ('s, 'a) eff \<Rightarrow> bool" where
  "answers_with P m \<longleftrightarrow> (\<forall>s x s'. m s = (Inr x, s') \<longrightarrow> P x)"

lemma answers_ret [answer_intros]: "P x \<Longrightarrow> answers_with P (ret x)"
  by (simp add: answers_with_def ret_def)

lemma answers_raise [answer_intros]: "answers_with P (raiseE e)"
  by (simp add: answers_with_def raiseE_def)

lemma answers_gets [answer_intros]: "(\<And>s. P (f s)) \<Longrightarrow> answers_with P (getsE f)"
  by (simp add: answers_with_def getsE_def)

lemma answers_bind [answer_intros]: "(\<And>x. answers_with P (f x)) \<Longrightarrow> answers_with P (bindE m f)"
  by (auto simp: answers_with_def bindE_eq_Inr)

lemma answers_seq [answer_intros]: "answers_with P n \<Longrightarrow> answers_with P (seqE m n)"
  by (auto simp: answers_with_def seqE_eq_Inr)

lemma answers_on_orch [answer_intros]: "answers_with P m \<Longrightarrow> answers_with P (on_orch m)"
  by (auto simp: answers_with_def on_orch_def Let_def split: prod.splits)

lemma answers_with_orch [answer_intros]: "answers_with P m \<Longrightarrow> answers_with P (with_orch m)"
  unfolding with_orch_def by (intro answers_bind) (simp add: answer_intros)

lemma conforms_jopt [simp]: "(\<And>v. conforms t (f v)) \<Longrightarrow> conforms (TOptional t) (jopt f x)"
  by (cases x) (simp_all add: jopt_def)

lemma conforms_status: "conforms exchange_status_model (exchange_status (bot_get_status shown b))"
  by (simp add: exchange_status_model_def exchange_status_def bot_get_status_def status_fields_def Let_def del: conforms.simps(6))

lemma conforms_order: "conforms order_response (order_json p)"
  by (cases p) (simp add: order_response_def order_json_def)

lemma conforms_fill: "conforms fill_response (fill_json p)"
  by (cases p) (simp add: fill_response_def fill_json_def del: conforms.simps(6))

lemma conforms_balance: "conforms balance_response (balance_json b)"
  by (simp add: balance_response_def balance_json_def Let_def)

lemma conforms_control: "conforms control_response_model (control_response msg)"
  by (simp add: control_response_model_def control_response_def)

lemma conforms_config: "conforms config_response_model (config_response cfg msg)"
  by (simp add: config_response_model_def config_response_def)

lemma mm_json_object: "\<exists>d. mm_json p = JObj d"
  by (simp add: mm_json_def)

lemma conforms_lists:
  "(\<And>x. conforms t (f x)) \<Longrightarrow> conforms (TList t) (JArr (map f xs))"
  by (simp add: list_all_iff)

lemma apply_config_conforms: "answers_with (conforms config_response_model) (apply_config c hmm0 env_path env body msg)"
  unfolding apply_config_def by (auto intro!: answer_intros conforms_config split: sum.split)

lemma update_exchange_conforms:
  "answers_with (conforms config_response_model) (update_exchange_config c hmm0 env_path env ex body)"
  unfolding update_exchange_config_def
  by (auto intro!: answer_intros apply_config_conforms split: option.split)

lemma handler_conforms: "answers_with (conforms (response_of (rq_route rq))) (handler a rq)"
proof (cases "rq_route rq")
  case Health
  then show ?thesis by (auto simp: handler_def health_def health_response_def intro!: answer_intros)
next
  case Status
  have "list_all (conforms exchange_status_model) (map exchange_status (get_all_statuses shown t))" for shown t
    by (simp add: list_all_iff get_all_statuses_def conforms_status)
  moreover have "list_all (conforms TStr) (case st of None \<Rightarrow> [] | Some g \<Rightarrow> map JStr (gs_contributing g))" for st
    by (cases st) (auto simp: list_all_iff)
  ultimately show ?thesis
    using Status
    by (auto simp: handler_def get_status_def Let_def all_status_response_def simp del: conforms.simps(6) intro!: answer_intros)
next
  case (ExchangeStatus ex)
  then show ?thesis
    by (auto simp: handler_def get_exchange_status_def intro!: answer_intros conforms_status split: option.split)
next
  case (Orders ex limit)
  then show ?thesis
    by (auto simp: handler_def get_all_orders_def list_all_iff conforms_order intro!: answer_intros)
next
  case (Fills ex limit since)
  then show ?thesis
    by (auto simp: handler_def get_all_fills_def list_all_iff conforms_fill intro!: answer_intros)
next
  case Balances
  then show ?thesis
    by (auto simp: handler_def get_balances_def list_all_iff conforms_balance intro!: answer_intros)
next
  case Regime
  then show ?thesis
    by (auto simp: handler_def get_regime_route_def Let_def mm_json_def intro!: answer_intros)
next
  case Metrics
  then show ?thesis
    by (auto simp: handler_def get_metrics_def metrics_response_def simp del: conforms.simps(6) intro!: answer_intros)
next
  case GetConfig
  then show ?thesis by (auto simp: handler_def get_config_def intro!: answer_intros conforms_config)
next
  case PutConfig
  then show ?thesis
    by (auto simp: handler_def update_config_def intro!: answer_intros apply_config_conforms split: option.split)
next
  case (PutExchangeConfig ex)
  then show ?thesis by (simp add: handler_def update_exchange_conforms)
qed (auto simp: handler_def pause_all_def resume_all_def emergency_stop_def pause_exchange_def resume_exchange_def
    intro!: answer_intros conforms_control)

section \<open>Requests\<close>

definition error_body :: "json \<Rightarrow> bool" where
  "error_body j \<longleftrightarrow> (\<exists>d. j = JObj [(''detail'', JStr d)]) \<or> j = JObj [(''error'', JStr ''unauthorized'')] \<or> j = JStr ''Internal Server Error''"

lemma error_response_body: "\<exists>n body. error_response e = (n, body) \<and> error_body body"
  by (cases e rule: error_response.cases) (simp_all add: error_body_def)

text \<open>
  C27. The application answers every request: no exception of a handler leaves it, whatever bots, database and
  connectors do.  Either the status is 200 and the body has every field of the route's response model
  with a value of its type, or the body is one of the three error bodies.
\<close>

theorem every_request_is_answered:
  "case serve a rq s of (r, s') \<Rightarrow>
     \<exists>status body. r = Inr (status, body) \<and>
       (status = 200 \<and> conforms (response_of (rq_route rq)) body \<or> error_body body)"
proof (cases "auth_middleware (ae_mm_api_key a) rq")
  case False
  then show ?thesis by (simp add: serve_def ret_def error_body_def)
next
  case True
  let ?m = "seqE (if guarded (rq_route rq) then require_api_key (ae_settings a) (rq_x_api_key rq) else ret ())
          (bindE (handler a rq) (\<lambda>j. ret (200 :: nat, j)))"
  have "answers_with (\<lambda>(n :: nat, j). n = 200 \<and> conforms (response_of (rq_route rq)) j) ?m"
    using handler_conforms [of rq a] by (auto simp: answers_with_def seqE_eq_Inr bindE_eq_Inr ret_def)
  moreover obtain r s' where m: "?m s = (r, s')" by fastforce
  ultimately have "r = Inr x \<Longrightarrow> fst x = 200 \<and> conforms (response_of (rq_route rq)) (snd x)" for x
    unfolding answers_with_def case_prod_unfold by blast
  with True m show ?thesis
    using error_response_body by (cases r) (auto simp: serve_def catchE_def ret_def, blast)
qed

end
