(* ===== verification/AbComparator.thy ===== *)
theory AbComparator
  imports ExchangeBot PaperTrader Spread Depth Volatility Aggressiveness
begin

text \<open>
  \<open>core/ab_comparator.py\<close>: one strategy on two connectors, in memory.  The two connectors and the clocks
  are environments on one world; the two ticker requests that \<open>gather\<close> starts together are made one
  after the other.  A loop is run for at most a given number of passes.  The text of the reports is in
  \<open>AbReport\<close>.
\<close>

section \<open>Metrics of a connector\<close>

record open_order =
  oo_id :: string
  oo_side :: string
  oo_price :: real
  oo_amount :: real
  oo_placed_at :: real

record metrics =
  cm_name :: string
  cm_started_at :: real
  cm_reconnection_count :: nat
  cm_total_downtime_s :: real
  cm_last_disconnect_at :: real
  cm_is_connected :: bool
  cm_ticker_attempts :: nat
  cm_ticker_successes :: nat
  cm_ticker_latencies_ms :: "real list"
  cm_ticks_attempted :: nat
  cm_orders_placed :: nat
  cm_order_errors :: nat
  cm_fill_count :: nat
  cm_total_volume_usd :: real
  cm_realized_pnl_usd :: real
  cm_fill_prices :: "real list"

definition new_metrics :: "string \<Rightarrow> metrics" where
  "new_metrics name =
     \<lparr>cm_name = name, cm_started_at = 0, cm_reconnection_count = 0, cm_total_downtime_s = 0,
      cm_last_disconnect_at = 0, cm_is_connected = True, cm_ticker_attempts = 0, cm_ticker_successes = 0,
      cm_ticker_latencies_ms = [], cm_ticks_attempted = 0, cm_orders_placed = 0, cm_order_errors = 0,
      cm_fill_count = 0, cm_total_volume_usd = 0, cm_realized_pnl_usd = 0, cm_fill_prices = []\<rparr>"

definition record_connect :: "'w env \<Rightarrow> metrics \<Rightarrow> (('w, 'z) sys_scheme, metrics) eff" where
  "record_connect env m =
     (if cm_is_connected m then ret m
      else if cm_last_disconnect_at m > 0
      then bindE (now_s env) (\<lambda>now. ret (m\<lparr>cm_is_connected := True,
             cm_total_downtime_s := cm_total_downtime_s m + (now - cm_last_disconnect_at m)\<rparr>))
      else ret (m\<lparr>cm_is_connected := True\<rparr>))"

definition record_disconnect :: "'w env \<Rightarrow> metrics \<Rightarrow> (('w, 'z) sys_scheme, metrics) eff" where
  "record_disconnect env m =
     (if cm_is_connected m
      then bindE (now_s env) (\<lambda>now. ret (m\<lparr>cm_reconnection_count := Suc (cm_reconnection_count m),
             cm_last_disconnect_at := now, cm_is_connected := False\<rparr>))
      else ret m)"

definition record_ticker :: "real \<Rightarrow> bool \<Rightarrow> metrics \<Rightarrow> metrics" where
  "record_ticker elapsed_ms ok m =
     (let m' = m\<lparr>cm_ticker_attempts := Suc (cm_ticker_attempts m)\<rparr>
      in if ok then m'\<lparr>cm_ticker_successes := Suc (cm_ticker_successes m),
                       cm_ticker_latencies_ms := cm_ticker_latencies_ms m @ [elapsed_ms]\<rparr>
         else m')"

definition ab_record_fill :: "string \<Rightarrow> real \<Rightarrow> real \<Rightarrow> metrics \<Rightarrow> metrics" where
  "ab_record_fill side price amount m =
     (let volume = price * amount; fee = volume * 0.001
      in m\<lparr>cm_fill_count := Suc (cm_fill_count m), cm_total_volume_usd := cm_total_volume_usd m + volume,
           cm_fill_prices := cm_fill_prices m @ [price],
           cm_realized_pnl_usd := (if side = ''sell'' then cm_realized_pnl_usd m + (volume - fee)
                                   else cm_realized_pnl_usd m - (volume + fee))\<rparr>)"

definition elapsed_s :: "real \<Rightarrow> metrics \<Rightarrow> real" where
  "elapsed_s now m = (if cm_started_at m > 0 then now - cm_started_at m else 0)"

definition uptime_pct :: "real \<Rightarrow> metrics \<Rightarrow> real" where
  "uptime_pct now m =
     (let e = elapsed_s now m
      in if e \<le> 0 then 100 else max 0 ((e - cm_total_downtime_s m) / e * 100))"

definition ticker_success_rate_pct :: "metrics \<Rightarrow> real" where
  "ticker_success_rate_pct m =
     (if cm_ticker_attempts m = 0 then 100
      else real (cm_ticker_successes m) / real (cm_ticker_attempts m) * 100)"

definition fill_rate_pct :: "metrics \<Rightarrow> real" where
  "fill_rate_pct m =
     (if cm_orders_placed m = 0 then 0 else real (cm_fill_count m) / real (cm_orders_placed m) * 100)"

definition latency_mean :: "metrics \<Rightarrow> real" where
  "latency_mean m =
     (let xs = cm_ticker_latencies_ms m in if xs = [] then 0 else sum_list xs / real (length xs))"

definition latency_p50 :: "metrics \<Rightarrow> real" where
  "latency_p50 m =
     (let xs = sort (cm_ticker_latencies_ms m); n = length xs
      in if n = 0 then 0 else if odd n then xs ! (n div 2) else (xs ! (n div 2 - 1) + xs ! (n div 2)) / 2)"

definition latency_p99 :: "metrics \<Rightarrow> real" where
  "latency_p99 m =
     (let xs = sort (cm_ticker_latencies_ms m)
      in if xs = [] then 0
         else (let k = (real (length xs) - 1) * 0.99; lo = nat (py_int k); hi = lo + 1
               in if length xs \<le> hi then last xs else xs ! lo + (k - real lo) * (xs ! hi - xs ! lo)))"

section \<open>The comparator\<close>

record 'w ab = "'w sys" +
  ab_spread :: spread_engine
  ab_depth :: depth_config
  ab_vol :: vol_engine
  ab_agg_cfg :: volatility_config
  ab_tick_interval :: real
  ab_ccxt_metrics :: metrics
  ab_cpp_metrics :: metrics
  ab_ccxt_orders :: "open_order list"
  ab_cpp_orders :: "open_order list"
  ab_prev_mid :: real
  ab_curr_mid :: real
  ab_running :: bool
  ab_started_at :: real

definition new_ab :: "spread_config \<Rightarrow> depth_config \<Rightarrow> volatility_config \<Rightarrow> real \<Rightarrow> 'w \<Rightarrow> 'w ab" where
  "new_ab spread depth vol interval w =
     \<lparr>world = w, ab_spread = new_spread_engine spread 0, ab_depth = depth, ab_vol = new_vol_engine vol,
      ab_agg_cfg = vol, ab_tick_interval = interval, ab_ccxt_metrics = new_metrics ''CCXT'',
      ab_cpp_metrics = new_metrics ''C++'', ab_ccxt_orders = [], ab_cpp_orders = [], ab_prev_mid = 0,
      ab_curr_mid = 0, ab_running = False, ab_started_at = 0\<rparr>"

text \<open>The mid, or None, and the metrics; \<open>perf_counter\<close> is the monotonic clock.\<close>

definition fetch_ticker_safe ::
  "'w env \<Rightarrow> 'w env \<Rightarrow> metrics \<Rightarrow> (('w, 'z) sys_scheme, real option \<times> metrics) eff" where
  "fetch_ticker_safe env conn m =
     (let m0 = m\<lparr>cm_ticks_attempted := Suc (cm_ticks_attempted m)\<rparr> in
      bindE (envE (read_monotonic env)) (\<lambda>t0.
      bindE (catchE (bindE (callE (fetch_ticker conn)) (\<lambda>t. ret (Some (tk_mid t)))) (\<lambda>_. ret None)) (\<lambda>r.
      bindE (envE (read_monotonic env)) (\<lambda>t1.
        let m1 = record_ticker ((t1 - t0) * 1000) (r \<noteq> None) m0 in
        bindE (if r \<noteq> None then record_connect env m1 else record_disconnect env m1) (\<lambda>m2.
          ret (r, m2))))))"

text \<open>One side of a grid: the orders of the levels with a positive amount, numbered by level.\<close>

definition side_orders ::
  "real \<Rightarrow> string \<Rightarrow> string \<Rightarrow> real \<Rightarrow> (nat \<times> real \<times> real) list \<Rightarrow> open_order list" where
  "side_orders mid label side now levels =
     concat (map (\<lambda>(i, spread_pct, amt_usd).
       let price = mid * (1 + spread_pct / 100); amount = (if price > 0 then amt_usd / price else 0)
       in if amount \<le> 0 then []
          else [\<lparr>oo_id = label @ ''-'' @ side @ ''-'' @ digits (nat (py_int (now * 1000))) @ ''-'' @ digits i,
                 oo_side = side, oo_price = price, oo_amount = amount, oo_placed_at = now\<rparr>]) levels)"

definition build_grid ::
  "real \<Rightarrow> real list \<Rightarrow> real list \<Rightarrow> real list \<Rightarrow> real list \<Rightarrow> string \<Rightarrow> real \<Rightarrow> metrics \<Rightarrow> open_order list \<times> metrics" where
  "build_grid mid buy_spreads sell_spreads buy_amts sell_amts label now m =
     (let orders = side_orders mid label ''buy'' now (enumerate 0 (zip buy_spreads buy_amts))
                 @ side_orders mid label ''sell'' now (enumerate 0 (zip sell_spreads sell_amts))
      in (orders, m\<lparr>cm_orders_placed := cm_orders_placed m + length orders\<rparr>))"

definition crossed :: "real \<Rightarrow> real \<Rightarrow> open_order \<Rightarrow> bool" where
  "crossed prev_mid curr_mid x =
     (if oo_side x = ''buy''
      then curr_mid * (1 + 0.001) \<le> oo_price x \<and> oo_price x < prev_mid * (1 + 0.001)
      else curr_mid * (1 - 0.001) \<ge> oo_price x \<and> oo_price x > prev_mid * (1 - 0.001))"

definition simulate_fills ::
  "real \<Rightarrow> real \<Rightarrow> open_order list \<Rightarrow> metrics \<Rightarrow> open_order list \<times> metrics" where
  "simulate_fills prev_mid curr_mid orders m =
     (filter (\<lambda>x. \<not> crossed prev_mid curr_mid x) orders,
      fold (\<lambda>x. if crossed prev_mid curr_mid x then ab_record_fill (oo_side x) (oo_price x) (oo_amount x) else id) orders m)"

definition count_error :: "metrics \<Rightarrow> metrics" where
  "count_error m = m\<lparr>cm_order_errors := Suc (cm_order_errors m)\<rparr>"

text \<open>\<open>ccxt_mid or cpp_mid\<close>\<close>

definition global_mid_of :: "real option \<Rightarrow> real option \<Rightarrow> real option" where
  "global_mid_of a b = (case a of Some v \<Rightarrow> if v \<noteq> 0 then a else b | None \<Rightarrow> b)"

text \<open>The grid of a tick, the same for both: the two ladders and the amounts of the two sides.\<close>

definition shared_grid :: "'w ab \<Rightarrow> (real list \<times> real list) \<times> real list \<times> real list" where
  "shared_grid s =
     (let agg = compute_agg (ab_agg_cfg s) (rolling_vol (ab_vol s)); n = nat (dp_levels (ab_depth s))
      in (compute_levels (ab_spread s) agg n 1,
          compute_amounts (ab_depth s) agg n 1 ''buy'' 0 1, compute_amounts (ab_depth s) agg n 1 ''sell'' 0 1))"

text \<open>What one connector's orders and metrics become: fills of the old orders, then the new grid or an error.\<close>

definition place_grid ::
  "'w env \<Rightarrow> string \<Rightarrow> real \<Rightarrow> real option \<Rightarrow> 'w ab \<Rightarrow> metrics \<Rightarrow> (('w, 'z) sys_scheme, open_order list \<times> metrics) eff" where
  "place_grid env label global_mid mid s m =
     (case mid of
        None \<Rightarrow> ret ([], count_error m)
      | Some _ \<Rightarrow> bindE (now_s env) (\<lambda>now.
          case shared_grid s of ((bs, ss), ba, sa) \<Rightarrow> ret (build_grid global_mid bs ss ba sa label now m)))"

definition old_fills :: "'w ab \<Rightarrow> open_order list \<Rightarrow> metrics \<Rightarrow> metrics" where
  "old_fills s orders m =
     (if ab_prev_mid s > 0 \<and> ab_prev_mid s \<noteq> ab_curr_mid s
      then snd (simulate_fills (ab_prev_mid s) (ab_curr_mid s) orders m) else m)"

definition observe :: "real \<Rightarrow> real \<Rightarrow> 'w ab \<Rightarrow> 'w ab" where
  "observe now g s =
     s\<lparr>ab_prev_mid := (if ab_curr_mid s > 0 then ab_curr_mid s else g), ab_curr_mid := g,
       ab_vol := update_price now g (ab_vol s)\<rparr>"

definition fill_old :: "'w ab \<Rightarrow> 'w ab" where
  "fill_old s =
     s\<lparr>ab_ccxt_metrics := old_fills s (ab_ccxt_orders s) (ab_ccxt_metrics s),
       ab_cpp_metrics := old_fills s (ab_cpp_orders s) (ab_cpp_metrics s)\<rparr>"

definition ab_trade :: "'w env \<Rightarrow> real \<Rightarrow> real option \<Rightarrow> real option \<Rightarrow> ('w ab, unit) eff" where
  "ab_trade env g ccxt_mid cpp_mid =
     bindE (now_s env) (\<lambda>now.
     seqE (modE (observe now g))
     (seqE (modE fill_old)
     (bindE (getsE id) (\<lambda>s.
      bindE (place_grid env ''CCXT'' g ccxt_mid s (ab_ccxt_metrics s)) (\<lambda>(os, m).
      bindE (place_grid env ''C++'' g cpp_mid s (ab_cpp_metrics s)) (\<lambda>(os', m').
        modE (\<lambda>s. s\<lparr>ab_ccxt_orders := os, ab_ccxt_metrics := m, ab_cpp_orders := os', ab_cpp_metrics := m'\<rparr>)))))))"

definition ab_tick :: "'w env \<Rightarrow> 'w env \<Rightarrow> 'w env \<Rightarrow> ('w ab, unit) eff" where
  "ab_tick env ccxt cpp =
     bindE (getsE ab_ccxt_metrics) (\<lambda>m. bindE (fetch_ticker_safe env ccxt m) (\<lambda>(ccxt_mid, m).
     bindE (getsE ab_cpp_metrics) (\<lambda>m'. bindE (fetch_ticker_safe env cpp m') (\<lambda>(cpp_mid, m').
     seqE (modE (\<lambda>s. s\<lparr>ab_ccxt_metrics := m, ab_cpp_metrics := m'\<rparr>))
       (case global_mid_of ccxt_mid cpp_mid of
          None \<Rightarrow> modE (\<lambda>s. s\<lparr>ab_ccxt_metrics := count_error (ab_ccxt_metrics s),
                              ab_cpp_metrics := count_error (ab_cpp_metrics s)\<rparr>)
        | Some g \<Rightarrow>
            if g \<le> 0
            then modE (\<lambda>s. s\<lparr>ab_ccxt_metrics := count_error (ab_ccxt_metrics s),
                             ab_cpp_metrics := count_error (ab_cpp_metrics s)\<rparr>)
            else ab_trade env g ccxt_mid cpp_mid)))))"

fun strategy_loop :: "nat \<Rightarrow> 'w env \<Rightarrow> 'w env \<Rightarrow> 'w env \<Rightarrow> real \<Rightarrow> ('w ab, unit) eff" where
  "strategy_loop 0 env ccxt cpp end_time = ret ()"
| "strategy_loop (Suc n) env ccxt cpp end_time =
     bindE (getsE ab_running) (\<lambda>go.
       if \<not> go then ret () else
       bindE (now_s env) (\<lambda>now.
         if now < end_time
         then seqE (ab_tick env ccxt cpp)
              (seqE (bindE (getsE ab_tick_interval) (\<lambda>d. envE (\<lambda>w. ((), do_sleep env d w))))
                (strategy_loop n env ccxt cpp end_time))
         else modE (\<lambda>s. s\<lparr>ab_running := False\<rparr>)))"

text \<open>\<open>start\<close> with the strategy loop run for at most \<open>n\<close> passes; the report loop only prints.\<close>

definition ab_start :: "nat \<Rightarrow> 'w env \<Rightarrow> 'w env \<Rightarrow> 'w env \<Rightarrow> real \<Rightarrow> ('w ab, unit) eff" where
  "ab_start n env ccxt cpp duration_s =
     seqE (callE (cn_connect ccxt)) (seqE (callE (cn_connect cpp))
     (bindE (now_s env) (\<lambda>now.
      seqE (modE (\<lambda>s. s\<lparr>ab_started_at := now, ab_ccxt_metrics := (ab_ccxt_metrics s)\<lparr>cm_started_at := now\<rparr>,
                        ab_cpp_metrics := (ab_cpp_metrics s)\<lparr>cm_started_at := now\<rparr>, ab_running := True\<rparr>))
      (bindE (now_s env) (\<lambda>now'.
       seqE (strategy_loop n env ccxt cpp (now' + duration_s))
       (seqE (modE (\<lambda>s. s\<lparr>ab_running := False\<rparr>))
       (seqE (catchE (callE (cn_disconnect ccxt)) (\<lambda>_. ret ()))
         (catchE (callE (cn_disconnect cpp)) (\<lambda>_. ret ())))))))))"

text \<open>
  \<open>uptime_pct\<close> reads the clock each time it is asked for, so the two sides of the comparison are of different
  moments: C++ first, then CCXT.
\<close>

definition uptime_now :: "'w env \<Rightarrow> metrics \<Rightarrow> (('w, 'z) sys_scheme, real) eff" where
  "uptime_now env m =
     (if cm_started_at m > 0 then bindE (now_s env) (\<lambda>now. ret (uptime_pct now m)) else ret 100)"

definition verdict_of :: "'w env \<Rightarrow> metrics \<Rightarrow> metrics \<Rightarrow> (('w, 'z) sys_scheme, (string \<times> bool) list) eff" where
  "verdict_of env c p =
     bindE (uptime_now env p) (\<lambda>up. bindE (uptime_now env c) (\<lambda>uc.
       ret [(''cpp_fill_rate_gte_ccxt'', fill_rate_pct p \<ge> fill_rate_pct c),
            (''cpp_reconnects_lte_ccxt'', cm_reconnection_count p \<le> cm_reconnection_count c),
            (''cpp_uptime_gte_ccxt'', up \<ge> uc),
            (''cpp_ticker_success_gte_ccxt'', ticker_success_rate_pct p \<ge> ticker_success_rate_pct c)]))"

definition verdict :: "'w env \<Rightarrow> ('w ab, (string \<times> bool) list) eff" where
  "verdict env =
     bindE (getsE ab_ccxt_metrics) (\<lambda>c. bindE (getsE ab_cpp_metrics) (\<lambda>p. verdict_of env c p))"

section \<open>One tick\<close>

text \<open>What trading reads and writes of the metrics, and what a fill depends on of an order.\<close>

definition trades where
  "trades m = (cm_orders_placed m, cm_fill_count m, cm_total_volume_usd m, cm_realized_pnl_usd m, cm_fill_prices m)"

definition core :: "open_order \<Rightarrow> string \<times> real \<times> real" where
  "core x = (oo_side x, oo_price x, oo_amount x)"

definition asked :: "bool \<Rightarrow> metrics \<Rightarrow> metrics \<Rightarrow> bool" where
  "asked ok m m' \<longleftrightarrow> trades m' = trades m \<and> cm_order_errors m' = cm_order_errors m \<and>
     cm_started_at m' = cm_started_at m \<and> cm_ticks_attempted m' = Suc (cm_ticks_attempted m) \<and>
     cm_ticker_attempts m' = Suc (cm_ticker_attempts m) \<and>
     cm_ticker_successes m' = cm_ticker_successes m + of_bool ok \<and>
     length (cm_ticker_latencies_ms m') = length (cm_ticker_latencies_ms m) + of_bool ok \<and>
     (\<not> ok \<longrightarrow> cm_total_downtime_s m' = cm_total_downtime_s m)"

lemma record_connect_run:
  "\<exists>d c w. record_connect env m s = (Inr (m\<lparr>cm_is_connected := c, cm_total_downtime_s := d\<rparr>), s\<lparr>world := w\<rparr>)"
proof (cases "cm_is_connected m \<or> \<not> cm_last_disconnect_at m > 0")
  case True
  then show ?thesis
    by (intro exI [of _ "cm_total_downtime_s m"] exI [of _ True] exI [of _ "world s"]) (auto simp: record_connect_def ret_def)
next
  case False
  obtain t w where "read_clock env (world s) = (t, w)" by fastforce
  with False show ?thesis
    by (intro exI [of _ "cm_total_downtime_s m + (t - cm_last_disconnect_at m)"] exI [of _ True] exI [of _ w])
      (simp add: record_connect_def ret_def now_s_def envE_def bindE_def)
qed

lemma record_disconnect_run:
  "\<exists>k t c w. record_disconnect env m s =
     (Inr (m\<lparr>cm_reconnection_count := k, cm_last_disconnect_at := t, cm_is_connected := c\<rparr>), s\<lparr>world := w\<rparr>)"
proof (cases "cm_is_connected m")
  case False
  then show ?thesis
    by (intro exI [of _ "cm_reconnection_count m"] exI [of _ "cm_last_disconnect_at m"] exI [of _ False] exI [of _ "world s"])
      (simp add: record_disconnect_def ret_def)
next
  case True
  obtain t w where "read_clock env (world s) = (t, w)" by fastforce
  with True show ?thesis
    by (intro exI [of _ "Suc (cm_reconnection_count m)"] exI [of _ t] exI [of _ False] exI [of _ w])
      (simp add: record_disconnect_def ret_def now_s_def envE_def bindE_def)
qed

text \<open>A connector whose ticker always comes, and one whose ticker never comes.\<close>

definition answers :: "'w env \<Rightarrow> bool" where
  "answers conn \<longleftrightarrow> (\<forall>w. \<not> isl (fst (fetch_ticker conn w)))"

definition silent :: "'w env \<Rightarrow> bool" where
  "silent conn \<longleftrightarrow> (\<forall>w. isl (fst (fetch_ticker conn w)))"

definition positive_mids :: "'w env \<Rightarrow> bool" where
  "positive_mids conn \<longleftrightarrow> (\<forall>w t w'. fetch_ticker conn w = (Inr t, w') \<longrightarrow> 0 < tk_mid t)"

text \<open>What such a connector's answer is.\<close>

definition served :: "'w env \<Rightarrow> real option \<Rightarrow> bool" where
  "served conn r \<longleftrightarrow> (answers conn \<longrightarrow> r \<noteq> None) \<and> (silent conn \<longrightarrow> r = None) \<and>
     (positive_mids conn \<longrightarrow> (\<forall>x. r = Some x \<longrightarrow> 0 < x))"

lemma fetch_ticker_safe_run:
  "\<exists>r m' w. fetch_ticker_safe env conn m s = (Inr (r, m'), s\<lparr>world := w\<rparr>) \<and> asked (r \<noteq> None) m m' \<and> served conn r"
proof -
  obtain t0 w0 where c0: "read_monotonic env (world s) = (t0, w0)" by fastforce
  obtain q w1 where f: "fetch_ticker conn w0 = (q, w1)" by fastforce
  obtain t1 w2 where c1: "read_monotonic env w1 = (t1, w2)" by fastforce
  define r where "r = (case q of Inl _ \<Rightarrow> None | Inr t \<Rightarrow> Some (tk_mid t))"
  have q: "fst (fetch_ticker conn w0) = q" by (simp add: f)
  have "answers conn \<longrightarrow> \<not> isl q" "silent conn \<longrightarrow> isl q"
    unfolding answers_def silent_def q [symmetric] by blast+
  then have "answers conn \<longrightarrow> r \<noteq> None" "silent conn \<longrightarrow> r = None"
    by (cases q; simp add: r_def)+
  moreover have "positive_mids conn \<longrightarrow> (\<forall>x. r = Some x \<longrightarrow> 0 < x)"
    using f by (cases q) (auto simp: positive_mids_def r_def)
  ultimately have P: "served conn r" by (simp add: served_def)
  let ?m1 = "record_ticker ((t1 - t0) * 1000) (r \<noteq> None) (m\<lparr>cm_ticks_attempted := Suc (cm_ticks_attempted m)\<rparr>)"
  let ?s1 = "s\<lparr>world := w2\<rparr>"
  have step: "fetch_ticker_safe env conn m s =
      bindE (if r \<noteq> None then record_connect env ?m1 else record_disconnect env ?m1) (\<lambda>m2. ret (r, m2)) ?s1"
    using c0 f c1 by (cases q) (simp_all add: fetch_ticker_safe_def Let_def bindE_def envE_def catchE_def callE_def ret_def r_def)
  have "\<exists>m' w. fetch_ticker_safe env conn m s = (Inr (r, m'), s\<lparr>world := w\<rparr>) \<and> asked (r \<noteq> None) m m'"
  proof (cases "r = None")
    case True
    obtain k t c w where d: "record_disconnect env ?m1 ?s1 =
      (Inr (?m1\<lparr>cm_reconnection_count := k, cm_last_disconnect_at := t, cm_is_connected := c\<rparr>), ?s1\<lparr>world := w\<rparr>)"
      using record_disconnect_run [of env ?m1 ?s1] by blast
    have "fetch_ticker_safe env conn m s =
      (Inr (r, ?m1\<lparr>cm_reconnection_count := k, cm_last_disconnect_at := t, cm_is_connected := c\<rparr>), s\<lparr>world := w\<rparr>)"
      using True d unfolding step by (simp add: bindE_def ret_def)
    moreover have "asked (r \<noteq> None) m (?m1\<lparr>cm_reconnection_count := k, cm_last_disconnect_at := t, cm_is_connected := c\<rparr>)"
      using True by (simp add: asked_def trades_def record_ticker_def)
    ultimately show ?thesis by blast
  next
    case False
    obtain d c w where d: "record_connect env ?m1 ?s1 =
      (Inr (?m1\<lparr>cm_is_connected := c, cm_total_downtime_s := d\<rparr>), ?s1\<lparr>world := w\<rparr>)"
      using record_connect_run [of env ?m1 ?s1] by blast
    have "fetch_ticker_safe env conn m s = (Inr (r, ?m1\<lparr>cm_is_connected := c, cm_total_downtime_s := d\<rparr>), s\<lparr>world := w\<rparr>)"
      using False d unfolding step by (simp add: bindE_def ret_def)
    moreover have "asked (r \<noteq> None) m (?m1\<lparr>cm_is_connected := c, cm_total_downtime_s := d\<rparr>)"
      using False by (simp add: asked_def trades_def record_ticker_def Let_def)
    ultimately show ?thesis by blast
  qed
  with P show ?thesis by blast
qed

text \<open>What one arm has after a tick that trades: the outcome of \<open>place_grid\<close> on the filled orders.\<close>

definition placed :: "string \<Rightarrow> real \<Rightarrow> real option \<Rightarrow> 'w ab \<Rightarrow> real \<Rightarrow> metrics \<Rightarrow> open_order list \<times> metrics" where
  "placed label g mid s now m =
     (case mid of None \<Rightarrow> ([], count_error m)
      | Some _ \<Rightarrow> (case shared_grid s of ((bs, ss), ba, sa) \<Rightarrow> build_grid g bs ss ba sa label now m))"

lemma place_grid_run: "\<exists>now w. place_grid env label g mid s m t = (Inr (placed label g mid s now m), t\<lparr>world := w\<rparr>)"
proof (cases mid)
  case None
  then show ?thesis by (intro exI [of _ 0] exI [of _ "world t"]) (simp add: place_grid_def placed_def ret_def)
next
  case (Some x)
  obtain now w where "read_clock env (world t) = (now, w)" by fastforce
  with Some show ?thesis
    by (intro exI [of _ now] exI [of _ w])
      (simp add: place_grid_def placed_def bindE_def now_s_def envE_def ret_def split: prod.split)
qed

definition arms_of :: "'w ab \<Rightarrow> (open_order list \<times> metrics) \<times> (open_order list \<times> metrics)" where
  "arms_of s = ((ab_ccxt_orders s, ab_ccxt_metrics s), (ab_cpp_orders s, ab_cpp_metrics s))"

lemma ab_trade_run:
  fixes s :: "'w ab"
  shows "\<exists>n1 n2 s'. ab_trade env g a b s = (Inr (), s') \<and> ab_running s' = ab_running s \<and>
     arms_of s' = (placed ''CCXT'' (ab_curr_mid s') a s' n1 (old_fills s' (ab_ccxt_orders s) (ab_ccxt_metrics s)),
                   placed ''C++'' (ab_curr_mid s') b s' n2 (old_fills s' (ab_cpp_orders s) (ab_cpp_metrics s)))"
proof -
  obtain now w where c: "read_clock env (world s) = (now, w)" by fastforce
  define s2 where "s2 = fill_old (observe now g (s\<lparr>world := w\<rparr>))"
  obtain n1 w1 where p1: "place_grid env ''CCXT'' g a s2 (ab_ccxt_metrics s2) s2 =
      (Inr (placed ''CCXT'' g a s2 n1 (ab_ccxt_metrics s2)), s2\<lparr>world := w1\<rparr>)"
    using place_grid_run [of env "''CCXT''" g a s2 "ab_ccxt_metrics s2" s2] by blast
  obtain n2 w2 where p2: "place_grid env ''C++'' g b s2 (ab_cpp_metrics s2) (s2\<lparr>world := w1\<rparr>) =
      (Inr (placed ''C++'' g b s2 n2 (ab_cpp_metrics s2)), s2\<lparr>world := w1, world := w2\<rparr>)"
    using place_grid_run [of env "''C++''" g b s2 "ab_cpp_metrics s2" "s2\<lparr>world := w1\<rparr>"] by blast
  obtain os m where q1: "placed ''CCXT'' g a s2 n1 (ab_ccxt_metrics s2) = (os, m)" by fastforce
  obtain os' m' where q2: "placed ''C++'' g b s2 n2 (ab_cpp_metrics s2) = (os', m')" by fastforce
  define s' where "s' = s2\<lparr>world := w2, ab_ccxt_orders := os, ab_ccxt_metrics := m, ab_cpp_orders := os', ab_cpp_metrics := m'\<rparr>"
  have "ab_trade env g a b s = (Inr (), s')"
    using c p1 p2 q1 q2
    by (simp add: ab_trade_def bindE_def seqE_def now_s_def envE_def modE_def getsE_def s'_def flip: s2_def)
  moreover have "ab_ccxt_metrics s2 = old_fills s2 (ab_ccxt_orders s) (ab_ccxt_metrics s)"
    "ab_cpp_metrics s2 = old_fills s2 (ab_cpp_orders s) (ab_cpp_metrics s)"
    "ab_curr_mid s2 = g" "ab_running s2 = ab_running s"
    by (simp_all add: s2_def fill_old_def observe_def old_fills_def)
  moreover have "placed l g x s' n m = placed l g x s2 n m" "old_fills s' os m = old_fills s2 os m" for l x n m os
  proof -
    have "shared_grid s' = shared_grid s2" by (simp add: s'_def shared_grid_def)
    then show "placed l g x s' n m = placed l g x s2 n m" by (cases x) (simp_all add: placed_def)
    show "old_fills s' os m = old_fills s2 os m" by (simp add: s'_def old_fills_def)
  qed
  moreover have "ab_curr_mid s' = ab_curr_mid s2" "ab_running s' = ab_running s2" "arms_of s' = ((os, m), (os', m'))"
    by (simp_all add: s'_def arms_of_def)
  ultimately show ?thesis using q1 q2 by metis
qed

text \<open>A tick: both are asked; then either both count an error, or both trade on one grid.\<close>

lemma ab_tick_run:
  fixes s :: "'w ab"
  shows "\<exists>a ma b mb s'. ab_tick env ccxt cpp s = (Inr (), s') \<and> ab_running s' = ab_running s \<and>
    asked (a \<noteq> None) (ab_ccxt_metrics s) ma \<and> asked (b \<noteq> None) (ab_cpp_metrics s) mb \<and> served ccxt a \<and> served cpp b \<and>
    ((\<nexists>g. global_mid_of a b = Some g \<and> 0 < g) \<and>
     arms_of s' = ((ab_ccxt_orders s, count_error ma), (ab_cpp_orders s, count_error mb)) \<or>
     (\<exists>n1 n2. arms_of s' = (placed ''CCXT'' (ab_curr_mid s') a s' n1 (old_fills s' (ab_ccxt_orders s) ma),
                   placed ''C++'' (ab_curr_mid s') b s' n2 (old_fills s' (ab_cpp_orders s) mb))))"
proof -
  obtain a ma w where f1: "fetch_ticker_safe env ccxt (ab_ccxt_metrics s) s = (Inr (a, ma), s\<lparr>world := w\<rparr>)"
    "asked (a \<noteq> None) (ab_ccxt_metrics s) ma" "served ccxt a"
    using fetch_ticker_safe_run [of env ccxt "ab_ccxt_metrics s" s] by blast
  obtain b mb w' where f2: "fetch_ticker_safe env cpp (ab_cpp_metrics s) (s\<lparr>world := w\<rparr>) =
      (Inr (b, mb), s\<lparr>world := w, world := w'\<rparr>)" "asked (b \<noteq> None) (ab_cpp_metrics s) mb" "served cpp b"
    using fetch_ticker_safe_run [of env cpp "ab_cpp_metrics s" "s\<lparr>world := w\<rparr>"] by blast
  let ?s1 = "s\<lparr>world := w', ab_ccxt_metrics := ma, ab_cpp_metrics := mb\<rparr>"
  let ?err = "?s1\<lparr>ab_ccxt_metrics := count_error ma, ab_cpp_metrics := count_error mb\<rparr>"
  show ?thesis
  proof (cases "\<exists>g. global_mid_of a b = Some g \<and> 0 < g")
    case True
    then obtain g where g: "global_mid_of a b = Some g" "0 < g" by blast
    obtain n1 n2 s' where t: "ab_trade env g a b ?s1 = (Inr (), s')" "ab_running s' = ab_running s"
      "arms_of s' = (placed ''CCXT'' (ab_curr_mid s') a s' n1 (old_fills s' (ab_ccxt_orders s) ma),
                     placed ''C++'' (ab_curr_mid s') b s' n2 (old_fills s' (ab_cpp_orders s) mb))"
      using ab_trade_run [of env g a b ?s1] by (simp del: not_None_eq) blast
    have "ab_tick env ccxt cpp s = (Inr (), s')"
      using f1(1) f2(1) g t(1) by (simp add: ab_tick_def bindE_def seqE_def getsE_def modE_def)
    with f1 f2 t(2,3) show ?thesis by blast
  next
    case False
    then have "ab_tick env ccxt cpp s = (Inr (), ?err)"
      using f1(1) f2(1) by (auto simp: ab_tick_def bindE_def seqE_def getsE_def modE_def split: option.split)
    moreover have "arms_of ?err = ((ab_ccxt_orders s, count_error ma), (ab_cpp_orders s, count_error mb))"
      "ab_running ?err = ab_running s"
      by (simp_all add: arms_of_def)
    ultimately show ?thesis using f1(2,3) f2(2,3) False by blast
  qed
qed

text \<open>Whatever a tick keeps, the strategy loop keeps.\<close>

lemma keeps_strategy_loop:
  assumes "keeps P (ab_tick env ccxt cpp)" and "\<And>s w. P s \<Longrightarrow> P (s\<lparr>world := w\<rparr>)"
    and "\<And>s. P s \<Longrightarrow> P (s\<lparr>ab_running := False\<rparr>)"
  shows "keeps P (strategy_loop n env ccxt cpp end_time)"
proof (induction n)
  case 0
  show ?case by (simp add: keeps_ret)
next
  case (Suc n)
  have "world_free P" by (rule world_freeI) (rule assms(2))
  then show ?case
    by (auto simp: now_s_def intro!: keeps_intros assms(1) Suc.IH keeps_mod assms(3))
qed

text \<open>And so does a whole run, if it also survives the setting of the start times.\<close>

lemma keeps_ab_start:
  assumes "keeps P (ab_tick env ccxt cpp)" and "\<And>s w. P s \<Longrightarrow> P (s\<lparr>world := w\<rparr>)"
    and "\<And>s. P s \<Longrightarrow> P (s\<lparr>ab_running := False\<rparr>)"
    and "\<And>s t. P s \<Longrightarrow> P (s\<lparr>ab_started_at := t, ab_ccxt_metrics := (ab_ccxt_metrics s)\<lparr>cm_started_at := t\<rparr>,
      ab_cpp_metrics := (ab_cpp_metrics s)\<lparr>cm_started_at := t\<rparr>, ab_running := True\<rparr>)"
  shows "keeps P (ab_start n env ccxt cpp duration_s)"
proof -
  have w: "world_free P" by (rule world_freeI) (rule assms(2))
  have l: "keeps P (strategy_loop n env ccxt cpp e)" for e
    by (rule keeps_strategy_loop [OF assms(1-3)])
  show ?thesis
    unfolding ab_start_def now_s_def by (intro keeps_intros w l keeps_mod assms(3,4))
qed

section \<open>Counters\<close>

text \<open>Of one connector: its orders beside its metrics.\<close>

definition arm_ok :: "open_order list \<times> metrics \<Rightarrow> bool" where
  "arm_ok = (\<lambda>(os, m). cm_ticker_attempts m = cm_ticks_attempted m \<and> cm_ticker_successes m \<le> cm_ticker_attempts m \<and>
     length (cm_ticker_latencies_ms m) = cm_ticker_successes m \<and>
     cm_fill_count m + length os \<le> cm_orders_placed m \<and> length (cm_fill_prices m) = cm_fill_count m)"

lemma fold_fills:
  "let m' = fold (\<lambda>x. if c x then ab_record_fill (oo_side x) (oo_price x) (oo_amount x) else id) os m in
   cm_fill_count m' = cm_fill_count m + length (filter c os) \<and>
   length (cm_fill_prices m') = length (cm_fill_prices m) + length (filter c os) \<and>
   cm_ticker_attempts m' = cm_ticker_attempts m \<and> cm_ticks_attempted m' = cm_ticks_attempted m \<and>
   cm_ticker_successes m' = cm_ticker_successes m \<and> cm_ticker_latencies_ms m' = cm_ticker_latencies_ms m \<and>
   cm_orders_placed m' = cm_orders_placed m \<and> cm_total_downtime_s m' = cm_total_downtime_s m \<and>
   cm_started_at m' = cm_started_at m"
  by (induction os arbitrary: m) (auto simp: Let_def ab_record_fill_def)

lemma old_fills_ok:
  assumes "arm_ok (os, m)"
  shows "arm_ok ([], old_fills s os m)"
proof -
  have "cm_fill_count m + length (filter (crossed (ab_prev_mid s) (ab_curr_mid s)) os) \<le> cm_orders_placed m"
    using assms length_filter_le [of "crossed (ab_prev_mid s) (ab_curr_mid s)" os]
    unfolding arm_ok_def prod.case by linarith
  then show ?thesis
    using assms fold_fills [of "crossed (ab_prev_mid s) (ab_curr_mid s)" os m]
    by (simp add: arm_ok_def old_fills_def simulate_fills_def Let_def)
qed

lemma placed_ok: "arm_ok ([], m) \<Longrightarrow> arm_ok (placed label g mid s now m)"
  by (auto simp: arm_ok_def placed_def build_grid_def count_error_def Let_def split: option.split prod.split)

lemma asked_ok: "asked ok m m' \<Longrightarrow> arm_ok (os, m) \<Longrightarrow> arm_ok (os, m')"
  by (cases ok) (auto simp: asked_def arm_ok_def trades_def)

lemma count_error_ok: "arm_ok (os, m) \<Longrightarrow> arm_ok (os, count_error m)"
  by (simp add: arm_ok_def count_error_def)

definition ab_ok :: "'w ab \<Rightarrow> bool" where
  "ab_ok s \<longleftrightarrow> arm_ok (fst (arms_of s)) \<and> arm_ok (snd (arms_of s))"

lemma keeps_ab_ok: "keeps ab_ok (ab_tick env ccxt cpp)"
proof (rule keepsI)
  fix s :: "'a ab"
  assume ok: "ab_ok s"
  obtain a ma b mb s' where t: "ab_tick env ccxt cpp s = (Inr (), s')"
    "asked (a \<noteq> None) (ab_ccxt_metrics s) ma" "asked (b \<noteq> None) (ab_cpp_metrics s) mb"
    "arms_of s' = ((ab_ccxt_orders s, count_error ma), (ab_cpp_orders s, count_error mb)) \<or>
     (\<exists>n1 n2. arms_of s' = (placed ''CCXT'' (ab_curr_mid s') a s' n1 (old_fills s' (ab_ccxt_orders s) ma),
                   placed ''C++'' (ab_curr_mid s') b s' n2 (old_fills s' (ab_cpp_orders s) mb)))"
    using ab_tick_run [of env ccxt cpp s] by blast
  have ma: "arm_ok (ab_ccxt_orders s, ma)" and mb: "arm_ok (ab_cpp_orders s, mb)"
    using asked_ok [OF t(2)] asked_ok [OF t(3)] ok by (simp_all add: ab_ok_def arms_of_def)
  from t(4) have "ab_ok s'"
    using count_error_ok [OF ma] count_error_ok [OF mb] placed_ok [OF old_fills_ok [OF ma]] placed_ok [OF old_fills_ok [OF mb]]
    by (auto simp: ab_ok_def)
  with t(1) show "ab_ok (snd (ab_tick env ccxt cpp s))" by simp
qed

lemma new_ab_ok: "ab_ok (new_ab spread depth vol interval w)"
  by (simp add: ab_ok_def arms_of_def new_ab_def new_metrics_def arm_ok_def)

lemma rates_in_range:
  "arm_ok (os, m) \<Longrightarrow> 0 \<le> fill_rate_pct m \<and> fill_rate_pct m \<le> 100 \<and>
     0 \<le> ticker_success_rate_pct m \<and> ticker_success_rate_pct m \<le> 100"
  by (auto simp: arm_ok_def fill_rate_pct_def ticker_success_rate_pct_def divide_simps)

text \<open>Fills never outnumber orders, so every rate of a report is a percentage.\<close>

lemma keeps_ok_start: "keeps ab_ok (ab_start n env ccxt cpp duration_s)"
  by (rule keeps_ab_start [OF keeps_ab_ok]) (simp_all add: ab_ok_def arms_of_def arm_ok_def)

lemma comparator_rates:
  "case ab_start n env ccxt cpp duration_s (new_ab spread depth vol interval w) of (r, s') \<Rightarrow>
     cm_fill_count (ab_cpp_metrics s') \<le> cm_orders_placed (ab_cpp_metrics s') \<and>
     0 \<le> fill_rate_pct (ab_cpp_metrics s') \<and> fill_rate_pct (ab_cpp_metrics s') \<le> 100"
  using keepsD [OF keeps_ok_start [of n env ccxt cpp duration_s] new_ab_ok [of spread depth vol interval w]] rates_in_range
  by (force simp: ab_ok_def arms_of_def arm_ok_def split: prod.split)

section \<open>The comparison is fair\<close>

lemma side_orders_core:
  "map core (side_orders mid l side now xs) = map core (side_orders mid l' side now' xs)"
  by (induction xs) (auto simp: side_orders_def Let_def core_def split: prod.split)

lemma build_grid_core:
  assumes "build_grid g bs ss ba sa l now m = (os, n)" and "build_grid g bs ss ba sa l' now' m' = (os', n')"
    and "trades m = trades m'"
  shows "map core os = map core os' \<and> trades n = trades n'"
proof -
  have c: "map core os = map core os'"
    using assms(1,2) by (auto simp: build_grid_def Let_def intro!: arg_cong2 [where f = append] side_orders_core)
  from map_eq_imp_length_eq [OF c] have "length os = length os'" .
  with c show ?thesis using assms by (auto simp: build_grid_def Let_def trades_def)
qed

lemma crossed_core: "core x = core y \<Longrightarrow> crossed p c x = crossed p c y"
  by (simp add: core_def crossed_def)

lemma old_fills_core:
  assumes "map core os = map core os'" and "trades m = trades m'"
  shows "trades (old_fills s os m) = trades (old_fills s os' m')"
proof -
  define f where "f = (\<lambda>x. if crossed (ab_prev_mid s) (ab_curr_mid s) x
     then ab_record_fill (oo_side x) (oo_price x) (oo_amount x) else id)"
  have step: "trades (f x m) = trades (f y m')" if "core x = core y" "trades m = trades m'" for x y m m'
    using that crossed_core [OF that(1)] by (auto simp: f_def trades_def ab_record_fill_def core_def Let_def)
  have "trades (fold f os m) = trades (fold f os' m')" if "map core os = map core os'" "trades m = trades m'" for os os' m m'
    using that
  proof (induction os arbitrary: os' m m')
    case (Cons x os)
    then obtain y ys where y: "os' = y # ys" "core x = core y" "map core os = map core ys" by (cases os') auto
    from Cons.IH [OF y(3) step [OF y(2) Cons.prems(2)]] y(1) show ?case by simp
  qed simp
  from this [OF assms] assms show ?thesis by (simp add: old_fills_def simulate_fills_def f_def)
qed

definition level_field :: "'w ab \<Rightarrow> bool" where
  "level_field s \<longleftrightarrow> map core (ab_ccxt_orders s) = map core (ab_cpp_orders s) \<and>
     trades (ab_ccxt_metrics s) = trades (ab_cpp_metrics s)"

lemma keeps_level_field:
  assumes "answers ccxt" and "answers cpp"
  shows "keeps level_field (ab_tick env ccxt cpp)"
proof (rule keepsI)
  fix s :: "'a ab"
  assume eq: "level_field s"
  obtain a ma b mb s' where t: "ab_tick env ccxt cpp s = (Inr (), s')"
    "asked (a \<noteq> None) (ab_ccxt_metrics s) ma" "asked (b \<noteq> None) (ab_cpp_metrics s) mb"
    "served ccxt a" "served cpp b"
    "arms_of s' = ((ab_ccxt_orders s, count_error ma), (ab_cpp_orders s, count_error mb)) \<or>
     (\<exists>n1 n2. arms_of s' = (placed ''CCXT'' (ab_curr_mid s') a s' n1 (old_fills s' (ab_ccxt_orders s) ma),
                   placed ''C++'' (ab_curr_mid s') b s' n2 (old_fills s' (ab_cpp_orders s) mb)))"
    using ab_tick_run [of env ccxt cpp s] by blast
  obtain x y where xy: "a = Some x" "b = Some y" using t(4,5) assms by (auto simp: served_def)
  have m: "trades ma = trades mb" using t(2,3) eq by (simp add: asked_def level_field_def)
  have "level_field s'"
    using t(6)
  proof (elim disjE exE)
    assume "arms_of s' = ((ab_ccxt_orders s, count_error ma), (ab_cpp_orders s, count_error mb))"
    with m eq show ?thesis by (simp add: arms_of_def level_field_def trades_def count_error_def)
  next
    fix n1 n2
    assume h: "arms_of s' = (placed ''CCXT'' (ab_curr_mid s') a s' n1 (old_fills s' (ab_ccxt_orders s) ma),
                   placed ''C++'' (ab_curr_mid s') b s' n2 (old_fills s' (ab_cpp_orders s) mb))"
    obtain bs ss ba sa where g: "shared_grid s' = ((bs, ss), ba, sa)" by (metis prod.collapse)
    have "trades (old_fills s' (ab_ccxt_orders s) ma) = trades (old_fills s' (ab_cpp_orders s) mb)"
      using m eq by (intro old_fills_core) (simp_all add: level_field_def)
    moreover have "build_grid (ab_curr_mid s') bs ss ba sa ''CCXT'' n1 (old_fills s' (ab_ccxt_orders s) ma) = (ab_ccxt_orders s', ab_ccxt_metrics s')"
      "build_grid (ab_curr_mid s') bs ss ba sa ''C++'' n2 (old_fills s' (ab_cpp_orders s) mb) = (ab_cpp_orders s', ab_cpp_metrics s')"
      using h g xy by (simp_all add: arms_of_def placed_def)
    ultimately show ?thesis unfolding level_field_def by (intro build_grid_core)
  qed
  with t(1) show "level_field (snd (ab_tick env ccxt cpp s))" by simp
qed

text \<open>The orders of both connectors are the grid around the last price.\<close>

definition holds_grid :: "'w ab \<Rightarrow> bool" where
  "holds_grid s \<longleftrightarrow> (case shared_grid s of ((bs, ss), ba, sa) \<Rightarrow>
     (\<exists>now m. ab_ccxt_orders s = fst (build_grid (ab_curr_mid s) bs ss ba sa ''CCXT'' now m)) \<and>
     (\<exists>now m. ab_cpp_orders s = fst (build_grid (ab_curr_mid s) bs ss ba sa ''C++'' now m)))"

lemma placed_holds:
  assumes "arms_of s = (placed ''CCXT'' (ab_curr_mid s) (Some x) s n1 m1, placed ''C++'' (ab_curr_mid s) (Some y) s n2 m2)"
  shows "holds_grid s"
proof -
  obtain bs ss ba sa where g: "shared_grid s = ((bs, ss), ba, sa)" by (metis prod.collapse)
  with assms have "ab_ccxt_orders s = fst (build_grid (ab_curr_mid s) bs ss ba sa ''CCXT'' n1 m1)"
    "ab_cpp_orders s = fst (build_grid (ab_curr_mid s) bs ss ba sa ''C++'' n2 m2)"
    by (auto simp: arms_of_def placed_def dest: arg_cong [of "(_, _)" _ fst])
  then show ?thesis unfolding holds_grid_def g prod.case by blast
qed

text \<open>A metric after \<open>k\<close> ticks that were all answered; with positive prices each of them placed a grid.\<close>

definition served_ticks :: "bool \<Rightarrow> nat \<Rightarrow> metrics \<Rightarrow> bool" where
  "served_ticks pos k m \<longleftrightarrow> cm_ticks_attempted m = k \<and> cm_ticker_attempts m = k \<and> cm_ticker_successes m = k \<and>
     (pos \<longrightarrow> cm_order_errors m = 0)"

lemma served_asked: "asked True m m' \<Longrightarrow> served_ticks pos k m \<Longrightarrow> served_ticks pos (Suc k) m'"
  by (simp add: served_ticks_def asked_def)

lemma served_error: "served_ticks False k m \<Longrightarrow> served_ticks False k (count_error m)"
  by (simp add: served_ticks_def count_error_def)

lemma served_placed:
  assumes "served_ticks pos k m"
  shows "served_ticks pos k (snd (placed l g (Some x) s now (old_fills s os m)))"
proof -
  have e: "cm_order_errors (fold (\<lambda>x. if c x then ab_record_fill (oo_side x) (oo_price x) (oo_amount x) else id) os m) = cm_order_errors m" for c
    by (induction os arbitrary: m) (simp_all add: ab_record_fill_def Let_def)
  show ?thesis
    using assms fold_fills [of "crossed (ab_prev_mid s) (ab_curr_mid s)" os m]
    by (simp add: served_ticks_def placed_def build_grid_def old_fills_def simulate_fills_def Let_def e split: prod.split)
qed

definition fair_run :: "bool \<Rightarrow> nat \<Rightarrow> 'w ab \<Rightarrow> bool" where
  "fair_run pos k s \<longleftrightarrow> level_field s \<and> ab_ok s \<and> served_ticks pos k (ab_ccxt_metrics s) \<and>
     served_ticks pos k (ab_cpp_metrics s) \<and> (pos \<and> 0 < k \<longrightarrow> holds_grid s)"

lemma fair_world [simp]: "fair_run pos k (s\<lparr>world := w\<rparr>) = fair_run pos k s"
  "fair_run pos k (s\<lparr>ab_running := r\<rparr>) = fair_run pos k s"
  by (simp_all add: fair_run_def level_field_def ab_ok_def arms_of_def holds_grid_def shared_grid_def)

lemma fair_tick:
  assumes "answers ccxt" and "answers cpp" and pos: "pos \<Longrightarrow> positive_mids ccxt" and fair: "fair_run pos k s"
  shows "\<exists>s'. ab_tick env ccxt cpp s = (Inr (), s') \<and> ab_running s' = ab_running s \<and> fair_run pos (Suc k) s'"
proof -
  obtain a ma b mb s' where t: "ab_tick env ccxt cpp s = (Inr (), s')" "ab_running s' = ab_running s"
    "asked (a \<noteq> None) (ab_ccxt_metrics s) ma" "asked (b \<noteq> None) (ab_cpp_metrics s) mb"
    "served ccxt a" "served cpp b"
    "(\<nexists>g. global_mid_of a b = Some g \<and> 0 < g) \<and>
     arms_of s' = ((ab_ccxt_orders s, count_error ma), (ab_cpp_orders s, count_error mb)) \<or>
     (\<exists>n1 n2. arms_of s' = (placed ''CCXT'' (ab_curr_mid s') a s' n1 (old_fills s' (ab_ccxt_orders s) ma),
                   placed ''C++'' (ab_curr_mid s') b s' n2 (old_fills s' (ab_cpp_orders s) mb)))"
    using ab_tick_run [of env ccxt cpp s] by blast
  have kept: "level_field s' \<and> ab_ok s'"
    using fair keepsE [OF keeps_level_field [OF assms(1,2)] t(1)] keepsE [OF keeps_ab_ok t(1)] by (simp add: fair_run_def)
  obtain x y where xy: "a = Some x" "b = Some y" using t(5,6) assms(1,2) by (auto simp: served_def)
  have m: "served_ticks pos (Suc k) ma" "served_ticks pos (Suc k) mb"
    using t(3,4) fair xy by (auto simp: fair_run_def intro: served_asked)
  have "fair_run pos (Suc k) s'"
    using t(7)
  proof (elim disjE conjE exE)
    assume no: "\<nexists>g. global_mid_of a b = Some g \<and> 0 < g"
      and arms: "arms_of s' = ((ab_ccxt_orders s, count_error ma), (ab_cpp_orders s, count_error mb))"
    have "\<not> pos"
    proof
      assume pos
      with pos t(5) xy have "0 < x" by (simp add: served_def)
      with no xy show False by (simp add: global_mid_of_def)
    qed
    with arms kept m show ?thesis by (auto simp: fair_run_def arms_of_def intro: served_error)
  next
    fix n1 n2
    assume arms: "arms_of s' = (placed ''CCXT'' (ab_curr_mid s') a s' n1 (old_fills s' (ab_ccxt_orders s) ma),
                   placed ''C++'' (ab_curr_mid s') b s' n2 (old_fills s' (ab_cpp_orders s) mb))"
    then have "ab_ccxt_metrics s' = snd (placed ''CCXT'' (ab_curr_mid s') a s' n1 (old_fills s' (ab_ccxt_orders s) ma))"
      "ab_cpp_metrics s' = snd (placed ''C++'' (ab_curr_mid s') b s' n2 (old_fills s' (ab_cpp_orders s) mb))"
      by (auto simp: arms_of_def dest: arg_cong [of "(_, _)" _ snd])
    then have "served_ticks pos (Suc k) (ab_ccxt_metrics s')" "served_ticks pos (Suc k) (ab_cpp_metrics s')"
      using m by (simp_all add: xy served_placed)
    moreover have "holds_grid s'" by (rule placed_holds) (use arms xy in blast)
    ultimately show ?thesis using kept by (simp add: fair_run_def)
  qed
  with t(1,2) show ?thesis by blast
qed

lemma fair_loop:
  assumes "answers ccxt" and "answers cpp" and "pos \<Longrightarrow> positive_mids ccxt" and "fair_run pos k s" and "ab_running s"
  shows "\<exists>s' j. strategy_loop n env ccxt cpp e s = (Inr (), s') \<and> j \<le> n \<and> fair_run pos (k + j) s' \<and>
    (j < n \<longrightarrow> (\<exists>w. e \<le> fst (read_clock env w)))"
  using assms(4,5)
proof (induction n arbitrary: k s)
  case 0
  then show ?case by (simp add: ret_def)
next
  case (Suc n)
  obtain now w where c: "read_clock env (world s) = (now, w)" by fastforce
  show ?case
  proof (cases "now < e")
    case False
    with Suc.prems c have "strategy_loop (Suc n) env ccxt cpp e s = (Inr (), s\<lparr>world := w, ab_running := False\<rparr>)"
      by (simp add: bindE_def getsE_def now_s_def envE_def modE_def)
    moreover have "e \<le> fst (read_clock env (world s))" using False c by simp
    ultimately show ?thesis using Suc.prems by (intro exI [of _ "s\<lparr>world := w, ab_running := False\<rparr>"] exI [of _ 0]) auto
  next
    case True
    have "fair_run pos k (s\<lparr>world := w\<rparr>)" using Suc.prems by simp
    from fair_tick [OF assms(1,2,3) this, of env] obtain s1 where
      1: "ab_tick env ccxt cpp (s\<lparr>world := w\<rparr>) = (Inr (), s1)" "ab_running s1" "fair_run pos (Suc k) s1"
      using Suc.prems by auto
    let ?s2 = "s1\<lparr>world := do_sleep env (ab_tick_interval s1) (world s1)\<rparr>"
    have "strategy_loop (Suc n) env ccxt cpp e s = strategy_loop n env ccxt cpp e ?s2"
      using Suc.prems c True 1(1) by (simp add: bindE_def getsE_def now_s_def envE_def seqE_def)
    moreover obtain s' j where "strategy_loop n env ccxt cpp e ?s2 = (Inr (), s')" "j \<le> n" "fair_run pos (Suc k + j) s'"
      "j < n \<longrightarrow> (\<exists>w. e \<le> fst (read_clock env w))"
      using Suc.IH [of "Suc k" ?s2] 1(2,3) by auto
    ultimately show ?thesis by (intro exI [of _ s'] exI [of _ "Suc j"]) auto
  qed
qed

text \<open>
  C37. The comparison is fair, and only reliability can decide it.  If both connectors connect and answer
  every request, a run of \<open>start\<close> returns, and after its \<open>k\<close> ticks, as many as it was allowed unless the
  clock reached the end, both hold the same orders, and their order counts, fills, volume, profit
  and fill rate are equal, whatever prices they report.  Every request of the \<open>k\<close> ticks is counted as a
  success of both, no more orders are filled or held than were placed, and when the prices are
  positive no tick is an error and the orders held are the grid around the last price.
\<close>

theorem equal_service_equal_fills:
  assumes "answers ccxt" and "answers cpp"
    and "\<And>w. \<not> isl (fst (cn_connect ccxt w))" and "\<And>w. \<not> isl (fst (cn_connect cpp w))"
  shows "case ab_start n env ccxt cpp duration_s (new_ab spread depth vol interval w) of (r, s') \<Rightarrow> r = Inr () \<and>
     map core (ab_ccxt_orders s') = map core (ab_cpp_orders s') \<and>
     trades (ab_ccxt_metrics s') = trades (ab_cpp_metrics s') \<and>
     fill_rate_pct (ab_ccxt_metrics s') = fill_rate_pct (ab_cpp_metrics s') \<and>
     (\<exists>k \<le> n. (k < n \<longrightarrow> (\<exists>w w'. fst (read_clock env w) + duration_s \<le> fst (read_clock env w'))) \<and>
        list_all (\<lambda>m. cm_ticks_attempted m = k \<and> cm_ticker_attempts m = k \<and> cm_ticker_successes m = k)
          [ab_ccxt_metrics s', ab_cpp_metrics s'] \<and>
        cm_fill_count (ab_cpp_metrics s') + length (ab_cpp_orders s') \<le> cm_orders_placed (ab_cpp_metrics s') \<and>
        (positive_mids ccxt \<longrightarrow> cm_order_errors (ab_ccxt_metrics s') = 0 \<and> cm_order_errors (ab_cpp_metrics s') = 0 \<and>
           (0 < k \<longrightarrow> holds_grid s')))"
proof -
  let ?s = "new_ab spread depth vol interval w"
  obtain w1 where c1: "cn_connect ccxt w = (Inr (), w1)"
    using assms(3) [of w] by (cases "cn_connect ccxt w"; cases "fst (cn_connect ccxt w)") auto
  obtain w2 where c2: "cn_connect cpp w1 = (Inr (), w2)"
    using assms(4) [of w1] by (cases "cn_connect cpp w1"; cases "fst (cn_connect cpp w1)") auto
  obtain t w3 where c3: "read_clock env w2 = (t, w3)" by fastforce
  obtain t' w4 where c4: "read_clock env w3 = (t', w4)" by fastforce
  define s1 where "s1 = ?s\<lparr>ab_started_at := t, ab_ccxt_metrics := (ab_ccxt_metrics ?s)\<lparr>cm_started_at := t\<rparr>,
                        ab_cpp_metrics := (ab_cpp_metrics ?s)\<lparr>cm_started_at := t\<rparr>, ab_running := True, world := w4\<rparr>"
  have "fair_run (positive_mids ccxt) 0 s1" "ab_running s1"
    by (simp_all add: s1_def fair_run_def level_field_def ab_ok_def arms_of_def arm_ok_def served_ticks_def
        new_ab_def new_metrics_def trades_def)
  from fair_loop [OF assms(1,2) _ this, of n env "t' + duration_s"] obtain s2 j where
    l: "strategy_loop n env ccxt cpp (t' + duration_s) s1 = (Inr (), s2)" and j: "j \<le> n"
    and fair: "fair_run (positive_mids ccxt) j s2" and e: "j < n \<longrightarrow> (\<exists>w. t' + duration_s \<le> fst (read_clock env w))"
    by auto
  have start: "\<exists>w'. ab_start n env ccxt cpp duration_s ?s = (Inr (), s2\<lparr>world := w', ab_running := False\<rparr>)"
  proof -
    obtain r5 w5 where d1: "cn_disconnect ccxt (world s2) = (r5, w5)" by fastforce
    obtain r6 w6 where d2: "cn_disconnect cpp w5 = (r6, w6)" by fastforce
    have "world ?s = w" by (simp add: new_ab_def)
    then have "ab_start n env ccxt cpp duration_s ?s = (Inr (), s2\<lparr>world := w6, ab_running := False\<rparr>)"
      using c1 c2 c3 c4 l d1 d2
      by (cases r5; cases r6) (simp_all add: ab_start_def seqE_def bindE_def callE_def now_s_def envE_def modE_def catchE_def ret_def s1_def)
    then show ?thesis ..
  qed
  then obtain s' where s': "ab_start n env ccxt cpp duration_s ?s = (Inr (), s')" and f: "fair_run (positive_mids ccxt) j s'"
    using fair by force
  have "j < n \<longrightarrow> (\<exists>w w'. fst (read_clock env w) + duration_s \<le> fst (read_clock env w'))"
    using e c4 by (metis fst_conv)
  moreover from f have "trades (ab_ccxt_metrics s') = trades (ab_cpp_metrics s')" by (simp add: fair_run_def level_field_def)
  then have "fill_rate_pct (ab_ccxt_metrics s') = fill_rate_pct (ab_cpp_metrics s')" by (simp add: trades_def fill_rate_pct_def)
  ultimately show ?thesis
    using f j unfolding s' prod.case
    by (auto simp: fair_run_def level_field_def ab_ok_def arms_of_def arm_ok_def served_ticks_def intro!: exI [of _ j])
qed

section \<open>An outage that does not end\<close>

lemma old_fills_downtime [simp]: "cm_total_downtime_s (old_fills s os m) = cm_total_downtime_s m"
  using fold_fills [of "crossed (ab_prev_mid s) (ab_curr_mid s)" os m]
  by (simp add: old_fills_def simulate_fills_def Let_def)

lemma placed_downtime [simp]: "cm_total_downtime_s (snd (placed l g mid s now m)) = cm_total_downtime_s m"
  by (simp add: placed_def build_grid_def count_error_def Let_def split: option.split prod.split)

lemma keeps_no_downtime:
  assumes "silent cpp"
  shows "keeps (\<lambda>s. cm_total_downtime_s (ab_cpp_metrics s) = 0) (ab_tick env ccxt cpp)"
proof (rule keepsI)
  fix s :: "'a ab"
  assume z: "cm_total_downtime_s (ab_cpp_metrics s) = 0"
  obtain a ma b mb s' where t: "ab_tick env ccxt cpp s = (Inr (), s')"
    "asked (b \<noteq> None) (ab_cpp_metrics s) mb" "served cpp b"
    "arms_of s' = ((ab_ccxt_orders s, count_error ma), (ab_cpp_orders s, count_error mb)) \<or>
     (\<exists>n1 n2. arms_of s' = (placed ''CCXT'' (ab_curr_mid s') a s' n1 (old_fills s' (ab_ccxt_orders s) ma),
                   placed ''C++'' (ab_curr_mid s') b s' n2 (old_fills s' (ab_cpp_orders s) mb)))"
    using ab_tick_run [of env ccxt cpp s] by blast
  have "cm_total_downtime_s mb = 0" using t(2,3) assms z by (auto simp: served_def asked_def)
  moreover have "ab_cpp_metrics s' = snd (snd (arms_of s'))" by (simp add: arms_of_def)
  ultimately have "cm_total_downtime_s (ab_cpp_metrics s') = 0" using t(4) by (auto simp: count_error_def)
  with t(1) show "cm_total_downtime_s (ab_cpp_metrics (snd (ab_tick env ccxt cpp s))) = 0" by simp
qed

text \<open>
  An outage that does not end counts as uptime: downtime is added only when a connector answers again,
  so a C++ connector that never answers a single request is reported with an uptime of 100 percent,
  whenever it was started and whenever the report is made.
\<close>

theorem dead_connector_has_full_uptime:
  assumes "silent cpp"
  shows "case ab_start n env ccxt cpp duration_s (new_ab spread depth vol interval w) of (r, s') \<Rightarrow>
     uptime_pct now (ab_cpp_metrics s') = 100"
proof -
  have "keeps (\<lambda>s. cm_total_downtime_s (ab_cpp_metrics s) = 0) (ab_start n env ccxt cpp duration_s)"
    by (rule keeps_ab_start [OF keeps_no_downtime [OF assms]]) simp_all
  from keepsD [OF this, of "new_ab spread depth vol interval w"]
  have "cm_total_downtime_s (ab_cpp_metrics (snd (ab_start n env ccxt cpp duration_s (new_ab spread depth vol interval w)))) = 0"
    by (simp add: new_ab_def new_metrics_def)
  then show ?thesis by (simp add: uptime_pct_def Let_def case_prod_unfold)
qed

section \<open>Instances\<close>

text \<open>On the sample environment the clock stands still, so a run makes all the passes it is allowed.\<close>

lemma equal_service_equal_fills_witness:
  "case ab_start 100 sample_env sample_env sample_env 2000 (new_ab sample_spread sample_depth sample_volatility 30 0) of (r, s') \<Rightarrow>
     r = Inr () \<and> map core (ab_ccxt_orders s') = map core (ab_cpp_orders s') \<and>
     trades (ab_ccxt_metrics s') = trades (ab_cpp_metrics s') \<and>
     fill_rate_pct (ab_ccxt_metrics s') = fill_rate_pct (ab_cpp_metrics s') \<and>
     cm_ticker_successes (ab_ccxt_metrics s') = 100 \<and> cm_ticker_successes (ab_cpp_metrics s') = 100 \<and>
     cm_order_errors (ab_cpp_metrics s') = 0 \<and> holds_grid s'"
proof -
  have a: "answers sample_env" "positive_mids sample_env" "\<not> isl (fst (cn_connect sample_env w))"
    "fst (read_clock sample_env w) = 1000" for w
    by (simp_all add: answers_def positive_mids_def sample_env_def)
  obtain r s' where run: "ab_start 100 sample_env sample_env sample_env 2000
      (new_ab sample_spread sample_depth sample_volatility 30 0) = (r, s')" by fastforce
  have "\<not> fst (read_clock sample_env w) + 2000 \<le> fst (read_clock sample_env w')" for w w' by (simp add: a(4))
  moreover note c = equal_service_equal_fills [OF a(1,1,3,3), where n = 100 and env = sample_env and duration_s = 2000
      and spread = sample_spread and depth = sample_depth and vol = sample_volatility and interval = 30 and w = 0,
      unfolded run prod.case]
  then obtain k where k: "k \<le> 100"
      "k < 100 \<longrightarrow> (\<exists>w w'. fst (read_clock sample_env w) + 2000 \<le> fst (read_clock sample_env w'))"
      "list_all (\<lambda>m. cm_ticks_attempted m = k \<and> cm_ticker_attempts m = k \<and> cm_ticker_successes m = k)
          [ab_ccxt_metrics s', ab_cpp_metrics s']"
      "positive_mids sample_env \<longrightarrow> cm_order_errors (ab_ccxt_metrics s') = 0 \<and> cm_order_errors (ab_cpp_metrics s') = 0 \<and>
           (0 < k \<longrightarrow> holds_grid s')"
    by (elim conjE exE) (rule that)
  ultimately have "k = 100" by (metis le_neq_implies_less)
  then have m: "cm_ticker_successes (ab_ccxt_metrics s') = 100" "cm_ticker_successes (ab_cpp_metrics s') = 100"
      "cm_order_errors (ab_cpp_metrics s') = 0" "holds_grid s'"
    using k(3,4) a(2) by simp_all
  from c show ?thesis unfolding run prod.case by (elim conjE) (intro conjI m; assumption)
qed

definition dead_env :: "nat env" where
  "dead_env = sample_env\<lparr>fetch_ticker := (\<lambda>w. (Inl NetworkError, w))\<rparr>"

lemma dead_connector_has_full_uptime_witness:
  "case ab_start 100 sample_env sample_env dead_env 2000 (new_ab sample_spread sample_depth sample_volatility 30 0) of (r, s') \<Rightarrow>
     uptime_pct 4000 (ab_cpp_metrics s') = 100"
  by (rule dead_connector_has_full_uptime) (simp add: silent_def dead_env_def)

end
