(* ===== verification/AbScript.thy ===== *)
theory AbScript
  imports AbComparator RegimeMaster
begin

text \<open>
  \<open>scripts/ab_paper_trade.py\<close>: its arguments, the credentials, and the simulated connectors with their price
  engine.  The run itself is in \<open>AbRun\<close>.
\<close>

section \<open>Arguments and credentials\<close>

definition ALL_EXCHANGES :: "string list" where
  "ALL_EXCHANGES = [''kucoin'', ''gate'', ''mexc'', ''kraken'']"

definition ab_cred_keys :: "(string \<times> string list) list" where
  "ab_cred_keys =
     [(''kucoin'', [''KUCOIN_API_KEY'', ''KUCOIN_API_SECRET'', ''KUCOIN_PASSPHRASE'']),
      (''gate'', [''GATE_API_KEY'', ''GATE_API_SECRET'']),
      (''mexc'', [''MEXC_API_KEY'', ''MEXC_API_SECRET'']),
      (''kraken'', [''KRAKEN_API_KEY'', ''KRAKEN_API_SECRET''])]"

definition ab_quote_currency :: "string \<Rightarrow> string" where
  "ab_quote_currency ex = (if ex = ''kraken'' then ''USD'' else ''USDT'')"

definition upper_char :: "char \<Rightarrow> char" where
  "upper_char c = (if 97 \<le> (of_char c :: nat) \<and> (of_char c :: nat) \<le> 122 then char_of ((of_char c :: nat) - 32) else c)"

definition env_var :: "(string \<times> string) list \<Rightarrow> string \<Rightarrow> string" where
  "env_var vars k = (case dict_get vars k of Some v \<Rightarrow> v | None \<Rightarrow> '''')"

definition ab_get_creds :: "(string \<times> string) list \<Rightarrow> string \<Rightarrow> (string \<times> string) list option" where
  "ab_get_creds vars ex =
     (let keys = (case dict_get ab_cred_keys ex of Some ks \<Rightarrow> ks | None \<Rightarrow> []);
          env_vals = map (\<lambda>k. (k, env_var vars k)) keys;
          up = map upper_char ex;
          val = (\<lambda>k. case dict_get env_vals k of Some v \<Rightarrow> v | None \<Rightarrow> '''')
      in if keys = [] then None
         else if \<not> list_all (\<lambda>(_, v). v \<noteq> '''') env_vals then None
         else Some ([(''api_key'', val (up @ ''_API_KEY'')), (''api_secret'', val (up @ ''_API_SECRET''))]
           @ (case dict_get env_vals (up @ ''_PASSPHRASE'') of Some v \<Rightarrow> [(''passphrase'', v)] | None \<Rightarrow> [])))"

text \<open>\<open>str.strip\<close> on blanks and line ends, and \<open>str.split(",")\<close>\<close>

definition blank :: "char \<Rightarrow> bool" where
  "blank c \<longleftrightarrow> c \<in> {CHR '' '', CHR 0x09, CHR 0x0A, CHR 0x0B, CHR 0x0C, CHR 0x0D}"

definition strip :: "string \<Rightarrow> string" where
  "strip s = rev (dropWhile blank (rev (dropWhile blank s)))"

fun split_commas :: "string \<Rightarrow> string list" where
  "split_commas [] = [[]]"
| "split_commas (c # s) = (if c = CHR '','' then [] # split_commas s
     else (case split_commas s of [] \<Rightarrow> [[c]] | w # ws \<Rightarrow> (c # w) # ws))"

definition parse_exchanges :: "string \<Rightarrow> string list result" where
  "parse_exchanges raw =
     (if map lower_char (strip raw) = ''all'' then Inr ALL_EXCHANGES
      else (let res = map (\<lambda>e. map lower_char (strip e)) (filter (\<lambda>e. strip e \<noteq> []) (split_commas raw))
            in if list_ex (\<lambda>e. e \<notin> set ALL_EXCHANGES) res then Inl (ValueError ''Unknown exchange(s)'')
               else if res = [] then Inl (ValueError ''--exchanges cannot be empty.'') else Inr res))"

section \<open>The simulated market\<close>

text \<open>\<open>rng.gauss\<close> and \<open>rng.random\<close> are parameters; the price engine is a number.\<close>

definition sigma_tick :: "real \<Rightarrow> real \<Rightarrow> real" where
  "sigma_tick dt_s vol_ann_pct = vol_ann_pct / 100 * sqrt (dt_s / (252 * 86400))"

definition advance_price :: "(real \<Rightarrow> real \<Rightarrow> 'w \<Rightarrow> real \<times> 'w) \<Rightarrow> real \<Rightarrow> real \<times> 'w \<Rightarrow> real \<times> 'w" where
  "advance_price gauss dt_s = (\<lambda>(mid, w). let (g, w') = gauss 0 (sigma_tick dt_s 80) w in (mid * exp g, w'))"

text \<open>\<open>_price_advance_loop\<close> after \<open>n\<close> rounds\<close>

fun price_after :: "(real \<Rightarrow> 'w \<Rightarrow> 'w) \<Rightarrow> (real \<Rightarrow> real \<Rightarrow> 'w \<Rightarrow> real \<times> 'w) \<Rightarrow> real \<Rightarrow> nat \<Rightarrow> real \<times> 'w \<Rightarrow> real \<times> 'w" where
  "price_after sleep gauss tick_s 0 s = s"
| "price_after sleep gauss tick_s (Suc n) (mid, w) =
     price_after sleep gauss tick_s n (advance_price gauss tick_s (mid, sleep tick_s w))"

definition make_ticker :: "real \<Rightarrow> real \<Rightarrow> ticker" where
  "make_ticker m now = \<lparr>tk_bid = m * (1 - 0.001), tk_ask = m * (1 + 0.001), tk_mid = m, tk_last = m, tk_timestamp = now\<rparr>"

record mock_params =
  mp_name :: string
  mp_connect_s :: real
  mp_ticker :: "real \<times> real \<times> real"
  mp_failure_rate :: real
  mp_disconnect_prob :: real
  mp_create :: "real \<times> real \<times> real"
  mp_cancel :: "real \<times> real \<times> real"
  mp_failure :: exn

text \<open>Latencies as least, average and deviation.\<close>

definition mock_ccxt_params :: mock_params where
  "mock_ccxt_params =
     \<lparr>mp_name = ''mock-ccxt-'', mp_connect_s = 0.05, mp_ticker = (0.1, 0.8, 0.19), mp_failure_rate = 0.05,
      mp_disconnect_prob = 0.018, mp_create = (0.1, 0.9, 0.22), mp_cancel = (0.05, 0.7, 0.15), mp_failure = TimeoutError\<rparr>"

definition mock_cpp_params :: mock_params where
  "mock_cpp_params =
     \<lparr>mp_name = ''mock-cpp-'', mp_connect_s = 0.02, mp_ticker = (0.0004, 0.0015, 0.0004), mp_failure_rate = 0.005,
      mp_disconnect_prob = 0.003, mp_create = (0.01, 0.065, 0.016), mp_cancel = (0.005, 0.02, 0.005),
      mp_failure = RuntimeError ''simulated mutex timeout''\<rparr>"

record 'w mock_world =
  mw_mid :: "'w \<Rightarrow> real"
  mw_random :: "'w \<Rightarrow> real \<times> 'w"
  mw_gauss :: "real \<Rightarrow> real \<Rightarrow> 'w \<Rightarrow> real \<times> 'w"

definition mock_wait :: "'w env \<Rightarrow> 'w mock_world \<Rightarrow> real \<times> real \<times> real \<Rightarrow> 'w \<Rightarrow> 'w" where
  "mock_wait env mw = (\<lambda>(least, average, sd) w. let (g, w1) = mw_gauss mw average sd w in do_sleep env (max least g) w1)"

definition mock_fetch_ticker :: "'w env \<Rightarrow> 'w mock_world \<Rightarrow> mock_params \<Rightarrow> 'w \<Rightarrow> ticker result \<times> 'w" where
  "mock_fetch_ticker env mw p w =
     (let (u, w1) = mw_random mw w
      in if u < mp_disconnect_prob p then (Inl (OtherError ''ConnectionError''), w1)
         else (let w2 = mock_wait env mw (mp_ticker p) w1; (v, w3) = mw_random mw w2
               in if v < mp_failure_rate p then (Inl (mp_failure p), w3)
                  else (let (t, w4) = read_clock env w3 in (Inr (make_ticker (mw_mid mw w4) t), w4))))"

definition mock_create :: "'w env \<Rightarrow> 'w mock_world \<Rightarrow> mock_params \<Rightarrow> string \<Rightarrow> string \<Rightarrow> real \<Rightarrow> real \<Rightarrow> 'w \<Rightarrow> order result \<times> 'w" where
  "mock_create env mw p ex side price amount w =
     (let w1 = mock_wait env mw (mp_create p) w; (t, w2) = read_clock env w1; (t', w3) = read_clock env w2
      in (Inr \<lparr>ord_id = mp_name p @ ex @ ''-'' @ str_int (py_int (t * 1000)), ord_exchange = ex, ord_symbol = ''ALKIMI/USDT'',
               ord_side = side, ord_price = price, ord_amount = amount, ord_amount_usd = price * amount,
               ord_status = ''open'', ord_timestamp = t', ord_filled_amount = 0, ord_filled_price = 0, ord_fee = 0,
               ord_fee_currency = []\<rparr>, w3))"

definition mock_exchange :: "'w env \<Rightarrow> 'w mock_world \<Rightarrow> mock_params \<Rightarrow> string \<Rightarrow> 'w env" where
  "mock_exchange env mw p ex = env
     \<lparr>cn_connect := (\<lambda>w. (Inr (), do_sleep env (mp_connect_s p) w)),
      cn_disconnect := (\<lambda>w. (Inr (), w)),
      fetch_ticker := mock_fetch_ticker env mw p,
      fetch_candles := (\<lambda>timeframe limit w. (Inr [], w)),
      fetch_balance := (\<lambda>w. (Inr \<lparr>bal_usd = 10000, bal_token = 100000, bal_quote_currency = ''USDT''\<rparr>, w)),
      create_limit_order := mock_create env mw p ex,
      cancel_order := (\<lambda>oid w. (Inr (), mock_wait env mw (mp_cancel p) w)),
      cancel_all_orders := (\<lambda>w. (Inr (), w)),
      fetch_open_orders := (\<lambda>w. (Inr [], w)),
      fetch_fills := (\<lambda>since w. (Inr [], w))\<rparr>"

section \<open>Behaviour\<close>

text \<open>The simulated price never reaches zero.\<close>

lemma price_stays_positive: "0 < fst s \<Longrightarrow> 0 < fst (price_after sleep gauss tick_s n s)"
  by (induction sleep gauss tick_s n s rule: price_after.induct)
    (auto simp: advance_price_def Let_def split: prod.split)

lemma parsed_exchanges_known:
  "parse_exchanges raw = Inr exs \<Longrightarrow> exs \<noteq> [] \<and> set exs \<subseteq> set ALL_EXCHANGES"
  by (auto simp: parse_exchanges_def Let_def ALL_EXCHANGES_def list_ex_iff split: if_splits)

lemma every_exchange_has_keys: "ex \<in> set ALL_EXCHANGES \<Longrightarrow> dict_get ab_cred_keys ex \<noteq> None"
  by (auto simp: ALL_EXCHANGES_def ab_cred_keys_def)

end
