(* ===== verification/Metrics.thy ===== *)
theory Metrics
  imports PaperTrader
begin

text \<open>
  \<open>api/metrics.py\<close>: the counters and gauges, their text rendering, and the lock under which threads
  change them.  A method is three steps under the lock (\<open>self.x += n\<close> reads and then stores), and
  the steps of the threads interleave; the theorem is that the result is that of the calls made one
  after the other.
\<close>

section \<open>The collector\<close>

record metric_values =
  mt_orders_placed :: int
  mt_orders_cancelled :: int
  mt_fills_total :: int
  mt_spread_bps :: real
  mt_inventory_skew :: real
  mt_equity_usd :: real

definition fresh_metrics :: metric_values where
  "fresh_metrics = \<lparr>mt_orders_placed = 0, mt_orders_cancelled = 0, mt_fills_total = 0,
     mt_spread_bps = 0, mt_inventory_skew = 1, mt_equity_usd = 0\<rparr>"

datatype metric_call =
    IncOrdersPlaced int | IncOrdersCancelled int | IncFills int
  | SetSpreadBps real | SetInventorySkew real | SetEquityUsd real

fun metric_effect :: "metric_call \<Rightarrow> metric_values \<Rightarrow> metric_values" where
  "metric_effect (IncOrdersPlaced n) m = m\<lparr>mt_orders_placed := mt_orders_placed m + n\<rparr>"
| "metric_effect (IncOrdersCancelled n) m = m\<lparr>mt_orders_cancelled := mt_orders_cancelled m + n\<rparr>"
| "metric_effect (IncFills n) m = m\<lparr>mt_fills_total := mt_fills_total m + n\<rparr>"
| "metric_effect (SetSpreadBps v) m = m\<lparr>mt_spread_bps := v\<rparr>"
| "metric_effect (SetInventorySkew v) m = m\<lparr>mt_inventory_skew := v\<rparr>"
| "metric_effect (SetEquityUsd v) m = m\<lparr>mt_equity_usd := v\<rparr>"

section \<open>Rendering\<close>

text \<open>\<open>f"{x:.nf}"\<close>\<close>

definition pad_zeros :: "nat \<Rightarrow> string \<Rightarrow> string" where
  "pad_zeros n ds = replicate (n - length ds) (CHR ''0'') @ ds"

definition fixed_point :: "nat \<Rightarrow> real \<Rightarrow> string" where
  "fixed_point n x =
     (let k = nat (py_round (\<bar>x\<bar> * 10 ^ n))
      in (if x < 0 then ''-'' else []) @ digits (k div 10 ^ n) @ ''.'' @ pad_zeros n (digits (k mod 10 ^ n)))"

definition newline :: string where
  "newline = [char_of (10::nat)]"

fun join_lines :: "string list \<Rightarrow> string" where
  "join_lines [] = []"
| "join_lines [l] = l"
| "join_lines (l # ls) = l @ newline @ join_lines ls"

definition metric_lines :: "string \<Rightarrow> string \<Rightarrow> string \<Rightarrow> string \<Rightarrow> string list" where
  "metric_lines name help kind value =
     [''# HELP '' @ name @ '' '' @ help, ''# TYPE '' @ name @ '' '' @ kind, name @ '' '' @ value, []]"

definition render :: "metric_values \<Rightarrow> string" where
  "render m = join_lines (
       metric_lines ''mm_orders_placed_total'' ''Total limit orders placed'' ''counter'' (str_int (mt_orders_placed m))
     @ metric_lines ''mm_orders_cancelled_total'' ''Total orders cancelled'' ''counter'' (str_int (mt_orders_cancelled m))
     @ metric_lines ''mm_fills_total'' ''Total fills received'' ''counter'' (str_int (mt_fills_total m))
     @ metric_lines ''mm_spread_bps'' ''Current tightest spread in basis points'' ''gauge'' (fixed_point 2 (mt_spread_bps m))
     @ metric_lines ''mm_inventory_skew'' ''Current inventory skew factor'' ''gauge'' (fixed_point 4 (mt_inventory_skew m))
     @ metric_lines ''mm_equity_usd'' ''Total equity in USD'' ''gauge'' (fixed_point 2 (mt_equity_usd m))) @ newline"

section \<open>Threads\<close>

text \<open>\<open>with self._lock: self.x += n\<close>: entered, read, stored; then the lock is released.\<close>

datatype in_call = Outside | Entered metric_call | Loaded metric_call int | Stored metric_call

fun counter_read :: "metric_call \<Rightarrow> metric_values \<Rightarrow> int option" where
  "counter_read (IncOrdersPlaced _) m = Some (mt_orders_placed m)"
| "counter_read (IncOrdersCancelled _) m = Some (mt_orders_cancelled m)"
| "counter_read (IncFills _) m = Some (mt_fills_total m)"
| "counter_read _ m = None"

fun counter_store :: "metric_call \<Rightarrow> int \<Rightarrow> metric_values \<Rightarrow> metric_values" where
  "counter_store (IncOrdersPlaced n) v m = m\<lparr>mt_orders_placed := v + n\<rparr>"
| "counter_store (IncOrdersCancelled n) v m = m\<lparr>mt_orders_cancelled := v + n\<rparr>"
| "counter_store (IncFills n) v m = m\<lparr>mt_fills_total := v + n\<rparr>"
| "counter_store _ v m = m"

record collector =
  mc_metrics :: metric_values
  mc_lock :: "nat option"
  mc_thread :: "nat \<Rightarrow> in_call"
  mc_todo :: "nat \<Rightarrow> metric_call list"

text \<open>The calls are logged, with their threads, in the order in which they take effect.\<close>

inductive mc_reach :: "(nat \<Rightarrow> metric_call list) \<Rightarrow> collector \<Rightarrow> (nat \<times> metric_call) list \<Rightarrow> bool"
  for programs :: "nat \<Rightarrow> metric_call list" where
  start: "mc_reach programs
     \<lparr>mc_metrics = fresh_metrics, mc_lock = None, mc_thread = (\<lambda>_. Outside), mc_todo = programs\<rparr> []"
| acquire: "mc_reach programs s hist \<Longrightarrow> mc_lock s = None \<Longrightarrow> mc_thread s i = Outside \<Longrightarrow> mc_todo s i = c # cs \<Longrightarrow>
     mc_reach programs (s\<lparr>mc_lock := Some i, mc_thread := (mc_thread s)(i := Entered c), mc_todo := (mc_todo s)(i := cs)\<rparr>) hist"
| load: "mc_reach programs s hist \<Longrightarrow> mc_thread s i = Entered c \<Longrightarrow> counter_read c (mc_metrics s) = Some v \<Longrightarrow>
     mc_reach programs (s\<lparr>mc_thread := (mc_thread s)(i := Loaded c v)\<rparr>) hist"
| store: "mc_reach programs s hist \<Longrightarrow> mc_thread s i = Loaded c v \<Longrightarrow>
     mc_reach programs (s\<lparr>mc_metrics := counter_store c v (mc_metrics s), mc_thread := (mc_thread s)(i := Stored c)\<rparr>)
       (hist @ [(i, c)])"
| set_gauge: "mc_reach programs s hist \<Longrightarrow> mc_thread s i = Entered c \<Longrightarrow> counter_read c (mc_metrics s) = None \<Longrightarrow>
     mc_reach programs (s\<lparr>mc_metrics := metric_effect c (mc_metrics s), mc_thread := (mc_thread s)(i := Stored c)\<rparr>)
       (hist @ [(i, c)])"
| release: "mc_reach programs s hist \<Longrightarrow> mc_thread s i = Stored c \<Longrightarrow>
     mc_reach programs (s\<lparr>mc_lock := None, mc_thread := (mc_thread s)(i := Outside)\<rparr>) hist"

text \<open>The calls of one thread in the log, and the call it is in the middle of.\<close>

definition calls_of :: "nat \<Rightarrow> (nat \<times> metric_call) list \<Rightarrow> metric_call list" where
  "calls_of i hist = map snd (filter (\<lambda>x. fst x = i) hist)"

lemma calls_of_simps [simp]: "calls_of i [] = []" "calls_of i (hist @ [(k, c)]) = calls_of i hist @ (if k = i then [c] else [])"
  by (simp_all add: calls_of_def)

fun under_way :: "in_call \<Rightarrow> metric_call list" where
  "under_way (Entered c) = [c]"
| "under_way (Loaded c v) = [c]"
| "under_way _ = []"

definition replay :: "(nat \<times> metric_call) list \<Rightarrow> metric_values" where
  "replay hist = fold metric_effect (map snd hist) fresh_metrics"

lemma replay_simps [simp]: "replay [] = fresh_metrics" "replay (hist @ [(i, c)]) = metric_effect c (replay hist)"
  by (simp_all add: replay_def)

definition mc_ok :: "(nat \<Rightarrow> metric_call list) \<Rightarrow> collector \<Rightarrow> (nat \<times> metric_call) list \<Rightarrow> bool" where
  "mc_ok programs s hist \<longleftrightarrow> mc_metrics s = replay hist \<and>
     (\<forall>i. mc_thread s i \<noteq> Outside \<longrightarrow> mc_lock s = Some i) \<and>
     (\<forall>i c v. mc_thread s i = Loaded c v \<longrightarrow> counter_read c (mc_metrics s) = Some v) \<and>
     (\<forall>i. calls_of i hist @ under_way (mc_thread s i) @ mc_todo s i = programs i)"

lemma counter_store_effect: "counter_read c m = Some v \<Longrightarrow> counter_store c v m = metric_effect c m"
  by (cases c) auto

lemma mc_ok_others:
  assumes "mc_ok programs s hist" "mc_thread s i \<noteq> Outside" "k \<noteq> i"
  shows "mc_thread s k = Outside" "calls_of k hist @ mc_todo s k = programs k"
proof -
  show "mc_thread s k = Outside" using assms unfolding mc_ok_def by (metis option.inject)
  then show "calls_of k hist @ mc_todo s k = programs k"
    using assms(1) unfolding mc_ok_def by (metis append_Nil under_way.simps(3))
qed

lemma mc_okI:
  assumes "mc_metrics s = replay hist" and "mc_thread s i \<noteq> Outside \<longrightarrow> mc_lock s = Some i"
    and "\<And>c v. mc_thread s i = Loaded c v \<Longrightarrow> counter_read c (mc_metrics s) = Some v"
    and "calls_of i hist @ under_way (mc_thread s i) @ mc_todo s i = programs i"
    and "\<And>k. k \<noteq> i \<Longrightarrow> mc_thread s k = Outside" and "\<And>k. k \<noteq> i \<Longrightarrow> calls_of k hist @ mc_todo s k = programs k"
  shows "mc_ok programs s hist"
  unfolding mc_ok_def
proof (intro conjI allI impI)
  fix k c v
  show "mc_thread s k \<noteq> Outside \<Longrightarrow> mc_lock s = Some k" and "mc_thread s k = Loaded c v \<Longrightarrow> counter_read c (mc_metrics s) = Some v"
    and "calls_of k hist @ under_way (mc_thread s k) @ mc_todo s k = programs k"
    using assms by (cases "k = i"; simp)+
qed (rule assms(1))

lemma mc_ok_at:
  assumes "mc_ok programs s hist"
  shows "mc_metrics s = replay hist" "mc_thread s i \<noteq> Outside \<Longrightarrow> mc_lock s = Some i"
    "mc_thread s i = Loaded c v \<Longrightarrow> counter_read c (mc_metrics s) = Some v"
    "calls_of i hist @ under_way (mc_thread s i) @ mc_todo s i = programs i"
  using assms by (auto simp: mc_ok_def)

lemma mc_ok_reach: "mc_reach programs s hist \<Longrightarrow> mc_ok programs s hist"
proof (induction rule: mc_reach.induct)
  case start
  then show ?case by (simp add: mc_ok_def)
next
  case (acquire s hist i c cs)
  then have idle: "mc_thread s k = Outside" for k using mc_ok_at(2) [of programs s hist k] by fastforce
  have todo: "calls_of k hist @ mc_todo s k = programs k" for k
    using mc_ok_at(4) [OF acquire.IH, of k] idle by simp
  show ?case
    using todo [of i] acquire mc_ok_at(1) [OF acquire.IH] by (intro mc_okI [of _ _ i]) (simp_all add: idle todo)
next
  case (load s hist i c v)
  note others = mc_ok_others [OF load.IH, of i]
  show ?case
    using mc_ok_at(1) [OF load.IH] mc_ok_at(2,4) [OF load.IH, of i] load others by (intro mc_okI [of _ _ i]) simp_all
next
  case (store s hist i c v)
  note others = mc_ok_others [OF store.IH, of i]
  have "counter_store c v (replay hist) = metric_effect c (replay hist)"
    using mc_ok_at(1,3) [OF store.IH] store(2) by (simp add: counter_store_effect)
  then show ?case
    using mc_ok_at(1) [OF store.IH] mc_ok_at(2,4) [OF store.IH, of i] store others by (intro mc_okI [of _ _ i]) simp_all
next
  case (set_gauge s hist i c)
  note others = mc_ok_others [OF set_gauge.IH, of i]
  show ?case
    using mc_ok_at(1) [OF set_gauge.IH] mc_ok_at(2,4) [OF set_gauge.IH, of i] set_gauge others by (intro mc_okI [of _ _ i]) simp_all
next
  case (release s hist i c)
  note others = mc_ok_others [OF release.IH, of i]
  show ?case
    using mc_ok_at(1) [OF release.IH] mc_ok_at(2,4) [OF release.IH, of i] release others by (intro mc_okI [of _ _ i]) simp_all
qed

text \<open>
  No update is lost: whatever the interleaving of the threads, once all of them are done the
  collector holds what the same calls make of it when they are run one after the other, in an order
  that keeps each thread's own; in particular a counter is the sum of all its increments.
\<close>

theorem no_update_is_lost:
  assumes "mc_reach programs s hist" and "mc_lock s = None" and "\<forall>i. mc_todo s i = []"
  shows "mc_metrics s = fold metric_effect (map snd hist) fresh_metrics \<and> (\<forall>i. calls_of i hist = programs i) \<and>
    mt_fills_total (mc_metrics s) = (\<Sum>(_, c)\<leftarrow>hist. case c of IncFills n \<Rightarrow> n | _ \<Rightarrow> 0)"
proof -
  have ok: "mc_ok programs s hist" by (rule mc_ok_reach [OF assms(1)])
  then have idle: "\<forall>i. mc_thread s i = Outside" using assms(2) by (auto simp: mc_ok_def)
  have fills: "mt_fills_total (fold metric_effect cs m) = mt_fills_total m + (\<Sum>c\<leftarrow>cs. case c of IncFills n \<Rightarrow> n | _ \<Rightarrow> 0)"
    for cs m
  proof (induction cs arbitrary: m)
    case (Cons c cs)
    then show ?case by (cases c) simp_all
  qed simp
  have "calls_of i hist = programs i" for i
    using ok idle assms(3) unfolding mc_ok_def by (metis append_Nil2 under_way.simps(3))
  moreover have "mc_metrics s = replay hist" using ok by (simp add: mc_ok_def)
  ultimately show ?thesis
    using fills [of "map snd hist" fresh_metrics] by (simp add: replay_def fresh_metrics_def comp_def case_prod_unfold)
qed

definition one_call :: "nat \<Rightarrow> metric_call list" where
  "one_call = (\<lambda>i. if i = 0 then [SetEquityUsd 5] else [])"

definition after_one_call :: collector where
  "after_one_call = \<lparr>mc_metrics = fresh_metrics\<lparr>mt_equity_usd := 5\<rparr>, mc_lock = None, mc_thread = (\<lambda>_. Outside), mc_todo = (\<lambda>_. [])\<rparr>"

theorem no_update_is_lost_witness:
  "mc_metrics after_one_call = fold metric_effect (map snd [(0::nat, SetEquityUsd 5)]) fresh_metrics \<and>
    (\<forall>i. calls_of i [(0, SetEquityUsd 5)] = one_call i) \<and>
    mt_fills_total (mc_metrics after_one_call) = (\<Sum>(_, c)\<leftarrow>[(0::nat, SetEquityUsd 5)]. case c of IncFills n \<Rightarrow> n | _ \<Rightarrow> 0)"
proof -
  have "mc_reach one_call after_one_call [(0, SetEquityUsd 5)]"
    using mc_reach.release [OF mc_reach.set_gauge [OF mc_reach.acquire [OF mc_reach.start [of one_call], of 0 "SetEquityUsd 5" "[]"],
        of 0 "SetEquityUsd 5"], of 0 "SetEquityUsd 5"]
    by (simp add: one_call_def after_one_call_def fun_upd_idem_iff fun_eq_iff if_distrib fun_upd_def cong: if_cong)
  then show ?thesis
    by (rule no_update_is_lost) (simp_all add: after_one_call_def)
qed

end
