(* ===== verification/TextFormat.thy ===== *)
theory TextFormat
  imports Metrics
begin

text \<open>
  What the reports of the program use of Python's text formatting: alignment, grouped and signed numbers,
  and durations.  Text is kept in UTF-8, as it is written to a file; a width counts characters, not bytes.
\<close>

section \<open>Characters beyond ASCII\<close>

definition utf8 :: "nat list \<Rightarrow> string" where
  "utf8 bs = map char_of bs"

definition box_line :: string where "box_line = utf8 [0xE2, 0x94, 0x80]"
definition box_double :: string where "box_double = utf8 [0xE2, 0x95, 0x90]"
definition check_mark :: string where "check_mark = utf8 [0xE2, 0x9C, 0x93]"
definition cross_mark :: string where "cross_mark = utf8 [0xE2, 0x9C, 0x97]"
definition em_dash :: string where "em_dash = utf8 [0xE2, 0x80, 0x94]"
definition at_least :: string where "at_least = utf8 [0xE2, 0x89, 0xA5]"
definition at_most :: string where "at_most = utf8 [0xE2, 0x89, 0xA4]"
definition times_sign :: string where "times_sign = utf8 [0xC3, 0x97]"

text \<open>The bytes that continue a character do not count.\<close>

definition continues :: "char \<Rightarrow> bool" where
  "continues c \<longleftrightarrow> (of_char c :: nat) div 64 = 2"

definition text_width :: "string \<Rightarrow> nat" where
  "text_width s = length (filter (\<lambda>c. \<not> continues c) s)"

lemma text_width_append [simp]: "text_width (s @ t) = text_width s + text_width t"
  by (simp add: text_width_def)

lemma text_width_Nil [simp]: "text_width [] = 0"
  by (simp add: text_width_def)

lemma text_width_ascii: "list_all (\<lambda>c. (of_char c :: nat) < 128) s \<Longrightarrow> text_width s = length s"
  by (induction s) (auto simp: text_width_def continues_def)

section \<open>Alignment\<close>

definition blanks :: "nat \<Rightarrow> string" where
  "blanks n = replicate n (CHR '' '')"

definition align_left :: "nat \<Rightarrow> string \<Rightarrow> string" where
  "align_left n s = s @ blanks (n - text_width s)"

definition align_right :: "nat \<Rightarrow> string \<Rightarrow> string" where
  "align_right n s = blanks (n - text_width s) @ s"

definition align_center :: "nat \<Rightarrow> string \<Rightarrow> string" where
  "align_center n s = (let k = n - text_width s in blanks (k div 2) @ s @ blanks (k - k div 2))"

lemma text_width_blanks [simp]: "text_width (blanks n) = n"
  by (simp add: blanks_def text_width_ascii list_all_iff)

lemma text_width_align [simp]:
  "text_width (align_left n s) = max n (text_width s)"
  "text_width (align_right n s) = max n (text_width s)"
  "text_width (align_center n s) = max n (text_width s)"
  by (simp_all add: align_left_def align_right_def align_center_def Let_def)

section \<open>Numbers\<close>

text \<open>\<open>f"{x:+.nf}"\<close>, \<open>f"{n:,}"\<close>, \<open>f"{n:02d}"\<close>\<close>

definition signed_point :: "nat \<Rightarrow> real \<Rightarrow> string" where
  "signed_point n x = (if x < 0 then [] else ''+'') @ fixed_point n x"

fun grouped_rev :: "string \<Rightarrow> string" where
  "grouped_rev (a # b # c # d # ds) = a # b # c # CHR '','' # grouped_rev (d # ds)"
| "grouped_rev ds = ds"

definition grouped :: "nat \<Rightarrow> string" where
  "grouped n = rev (grouped_rev (rev (digits n)))"

definition grouped_int :: "int \<Rightarrow> string" where
  "grouped_int i = (if i < 0 then ''-'' else []) @ grouped (nat \<bar>i\<bar>)"

definition two_digits :: "nat \<Rightarrow> string" where
  "two_digits n = pad_zeros 2 (digits n)"

text \<open>Grouping loses nothing: without the commas the digits are those of the number.\<close>

lemma grouped_rev_digits:
  "CHR '','' \<notin> set ds \<Longrightarrow> filter (\<lambda>c. c \<noteq> CHR '','') (grouped_rev ds) = ds"
  by (induction ds rule: grouped_rev.induct) (auto intro!: filter_True)

section \<open>Reading digits\<close>

text \<open>The number a text of digits denotes; not part of the program, it shows what a text determines.\<close>

definition digit_value :: "char \<Rightarrow> nat" where
  "digit_value c = of_char c - 48"

definition read_digits :: "string \<Rightarrow> nat" where
  "read_digits s = fold (\<lambda>c n. n * 10 + digit_value c) s 0"

lemma read_digits_snoc [simp]: "read_digits (s @ [c]) = read_digits s * 10 + digit_value c"
  by (simp add: read_digits_def)

lemma digit_value_char [simp]: "n < 10 \<Longrightarrow> digit_value (char_of (48 + n)) = n"
  by (simp add: digit_value_def of_char_of)

lemma read_digits [simp]: "read_digits (digits n) = n"
proof (induction n rule: less_induct)
  case (less n)
  show ?case
  proof (cases "n < 10")
    case True
    then show ?thesis by (subst digits.simps) (simp add: read_digits_def)
  next
    case False
    with less [of "n div 10"] show ?thesis by (subst digits.simps) simp
  qed
qed

lemma digits_inj [simp]: "digits m = digits n \<longleftrightarrow> m = n"
  by (metis read_digits)

lemma set_digits: "c \<in> set (digits n) \<Longrightarrow> 48 \<le> (of_char c :: nat) \<and> (of_char c :: nat) \<le> 57"
proof (induction n rule: less_induct)
  case (less n)
  show ?case
  proof (cases "n < 10")
    case True
    with less.prems show ?thesis by (subst (asm) digits.simps) (simp add: of_char_of)
  next
    case False
    with less.prems have "c \<in> set (digits (n div 10)) \<or> c = char_of (48 + n mod 10)"
      by (subst (asm) digits.simps) auto
    moreover have "48 \<le> (of_char (char_of (48 + n mod 10) :: char) :: nat) \<and> (of_char (char_of (48 + n mod 10) :: char) :: nat) \<le> 57"
      by (simp add: of_char_of)
    ultimately show ?thesis using less.IH [of "n div 10"] False by auto
  qed
qed

lemma digits_no_char: "(of_char c :: nat) < 48 \<or> 57 < (of_char c :: nat) \<Longrightarrow> c \<notin> set (digits n)"
  using set_digits by fastforce

lemma grouped_digits: "filter (\<lambda>c. c \<noteq> CHR '','') (grouped n) = digits n"
  unfolding grouped_def by (simp add: rev_filter [symmetric] grouped_rev_digits digits_no_char)

lemma read_pad_zeros: "read_digits (pad_zeros k s) = read_digits s"
proof -
  have "fold (\<lambda>c n. n * 10 + digit_value c) (replicate k (CHR ''0'')) 0 = 0" for k
    by (induction k) (simp_all add: digit_value_def)
  then show ?thesis by (simp add: pad_zeros_def read_digits_def)
qed

lemma two_digits_inj: "two_digits m = two_digits n \<longleftrightarrow> m = n"
  by (metis two_digits_def read_pad_zeros read_digits)

section \<open>Durations\<close>

text \<open>\<open>divmod\<close> of whole seconds into hours, minutes and seconds\<close>

definition hms :: "int \<Rightarrow> int \<times> int \<times> int" where
  "hms t = (let h = t div 3600; r = t mod 3600 in (h, r div 60, r mod 60))"

definition elapsed_human :: "real \<Rightarrow> string" where
  "elapsed_human secs =
     (case hms (py_int secs) of (h, m, s) \<Rightarrow>
        str_int h @ ''h '' @ two_digits (nat m) @ ''m '' @ two_digits (nat s) @ ''s'')"

definition downtime_human :: "real \<Rightarrow> string" where
  "downtime_human secs =
     (case hms (py_int secs) of (h, m, s) \<Rightarrow>
        if h \<noteq> 0 then str_int h @ ''h '' @ two_digits (nat m) @ ''m '' @ two_digits (nat s) @ ''s''
        else str_int m @ ''m '' @ two_digits (nat s) @ ''s'')"

lemma hms_sum:
  assumes "hms t = (h, m, s)"
  shows "t = h * 3600 + m * 60 + s \<and> 0 \<le> m \<and> m < 60 \<and> 0 \<le> s \<and> s < 60"
proof -
  let ?r = "t mod 3600"
  have eqs: "h = t div 3600" "m = ?r div 60" "s = ?r mod 60"
    using assms by (simp_all add: hms_def Let_def)
  have "t = h * 3600 + ?r" "?r = m * 60 + s" "0 \<le> ?r" "?r < 3600" "0 \<le> s" "s < 60"
    unfolding eqs by simp_all
  moreover from this have "0 \<le> m" "m < 60" by linarith+
  ultimately show ?thesis by linarith
qed

lemma hms_inj: "hms t = hms u \<longleftrightarrow> t = u"
  by (metis hms_sum prod_cases3)

lemma cut_at:
  "c \<notin> set a \<Longrightarrow> c \<notin> set b \<Longrightarrow> a @ c # x = b @ c # y \<longleftrightarrow> a = b \<and> x = y"
proof (induction a arbitrary: b)
  case Nil
  then show ?case by (cases b) auto
next
  case (Cons d a)
  then show ?case by (cases b) auto
qed

lemma str_int_inj: "str_int i = str_int j \<longleftrightarrow> i = j"
proof -
  have "CHR ''-'' # x \<noteq> digits n" for x n
  proof
    assume "CHR ''-'' # x = digits n"
    then have "CHR ''-'' \<in> set (digits n)" by (metis list.set_intros(1))
    then show False by (simp add: digits_no_char)
  qed
  moreover from this have "digits n \<noteq> CHR ''-'' # x" for x n by metis
  ultimately show ?thesis by (auto simp: str_int_def)
qed

lemma str_int_no_char: "(of_char c :: nat) < 48 \<or> 57 < (of_char c :: nat) \<Longrightarrow> c \<noteq> CHR ''-'' \<Longrightarrow> c \<notin> set (str_int i)"
  by (auto simp: str_int_def digits_no_char)

lemma two_digits_no_char: "(of_char c :: nat) < 48 \<or> 57 < (of_char c :: nat) \<Longrightarrow> c \<notin> set (two_digits n)"
  using digits_no_char [of c n] by (auto simp: two_digits_def pad_zeros_def)

text \<open>The text of a duration tells its whole seconds, and nothing more.\<close>

lemma elapsed_human_faithful: "elapsed_human x = elapsed_human y \<longleftrightarrow> py_int x = py_int y"
proof
  assume eq: "elapsed_human x = elapsed_human y"
  obtain h m s where x: "hms (py_int x) = (h, m, s)" by (cases "hms (py_int x)")
  obtain h' m' s' where y: "hms (py_int y) = (h', m', s')" by (cases "hms (py_int y)")
  from eq have "str_int h = str_int h' \<and> two_digits (nat m) = two_digits (nat m') \<and> two_digits (nat s) = two_digits (nat s')"
    by (simp add: elapsed_human_def x y cut_at str_int_no_char two_digits_no_char)
  with hms_sum [OF x] hms_sum [OF y] show "py_int x = py_int y"
    by (simp add: str_int_inj two_digits_inj eq_nat_nat_iff)
qed (simp add: elapsed_human_def)

end
