(* ===== verification/AbReport.thy ===== *)
theory AbReport
  imports AbComparator TextFormat
begin

text \<open>
  The reports of \<open>core/ab_comparator.py\<close> and the summary of \<open>scripts/ab_paper_trade.py\<close>, character by
  character.  A report reads the clock for every uptime it shows, so making one is an effect.
\<close>

section \<open>Rows\<close>

definition format_row :: "string \<Rightarrow> string \<Rightarrow> string \<Rightarrow> string" where
  "format_row label ccxt_val cpp_val =
     ''  '' @ align_left 32 label @ ''  '' @ align_right 16 ccxt_val @ ''  '' @ align_right 16 cpp_val"

definition rule_line :: "string \<Rightarrow> nat \<Rightarrow> string" where
  "rule_line line_char width = ''  '' @ concat (replicate width line_char)"

definition div_line :: string where
  "div_line = rule_line box_line 68"

definition section_line :: "string \<Rightarrow> string" where
  "section_line title = newline @ ''  '' @ title"

definition table :: "string \<Rightarrow> string list \<Rightarrow> string list" where
  "table title rows =
     [section_line title, div_line, format_row ''Metric'' ''CCXT'' ''C++'', div_line] @ rows @ [div_line]"

definition both :: "string \<Rightarrow> (metrics \<Rightarrow> string) \<Rightarrow> metrics \<Rightarrow> metrics \<Rightarrow> string" where
  "both label f c p = format_row label (f c) (f p)"

definition percent :: "nat \<Rightarrow> real \<Rightarrow> string" where
  "percent n x = fixed_point n x @ ''%''"

definition millis :: "real \<Rightarrow> string" where
  "millis x = fixed_point 1 x @ ''ms''"

section \<open>The full report\<close>

definition report_header :: "string \<Rightarrow> string \<Rightarrow> real \<Rightarrow> string list" where
  "report_header ex symbol elapsed =
     [newline @ rule_line box_double 74,
      ''  '' @ align_center 74 ''A/B Paper Trading Report'',
      ''  '' @ align_center 74 (''exchange: '' @ ex @ ''  |  symbol: '' @ symbol @ ''  |  duration: '' @ elapsed_human elapsed),
      rule_line box_double 74]"

definition health_table :: "'w env \<Rightarrow> metrics \<Rightarrow> metrics \<Rightarrow> (('w, 'z) sys_scheme, string list) eff" where
  "health_table env c p =
     bindE (uptime_now env c) (\<lambda>uc. bindE (uptime_now env p) (\<lambda>up.
       ret (table ''Connection Health''
         [format_row ''Uptime'' (percent 2 uc) (percent 2 up),
          both ''Reconnections'' (\<lambda>m. digits (cm_reconnection_count m)) c p,
          both ''Total downtime'' (\<lambda>m. downtime_human (cm_total_downtime_s m)) c p])))"

definition ticker_table :: "metrics \<Rightarrow> metrics \<Rightarrow> string list" where
  "ticker_table c p = table ''Ticker Performance (fetch_ticker)''
     [both ''Calls / errors'' (\<lambda>m. grouped (cm_ticker_attempts m) @ '' / '' @
        grouped_int (int (cm_ticker_attempts m) - int (cm_ticker_successes m))) c p,
      both ''Success rate'' (\<lambda>m. percent 2 (ticker_success_rate_pct m)) c p,
      both ''Mean latency'' (\<lambda>m. millis (latency_mean m)) c p,
      both ''p50 latency'' (\<lambda>m. millis (latency_p50 m)) c p,
      both ''p99 latency'' (\<lambda>m. millis (latency_p99 m)) c p]"

definition order_table :: "metrics \<Rightarrow> metrics \<Rightarrow> string list" where
  "order_table c p = table ''Paper Order & Fill Performance''
     [both ''Ticks run'' (\<lambda>m. grouped (cm_ticks_attempted m)) c p,
      both ''Orders placed'' (\<lambda>m. grouped (cm_orders_placed m)) c p,
      both ''Ticks with errors'' (\<lambda>m. grouped (cm_order_errors m)) c p,
      both ''Fill count'' (\<lambda>m. grouped (cm_fill_count m)) c p,
      both ''Fill rate'' (\<lambda>m. percent 3 (fill_rate_pct m)) c p]"

definition pnl_table :: "metrics \<Rightarrow> metrics \<Rightarrow> string list" where
  "pnl_table c p = table ''Paper P&L''
     [both ''Realized P&L'' (\<lambda>m. ''$'' @ signed_point 4 (cm_realized_pnl_usd m)) c p,
      both ''Total volume'' (\<lambda>m. ''$'' @ fixed_point 2 (cm_total_volume_usd m)) c p]"

definition versus :: "string \<Rightarrow> string \<Rightarrow> string \<Rightarrow> string \<Rightarrow> string" where
  "versus what sign p_val c_val =
     ''C++ '' @ what @ '' '' @ sign @ '' CCXT'' @ blanks (20 - length what) @ ''('' @ p_val @ '' vs '' @ c_val @ '')''"

definition checks_of :: "metrics \<Rightarrow> metrics \<Rightarrow> real \<Rightarrow> real \<Rightarrow> (string \<times> string) list" where
  "checks_of c p up uc =
     [(''cpp_fill_rate_gte_ccxt'', versus ''fill rate'' at_least (percent 3 (fill_rate_pct p)) (percent 3 (fill_rate_pct c))),
      (''cpp_reconnects_lte_ccxt'', versus ''reconnections'' at_most (digits (cm_reconnection_count p)) (digits (cm_reconnection_count c))),
      (''cpp_uptime_gte_ccxt'', versus ''uptime'' at_least (percent 2 up) (percent 2 uc)),
      (''cpp_ticker_success_gte_ccxt'', versus ''ticker success'' at_least
         (percent 2 (ticker_success_rate_pct p)) (percent 2 (ticker_success_rate_pct c)))]"

text \<open>A mark per check, then the overall line.\<close>

definition check_line :: "(string \<times> bool) list \<Rightarrow> string \<times> string \<Rightarrow> string" where
  "check_line v = (\<lambda>(key, desc).
     ''    '' @ (if dict_get v key = Some True then check_mark else cross_mark) @ ''  '' @ desc)"

definition overall_line :: "bool \<Rightarrow> string" where
  "overall_line ok = newline @ ''  '' @ (if ok then ''PASS '' @ check_mark else ''FAIL '' @ cross_mark) @ '' '' @ em_dash @ '' '' @
     (if ok then ''All checkpoints met.'' else ''One or more checkpoints failed.'')"

definition checkpoint_part :: "'w env \<Rightarrow> metrics \<Rightarrow> metrics \<Rightarrow> (('w, 'z) sys_scheme, string list) eff" where
  "checkpoint_part env c p =
     bindE (verdict_of env c p) (\<lambda>v.
     bindE (uptime_now env p) (\<lambda>up. bindE (uptime_now env c) (\<lambda>uc.
       ret (section_line ''Step 11 Checkpoint:'' # map (check_line v) (checks_of c p up uc)
            @ [overall_line (list_all snd v), []]))))"

definition format_full_report :: "'w env \<Rightarrow> string \<Rightarrow> string \<Rightarrow> real \<Rightarrow> metrics \<Rightarrow> metrics \<Rightarrow> (('w, 'z) sys_scheme, string) eff" where
  "format_full_report env ex symbol elapsed c p =
     bindE (health_table env c p) (\<lambda>health.
     bindE (checkpoint_part env c p) (\<lambda>checkpoint.
       ret (join_lines (report_header ex symbol elapsed @ health @ ticker_table c p @ order_table c p @ pnl_table c p
                        @ checkpoint))))"

definition generate_report :: "'w env \<Rightarrow> string \<Rightarrow> string \<Rightarrow> ('w ab, string) eff" where
  "generate_report env ex symbol =
     bindE (now_s env) (\<lambda>now. bindE (getsE id) (\<lambda>s.
       format_full_report env ex symbol (now - ab_started_at s) (ab_ccxt_metrics s) (ab_cpp_metrics s)))"

section \<open>The interim report\<close>

definition interim_row :: "string \<Rightarrow> string \<Rightarrow> string \<Rightarrow> string" where
  "interim_row label a b = ''  '' @ align_left 32 label @ ''  '' @ a @ ''  '' @ b"

definition format_interim_report :: "real \<Rightarrow> metrics \<Rightarrow> metrics \<Rightarrow> string" where
  "format_interim_report elapsed c p =
     (let row = (\<lambda>label f. interim_row label (f c) (f p))
      in newline @ ''  '' @ concat (replicate 2 box_line) @ '' A/B progress @ '' @ elapsed_human elapsed @ '' '' @
         concat (replicate 26 box_line) @ newline @ concat (map (\<lambda>l. l @ newline)
           [interim_row [] (align_right 16 ''CCXT'') (align_right 16 ''C++''),
            row ''Ticker mean latency'' (\<lambda>m. align_right 14 (fixed_point 1 (latency_mean m)) @ ''ms''),
            row ''Ticker success rate'' (\<lambda>m. align_right 15 (fixed_point 2 (ticker_success_rate_pct m)) @ ''%''),
            row ''Fill rate'' (\<lambda>m. align_right 15 (fixed_point 3 (fill_rate_pct m)) @ ''%''),
            row ''Reconnections'' (\<lambda>m. align_right 16 (digits (cm_reconnection_count m))),
            row ''Realized P&L'' (\<lambda>m. ''$'' @ align_right 15 (signed_point 4 (cm_realized_pnl_usd m)))]))"

text \<open>
  \<open>_report_loop\<close> for at most \<open>n\<close> passes; what it prints is collected.  It runs beside the strategy loop, which
  ends it by clearing the running flag.
\<close>

fun report_loop :: "nat \<Rightarrow> 'w env \<Rightarrow> real \<Rightarrow> real \<Rightarrow> real \<Rightarrow> ('w ab, string list) eff" where
  "report_loop 0 env interval end_time next_report = ret []"
| "report_loop (Suc n) env interval end_time next_report =
     bindE (getsE ab_running) (\<lambda>go. if \<not> go then ret [] else
     bindE (now_s env) (\<lambda>t0. if end_time \<le> t0 then ret [] else
     bindE (now_s env) (\<lambda>t1.
     seqE (envE (\<lambda>w. ((), do_sleep env (min 1 (max 0 (next_report - t1))) w)))
     (bindE (getsE ab_running) (\<lambda>go. if \<not> go then ret [] else
     bindE (now_s env) (\<lambda>t2. if end_time \<le> t2 then ret [] else
     bindE (now_s env) (\<lambda>t3. if t3 < next_report then report_loop n env interval end_time next_report else
     bindE (now_s env) (\<lambda>t4. bindE (getsE id) (\<lambda>s. bindE (now_s env) (\<lambda>t5.
     bindE (report_loop n env interval end_time (t5 + interval)) (\<lambda>rest.
       ret (format_interim_report (t4 - ab_started_at s) (ab_ccxt_metrics s) (ab_cpp_metrics s) # rest))))))))))))"

definition start_reports :: "nat \<Rightarrow> 'w env \<Rightarrow> real \<Rightarrow> real \<Rightarrow> ('w ab, string list) eff" where
  "start_reports n env interval duration_s =
     bindE (now_s env) (\<lambda>t. bindE (now_s env) (\<lambda>t'. report_loop n env interval (t + duration_s) (t' + interval)))"

section \<open>The summary over several exchanges\<close>

definition summary_cells :: "string \<Rightarrow> string list \<Rightarrow> string" where
  "summary_cells first cells = ''  '' @ align_left 10 first @ concat (map (\<lambda>x. ''  '' @ align_right 16 x) cells)"

definition summary_row :: "'w env \<Rightarrow> string \<times> metrics \<times> metrics \<Rightarrow> (('w, 'z) sys_scheme, (string \<times> bool) option) eff" where
  "summary_row env = (\<lambda>(ex, c, p).
     bindE (verdict_of env c p) (\<lambda>v. bindE (uptime_now env p) (\<lambda>up. bindE (uptime_now env c) (\<lambda>uc.
       ret (Some (summary_cells ex
         [percent 1 up @ '' / '' @ percent 1 uc,
          digits (cm_reconnection_count p) @ '' / '' @ digits (cm_reconnection_count c),
          percent 1 (ticker_success_rate_pct p) @ '' / '' @ percent 1 (ticker_success_rate_pct c),
          millis (latency_mean p),
          percent 3 (fill_rate_pct p) @ '' / '' @ percent 3 (fill_rate_pct c),
          if list_all snd v then ''PASS '' @ check_mark else ''FAIL '' @ cross_mark], list_all snd v))))))"

definition overall_summary :: "bool \<Rightarrow> string" where
  "overall_summary ok = ''  Overall: '' @ (if ok then ''ALL EXCHANGES PASS '' @ check_mark
                                           else ''ONE OR MORE EXCHANGES FAILED '' @ cross_mark)"

definition format_summary :: "'w env \<Rightarrow> real \<Rightarrow> (string \<times> metrics \<times> metrics) list \<Rightarrow> (('w, 'z) sys_scheme, string) eff" where
  "format_summary env elapsed comparators =
     bindE (for_collect (summary_row env) comparators) (\<lambda>rows.
       ret (join_lines (
         [newline @ rule_line box_double 90, ''  '' @ align_center 90 ''MULTI-EXCHANGE A/B SUMMARY'',
          ''  '' @ align_center 90 (''duration: '' @ elapsed_human elapsed), rule_line box_double 90,
          summary_cells ''Exchange'' [''Uptime'', ''Reconnects'', ''Ticker OK'', ''C++ mean lat'', ''Fill rate'', ''Verdict''],
          rule_line box_line 88]
         @ map fst rows @
         [rule_line box_line 88,
          ''  '' @ align_center 90 (''(C++ / CCXT for each column '' @ em_dash @ '' lower reconnects and higher values for C++ = better)''),
          [], overall_summary (list_all snd rows), []])))"

section \<open>Layout\<close>

lemma text_width_cells [simp]: "(\<And>x. x \<in> set xs \<Longrightarrow> text_width x = n) \<Longrightarrow> text_width (concat xs) = n * length xs"
  by (induction xs) simp_all

lemma box_line_width [simp]: "text_width box_line = 1"
  by code_simp

lemma two_blanks_width [simp]: "text_width ''  '' = 2"
  by code_simp

lemma format_row_width:
  assumes "text_width label \<le> 32" "text_width a \<le> 16" "text_width b \<le> 16"
  shows "text_width (format_row label a b) = text_width div_line"
proof -
  have "text_width div_line = 2 + 1 * length (replicate 68 box_line)"
    unfolding div_line_def rule_line_def by (subst text_width_append, subst text_width_cells [where n = 1]) simp_all
  moreover have "text_width (format_row label a b) = 2 + 32 + 2 + 16 + 2 + 16"
    using assms by (simp only: format_row_def text_width_append text_width_align two_blanks_width max_def) simp
  ultimately show ?thesis by simp
qed

lemma join_lines_append:
  "xs \<noteq> [] \<Longrightarrow> ys \<noteq> [] \<Longrightarrow> join_lines (xs @ ys) = join_lines xs @ newline @ join_lines ys"
proof (induction xs rule: join_lines.induct)
  case (2 l)
  then show ?case by (cases ys) simp_all
qed simp_all

section \<open>Reports only read\<close>

named_theorems reads_intros \<open>introduction rules: a method returns and changes nothing but the world\<close>

definition reads :: "(('w, 'z) sys_scheme, 'a) eff \<Rightarrow> bool" where
  "reads m \<longleftrightarrow> (\<forall>s. \<exists>x w. m s = (Inr x, s\<lparr>world := w\<rparr>))"

lemma readsE:
  assumes "reads m"
  obtains x w where "m s = (Inr x, s\<lparr>world := w\<rparr>)"
  using assms unfolding reads_def by metis

lemma reads_same: "(\<And>s. \<exists>x. m s = (Inr x, s)) \<Longrightarrow> reads m"
  unfolding reads_def by (metis sys.surjective sys.update_convs(1))

lemma reads_ret [reads_intros]: "reads (ret x)"
  by (rule reads_same) (simp add: ret_def)

lemma reads_gets [reads_intros]: "reads (getsE f)"
  by (rule reads_same) (simp add: getsE_def)

lemma reads_env [reads_intros]: "reads (envE f)"
  by (auto simp: reads_def envE_def split: prod.split)

lemma reads_now [reads_intros]: "reads (now_s env)"
  by (simp add: now_s_def reads_env)

lemma reads_bind [reads_intros]:
  assumes "reads m" "\<And>x. reads (f x)"
  shows "reads (bindE m f)"
  unfolding reads_def
proof
  fix s
  obtain x w where 1: "m s = (Inr x, s\<lparr>world := w\<rparr>)" by (rule readsE [OF assms(1)])
  obtain y w' where 2: "f x (s\<lparr>world := w\<rparr>) = (Inr y, s\<lparr>world := w, world := w'\<rparr>)" by (rule readsE [OF assms(2)])
  show "\<exists>x w. bindE m f s = (Inr x, s\<lparr>world := w\<rparr>)"
    by (intro exI [of _ y] exI [of _ w']) (simp add: bindE_def 1 2)
qed

lemma reads_seq [reads_intros]: "reads m \<Longrightarrow> reads n \<Longrightarrow> reads (seqE m n)"
  by (simp add: seqE_def reads_bind)

lemma reads_if [reads_intros]: "reads m \<Longrightarrow> reads n \<Longrightarrow> reads (if b then m else n)"
  by simp

lemma reads_collect [reads_intros]: "(\<And>x. reads (f x)) \<Longrightarrow> reads (for_collect f xs)"
  by (induction xs) (auto intro!: reads_intros)

lemma reads_uptime [reads_intros]: "reads (uptime_now env m)"
  unfolding uptime_now_def by (intro reads_intros)

lemma reads_verdict [reads_intros]: "reads (verdict_of env c p)"
  unfolding verdict_of_def by (intro reads_intros)

lemma reads_full_report [reads_intros]: "reads (format_full_report env ex symbol elapsed c p)"
  unfolding format_full_report_def health_table_def checkpoint_part_def by (intro reads_intros)

lemma reads_summary [reads_intros]: "reads (format_summary env elapsed comparators)"
  unfolding format_summary_def summary_row_def case_prod_unfold by (intro reads_intros)

lemma reads_generate [reads_intros]: "reads (generate_report env ex symbol)"
  unfolding generate_report_def by (intro reads_intros)

lemma reads_report_loop [reads_intros]: "reads (report_loop n env interval end_time next_report)"
  by (induction n arbitrary: next_report) (auto intro!: reads_intros)

section \<open>What a report says\<close>

text \<open>The last line of a report is about the verdict computed in it; what is before it is of earlier readings.\<close>

lemma report_ends_with_verdict:
  assumes h: "health_table env c p s = (Inr health, s1)" and v: "verdict_of env c p s1 = (Inr v, s2)"
  shows "\<exists>pre s'. format_full_report env ex symbol elapsed c p s =
     (Inr (pre @ overall_line (list_all snd v) @ newline), s')"
proof -
  obtain up w3 where c2: "uptime_now env p s2 = (Inr up, s2\<lparr>world := w3\<rparr>)" by (rule readsE [OF reads_uptime])
  obtain uc w4 where c3: "uptime_now env c (s2\<lparr>world := w3\<rparr>) = (Inr uc, s2\<lparr>world := w3, world := w4\<rparr>)"
    by (rule readsE [OF reads_uptime])
  define front where "front = report_header ex symbol elapsed @ health @ ticker_table c p @ order_table c p @ pnl_table c p @
       section_line ''Step 11 Checkpoint:'' # map (check_line v) (checks_of c p up uc)"
  have "format_full_report env ex symbol elapsed c p s =
     (Inr (join_lines (front @ [overall_line (list_all snd v), []])), s2\<lparr>world := w3, world := w4\<rparr>)"
    by (simp add: format_full_report_def checkpoint_part_def bindE_def ret_def h v c2 c3 front_def)
  also have "join_lines (front @ [overall_line (list_all snd v), []]) =
     (join_lines front @ newline) @ overall_line (list_all snd v) @ newline"
    by (subst join_lines_append) (simp_all add: front_def)
  finally show ?thesis by blast
qed

text \<open>Uptime grows while a run goes on, so of two equal arms the one that is asked first has the smaller.\<close>

lemma uptime_grows:
  assumes "0 < cm_total_downtime_s m" "0 < cm_started_at m" "cm_started_at m + cm_total_downtime_s m < t1" "t1 < t2"
  shows "uptime_pct t1 m < uptime_pct t2 m"
proof -
  let ?d = "cm_total_downtime_s m" and ?s = "cm_started_at m"
  have "?d / (t2 - ?s) < ?d / (t1 - ?s)"
    by (rule divide_strict_left_mono) (use assms in auto)
  moreover have "?d / (t2 - ?s) < 1" using assms by simp
  ultimately have a: "1 - ?d / (t1 - ?s) < 1 - ?d / (t2 - ?s)" "0 < 1 - ?d / (t2 - ?s)"
    by simp_all
  have scale: "x < y \<Longrightarrow> 0 < y \<Longrightarrow> max 0 (x * 100) < max 0 (y * 100)" for x y :: real
    by (simp add: max_def)
  from scale [OF a] have "max 0 ((1 - ?d / (t1 - ?s)) * 100) < max 0 ((1 - ?d / (t2 - ?s)) * 100)" .
  moreover have quot: "(t - ?s - ?d) / (t - ?s) = 1 - ?d / (t - ?s)" if "t \<noteq> ?s" for t
    using that by (simp add: diff_divide_distrib)
  ultimately show ?thesis
    using assms quot [of t1] quot [of t2] by (simp add: uptime_pct_def elapsed_s_def)
qed

lemma equal_outage_verdict:
  assumes same: "cm_started_at p = cm_started_at c" "cm_total_downtime_s p = cm_total_downtime_s c"
    and out: "0 < cm_total_downtime_s c" "0 < cm_started_at c"
    and clock: "\<And>w. fst (read_clock env w) < fst (read_clock env (snd (read_clock env w)))"
    and late: "cm_started_at c + cm_total_downtime_s c < fst (read_clock env (world s))"
  shows "\<exists>v s'. verdict_of env c p s = (Inr v, s') \<and> dict_get v ''cpp_uptime_gte_ccxt'' = Some False"
proof -
  obtain t1 w1 where 1: "read_clock env (world s) = (t1, w1)" by fastforce
  obtain t2 w2 where 2: "read_clock env w1 = (t2, w2)" by fastforce
  have "t1 < t2" using clock [of "world s"] 1 2 by simp
  with same out late 1 have "uptime_pct t1 p < uptime_pct t2 c"
    using uptime_grows [of c t1 t2] by (simp add: uptime_pct_def elapsed_s_def)
  with same out 1 2 show ?thesis
    by (simp add: verdict_of_def uptime_now_def bindE_def now_s_def envE_def ret_def)
qed

text \<open>
  Two arms that lost the same time fail the comparison: the uptime of C++ is read before that of CCXT, so
  it is the smaller one, and the full report ends with the line that a checkpoint failed, however
  equal all counts are.
\<close>

theorem equal_outage_fails_report:
  assumes same: "cm_started_at p = cm_started_at c" "cm_total_downtime_s p = cm_total_downtime_s c"
    and out: "0 < cm_total_downtime_s c" "0 < cm_started_at c"
    and clock: "\<And>w. fst (read_clock env w) < fst (read_clock env (snd (read_clock env w)))"
    and late: "cm_started_at c + cm_total_downtime_s c < fst (read_clock env (world s))"
  shows "\<exists>pre s'. format_full_report env ex symbol elapsed c p s = (Inr (pre @ overall_line False @ newline), s')"
proof -
  have mono: "fst (read_clock env w) < fst (read_clock env (snd (read_clock env (snd (read_clock env w)))))" for w
    using clock [of w] clock [of "snd (read_clock env w)"] by simp
  obtain health where h: "health_table env c p s = (Inr health, s\<lparr>world := snd (read_clock env (snd (read_clock env (world s))))\<rparr>)"
    using same out by (simp add: health_table_def uptime_now_def bindE_def now_s_def envE_def ret_def case_prod_unfold Let_def)
  let ?s1 = "s\<lparr>world := snd (read_clock env (snd (read_clock env (world s))))\<rparr>"
  have "cm_started_at c + cm_total_downtime_s c < fst (read_clock env (world ?s1))"
    using late mono [of "world s"] by simp
  from equal_outage_verdict [OF same out clock this]
  obtain v s2 where v: "verdict_of env c p ?s1 = (Inr v, s2)" "dict_get v ''cpp_uptime_gte_ccxt'' = Some False"
    by blast
  then have "\<not> list_all snd v" by (force simp: list_all_iff dest: map_of_SomeD)
  with report_ends_with_verdict [OF h v(1), of ex symbol elapsed] show ?thesis by simp
qed

lemma equal_outage_fails_report_witness:
  "\<exists>pre s'. format_full_report (sample_env\<lparr>read_clock := \<lambda>w. (real w, Suc w)\<rparr>) ''gate'' ''ALKIMI/USDT'' 60
     ((new_metrics ''CCXT'')\<lparr>cm_started_at := 1, cm_total_downtime_s := 5\<rparr>)
     ((new_metrics ''C++'')\<lparr>cm_started_at := 1, cm_total_downtime_s := 5\<rparr>)
     (\<lparr>world = 60\<rparr> :: nat sys) = (Inr (pre @ overall_line False @ newline), s')"
  by (rule equal_outage_fails_report) (simp_all add: new_metrics_def)

end
