(* ===== verification/AbRun.thy ===== *)
theory AbRun
  imports AbScript AbReport
begin

text \<open>
  The run of \<open>scripts/ab_paper_trade.py\<close>: simulated or real connectors for every exchange, a comparator on each,
  the reports, the summary and the file they are appended to.  The runs of the exchanges do not touch one
  another and are taken in sequence; the price of a simulated market moves with the world while a run sleeps.
\<close>

section \<open>Arguments\<close>

record ab_args =
  aa_mock :: bool
  aa_exchanges :: "string list"
  aa_symbol :: string
  aa_duration :: real
  aa_tick_interval :: real
  aa_report_interval :: real
  aa_output :: "string option"
  aa_seed :: "int option"

definition default_ab_args :: ab_args where
  "default_ab_args =
     \<lparr>aa_mock = False, aa_exchanges = [''kucoin''], aa_symbol = ''ALKIMI/USDT'', aa_duration = 86400,
      aa_tick_interval = 30, aa_report_interval = 300, aa_output = None, aa_seed = None\<rparr>"

section \<open>One exchange\<close>

text \<open>What the script prints, and the files it appends to.\<close>

record 'w script = "'w sys" +
  sc_printed :: "string list"
  sc_files :: "(string \<times> string) list"

record strategy =
  st_spread :: spread_config
  st_depth :: depth_config
  st_vol :: volatility_config

text \<open>\<open>n\<close> bounds the passes of the strategy loop.\<close>

definition run_exchange ::
  "nat \<Rightarrow> 'w env \<Rightarrow> strategy \<Rightarrow> ab_args \<Rightarrow> 'w env \<Rightarrow> 'w env \<Rightarrow> ('w script, 'w ab) eff" where
  "run_exchange n env st args ccxt cpp s =
     (case ab_start n env ccxt cpp (aa_duration args)
             (new_ab (st_spread st) (st_depth st) (st_vol st) (aa_tick_interval args) (world s)) of
        (Inl e, a) \<Rightarrow> (Inl e, s\<lparr>world := world a\<rparr>)
      | (Inr _, a) \<Rightarrow> (Inr a, s\<lparr>world := world a\<rparr>))"

section \<open>Simulated mode\<close>

definition mock_initial_price :: "string \<Rightarrow> real" where
  "mock_initial_price ex =
     (case dict_get [(''kucoin'', 0.10500), (''gate'', 0.10502), (''mexc'', 0.10498), (''kraken'', 0.10501)] ex of
        Some p \<Rightarrow> p | None \<Rightarrow> 0.1050)"

text \<open>The seeds of the price engine, of the ccxt side and of the C++ side, drawn before an exchange first waits.\<close>

record seeds =
  sd_engine :: "int option"
  sd_ccxt :: int
  sd_cpp :: int

fun mock_seeds :: "('g \<Rightarrow> int \<times> 'g) \<Rightarrow> int option \<Rightarrow> string list \<Rightarrow> 'g \<Rightarrow> (string \<times> seeds) list" where
  "mock_seeds randint seed [] g = []"
| "mock_seeds randint seed (ex # exs) g =
     (let (off, g1) = randint g; (a, g2) = randint g1; (b, g3) = randint g2
      in (ex, \<lparr>sd_engine = map_option (\<lambda>k. k + off) seed, sd_ccxt = a, sd_cpp = b\<rparr>) # mock_seeds randint seed exs g3)"

text \<open>\<open>market ex price seeds\<close> are the two connectors on one price engine.\<close>

definition run_one_mock ::
  "nat \<Rightarrow> 'w env \<Rightarrow> strategy \<Rightarrow> ab_args \<Rightarrow> (string \<Rightarrow> real \<Rightarrow> seeds \<Rightarrow> 'w env \<times> 'w env) \<Rightarrow> string \<times> seeds \<Rightarrow>
   ('w script, (string \<times> 'w ab) option) eff"
where
  "run_one_mock n env st args market = (\<lambda>(ex, sds).
     case market ex (mock_initial_price ex) sds of (ccxt, cpp) \<Rightarrow>
       bindE (run_exchange n env st args ccxt cpp) (\<lambda>c. ret (Some (ex, c))))"

section \<open>Real mode\<close>

text \<open>\<open>mk\<close> is \<open>create_connector\<close>: exchange, credentials, quote currency, whether the compiled connector is meant.\<close>

type_synonym 'w maker = "string \<Rightarrow> (string \<times> string) list \<Rightarrow> string \<Rightarrow> bool \<Rightarrow> 'w \<Rightarrow> 'w env result \<times> 'w"

definition run_one_real ::
  "nat \<Rightarrow> 'w env \<Rightarrow> strategy \<Rightarrow> ab_args \<Rightarrow> 'w maker \<Rightarrow> (string \<times> string) list \<Rightarrow> string \<Rightarrow>
   ('w script, (string \<times> 'w ab) option) eff"
where
  "run_one_real n env st args mk vars ex =
     (let creds = (case ab_get_creds vars ex of Some c \<Rightarrow> c | None \<Rightarrow> []) in
      catchE
        (bindE (callE (mk ex creds (ab_quote_currency ex) False)) (\<lambda>ccxt.
         bindE (callE (mk ex creds (ab_quote_currency ex) True)) (\<lambda>cpp.
         bindE (run_exchange n env st args ccxt cpp) (\<lambda>c. ret (Some (ex, c))))))
        (\<lambda>_. ret None))"

text \<open>A key that is already in the dict gets the later value.\<close>

definition dict_of :: "('k \<times> 'v) list \<Rightarrow> ('k \<times> 'v) list" where
  "dict_of ps = fold (\<lambda>(k, v) d. AList.update k v d) ps []"

section \<open>The run\<close>

definition print_text :: "string \<Rightarrow> ('w script, unit) eff" where
  "print_text t = modE (\<lambda>s. s\<lparr>sc_printed := sc_printed s @ [t]\<rparr>)"

definition append_to_file :: "string \<Rightarrow> string \<Rightarrow> ('w script, unit) eff" where
  "append_to_file path content = modE (\<lambda>s. s\<lparr>sc_files := AList.update path
     ((case dict_get (sc_files s) path of Some old \<Rightarrow> old | None \<Rightarrow> []) @ content) (sc_files s)\<rparr>)"

text \<open>\<open>results[exch].generate_report()\<close>, printed and kept\<close>

definition one_report :: "'w env \<Rightarrow> string \<Rightarrow> (string \<times> 'w ab) list \<Rightarrow> string \<Rightarrow> ('w script, string option) eff" where
  "one_report env symbol results ex =
     (case dict_get results ex of
        None \<Rightarrow> raiseE (KeyError ex)
      | Some a \<Rightarrow> bindE (now_s env) (\<lambda>now.
          bindE (format_full_report env ex symbol (now - ab_started_at a) (ab_ccxt_metrics a) (ab_cpp_metrics a)) (\<lambda>t.
            seqE (print_text t) (ret (Some t)))))"

definition ab_results ::
  "nat \<Rightarrow> 'w env \<Rightarrow> strategy \<Rightarrow> ab_args \<Rightarrow> (string \<Rightarrow> real \<Rightarrow> seeds \<Rightarrow> 'w env \<times> 'w env) \<Rightarrow> ('g \<Rightarrow> int \<times> 'g) \<Rightarrow> 'g \<Rightarrow>
   'w maker \<Rightarrow> (string \<times> string) list \<Rightarrow> ('w script, (string \<times> 'w ab) list) eff"
where
  "ab_results n env st args market randint rng mk vars =
     (if aa_mock args
      then bindE (for_collect (run_one_mock n env st args market) (mock_seeds randint (aa_seed args) (aa_exchanges args) rng))
             (\<lambda>rs. ret (dict_of rs))
      else if list_ex (\<lambda>ex. ab_get_creds vars ex = None) (aa_exchanges args) then raiseE (OtherError ''SystemExit'')
      else bindE (for_collect (run_one_real n env st args mk vars) (aa_exchanges args)) (\<lambda>rs. ret (dict_of rs)))"

definition ab_output :: "'w env \<Rightarrow> ab_args \<Rightarrow> real \<Rightarrow> (string \<times> 'w ab) list \<Rightarrow> ('w script, unit) eff" where
  "ab_output env args elapsed results =
     bindE (for_collect (one_report env (aa_symbol args) results) (aa_exchanges args)) (\<lambda>full.
     bindE (if length (aa_exchanges args) > 1
            then bindE (format_summary env elapsed (map (\<lambda>(ex, a). (ex, ab_ccxt_metrics a, ab_cpp_metrics a)) results)) (\<lambda>t.
              seqE (print_text t) (ret (full @ [t])))
            else ret full) (\<lambda>full.
       case aa_output args of None \<Rightarrow> ret ()
       | Some path \<Rightarrow> if path = [] then ret () else append_to_file path (join_lines full)))"

definition ab_main ::
  "nat \<Rightarrow> 'w env \<Rightarrow> strategy \<Rightarrow> ab_args \<Rightarrow> (string \<Rightarrow> real \<Rightarrow> seeds \<Rightarrow> 'w env \<times> 'w env) \<Rightarrow> ('g \<Rightarrow> int \<times> 'g) \<Rightarrow> 'g \<Rightarrow>
   'w maker \<Rightarrow> (string \<times> string) list \<Rightarrow> ('w script, unit) eff"
where
  "ab_main n env st args market randint rng mk vars =
     bindE (now_s env) (\<lambda>started.
     bindE (ab_results n env st args market randint rng mk vars) (\<lambda>results.
     bindE (now_s env) (\<lambda>ended. ab_output env args (ended - started) results)))"

section \<open>Behaviour\<close>

lemma dict_of_keys: "dict_get (dict_of ps) k \<noteq> None \<longleftrightarrow> k \<in> fst ` set ps"
proof -
  have "dict_get (fold (\<lambda>(k, v) d. AList.update k v d) ps d) k \<noteq> None \<longleftrightarrow> k \<in> fst ` set ps \<or> dict_get d k \<noteq> None" for d
    by (induction ps arbitrary: d) (auto simp: update_conv' split: if_splits)
  then show ?thesis by (simp add: dict_of_def)
qed

text \<open>With a seed every simulated market has one, whatever is drawn.\<close>

lemma mock_seeds_exchanges:
  "map fst (mock_seeds randint seed exs g) = exs"
  "x \<in> set (mock_seeds randint (Some k) exs g) \<Longrightarrow> sd_engine (snd x) \<noteq> None"
  by (induction randint seed exs g rule: mock_seeds.induct) (auto split: prod.splits)

text \<open>Only the output of a run writes a file.\<close>

lemma keeps_files_world: "keeps (\<lambda>s. sc_files s = F) (callE f)" "keeps (\<lambda>s. sc_files s = F) (now_s env)"
  by (auto simp: keeps_def callE_def now_s_def envE_def split: prod.split)

lemma keeps_files_run [keeps_intros]: "keeps (\<lambda>s. sc_files s = F) (run_exchange n env st args ccxt cpp)"
  by (auto simp: keeps_def run_exchange_def split: prod.split sum.split)

lemma keeps_files_print [keeps_intros]: "keeps (\<lambda>s. sc_files s = F) (print_text t)"
  unfolding print_text_def by (rule keeps_mod) simp

lemma keeps_files_results: "keeps (\<lambda>s. sc_files s = F) (ab_results n env st args market randint rng mk vars)"
  unfolding ab_results_def run_one_mock_def run_one_real_def Let_def case_prod_unfold
  by (intro keeps_intros keeps_files_world)

lemma reads_keep: "reads m \<Longrightarrow> keeps (\<lambda>s. sc_files s = F) m"
  unfolding keeps_def by (metis (no_types, lifting) readsE script.select_convs(2) script.surjective script.update_convs(1) snd_conv sys.update_convs(1))

lemma keeps_files_report: "keeps (\<lambda>s. sc_files s = F) (one_report env symbol results ex)"
  unfolding one_report_def by (intro keeps_intros keeps_files_world reads_keep [OF reads_full_report])

lemma for_collect_each:
  "for_collect f xs s = (Inr ys, s') \<Longrightarrow> x \<in> set xs \<Longrightarrow> \<exists>s1 r s2. f x s1 = (Inr r, s2)"
  by (induction xs arbitrary: s ys) (auto simp: bindE_eq_Inr ret_def)

lemma for_collect_has:
  "for_collect f xs s = (Inr ys, s') \<Longrightarrow> y \<in> set ys \<Longrightarrow> \<exists>x \<in> set xs. \<exists>s1 s2. f x s1 = (Inr (Some y), s2)"
  by (induction xs arbitrary: s ys) (fastforce simp: bindE_eq_Inr ret_def split: option.splits)+

lemma missing_result_raises:
  assumes "ex \<in> set (aa_exchanges args)" "dict_get results ex = None"
  shows "isl (fst (ab_output env args elapsed results s)) \<and> sc_files (snd (ab_output env args elapsed results s)) = sc_files s"
proof -
  let ?loop = "for_collect (one_report env (aa_symbol args) results) (aa_exchanges args)"
  obtain r s' where run: "?loop s = (r, s')" by fastforce
  have "\<not> (\<exists>ys. r = Inr ys)"
    using for_collect_each [of "one_report env (aa_symbol args) results" "aa_exchanges args" s _ s' ex] run assms
    by (auto simp: one_report_def raiseE_def)
  then obtain e where "r = Inl e" by (cases r) auto
  moreover have "keeps (\<lambda>t. sc_files t = sc_files s) ?loop"
    by (intro keeps_for_collect keeps_files_report)
  then have "sc_files s' = sc_files s" using run by (auto dest: keepsE)
  ultimately show ?thesis using run by (simp add: ab_output_def bindE_def)
qed

text \<open>
  One exchange that cannot be reached costs the reports of all of them: in real mode the run skips it, the
  loop over the reports then raises on its missing result, and nothing is written to the output file.
\<close>

theorem one_skipped_exchange_loses_all_reports:
  assumes real_mode: "\<not> aa_mock args" and ex: "ex \<in> set (aa_exchanges args)"
    and dead: "\<And>creds quote cpp w. isl (fst (mk ex creds quote cpp w))"
  shows "case ab_main n env st args market randint rng mk vars s of (r, s') \<Rightarrow> isl r \<and> sc_files s' = sc_files s"
proof -
  let ?P = "\<lambda>t. sc_files t = sc_files s"
  obtain t0 s0 where 0: "now_s env s = (Inr t0, s0)" "?P s0"
    by (rule readsE [OF reads_now, of env s]) simp
  obtain r s1 where 1: "ab_results n env st args market randint rng mk vars s0 = (r, s1)" by fastforce
  from keepsE [OF keeps_files_results 1 0(2)] have P1: "?P s1" .
  show ?thesis
  proof (cases r)
    case (Inl e)
    with 0 1 P1 show ?thesis by (simp add: ab_main_def bindE_def)
  next
    case (Inr results)
    have gone: "run_one_real n env st args mk vars ex s2 = (Inr (Some p), s3) \<Longrightarrow> False" for s2 p s3
      using dead [of "case ab_get_creds vars ex of Some c \<Rightarrow> c | None \<Rightarrow> []" "ab_quote_currency ex" False "world s2"]
      by (auto simp: run_one_real_def Let_def catchE_def bindE_def callE_def ret_def split: sum.splits prod.splits)
    obtain rs s2 where rs: "for_collect (run_one_real n env st args mk vars) (aa_exchanges args) s0 = (Inr rs, s2)"
      "results = dict_of rs"
      using 1 real_mode Inr
      by (auto simp: ab_results_def bindE_eq_Inr raiseE_def ret_def split: if_splits)
    have "ex \<notin> fst ` set rs"
    proof
      assume "ex \<in> fst ` set rs"
      then obtain a where "(ex, a) \<in> set rs" by auto
      with for_collect_has [OF rs(1)] obtain x s3 s4 where
        x: "run_one_real n env st args mk vars x s3 = (Inr (Some (ex, a)), s4)" by blast
      then have "x = ex"
        by (auto simp: run_one_real_def Let_def catchE_def bindE_eq_Inr ret_def split: sum.splits prod.splits)
      with x gone show False by blast
    qed
    then have none: "dict_get results ex = None" using dict_of_keys [of rs ex] rs(2) by auto
    obtain t1 s3 where 3: "now_s env s1 = (Inr t1, s3)" "?P s3"
      by (rule readsE [OF reads_now, of env s1]) (simp add: P1)
    from missing_result_raises [OF ex none, of env "t1 - t0" s3] 0 1 Inr 3 show ?thesis
      by (simp add: ab_main_def bindE_def case_prod_unfold)
  qed
qed

lemma one_report_prints:
  assumes "dict_get results ex \<noteq> None"
  shows "\<exists>t w. one_report env symbol results ex s = (Inr (Some t), s\<lparr>world := w, sc_printed := sc_printed s @ [t]\<rparr>)"
proof -
  obtain a where a: "dict_get results ex = Some a" using assms by blast
  obtain now w1 where 1: "now_s env s = (Inr now, s\<lparr>world := w1\<rparr>)" by (rule readsE [OF reads_now])
  obtain t w2 where 2: "format_full_report env ex symbol (now - ab_started_at a) (ab_ccxt_metrics a) (ab_cpp_metrics a)
      (s\<lparr>world := w1\<rparr>) = (Inr t, s\<lparr>world := w1, world := w2\<rparr>)"
    by (rule readsE [OF reads_full_report])
  show ?thesis
    by (intro exI [of _ t] exI [of _ w2]) (simp add: one_report_def a bindE_def 1 2 seqE_def print_text_def modE_def ret_def)
qed

lemma reports_print:
  assumes "\<And>ex. ex \<in> set exs \<Longrightarrow> dict_get results ex \<noteq> None"
  shows "\<exists>full w. for_collect (one_report env symbol results) exs s =
     (Inr full, s\<lparr>world := w, sc_printed := sc_printed s @ full\<rparr>) \<and> length full = length exs"
  using assms
proof (induction exs arbitrary: s)
  case Nil
  show ?case by (intro exI [of _ "[]"] exI [of _ "world s"]) (simp add: ret_def)
next
  case (Cons ex exs)
  obtain t w where 1: "one_report env symbol results ex s = (Inr (Some t), s\<lparr>world := w, sc_printed := sc_printed s @ [t]\<rparr>)"
    using one_report_prints [of results ex] Cons.prems by (metis list.set_intros(1))
  obtain full w' where "for_collect (one_report env symbol results) exs (s\<lparr>world := w, sc_printed := sc_printed s @ [t]\<rparr>) =
     (Inr full, s\<lparr>world := w, sc_printed := sc_printed s @ [t], world := w', sc_printed := (sc_printed s @ [t]) @ full\<rparr>)"
     "length full = length exs"
    using Cons.IH [of "s\<lparr>world := w, sc_printed := sc_printed s @ [t]\<rparr>"] Cons.prems by auto
  with 1 show ?case
    by (intro exI [of _ "t # full"] exI [of _ w']) (simp add: bindE_def ret_def)
qed

text \<open>Whenever every exchange has its result, all reports are printed and appended to the output file.\<close>

theorem complete_results_are_written:
  assumes "\<And>ex. ex \<in> set (aa_exchanges args) \<Longrightarrow> dict_get results ex \<noteq> None"
  shows "\<exists>full s'. ab_output env args elapsed results s = (Inr (), s') \<and>
     length full = length (aa_exchanges args) + (if length (aa_exchanges args) > 1 then 1 else 0) \<and>
     sc_printed s' = sc_printed s @ full \<and>
     sc_files s' = (case aa_output args of None \<Rightarrow> sc_files s | Some path \<Rightarrow> if path = [] then sc_files s else
        AList.update path ((case dict_get (sc_files s) path of Some old \<Rightarrow> old | None \<Rightarrow> []) @ join_lines full) (sc_files s))"
proof -
  let ?comps = "map (\<lambda>(ex, a). (ex, ab_ccxt_metrics a, ab_cpp_metrics a)) results"
  obtain full w where 1: "for_collect (one_report env (aa_symbol args) results) (aa_exchanges args) s =
     (Inr full, s\<lparr>world := w, sc_printed := sc_printed s @ full\<rparr>)" and n: "length full = length (aa_exchanges args)"
    using reports_print [OF assms, where s = s and env = env and symbol = "aa_symbol args"] by blast
  let ?s1 = "s\<lparr>world := w, sc_printed := sc_printed s @ full\<rparr>"
  obtain t w' where 2: "format_summary env elapsed ?comps ?s1 = (Inr t, ?s1\<lparr>world := w'\<rparr>)"
    by (rule readsE [OF reads_summary])
  show ?thesis
  proof (cases "length (aa_exchanges args) > 1")
    case True
    with 1 2 n show ?thesis
      by (intro exI [of _ "full @ [t]"])
        (simp add: ab_output_def bindE_def seqE_def print_text_def append_to_file_def modE_def ret_def split: option.split)
  next
    case False
    with 1 n show ?thesis
      by (intro exI [of _ full]) (simp add: ab_output_def bindE_def append_to_file_def modE_def ret_def split: option.split)
  qed
qed

section \<open>Instances\<close>

definition sample_strategy :: strategy where
  "sample_strategy = \<lparr>st_spread = sample_spread, st_depth = sample_depth, st_vol = sample_volatility\<rparr>"

lemma one_skipped_exchange_loses_all_reports_witness:
  "case ab_main 3 sample_env sample_strategy (default_ab_args\<lparr>aa_exchanges := [''gate'', ''mexc''], aa_output := Some ''out.md''\<rparr>)
      (\<lambda>ex p sds. (sample_env, sample_env)) (\<lambda>g. (0, g)) (0 :: nat)
      (\<lambda>ex creds quote cpp w. if ex = ''gate'' then (Inl NetworkError, w) else (Inr sample_env, w))
      [(''GATE_API_KEY'', ''k''), (''GATE_API_SECRET'', ''s''), (''MEXC_API_KEY'', ''k''), (''MEXC_API_SECRET'', ''s'')]
      \<lparr>world = 0, sc_printed = [], sc_files = [(''out.md'', ''earlier'')]\<rparr> of (r, s') \<Rightarrow>
     isl r \<and> sc_files s' = [(''out.md'', ''earlier'')]"
  using one_skipped_exchange_loses_all_reports [where
      args = "default_ab_args\<lparr>aa_exchanges := [''gate'', ''mexc''], aa_output := Some ''out.md''\<rparr>" and ex = "''gate''" and
      mk = "\<lambda>ex creds quote cpp w. if ex = ''gate'' then (Inl NetworkError, w) else (Inr sample_env, w)" and
      n = 3 and env = sample_env and st = sample_strategy and market = "\<lambda>ex p sds. (sample_env, sample_env)" and
      randint = "\<lambda>g. (0, g)" and rng = "0 :: nat" and
      vars = "[(''GATE_API_KEY'', ''k''), (''GATE_API_SECRET'', ''s''), (''MEXC_API_KEY'', ''k''), (''MEXC_API_SECRET'', ''s'')]" and
      s = "\<lparr>world = 0, sc_printed = [], sc_files = [(''out.md'', ''earlier'')]\<rparr>"]
  by (simp add: default_ab_args_def)

end
