(* ===== verification/Benchmark.thy ===== *)
theory Benchmark
  imports Factory Volatility
begin

text \<open>
  \<open>scripts/latency_benchmark.py\<close>: timing the ticker and the create-and-cancel round trip of the two
  kinds of connectors, simulated or real.  The report is in \<open>BenchReport\<close>; \<open>perf_counter\<close> is the
  monotonic clock.
\<close>

section \<open>Statistics\<close>

text \<open>The percentile by linear interpolation.\<close>

definition pct :: "real list \<Rightarrow> real \<Rightarrow> real" where
  "pct data p =
     (if data = [] then 0
      else (let xs = sort data; k = (real (length xs) - 1) * p / 100; lo = nat (py_int k); hi = nat (py_int k) + 1
            in if length xs \<le> hi then last xs else xs ! lo + (k - real lo) * (xs ! hi - xs ! lo)))"

record bench =
  be_connector :: string
  be_operation :: string
  be_n_calls :: nat
  be_latencies_ms :: "real list"

definition be_mean :: "bench \<Rightarrow> real" where
  "be_mean b = (if be_latencies_ms b = [] then 0 else mean (be_latencies_ms b))"

definition be_minimum :: "bench \<Rightarrow> real" where
  "be_minimum b = (if be_latencies_ms b = [] then 0 else Min (set (be_latencies_ms b)))"

definition be_maximum :: "bench \<Rightarrow> real" where
  "be_maximum b = (if be_latencies_ms b = [] then 0 else Max (set (be_latencies_ms b)))"

text \<open>\<open>statistics.median\<close> and \<open>statistics.stdev\<close>, the sample deviation\<close>

definition be_median :: "bench \<Rightarrow> real" where
  "be_median b =
     (let xs = sort (be_latencies_ms b); n = length xs
      in if xs = [] then 0 else if odd n then xs ! (n div 2) else (xs ! (n div 2 - 1) + xs ! (n div 2)) / 2)"

definition be_p95 :: "bench \<Rightarrow> real" where "be_p95 b = pct (be_latencies_ms b) 95"

definition be_p99 :: "bench \<Rightarrow> real" where "be_p99 b = pct (be_latencies_ms b) 99"

definition be_stdev :: "bench \<Rightarrow> real" where
  "be_stdev b =
     (let xs = be_latencies_ms b
      in if 1 < length xs then sqrt (sum_list (map (\<lambda>x. (x - mean xs)\<^sup>2) xs) / (real (length xs) - 1)) else 0)"

section \<open>Simulated connectors\<close>

text \<open>\<open>random.gauss\<close> is a parameter; a call sleeps for a normally distributed time with a floor.\<close>

definition mock_sleep :: "'w env \<Rightarrow> (real \<Rightarrow> real \<Rightarrow> 'w \<Rightarrow> real \<times> 'w) \<Rightarrow> real \<Rightarrow> real \<Rightarrow> real \<Rightarrow> 'w \<Rightarrow> 'w" where
  "mock_sleep env gauss least average sd w = (let (g, w1) = gauss average sd w in do_sleep env (max least g) w1)"

definition mock_ticker :: "'w env \<Rightarrow> (real \<Rightarrow> real \<Rightarrow> 'w \<Rightarrow> real \<times> 'w) \<Rightarrow> real \<Rightarrow> 'w \<Rightarrow> ticker result \<times> 'w" where
  "mock_ticker env gauss sd w =
     (let (g, w1) = gauss 0 sd w; mid = 0.105 + g; (t, w2) = read_clock env w1
      in (Inr \<lparr>tk_bid = mid * 0.999, tk_ask = mid * 1.001, tk_mid = mid, tk_last = mid, tk_timestamp = t\<rparr>, w2))"

definition mock_order :: "'w env \<Rightarrow> string \<Rightarrow> string \<Rightarrow> real \<Rightarrow> real \<Rightarrow> 'w \<Rightarrow> order result \<times> 'w" where
  "mock_order env tag side price amount w =
     (let (t, w1) = read_clock env w; (t', w2) = read_clock env w1
      in (Inr \<lparr>ord_id = tag @ ''-'' @ str_int (py_int (t * 1000)), ord_exchange = ''mock'', ord_symbol = ''ALKIMI/USDT'',
               ord_side = side, ord_price = price, ord_amount = amount, ord_amount_usd = price * amount,
               ord_status = ''open'', ord_timestamp = t', ord_filled_amount = 0, ord_filled_price = 0, ord_fee = 0,
               ord_fee_currency = []\<rparr>, w2))"

definition mock_ccxt :: "'w env \<Rightarrow> (real \<Rightarrow> real \<Rightarrow> 'w \<Rightarrow> real \<times> 'w) \<Rightarrow> 'w env" where
  "mock_ccxt env gauss = env
     \<lparr>cn_connect := (\<lambda>w. (Inr (), do_sleep env 0.22 w)),
      cn_disconnect := (\<lambda>w. (Inr (), w)),
      fetch_ticker := (\<lambda>w. mock_ticker env gauss 0.00012 (mock_sleep env gauss 0.05 0.8 0.19 w)),
      create_limit_order := (\<lambda>side price amount w. mock_order env ''ccxt'' side price amount (mock_sleep env gauss 0.1 0.9 0.22 w)),
      cancel_order := (\<lambda>oid w. (Inr (), mock_sleep env gauss 0.05 0.7 0.175 w))\<rparr>"

definition mock_cpp :: "'w env \<Rightarrow> (real \<Rightarrow> real \<Rightarrow> 'w \<Rightarrow> real \<times> 'w) \<Rightarrow> 'w env" where
  "mock_cpp env gauss = env
     \<lparr>cn_connect := (\<lambda>w. (Inr (), do_sleep env 0.55 w)),
      cn_disconnect := (\<lambda>w. (Inr (), w)),
      fetch_ticker := (\<lambda>w. mock_ticker env gauss 0.00006 (mock_sleep env gauss 0.0004 0.0015 0.0004 w)),
      create_limit_order := (\<lambda>side price amount w. mock_order env ''cpp'' side price amount (mock_sleep env gauss 0.01 0.065 0.016 w)),
      cancel_order := (\<lambda>oid w. (Inr (), mock_sleep env gauss 0.008 0.05 0.012 w))\<rparr>"

section \<open>Runs\<close>

definition timed :: "'w env \<Rightarrow> (('w, 'z) sys_scheme, 'a) eff \<Rightarrow> (('w, 'z) sys_scheme, 'a \<times> real) eff" where
  "timed env m =
     bindE (envE (read_monotonic env)) (\<lambda>t0. bindE m (\<lambda>r. bindE (envE (read_monotonic env)) (\<lambda>t1. ret (r, (t1 - t0) * 1000))))"

text \<open>\<open>for i in range(n)\<close>, collecting what each pass measures\<close>

fun repeated :: "nat \<Rightarrow> ('s, 'a) eff \<Rightarrow> ('s, 'a list) eff" where
  "repeated 0 m = ret []"
| "repeated (Suc n) m = bindE m (\<lambda>x. bindE (repeated n m) (\<lambda>xs. ret (x # xs)))"

definition run_ticker_benchmark :: "'w env \<Rightarrow> 'w env \<Rightarrow> string \<Rightarrow> nat \<Rightarrow> (('w, 'z) sys_scheme, bench) eff" where
  "run_ticker_benchmark env conn label n =
     bindE (repeated n (timed env (callE (fetch_ticker conn)))) (\<lambda>xs.
       ret \<lparr>be_connector = label, be_operation = ''fetch_ticker'', be_n_calls = n, be_latencies_ms = map snd xs\<rparr>)"

definition order_pair :: "'w env \<Rightarrow> real \<Rightarrow> (('w, 'z) sys_scheme, unit) eff" where
  "order_pair conn far_price =
     bindE (callE (create_limit_order conn ''buy'' far_price 100)) (\<lambda>o'. callE (cancel_order conn (ord_id o')))"

definition run_order_benchmark :: "'w env \<Rightarrow> 'w env \<Rightarrow> string \<Rightarrow> nat \<Rightarrow> real \<Rightarrow> (('w, 'z) sys_scheme, bench) eff" where
  "run_order_benchmark env conn label n market_price =
     bindE (repeated n (timed env (order_pair conn (market_price * 0.5)))) (\<lambda>xs.
       ret \<lparr>be_connector = label, be_operation = ''order_roundtrip'', be_n_calls = n, be_latencies_ms = map snd xs\<rparr>)"

text \<open>\<open>asyncio.gather(m, n)\<close>: both run, and an error of either is raised.\<close>

definition gather2 :: "('s, unit) eff \<Rightarrow> ('s, unit) eff \<Rightarrow> ('s, unit) eff" where
  "gather2 m n s =
     (case m s of (r1, s1) \<Rightarrow> case n s1 of (r2, s2) \<Rightarrow> (case r1 of Inl e \<Rightarrow> (Inl e, s2) | Inr _ \<Rightarrow> (r2, s2)))"

record bench_args =
  ba_mock :: bool
  ba_skip_orders :: bool
  ba_force_orders :: bool
  ba_ticker_n :: nat
  ba_order_n :: nat

text \<open>\<open>os.environ.get("LIVE_MODE", "").lower() == "true"\<close>\<close>

definition live_mode_set :: "(string \<times> string) list \<Rightarrow> bool" where
  "live_mode_set vars = (map lower_char (case dict_get vars ''LIVE_MODE'' of Some v \<Rightarrow> v | None \<Rightarrow> '''') = ''true'')"

definition runs_orders :: "bench_args \<Rightarrow> (string \<times> string) list \<Rightarrow> bool" where
  "runs_orders a vars =
     (if ba_skip_orders a then False
      else if \<not> ba_mock a \<and> live_mode_set vars \<and> \<not> ba_force_orders a then False
      else True)"

text \<open>The measurements of the two connectors, once they are built.\<close>

definition run_benchmark ::
  "'w env \<Rightarrow> 'w env \<Rightarrow> 'w env \<Rightarrow> bench_args \<Rightarrow> (string \<times> string) list \<Rightarrow>
   (('w, 'z) sys_scheme, bench \<times> bench \<times> (bench \<times> bench) option) eff"
where
  "run_benchmark env ccxt cpp a vars =
     seqE (gather2 (callE (cn_connect ccxt)) (callE (cn_connect cpp)))
     (seqE (if ba_mock a then ret () else modE (\<lambda>s. s\<lparr>world := do_sleep env 3 (world s)\<rparr>))
     (bindE (run_ticker_benchmark env ccxt ''CCXT'' (ba_ticker_n a)) (\<lambda>t1.
      bindE (run_ticker_benchmark env cpp ''C++'' (ba_ticker_n a)) (\<lambda>t2.
      bindE (if runs_orders a vars
             then bindE (callE (fetch_ticker ccxt)) (\<lambda>ref.
                  bindE (run_order_benchmark env ccxt ''CCXT'' (ba_order_n a) (tk_mid ref)) (\<lambda>o1.
                  bindE (run_order_benchmark env cpp ''C++'' (ba_order_n a) (tk_mid ref)) (\<lambda>o2. ret (Some (o1, o2)))))
             else ret None) (\<lambda>os.
      seqE (catchE (callE (cn_disconnect ccxt)) (\<lambda>_. ret ()))
      (seqE (catchE (callE (cn_disconnect cpp)) (\<lambda>_. ret ()))
        (ret (t1, t2, os))))))))"

text \<open>\<open>_get_creds\<close>: the variables of an exchange, none of which may be missing or empty\<close>

definition bench_cred_keys :: "(string \<times> (string \<times> string) list) list" where
  "bench_cred_keys =
     [(''kucoin'', [(''api_key'', ''KUCOIN_API_KEY''), (''api_secret'', ''KUCOIN_API_SECRET''), (''passphrase'', ''KUCOIN_PASSPHRASE'')]),
      (''gate'', [(''api_key'', ''GATE_API_KEY''), (''api_secret'', ''GATE_API_SECRET'')]),
      (''mexc'', [(''api_key'', ''MEXC_API_KEY''), (''api_secret'', ''MEXC_API_SECRET'')]),
      (''kraken'', [(''api_key'', ''KRAKEN_API_KEY''), (''api_secret'', ''KRAKEN_API_SECRET'')])]"

definition bench_creds :: "(string \<times> string) list \<Rightarrow> string \<Rightarrow> (string \<times> string) list result" where
  "bench_creds vars ex =
     (case dict_get bench_cred_keys ex of
        None \<Rightarrow> Inl (ValueError ''Unknown exchange'')
      | Some ks \<Rightarrow>
          (let creds = map (\<lambda>(k, v). (k, case dict_get vars v of Some x \<Rightarrow> x | None \<Rightarrow> '''')) ks
           in if list_ex (\<lambda>(k, v). v = '''') creds then Inl (RuntimeError ''Missing credentials'') else Inr creds))"

text \<open>\<open>format_target_checks\<close>: which targets are met\<close>

definition target_checks :: "bench \<Rightarrow> bench option \<Rightarrow> (string \<times> bool) list" where
  "target_checks ticker_cpp order_cpp =
     [(''C++ fetch_ticker mean'', be_mean ticker_cpp \<le> 3), (''C++ fetch_ticker p99'', be_p99 ticker_cpp \<le> 5)]
     @ (case order_cpp of
          None \<Rightarrow> []
        | Some b \<Rightarrow> [(''C++ order roundtrip p50'', be_median b \<le> 150), (''C++ order roundtrip p99'', be_p99 b \<le> 300)])"

section \<open>Percentiles\<close>

text \<open>A percentile lies between the extremes.\<close>

lemma pct_bounds:
  assumes "data \<noteq> []" and "0 \<le> p" and "p \<le> 100"
  shows "Min (set data) \<le> pct data p \<and> pct data p \<le> Max (set data)"
proof -
  define xs where "xs = sort data"
  define k where "k = (real (length xs) - 1) * p / 100"
  have ne: "xs \<noteq> []" and set: "set xs = set data" using assms(1) by (auto simp: xs_def dest: arg_cong [where f = length])
  have mem: "Min (set data) \<le> xs ! i \<and> xs ! i \<le> Max (set data)" if "i < length xs" for i
    using nth_mem [OF that] set by simp
  have k: "0 \<le> k" using ne assms(2) by (cases xs) (simp_all add: k_def)
  show ?thesis
  proof (cases "length xs \<le> nat (py_int k) + 1")
    case True
    then have "pct data p = last xs" using assms(1) by (simp add: pct_def xs_def k_def Let_def)
    then show ?thesis using mem [of "length xs - 1"] ne by (simp add: last_conv_nth)
  next
    case False
    define lo where "lo = nat (py_int k)"
    have lo: "lo < length xs" "Suc lo < length xs" using False by (simp_all add: lo_def)
    have eq: "pct data p = xs ! lo + (k - real lo) * (xs ! Suc lo - xs ! lo)"
      using False assms(1) by (simp add: pct_def xs_def [symmetric] k_def [symmetric] lo_def Let_def)
    have t: "0 \<le> k - real lo" "k - real lo \<le> 1" using k by (simp_all add: lo_def py_int_def) linarith+
    have "xs ! lo \<le> xs ! Suc lo" using lo by (simp add: xs_def sorted_nth_mono)
    then have "xs ! lo \<le> pct data p" "pct data p \<le> xs ! Suc lo"
      using t mult_left_le_one_le [of "xs ! Suc lo - xs ! lo" "k - real lo"] by (simp_all add: eq)
    with mem [OF lo(1)] mem [OF lo(2)] show ?thesis by linarith
  qed
qed

section \<open>When it trades\<close>

text \<open>A connector together with a count of the orders it was asked to place.\<close>

definition alongside :: "('w \<Rightarrow> 'a \<times> 'w) \<Rightarrow> nat \<times> 'w \<Rightarrow> 'a \<times> nat \<times> 'w" where
  "alongside f = (\<lambda>(n, w). let (r, w') = f w in (r, n, w'))"

definition counting :: "'w env \<Rightarrow> (nat \<times> 'w) env" where
  "counting e =
     \<lparr>is_connected = (\<lambda>(n, w). is_connected e w), cn_connect = alongside (cn_connect e),
      cn_disconnect = alongside (cn_disconnect e), cn_reconnect = alongside (cn_reconnect e),
      fetch_ticker = alongside (fetch_ticker e), fetch_candles = (\<lambda>tf n. alongside (fetch_candles e tf n)),
      fetch_balance = alongside (fetch_balance e),
      create_limit_order = (\<lambda>side price amount (n, w). alongside (create_limit_order e side price amount) (Suc n, w)),
      cancel_order = (\<lambda>oid. alongside (cancel_order e oid)), cancel_all_orders = alongside (cancel_all_orders e),
      fetch_open_orders = alongside (fetch_open_orders e), fetch_fills = (\<lambda>t. alongside (fetch_fills e t)),
      read_clock = alongside (read_clock e), read_monotonic = alongside (read_monotonic e),
      do_sleep = (\<lambda>t (n, w). (n, do_sleep e t w)), uuid_hex8 = alongside (uuid_hex8 e), db_fault = alongside (db_fault e)\<rparr>"

text \<open>A method that places exactly \<open>k\<close> orders if it returns, and at most \<open>k\<close> if it raises.\<close>

definition creates :: "nat \<Rightarrow> ((nat \<times> 'w, 'z) sys_scheme, 'a) eff \<Rightarrow> bool" where
  "creates k m \<longleftrightarrow> (\<forall>s. case m s of (r, s') \<Rightarrow>
     fst (world s) \<le> fst (world s') \<and> fst (world s') \<le> fst (world s) + k \<and> (\<not> isl r \<longrightarrow> fst (world s') = fst (world s) + k))"

lemma createsI:
  "(\<And>s r s'. m s = (r, s') \<Longrightarrow> fst (world s) \<le> fst (world s') \<and> fst (world s') \<le> fst (world s) + k \<and> (\<not> isl r \<longrightarrow> fst (world s') = fst (world s) + k)) \<Longrightarrow> creates k m"
  unfolding creates_def by (auto split: prod.split)

lemma createsD:
  "creates k m \<Longrightarrow> m s = (r, s') \<Longrightarrow> fst (world s) \<le> fst (world s') \<and> fst (world s') \<le> fst (world s) + k \<and> (\<not> isl r \<longrightarrow> fst (world s') = fst (world s) + k)"
  unfolding creates_def by (drule spec [of _ s]) simp

lemma creates_ret: "creates 0 (ret x)"
  by (simp add: creates_def ret_def)

lemma creates_bind: "creates j m \<Longrightarrow> (\<And>x. creates k (f x)) \<Longrightarrow> creates (j + k) (bindE m f)"
proof (rule createsI)
  fix s r s'
  assume m: "creates j m" and f: "\<And>x. creates k (f x)" and run: "bindE m f s = (r, s')"
  obtain r1 s1 where 1: "m s = (r1, s1)" by fastforce
  note m1 = createsD [OF m 1]
  show "fst (world s) \<le> fst (world s') \<and> fst (world s') \<le> fst (world s) + (j + k) \<and> (\<not> isl r \<longrightarrow> fst (world s') = fst (world s) + (j + k))"
  proof (cases r1)
    case (Inl e)
    with run 1 m1 show ?thesis by (auto simp: bindE_def)
  next
    case (Inr x)
    with run 1 have "f x s1 = (r, s')" by (simp add: bindE_def)
    from createsD [OF f this] m1 Inr show ?thesis by auto
  qed
qed

lemma creates_seq: "creates j m \<Longrightarrow> creates k n \<Longrightarrow> creates (j + k) (seqE m n)"
  unfolding seqE_def by (rule creates_bind)

lemma creates_quiet_call: "creates 0 (callE (alongside f))"
  by (auto simp: creates_def callE_def alongside_def split: prod.split)

lemma creates_quiet_env: "creates 0 (envE (alongside f))"
  by (auto simp: creates_def envE_def alongside_def split: prod.split)

lemma creates_catch: "creates 0 m \<Longrightarrow> (\<And>e. creates 0 (h e)) \<Longrightarrow> creates 0 (catchE m h)"
proof (rule createsI)
  fix s r s'
  assume m: "creates 0 m" and h: "\<And>e. creates 0 (h e)" and run: "catchE m h s = (r, s')"
  obtain r1 s1 where 1: "m s = (r1, s1)" by fastforce
  note m1 = createsD [OF m 1]
  show "fst (world s) \<le> fst (world s') \<and> fst (world s') \<le> fst (world s) + 0 \<and> (\<not> isl r \<longrightarrow> fst (world s') = fst (world s) + 0)"
  proof (cases r1)
    case (Inl e)
    with run 1 have "h e s1 = (r, s')" by (simp add: catchE_def)
    from createsD [OF h this] m1 Inl show ?thesis by auto
  next
    case (Inr x)
    with run 1 m1 show ?thesis by (auto simp: catchE_def)
  qed
qed

lemma creates_gather2: "creates j m \<Longrightarrow> creates k n \<Longrightarrow> creates (j + k) (gather2 m n)"
proof (rule createsI)
  fix s r s'
  assume m: "creates j m" and n: "creates k n" and run: "gather2 m n s = (r, s')"
  obtain r1 s1 r2 s2 where 1: "m s = (r1, s1)" and 2: "n s1 = (r2, s2)" by fastforce
  with run createsD [OF m 1] createsD [OF n 2]
  show "fst (world s) \<le> fst (world s') \<and> fst (world s') \<le> fst (world s) + (j + k) \<and> (\<not> isl r \<longrightarrow> fst (world s') = fst (world s) + (j + k))"
    by (cases r1) (auto simp: gather2_def)
qed

lemma creates_order: "creates 1 (callE (create_limit_order (counting e) side price amount))"
  by (auto simp: creates_def callE_def counting_def alongside_def split: prod.split)

lemma creates_sleep: "creates 0 (modE (\<lambda>s. s\<lparr>world := do_sleep (counting e) t (world s)\<rparr>))"
  by (auto simp: creates_def modE_def counting_def split: prod.split)

lemma counting_quiet:
  "creates 0 (callE (fetch_ticker (counting e)))" "creates 0 (callE (cancel_order (counting e) oid))"
  "creates 0 (callE (cn_connect (counting e)))" "creates 0 (callE (cn_disconnect (counting e)))"
  "creates 0 (envE (read_monotonic (counting e)))"
  by (simp_all add: counting_def creates_quiet_call creates_quiet_env)

lemma creates_timed: "creates k m \<Longrightarrow> creates k (timed (counting e) m)"
  unfolding timed_def
  using creates_bind [OF counting_quiet(5) creates_bind [of k m 0, OF _ creates_bind [OF counting_quiet(5) creates_ret, simplified]]]
  by simp

lemma creates_repeated: "creates k m \<Longrightarrow> creates (n * k) (repeated n m)"
proof (induction n)
  case (Suc n)
  then have "creates (k + (n * k + 0)) (repeated (Suc n) m)"
    unfolding repeated.simps by (intro creates_bind creates_ret)
  then show ?case by simp
qed (simp add: creates_ret)

lemma creates_ticker_benchmark: "creates 0 (run_ticker_benchmark (counting e) (counting c) label n)"
  unfolding run_ticker_benchmark_def
  using creates_bind [OF creates_repeated [OF creates_timed [OF counting_quiet(1)]] creates_ret] by simp

lemma creates_order_benchmark: "creates n (run_order_benchmark (counting e) (counting c) label n price)"
proof -
  have "creates 1 (order_pair (counting c) far)" for far
    unfolding order_pair_def using creates_bind [OF creates_order counting_quiet(2)] by simp
  from creates_bind [OF creates_repeated [OF creates_timed [OF this]] creates_ret]
  show ?thesis unfolding run_order_benchmark_def by simp
qed

text \<open>
  C40. The benchmark places its orders on whatever connectors it is given exactly if they are not
  skipped and, when the connectors are real, LIVE_MODE is not true or the orders are forced: then a run that returns has
  placed \<open>n\<close> orders on each connector, and otherwise none.  With real connectors it is therefore without
  LIVE_MODE, where the bot trades dry, that the benchmark places real orders.
\<close>

theorem benchmark_orders_unless_live:
  "case run_benchmark (counting env) (counting ccxt) (counting cpp) a vars s of (r, s') \<Rightarrow>
     let n = (if \<not> ba_skip_orders a \<and> (ba_mock a \<or> \<not> live_mode_set vars \<or> ba_force_orders a) then 2 * ba_order_n a else 0)
     in fst (world s') \<le> fst (world s) + n \<and> (\<not> isl r \<longrightarrow> fst (world s') = fst (world s) + n)"
proof -
  let ?n = "if runs_orders a vars then 2 * ba_order_n a else 0"
  have orders: "creates ?n (if runs_orders a vars
             then bindE (callE (fetch_ticker (counting ccxt))) (\<lambda>ref.
                  bindE (run_order_benchmark (counting env) (counting ccxt) ''CCXT'' (ba_order_n a) (tk_mid ref)) (\<lambda>o1.
                  bindE (run_order_benchmark (counting env) (counting cpp) ''C++'' (ba_order_n a) (tk_mid ref)) (\<lambda>o2. ret (Some (o1, o2)))))
             else ret None)"
  proof (cases "runs_orders a vars")
    case True
    have "creates (0 + (ba_order_n a + (ba_order_n a + 0))) (bindE (callE (fetch_ticker (counting ccxt))) (\<lambda>ref.
        bindE (run_order_benchmark (counting env) (counting ccxt) ''CCXT'' (ba_order_n a) (tk_mid ref)) (\<lambda>o1.
        bindE (run_order_benchmark (counting env) (counting cpp) ''C++'' (ba_order_n a) (tk_mid ref)) (\<lambda>o2. ret (Some (o1, o2))))))"
      by (intro creates_bind counting_quiet creates_order_benchmark creates_ret)
    with True show ?thesis by (simp add: mult_2)
  qed (simp add: creates_ret)
  have quiet: "creates 0 (catchE (callE (cn_disconnect (counting c))) (\<lambda>_. ret ()))" for c
    by (intro creates_catch counting_quiet creates_ret)
  have warm: "creates 0 (if ba_mock a then ret () else modE (\<lambda>s. s\<lparr>world := do_sleep (counting env) 3 (world s)\<rparr>))"
    by (simp add: creates_ret creates_sleep)
  have conn: "creates 0 (gather2 (callE (cn_connect (counting ccxt))) (callE (cn_connect (counting cpp))))"
    using creates_gather2 [OF counting_quiet(3) counting_quiet(3)] by simp
  have "creates (0 + (0 + (0 + (0 + (?n + (0 + (0 + 0))))))) (run_benchmark (counting env) (counting ccxt) (counting cpp) a vars)"
    unfolding run_benchmark_def
    by (intro creates_seq creates_bind creates_ticker_benchmark orders quiet warm conn creates_ret)
  then have run: "creates ?n (run_benchmark (counting env) (counting ccxt) (counting cpp) a vars)" by simp
  obtain r s' where eq: "run_benchmark (counting env) (counting ccxt) (counting cpp) a vars s = (r, s')" by fastforce
  have "runs_orders a vars = (\<not> ba_skip_orders a \<and> (ba_mock a \<or> \<not> live_mode_set vars \<or> ba_force_orders a))"
    by (auto simp: runs_orders_def)
  with createsD [OF run eq] show ?thesis by (simp only: eq case_prod_conv Let_def) simp
qed

text \<open>Two orders per connector, real connectors, LIVE_MODE not set.\<close>

definition dry_benchmark :: bench_args where
  "dry_benchmark = \<lparr>ba_mock = False, ba_skip_orders = False, ba_force_orders = False, ba_ticker_n = 1, ba_order_n = 2\<rparr>"

lemma dry_benchmark_returns:
  "\<not> isl (fst (run_benchmark (counting sample_env) (counting sample_env) (counting sample_env) dry_benchmark [] \<lparr>world = (0, 0)\<rparr>))"
  by (simp add: run_benchmark_def run_ticker_benchmark_def run_order_benchmark_def order_pair_def timed_def gather2_def
      runs_orders_def live_mode_set_def dry_benchmark_def counting_def alongside_def sample_env_def eff_simps numeral_2_eq_2 Let_def)

theorem benchmark_orders_unless_live_witness:
  "fst (world (snd (run_benchmark (counting sample_env) (counting sample_env) (counting sample_env) dry_benchmark [] \<lparr>world = (0, 0)\<rparr>))) = 4"
  using benchmark_orders_unless_live [where env = sample_env and ccxt = sample_env and cpp = sample_env and a = dry_benchmark
      and vars = "[]" and s = "\<lparr>world = (0, 0)\<rparr>"] dry_benchmark_returns
  by (simp add: dry_benchmark_def live_mode_set_def case_prod_unfold)

end
