(* ===== verification/BenchReport.thy ===== *)
theory BenchReport
  imports Benchmark AbRun
begin

text \<open>
  The report of \<open>scripts/latency_benchmark.py\<close> and its \<open>main\<close>: the tables, the target checks and the file the
  report is appended to.  The local time is a parameter.
\<close>

section \<open>Cells\<close>

definition bench_fmt :: "real \<Rightarrow> string" where
  "bench_fmt ms =
     (if ms \<ge> 1000 then align_right 8 (fixed_point 1 ms) @ ''ms''
      else if ms \<ge> 10 then align_right 8 (fixed_point 2 ms) @ ''ms''
      else align_right 8 (fixed_point 3 ms) @ ''ms'')"

definition speedup_text :: "real \<Rightarrow> real \<Rightarrow> string" where
  "speedup_text a b = (if b \<le> 0 then ''    N/A  '' else align_right 7 (fixed_point 1 (a / b)) @ ''x '')"

definition bench_cells :: "string \<Rightarrow> string list \<Rightarrow> string" where
  "bench_cells first cells = ''  '' @ align_left 12 first @ concat (map (\<lambda>x. ''  '' @ align_right 9 x) cells)"

definition bench_stats :: "(bench \<Rightarrow> real) list" where
  "bench_stats = [be_mean, be_minimum, be_median, be_p95, be_p99, be_maximum]"

definition bench_row :: "bench \<Rightarrow> string" where
  "bench_row r = bench_cells (be_connector r) (map (\<lambda>f. bench_fmt (f r)) (bench_stats @ [be_stdev]))"

definition speedup_row :: "bench \<Rightarrow> bench \<Rightarrow> string" where
  "speedup_row ccxt cpp = bench_cells ''Speedup'' (map (\<lambda>f. speedup_text (f ccxt) (f cpp)) bench_stats @ [[]])"

section \<open>The report\<close>

definition format_results_table :: "string \<Rightarrow> bench \<Rightarrow> bench \<Rightarrow> string" where
  "format_results_table op_label ccxt cpp =
     (let div_text = rule_line box_line 85
      in join_lines [newline @ ''  '' @ op_label, div_text,
           bench_cells ''Connector'' [''Mean'', ''Min'', ''p50'', ''p95'', ''p99'', ''Max'', ''Stdev''], div_text,
           bench_row ccxt, bench_row cpp, div_text, speedup_row ccxt cpp, div_text])"

text \<open>Measured value, target, label and note of each check.\<close>

definition target_table :: "bench \<Rightarrow> bench option \<Rightarrow> (real \<times> real \<times> string \<times> string) list" where
  "target_table ticker_cpp order_cpp =
     [(be_mean ticker_cpp, 3, ''C++ fetch_ticker mean'', ''< 3ms  (cache + thread-pool)''),
      (be_p99 ticker_cpp, 5, ''C++ fetch_ticker p99'', ''< 5ms  (cache + thread-pool)'')]
     @ (case order_cpp of
          None \<Rightarrow> []
        | Some b \<Rightarrow> [(be_median b, 150, ''C++ order roundtrip p50'', ''< 150ms (create+cancel WS)''),
                     (be_p99 b, 300, ''C++ order roundtrip p99'', ''< 300ms (create+cancel WS)'')])"

definition target_line :: "real \<times> real \<times> string \<times> string \<Rightarrow> string" where
  "target_line = (\<lambda>(actual, target, label, note).
     ''    '' @ (if actual \<le> target then check_mark else cross_mark) @ ''  '' @ align_left 30 label @ ''  '' @
     align_left 30 note @ ''  actual: '' @ strip (bench_fmt actual))"

definition format_target_checks :: "bench \<Rightarrow> bench option \<Rightarrow> string" where
  "format_target_checks ticker_cpp order_cpp =
     join_lines ((newline @ ''  Target metrics check:'') # map target_line (target_table ticker_cpp order_cpp))"

definition format_header :: "string \<Rightarrow> string \<Rightarrow> string \<Rightarrow> string \<Rightarrow> string" where
  "format_header ex symbol mode ts =
     newline @ rule_line box_double 82 @ newline @
     ''  '' @ align_center 82 (''ALKIMI MM Bot '' @ em_dash @ '' Connector Latency Benchmark'') @ newline @
     ''  '' @ align_center 82 (''exchange: '' @ ex @ ''  |  symbol: '' @ symbol @ ''  |  mode: '' @ mode @ ''  |  '' @ ts) @ newline @
     rule_line box_double 82"

definition bench_full_report ::
  "string \<Rightarrow> string \<Rightarrow> string \<Rightarrow> string \<Rightarrow> bench \<Rightarrow> bench \<Rightarrow> (bench \<times> bench) option \<Rightarrow> string" where
  "bench_full_report ex symbol mode ts ticker_ccxt ticker_cpp orders =
     join_lines ([format_header ex symbol mode ts,
        format_results_table (''fetch_ticker()  '' @ times_sign @ ''  '' @ digits (be_n_calls ticker_ccxt) @ '' calls'') ticker_ccxt ticker_cpp]
      @ (case orders of
           None \<Rightarrow> []
         | Some (order_ccxt, order_cpp) \<Rightarrow>
             [format_results_table (''create_limit_order() + cancel_order()  '' @ times_sign @ ''  '' @ digits (be_n_calls order_ccxt) @ '' pairs'')
                order_ccxt order_cpp])
      @ [format_target_checks ticker_cpp (map_option snd orders), []])"

section \<open>The whole script\<close>

record bench_cli =
  bc_args :: bench_args
  bc_exchange :: string
  bc_symbol :: string
  bc_output :: "string option"

text \<open>\<open>local_now\<close> is the local time as text; \<open>mock\<close> are the simulated connectors, \<open>mk\<close> is \<open>create_connector\<close>.\<close>

definition build_connectors ::
  "'w env \<times> 'w env \<Rightarrow> (string \<Rightarrow> string \<Rightarrow> (string \<times> string) list \<Rightarrow> bool \<Rightarrow> 'w \<Rightarrow> 'w env result \<times> 'w) \<Rightarrow>
   (string \<times> string) list \<Rightarrow> bench_cli \<Rightarrow> ('w script, 'w env \<times> 'w env) eff"
where
  "build_connectors mock mk vars cli =
     (if ba_mock (bc_args cli) then ret mock
      else (case bench_creds vars (bc_exchange cli) of
              Inl e \<Rightarrow> raiseE e
            | Inr creds \<Rightarrow>
                bindE (callE (mk (bc_exchange cli) (bc_symbol cli) creds False)) (\<lambda>ccxt.
                bindE (callE (mk (bc_exchange cli) (bc_symbol cli) creds True)) (\<lambda>cpp. ret (ccxt, cpp)))))"

definition benchmark_text ::
  "'w env \<Rightarrow> ('w \<Rightarrow> string \<times> 'w) \<Rightarrow> 'w env \<times> 'w env \<Rightarrow>
   (string \<Rightarrow> string \<Rightarrow> (string \<times> string) list \<Rightarrow> bool \<Rightarrow> 'w \<Rightarrow> 'w env result \<times> 'w) \<Rightarrow> (string \<times> string) list \<Rightarrow> bench_cli \<Rightarrow>
   ('w script, string) eff"
where
  "benchmark_text env local_now mock mk vars cli =
     (let is_mock = ba_mock (bc_args cli) in
      bindE (envE local_now) (\<lambda>ts.
      bindE (build_connectors mock mk vars cli) (\<lambda>(ccxt, cpp).
      bindE (run_benchmark env ccxt cpp (bc_args cli) vars) (\<lambda>(t1, t2, orders).
        ret (bench_full_report (if is_mock then ''mock'' else bc_exchange cli)
               (if is_mock then ''ALKIMI/USDT'' else bc_symbol cli)
               (if is_mock then ''SIMULATED (--mock)'' else ''LIVE'') ts t1 t2 orders)))))"

definition ends_with :: "string \<Rightarrow> string \<Rightarrow> bool" where
  "ends_with s ending \<longleftrightarrow> take (length ending) (rev s) = rev ending"

definition markdown :: "string \<Rightarrow> string" where
  "markdown report =
     ''## Benchmark Results'' @ newline @ newline @ ''Generated by `scripts/latency_benchmark.py`.'' @ newline @ newline @
     ''```'' @ newline @ report @ newline @ ''```'' @ newline"

text \<open>Only a \<open>RuntimeError\<close> is turned into an exit; the report is printed and then appended.\<close>

definition bench_main ::
  "'w env \<Rightarrow> ('w \<Rightarrow> string \<times> 'w) \<Rightarrow> 'w env \<times> 'w env \<Rightarrow>
   (string \<Rightarrow> string \<Rightarrow> (string \<times> string) list \<Rightarrow> bool \<Rightarrow> 'w \<Rightarrow> 'w env result \<times> 'w) \<Rightarrow> (string \<times> string) list \<Rightarrow> bench_cli \<Rightarrow>
   ('w script, unit) eff"
where
  "bench_main env local_now mock mk vars cli =
     bindE (catchE (benchmark_text env local_now mock mk vars cli)
              (\<lambda>e. raiseE (case e of RuntimeError _ \<Rightarrow> OtherError ''SystemExit'' | _ \<Rightarrow> e))) (\<lambda>report.
     seqE (print_text report)
       (case bc_output cli of
          None \<Rightarrow> ret ()
        | Some path \<Rightarrow> if path = [] then ret ()
            else append_to_file path (if ends_with path ''.md'' then markdown report else report)))"

section \<open>What the report shows\<close>

text \<open>The marks of the report are those of the targets.\<close>

lemma marks_are_targets:
  "map (\<lambda>(actual, target, label, note). (label, actual \<le> target)) (target_table t b) = target_checks t b"
  by (simp add: target_table_def target_checks_def split: option.split)

text \<open>A value is never narrower than ten characters, so it does not fit the nine of its column.\<close>

lemma bench_fmt_overflows: "10 \<le> text_width (bench_fmt ms)"
  by (auto simp: bench_fmt_def text_width_ascii)

text \<open>A run that raises neither prints a report nor writes a file.\<close>

lemma failed_benchmark_writes_nothing:
  assumes "benchmark_text env local_now mock mk vars cli s = (Inl e, s')"
  shows "\<exists>e'. bench_main env local_now mock mk vars cli s = (Inl e', s')"
  using assms by (auto simp: bench_main_def bindE_def catchE_def raiseE_def)

text \<open>A run that returns prints its report once and appends it, wrapped for a Markdown file.\<close>

lemma benchmark_report_is_appended:
  assumes "benchmark_text env local_now mock mk vars cli s = (Inr report, s')" "bc_output cli = Some path" "path \<noteq> []"
  shows "\<exists>t. bench_main env local_now mock mk vars cli s = (Inr (), t) \<and> sc_printed t = sc_printed s' @ [report] \<and>
     dict_get (sc_files t) path = Some ((case dict_get (sc_files s') path of Some old \<Rightarrow> old | None \<Rightarrow> []) @
       (if ends_with path ''.md'' then markdown report else report))"
  using assms
  by (simp add: bench_main_def bindE_def catchE_def seqE_def print_text_def append_to_file_def modE_def update_conv')

end
