(* ===== verification/Backtest.thy ===== *)
theory Backtest
  imports PaperTrader Spread Depth Volatility Aggressiveness Inventory "HOL-Library.Sublist"
begin

text \<open>
  \<open>scripts/backtest.py\<close>: the quant engines and the fill simulator on historical candles, with a book made
  up from each candle, and fetching the candles page by page.  The trace and the summary are in
  \<open>BacktestReport\<close>.
\<close>

section \<open>The synthetic book\<close>

text \<open>Level \<open>i\<close> of each side, and \<open>qty\<close> decaying from level to level; \<open>n\<close> levels are left.\<close>

fun book_ladder :: "nat \<Rightarrow> nat \<Rightarrow> real \<Rightarrow> real \<Rightarrow> real \<Rightarrow> (real \<times> real) list" where
  "book_ladder 0 i best step qty = []"
| "book_ladder (Suc n) i best step qty = (best + real i * step, qty) # book_ladder n (Suc i) best step (qty * 0.85)"

definition synthesise_book :: "candle \<Rightarrow> string \<Rightarrow> order_book" where
  "synthesise_book c ex =
     (let mid = cd_close c in
      if mid \<le> 0 then \<lparr>ob_exchange = ex, ob_bids = [], ob_asks = [], ob_timestamp = cd_timestamp c\<rparr>
      else (let raw_spread = (cd_high c - cd_low c) / mid;
                spread_pct = max 0.001 (min 0.02 raw_spread);
                half_spread = mid * spread_pct / 2;
                qty = max (cd_volume c) 1000 / 20; step = mid * 0.0005
            in \<lparr>ob_exchange = ex, ob_bids = book_ladder 20 0 (mid - half_spread) (- step) qty,
                ob_asks = book_ladder 20 0 (mid + half_spread) step qty, ob_timestamp = cd_timestamp c\<rparr>))"

section \<open>Fetching the history\<close>

type_synonym ohlcv = "int \<times> real \<times> real \<times> real \<times> real \<times> real"

text \<open>
  The loop of \<open>fetch_candles\<close>: the exchange's page of rows from \<open>cursor\<close> on, until a page is empty
  or does not move the cursor.  \<open>page\<close> and \<open>pause\<close> stand for the library's call and the pause after it.
\<close>

function fetch_pages ::
  "(int \<Rightarrow> 'w \<Rightarrow> ohlcv list result \<times> 'w) \<Rightarrow> ('w \<Rightarrow> 'w) \<Rightarrow> int \<Rightarrow> int \<Rightarrow> 'w \<Rightarrow> ohlcv list result \<times> 'w"
where
  "fetch_pages page pause end_ms cursor w =
     (if \<not> cursor < end_ms then (Inr [], w)
      else (case page cursor w of
          (Inl e, w1) \<Rightarrow> (Inl e, w1)
        | (Inr rows, w1) \<Rightarrow>
            if rows = [] then (Inr [], w1)
            else if fst (last rows) \<le> cursor then (Inr rows, w1)
            else (case fetch_pages page pause end_ms (fst (last rows) + 60000) (pause w1) of
                (Inl e, w2) \<Rightarrow> (Inl e, w2)
              | (Inr rest, w2) \<Rightarrow> (Inr (rows @ rest), w2))))"
  by pat_completeness auto
termination
  by (relation "measure (\<lambda>(_, _, end_ms, cursor, _). nat (end_ms - cursor))") auto

declare fetch_pages.simps [simp del]

definition ohlcv_candle :: "ohlcv \<Rightarrow> candle" where
  "ohlcv_candle = (\<lambda>(t, op, hi, lo, cl, v).
     \<lparr>cd_timestamp = real_of_int t / 1000, cd_open = op, cd_high = hi, cd_low = lo, cd_close = cl, cd_volume = v\<rparr>)"

text \<open>The client is closed on every path, and an error of the close replaces the result.\<close>

definition fetch_history ::
  "'w env \<Rightarrow> ('w \<Rightarrow> unit result \<times> 'w) \<Rightarrow> ('w \<Rightarrow> unit result \<times> 'w) \<Rightarrow> (int \<Rightarrow> 'w \<Rightarrow> ohlcv list result \<times> 'w) \<Rightarrow>
   ('w \<Rightarrow> 'w) \<Rightarrow> int \<Rightarrow> 'w \<Rightarrow> candle list result \<times> 'w"
where
  "fetch_history env load close page pause days w =
     (let (r, w1) = (case load w of
              (Inl e, w1) \<Rightarrow> (Inl e, w1)
            | (Inr _, w1) \<Rightarrow>
                (let (t, w2) = read_clock env w1; end_ms = py_int (t * 1000)
                 in fetch_pages page pause end_ms (end_ms - days * 24 * 60 * 60 * 1000) w2))
      in (case close w1 of
            (Inl e, w2) \<Rightarrow> (Inl e, w2)
          | (Inr _, w2) \<Rightarrow> (map_sum id (map ohlcv_candle) r, w2)))"

section \<open>Orders and statistics\<close>

record backtest_stats =
  bs_total_fills :: nat
  bs_buy_fills :: nat
  bs_sell_fills :: nat
  bs_total_buy_qty :: real
  bs_total_sell_qty :: real
  bs_total_buy_usd :: real
  bs_total_sell_usd :: real
  bs_total_fees_usd :: real
  bs_realised_pnl_usd :: real

definition no_stats :: backtest_stats where
  "no_stats =
     \<lparr>bs_total_fills = 0, bs_buy_fills = 0, bs_sell_fills = 0, bs_total_buy_qty = 0, bs_total_sell_qty = 0,
      bs_total_buy_usd = 0, bs_total_sell_usd = 0, bs_total_fees_usd = 0, bs_realised_pnl_usd = 0\<rparr>"

definition grid_side :: "string \<Rightarrow> nat \<Rightarrow> string \<Rightarrow> string \<Rightarrow> (nat \<times> real \<times> real) list \<Rightarrow> order list" where
  "grid_side ex tick_id side tag levels =
     concat (map (\<lambda>(i, p, a). if p \<le> 0 \<or> a \<le> 0 then []
       else [\<lparr>ord_id = ''bt_'' @ digits tick_id @ ''_'' @ tag @ digits i, ord_exchange = ex, ord_symbol = ''ALKIMI/USDT'',
              ord_side = side, ord_price = p, ord_amount = a, ord_amount_usd = p * a, ord_status = ''open'',
              ord_timestamp = real tick_id, ord_filled_amount = 0, ord_filled_price = 0, ord_fee = 0,
              ord_fee_currency = []\<rparr>]) levels)"

definition make_grid_orders :: "string \<Rightarrow> real list \<Rightarrow> real list \<Rightarrow> real list \<Rightarrow> real list \<Rightarrow> nat \<Rightarrow> order list" where
  "make_grid_orders ex buy_prices buy_amounts sell_prices sell_amounts tick_id =
     grid_side ex tick_id ''buy'' ''b'' (enumerate 0 (zip buy_prices buy_amounts))
     @ grid_side ex tick_id ''sell'' ''s'' (enumerate 0 (zip sell_prices sell_amounts))"

section \<open>The run\<close>

definition bt_vol_config :: volatility_config where
  "bt_vol_config = sample_volatility\<lparr>window_minutes := 10, low_threshold := 0.001, high_threshold := 0.003, vol_power := 2\<rparr>"

definition bt_spread_config :: spread_config where
  "bt_spread_config = sample_spread\<lparr>buy_min_pct := - 5, buy_max_pct := - 0.1, sell_min_pct := 0.3, sell_max_pct := 7,
     sp_curve_strength := 4\<rparr>"

definition bt_depth_config :: "real \<Rightarrow> depth_config" where
  "bt_depth_config usd = sample_depth\<lparr>dp_levels := 15, total_budget_usd := usd, dp_curve_strength := 4, min_order_usd := 5\<rparr>"

record 'w backtest = "'w sys" +
  bt_vol :: vol_engine
  bt_inventory :: inventory
  bt_usd :: real
  bt_token :: real
  bt_stats :: backtest_stats

definition new_backtest :: "real \<Rightarrow> real \<Rightarrow> 'w \<Rightarrow> 'w backtest" where
  "new_backtest usd token w =
     \<lparr>world = w, bt_vol = new_vol_engine bt_vol_config,
      bt_inventory = record_initial \<lparr>bal_usd = usd, bal_token = token, bal_quote_currency = ''USDT''\<rparr> (new_inventory 0 0 0),
      bt_usd = usd, bt_token = token, bt_stats = no_stats\<rparr>"

definition apply_fill :: "sim_fill \<Rightarrow> 'w backtest \<Rightarrow> 'w backtest" where
  "apply_fill f s =
     (let st = bt_stats s; notional = sf_price f * sf_amount f;
          st' = st\<lparr>bs_total_fills := Suc (bs_total_fills st), bs_total_fees_usd := bs_total_fees_usd st + sf_fee f\<rparr>
      in if sf_side f = ''buy''
         then s\<lparr>bt_stats := st'\<lparr>bs_buy_fills := Suc (bs_buy_fills st), bs_total_buy_qty := bs_total_buy_qty st + sf_amount f,
                               bs_total_buy_usd := bs_total_buy_usd st + notional\<rparr>,
                bt_usd := bt_usd s - (notional + sf_fee f), bt_token := bt_token s + sf_amount f\<rparr>
         else s\<lparr>bt_stats := st'\<lparr>bs_sell_fills := Suc (bs_sell_fills st), bs_total_sell_qty := bs_total_sell_qty st + sf_amount f,
                               bs_total_sell_usd := bs_total_sell_usd st + notional,
                               bs_realised_pnl_usd := bs_realised_pnl_usd st + sf_pnl_usd f\<rparr>,
                bt_usd := bt_usd s + (notional - sf_fee f), bt_token := bt_token s - sf_amount f\<rparr>)"

text \<open>The orders of one candle: the grid at its close, capped order by order by the balances.\<close>

definition bt_orders :: "depth_config \<Rightarrow> string \<Rightarrow> nat \<Rightarrow> real \<Rightarrow> 'w backtest \<Rightarrow> order list" where
  "bt_orders depth ex tick_id mid s =
     (let agg = compute_agg bt_vol_config (rolling_vol (bt_vol s)); skew = skew_factor (bt_inventory s);
          n = nat (dp_levels depth);
          (buy_spreads, sell_spreads) = compute_levels_dual (new_spread_engine bt_spread_config 0) agg agg n;
          (buy_prices, sell_prices) = prices_from_spreads mid buy_spreads sell_spreads;
          buy_amounts = map2 usd_to_token_amount (compute_amounts depth agg n skew ''buy'' 0 1) buy_prices;
          sell_amounts = map2 usd_to_token_amount (compute_amounts depth agg n skew ''sell'' 0 1) sell_prices;
          buy_amounts' = map2 (\<lambda>a p. min a (max 0 (bt_usd s / max p (1 / 10 ^ 9)))) buy_amounts buy_prices;
          sell_amounts' = map (\<lambda>a. min a (max 0 (bt_token s))) sell_amounts
      in make_grid_orders ex buy_prices buy_amounts' sell_prices sell_amounts' tick_id)"

definition bt_candle :: "'w env \<Rightarrow> depth_config \<Rightarrow> string \<Rightarrow> nat \<times> candle \<Rightarrow> ('w backtest, unit) eff" where
  "bt_candle env depth ex = (\<lambda>(tick_id, c).
     bindE (now_s env) (\<lambda>now.
     seqE (modE (\<lambda>s. s\<lparr>bt_vol := update_price now (cd_close c) (bt_vol s)\<rparr>))
     (bindE (getsE (\<lambda>s. length (ve_closes (bt_vol s)))) (\<lambda>count.
       if int count < window_minutes bt_vol_config then ret ()
       else seqE (modE (\<lambda>s. s\<lparr>bt_inventory :=
                   inv_update \<lparr>bal_usd = bt_usd s, bal_token = bt_token s, bal_quote_currency = ''USDT''\<rparr> (bt_inventory s)\<rparr>))
            (bindE (getsE (bt_orders depth ex tick_id (cd_close c))) (\<lambda>orders.
             bindE (simulate env (maker_fee_rate 10) orders (synthesise_book c ex) (cd_close c)) (\<lambda>fills.
               modE (fold apply_fill fills))))))))"

text \<open>The configuration models are built first and may be rejected.\<close>

definition run_backtest :: "'w env \<Rightarrow> candle list \<Rightarrow> string \<Rightarrow> real \<Rightarrow> ('w backtest, unit) eff" where
  "run_backtest env candles ex usd =
     (if \<not> 0 < usd then raiseE (ValueError ''total_budget_usd'')
      else if ex \<notin> set exchange_names then raiseE (ValueError ''exchange'')
      else for_each (bt_candle env (bt_depth_config usd) ex) (enumerate 0 candles))"

section \<open>The history is complete\<close>

text \<open>An exchange that answers every request with the first rows of its history from the time asked for.\<close>

definition serves :: "ohlcv list \<Rightarrow> nat \<Rightarrow> (int \<Rightarrow> 'w \<Rightarrow> ohlcv list result \<times> 'w) \<Rightarrow> bool" where
  "serves h limit page \<longleftrightarrow> (\<forall>c w. fst (page c w) = Inr (take limit (filter (\<lambda>r. c \<le> fst r) h)))"

definition minutes_apart :: "ohlcv list \<Rightarrow> bool" where
  "minutes_apart h \<longleftrightarrow> sorted_wrt (\<lambda>a b. fst a + 60000 \<le> fst b) h"

lemma minutes_apart_split:
  assumes "minutes_apart (xs @ r # ys)"
  shows "filter (\<lambda>x. fst r + 60000 \<le> fst x) (xs @ r # ys) = ys"
proof -
  have "filter (\<lambda>x. fst r + 60000 \<le> fst x) xs = []"
    using assms by (auto simp: minutes_apart_def sorted_wrt_append filter_empty_conv)
  moreover have "filter (\<lambda>x. fst r + 60000 \<le> fst x) ys = ys"
    using assms by (auto simp: minutes_apart_def sorted_wrt_append filter_id_conv)
  ultimately show ?thesis by simp
qed



lemma minutes_apart_last:
  assumes "minutes_apart xs" "\<forall>x \<in> set xs. c \<le> fst x" "fst (last xs) \<le> c"
  shows "length xs \<le> 1"
proof (cases xs rule: rev_cases)
  case (snoc ys y)
  with assms have "ys = []" by (cases ys) (auto simp: minutes_apart_def sorted_wrt_append)
  with snoc show ?thesis by simp
qed simp

text \<open>After a full page the rows from a minute past its last one on are what the page left out.\<close>

lemma rest_after_page:
  assumes "minutes_apart h" and P: "P = filter (\<lambda>r. c \<le> fst r) h" and "take k P \<noteq> []"
  shows "filter (\<lambda>r. fst (last (take k P)) + 60000 \<le> fst r) h = drop k P"
proof -
  define l where "l = last (take k P)"
  have split: "P = butlast (take k P) @ l # drop k P"
    using assms(3) by (metis append_butlast_last_id append_take_drop_id append.assoc append_Cons append_Nil l_def)
  have "minutes_apart P" using assms(1) by (simp add: P minutes_apart_def sorted_wrt_filter)
  have "l \<in> set P" using split by (metis in_set_conv_decomp)
  then have "c \<le> fst l" by (simp add: P)
  then have "filter (\<lambda>r. fst l + 60000 \<le> fst r) h = filter (\<lambda>r. fst l + 60000 \<le> fst r) P"
    by (auto simp: P intro: filter_cong)
  also have "\<dots> = drop k P" using minutes_apart_split \<open>minutes_apart P\<close> split by metis
  finally show ?thesis by (simp add: l_def)
qed

text \<open>A page that does not move the cursor is the last.\<close>

lemma stuck_page_is_all:
  assumes "minutes_apart h" and P: "P = filter (\<lambda>r. c \<le> fst r) h" and "2 \<le> k" "fst (last (take k P)) \<le> c"
  shows "take k P = P"
proof -
  have "minutes_apart (take k P)" using assms(1) by (simp add: P minutes_apart_def sorted_wrt_filter sorted_wrt_take)
  moreover have "\<forall>x \<in> set (take k P). c \<le> fst x" by (auto simp: P dest: in_set_takeD)
  ultimately have "length (take k P) \<le> 1" using minutes_apart_last assms(4) by blast
  with assms(3) show ?thesis by simp
qed

text \<open>
  Over an exchange that serves at least two rows at a time, the fetch returns, without a gap or a
  repetition, the history from the start of the period, and every row before the end of the period is in it.
\<close>

theorem fetched_history_is_complete:
  assumes "serves h limit page" and "2 \<le> limit" and "minutes_apart h"
  shows "\<exists>rows w'. fetch_pages page pause end_ms start w = (Inr rows, w') \<and>
     prefix rows (filter (\<lambda>r. start \<le> fst r) h) \<and>
     (\<forall>r \<in> set h. start \<le> fst r \<and> fst r < end_ms \<longrightarrow> r \<in> set rows)"
  using assms
proof (induction page pause end_ms start w rule: fetch_pages.induct)
  case (1 page pause end_ms c w)
  define P where "P = filter (\<lambda>r. c \<le> fst r) h"
  show ?case
  proof (cases "c < end_ms")
    case False
    then show ?thesis by (auto simp: fetch_pages.simps [of page])
  next
    case lt: True
    obtain w1 where page: "page c w = (Inr (take limit P), w1)"
      using 1(2) by (metis P_def serves_def prod.collapse)
    have all: "\<forall>r \<in> set h. c \<le> fst r \<longrightarrow> r \<in> set P" by (simp add: P_def)
    consider "take limit P = []" | "take limit P \<noteq> []" "fst (last (take limit P)) \<le> c"
      | "take limit P \<noteq> []" "\<not> fst (last (take limit P)) \<le> c" by blast
    then show ?thesis
    proof cases
      case 1
      with \<open>2 \<le> limit\<close> have "P = []" by simp
      with 1 lt page all show ?thesis by (auto simp: fetch_pages.simps [of page])
    next
      case 2
      have "take limit P = P" by (rule stuck_page_is_all [OF \<open>minutes_apart h\<close> P_def \<open>2 \<le> limit\<close> 2(2)])
      with 2 lt page all show ?thesis
        by (auto simp: fetch_pages.simps [of page] P_def [symmetric])
    next
      case 3
      let ?l = "last (take limit P)"
      have rest: "filter (\<lambda>r. fst ?l + 60000 \<le> fst r) h = drop limit P"
        by (rule rest_after_page [OF \<open>minutes_apart h\<close> P_def 3(1)])
      obtain rows w' where IH: "fetch_pages page pause end_ms (fst ?l + 60000) (pause w1) = (Inr rows, w')"
          "prefix rows (drop limit P)"
          "\<forall>r \<in> set h. fst ?l + 60000 \<le> fst r \<and> fst r < end_ms \<longrightarrow> r \<in> set rows"
        using 1(1) [OF _ page [symmetric] refl _ _ 1(2-4)] lt 3 rest by auto
      have "fetch_pages page pause end_ms c w = (Inr (take limit P @ rows), w')"
        using lt page 3 IH(1) by (simp add: fetch_pages.simps [of page pause end_ms c])
      moreover have "prefix (take limit P @ rows) P"
        using IH(2) by (metis append_take_drop_id same_prefix_prefix)
      moreover have "r \<in> set (take limit P @ rows)" if "r \<in> set h" "c \<le> fst r" "fst r < end_ms" for r
      proof -
        have "r \<in> set (take limit P) \<or> r \<in> set (drop limit P)"
          using that all by (metis Un_iff append_take_drop_id set_append)
        with IH(3) that show ?thesis by (auto simp: rest [symmetric])
      qed
      ultimately show ?thesis by (auto simp: P_def [symmetric])
    qed
  qed
qed

text \<open>A request function that counts its calls.\<close>

definition counted :: "(int \<Rightarrow> 'w \<Rightarrow> 'a \<times> 'w) \<Rightarrow> int \<Rightarrow> nat \<times> 'w \<Rightarrow> 'a \<times> nat \<times> 'w" where
  "counted page c = (\<lambda>(n, w). let (r, w') = page c w in (r, Suc n, w'))"

text \<open>
  The fetch ends whatever the exchange answers: every request but the last moves the cursor by more
  than a minute, so a period of \<open>n\<close> minutes takes at most \<open>n + 1\<close> requests.
\<close>

theorem history_fetch_ends:
  "int (fst (snd (fetch_pages (counted page) (\<lambda>(n, w). (n, pause w)) end_ms start (0, w))))
     \<le> max 0 (end_ms - start) div 60000 + 1"
proof -
  have "int (fst (snd (fetch_pages (counted page) (\<lambda>(n, w). (n, pause w)) end_ms c (n, w))))
     \<le> int n + (if c < end_ms then (end_ms - c) div 60000 + 1 else 0)" for c n w
  proof (induction "nat (end_ms - c)" arbitrary: c n w rule: less_induct)
    case less
    obtain r w1 where p: "page c w = (r, w1)" by fastforce
    show ?case
    proof (cases "c < end_ms \<and> (\<exists>rows. r = Inr rows \<and> rows \<noteq> [] \<and> c < fst (last rows))")
      case True
      then obtain rows where rows: "r = Inr rows" "rows \<noteq> []" "c < fst (last rows)" and lt: "c < end_ms" by auto
      let ?c = "fst (last rows) + 60000"
      have "(end_ms - ?c) div 60000 + 1 \<le> (end_ms - c) div 60000"
        using rows(3) zdiv_mono1 [of "end_ms - ?c + 60000" "end_ms - c" 60000] by simp
      moreover have "0 \<le> (end_ms - c) div 60000" using lt by (simp add: pos_imp_zdiv_nonneg_iff)
      ultimately show ?thesis
        using less [of ?c "Suc n" "pause w1"] rows lt p
        by (auto simp: fetch_pages.simps [of "counted page" _ end_ms c] counted_def split: prod.split sum.split if_splits)
    next
      case False
      then show ?thesis
        using p by (auto simp: fetch_pages.simps [of "counted page"] counted_def pos_imp_zdiv_nonneg_iff split: sum.split)
    qed
  qed
  from this [of start 0 w] show ?thesis by (auto simp: max_def split: if_splits)
qed

definition three_minutes :: "ohlcv list" where
  "three_minutes = [(0, 1, 1, 1, 1, 5), (60000, 1, 1, 1, 1, 5), (120000, 1, 1, 1, 1, 5)]"

theorem fetched_history_is_complete_witness:
  "\<exists>rows w'. fetch_pages (\<lambda>c w. (Inr (take 2 (filter (\<lambda>r. c \<le> fst r) three_minutes)), w)) id 120000 0 (0::nat) = (Inr rows, w') \<and>
     prefix rows (filter (\<lambda>r. 0 \<le> fst r) three_minutes) \<and>
     (\<forall>r \<in> set three_minutes. 0 \<le> fst r \<and> fst r < 120000 \<longrightarrow> r \<in> set rows)"
  by (rule fetched_history_is_complete [where limit = 2])
    (simp_all add: serves_def minutes_apart_def three_minutes_def)

section \<open>The books are proper\<close>

lemma book_ladder_nth: "k < n \<Longrightarrow> book_ladder n i best step qty ! k = (best + real (i + k) * step, qty * 0.85 ^ k)"
proof (induction n arbitrary: i qty k)
  case (Suc n)
  then show ?case by (cases k) simp_all
qed simp

lemma length_book_ladder [simp]: "length (book_ladder n i best step qty) = n"
  by (induction n arbitrary: i qty) simp_all

text \<open>The best prices leave the close by at least five basis points.\<close>

lemma synthesised_asks:
  assumes "0 < cd_close c" and "(p, q) \<in> set (ob_asks (synthesise_book c ex))"
  shows "cd_close c * 1.0005 \<le> p"
proof -
  let ?h = "cd_close c * max 0.001 (min 0.02 ((cd_high c - cd_low c) / cd_close c)) / 2"
  have h: "cd_close c * 0.0005 \<le> ?h"
    using mult_left_mono [OF max.cobounded1 [of "0.001" "min 0.02 ((cd_high c - cd_low c) / cd_close c)"], of "cd_close c"]
      assms(1) by simp
  obtain k where k: "k < 20" "(p, q) = book_ladder 20 0 (cd_close c + ?h) (cd_close c * 0.0005) (max (cd_volume c) 1000 / 20) ! k"
    using assms by (auto simp: synthesise_book_def Let_def in_set_conv_nth)
  then have "p = cd_close c + ?h + real k * (cd_close c * 0.0005)" by (simp add: book_ladder_nth)
  moreover have "0 \<le> real k * (cd_close c * 0.0005)" using assms(1) by simp
  ultimately show ?thesis using h by (simp add: algebra_simps)
qed

lemma synthesised_bids:
  assumes "0 < cd_close c" and "(p, q) \<in> set (ob_bids (synthesise_book c ex))"
  shows "p \<le> cd_close c * 0.9995"
proof -
  let ?h = "cd_close c * max 0.001 (min 0.02 ((cd_high c - cd_low c) / cd_close c)) / 2"
  have h: "cd_close c * 0.0005 \<le> ?h"
    using mult_left_mono [OF max.cobounded1 [of "0.001" "min 0.02 ((cd_high c - cd_low c) / cd_close c)"], of "cd_close c"]
      assms(1) by simp
  obtain k where k: "k < 20" "(p, q) = book_ladder 20 0 (cd_close c - ?h) (- (cd_close c * 0.0005)) (max (cd_volume c) 1000 / 20) ! k"
    using assms by (auto simp: synthesise_book_def Let_def in_set_conv_nth)
  then have "p = cd_close c - ?h - real k * (cd_close c * 0.0005)" by (simp add: book_ladder_nth)
  moreover have "0 \<le> real k * (cd_close c * 0.0005)" using assms(1) by simp
  ultimately show ?thesis using h by (simp add: algebra_simps)
qed

section \<open>Nothing ever fills\<close>

lemma grid_side_member: "x \<in> set (grid_side ex k side tag (enumerate j (zip ps as))) \<Longrightarrow> ord_side x = side \<and> ord_price x \<in> set ps"
  by (auto simp: grid_side_def in_set_enumerate_eq dest!: nth_mem split: if_splits)

lemma away_prices:
  fixes mid :: real
  assumes "0 < mid" "\<forall>x \<in> set spreads. lo \<le> x \<and> x \<le> hi" "p \<in> set (map (\<lambda>x. mid * (1 + x / 100)) spreads)"
  shows "mid * (1 + lo / 100) \<le> p \<and> p \<le> mid * (1 + hi / 100)"
  using assms by (auto intro!: mult_left_mono divide_right_mono add_left_mono)

lemma bt_orders_away:
  assumes "0 < mid" and "x \<in> set (bt_orders depth ex k mid s)"
  shows "(ord_side x = ''buy'' \<and> ord_price x \<le> mid * 0.999) \<or> (ord_side x = ''sell'' \<and> mid * 1.003 \<le> ord_price x)"
proof -
  define agg where "agg = compute_agg bt_vol_config (rolling_vol (bt_vol s))"
  define n where "n = nat (dp_levels depth)"
  define lv where "lv = compute_levels_dual (new_spread_engine bt_spread_config 0) agg agg n"
  obtain as bs where x: "x \<in> set (make_grid_orders ex (map (\<lambda>y. mid * (1 + y / 100)) (fst lv)) as
      (map (\<lambda>y. mid * (1 + y / 100)) (snd lv)) bs k)"
    using assms(2) unfolding bt_orders_def Let_def prices_from_spreads_def case_prod_unfold
      agg_def [symmetric] n_def [symmetric] lv_def [symmetric] fst_conv snd_conv by blast
  have buy: "\<forall>y \<in> set (fst lv). - 5 \<le> y \<and> y \<le> - 0.1"
    using side_level_between [of _ "new_spread_engine bt_spread_config 0" "- 0.1" "- 5" "clip agg 0 1" n None]
    by (auto simp: lv_def compute_levels_dual_def new_spread_engine_def bt_spread_config_def)
  have sell: "\<forall>y \<in> set (snd lv). 0.3 \<le> y \<and> y \<le> 7"
    using side_level_between [of _ "new_spread_engine bt_spread_config 0" "0.3" "7" "clip agg 0 1" n None]
    by (auto simp: lv_def compute_levels_dual_def new_spread_engine_def bt_spread_config_def)
  from x consider "ord_side x = ''buy''" "ord_price x \<in> set (map (\<lambda>y. mid * (1 + y / 100)) (fst lv))"
    | "ord_side x = ''sell''" "ord_price x \<in> set (map (\<lambda>y. mid * (1 + y / 100)) (snd lv))"
    unfolding make_grid_orders_def set_append Un_iff using grid_side_member by blast
  then show ?thesis
    using away_prices [OF assms(1) buy] away_prices [OF assms(1) sell] by cases auto
qed

lemma fill_orders_none:
  "(\<And>o'. o' \<in> set os \<Longrightarrow> f o' ls s = (Inr (None, ls), s)) \<Longrightarrow> fill_orders f os ls s = (Inr [], s)"
  by (induction os) (simp_all add: eff_simps)

lemma try_fill_buy_away:
  assumes "\<And>p q. (p, q) \<in> set ls \<Longrightarrow> ord_price o' < p"
  shows "try_fill_buy env rate ts o' ls s = (Inr (None, ls), s)"
proof (cases ls)
  case (Cons l rest)
  obtain p q where l: "l = (p, q)" by fastforce
  with Cons have "ord_price o' < p" using assms [of p q] by simp
  with Cons l show ?thesis by (simp add: try_fill_buy_def ret_def)
qed (simp add: try_fill_buy_def ret_def)

lemma try_fill_sell_away:
  assumes "\<And>p q. (p, q) \<in> set ls \<Longrightarrow> p < ord_price o'"
  shows "try_fill_sell env rate mid ts o' ls s = (Inr (None, ls), s)"
proof (cases ls)
  case (Cons l rest)
  obtain p q where l: "l = (p, q)" by fastforce
  with Cons have "p < ord_price o'" using assms [of p q] by simp
  with Cons l show ?thesis by (simp add: try_fill_sell_def ret_def)
qed (simp add: try_fill_sell_def ret_def)

lemma simulate_away:
  assumes "\<And>o' p q. o' \<in> set os \<Longrightarrow> ord_side o' = ''buy'' \<Longrightarrow> (p, q) \<in> set (ob_asks b) \<Longrightarrow> ord_price o' < p"
    and "\<And>o' p q. o' \<in> set os \<Longrightarrow> ord_side o' = ''sell'' \<Longrightarrow> (p, q) \<in> set (ob_bids b) \<Longrightarrow> p < ord_price o'"
  shows "simulate env rate os b mid s = (Inr [], s)"
proof -
  have "try_fill_buy env rate ts o' (ob_asks b) s = (Inr (None, ob_asks b), s)" if "o' \<in> set (buys_in_order os)" for o' ts
    using that assms(1) by (intro try_fill_buy_away) (auto simp: buys_in_order_def)
  moreover have "try_fill_sell env rate mid ts o' (ob_bids b) s = (Inr (None, ob_bids b), s)"
    if "o' \<in> set (sells_in_order os)" for o' ts
    using that assms(2) by (intro try_fill_sell_away) (auto simp: sells_in_order_def)
  ultimately show ?thesis by (simp add: simulate_def eff_simps fill_orders_none)
qed

lemma candle_without_fills:
  assumes "0 < cd_close c"
  shows "simulate env rate (bt_orders depth ex k (cd_close c) s0) (synthesise_book c ex) (cd_close c) s = (Inr [], s)"
proof (rule simulate_away)
  fix o' p q assume o': "o' \<in> set (bt_orders depth ex k (cd_close c) s0)"
  from bt_orders_away [OF assms o']
  show "ord_side o' = ''buy'' \<Longrightarrow> (p, q) \<in> set (ob_asks (synthesise_book c ex)) \<Longrightarrow> ord_price o' < p"
    and "ord_side o' = ''sell'' \<Longrightarrow> (p, q) \<in> set (ob_bids (synthesise_book c ex)) \<Longrightarrow> p < ord_price o'"
    using synthesised_asks [OF assms, of p q ex] synthesised_bids [OF assms, of p q ex] assms by auto
qed

definition untouched :: "real \<Rightarrow> real \<Rightarrow> 'w backtest \<Rightarrow> bool" where
  "untouched usd token s \<longleftrightarrow> bt_stats s = no_stats \<and> bt_usd s = usd \<and> bt_token s = token"

lemma bt_candle_untouched:
  assumes "0 < cd_close c" and "untouched usd token s"
  shows "\<exists>s'. bt_candle env depth ex (k, c) s = (Inr (), s') \<and> untouched usd token s'"
proof -
  obtain t w where t: "now_s env s = (Inr t, s\<lparr>world := w\<rparr>)" using now_s_Inr [of env s] by blast
  show ?thesis
    using assms(2)
    by (simp add: bt_candle_def bindE_def seqE_def modE_def getsE_def ret_def t untouched_def candle_without_fills [OF assms(1)])
qed

lemma candles_untouched:
  "(\<And>k c. (k, c) \<in> set cs \<Longrightarrow> 0 < cd_close c) \<Longrightarrow> untouched usd token s \<Longrightarrow>
   \<exists>s'. for_each (bt_candle env depth ex) cs s = (Inr (), s') \<and> untouched usd token s'"
proof (induction cs arbitrary: s)
  case Nil
  then show ?case by (simp add: ret_def)
next
  case (Cons x cs)
  obtain k c where x: "x = (k, c)" by fastforce
  obtain s1 where "bt_candle env depth ex x s = (Inr (), s1)" "untouched usd token s1"
    using bt_candle_untouched [OF Cons.prems(1) Cons.prems(2)] x by fastforce
  moreover have "\<exists>s'. for_each (bt_candle env depth ex) cs s1 = (Inr (), s') \<and> untouched usd token s'"
    by (rule Cons.IH) (use Cons.prems(1) calculation in auto)
  ultimately show ?case by (simp add: seqE_def bindE_def)
qed

text \<open>
  Whatever the candles (with positive closes), the exchange and the capital, the backtest fills
  nothing: it returns with all statistics zero and both balances as they were.  The grid of a candle
  is only ever simulated against the book made from the same candle, whose best prices lie at least
  five basis points beyond the close, while the nearest orders lie ten and thirty inside of them.
\<close>

theorem backtest_never_fills:
  assumes "0 < usd" and "ex \<in> set exchange_names" and "\<forall>c \<in> set candles. 0 < cd_close c"
  shows "\<exists>s'. run_backtest env candles ex usd (new_backtest usd token w) = (Inr (), s') \<and>
           bt_stats s' = no_stats \<and> bt_usd s' = usd \<and> bt_token s' = token"
proof -
  have "untouched usd token (new_backtest usd token w)" by (simp add: untouched_def new_backtest_def)
  moreover have "0 < cd_close c" if "(k, c) \<in> set (enumerate 0 candles)" for k c
    using that assms(3) by (auto simp: in_set_enumerate_eq dest!: nth_mem)
  ultimately show ?thesis
    using candles_untouched [of "enumerate 0 candles"] assms(1,2)
    by (fastforce simp: run_backtest_def untouched_def)
qed

definition flat_candle :: candle where
  "flat_candle = \<lparr>cd_timestamp = 0, cd_open = 1, cd_high = 1, cd_low = 1, cd_close = 1, cd_volume = 5000\<rparr>"

theorem backtest_never_fills_witness:
  "\<exists>s'. run_backtest sample_env (replicate 20 flat_candle) ''kucoin'' 1000 (new_backtest 1000 10000 (0::nat)) = (Inr (), s') \<and>
     bt_stats s' = no_stats \<and> bt_usd s' = 1000 \<and> bt_token s' = 10000"
  by (rule backtest_never_fills) (simp_all add: exchange_names_def flat_candle_def)

end
