(* ===== verification/BacktestReport.thy ===== *)
theory BacktestReport
  imports Backtest TextFormat
begin

text \<open>
  What \<open>scripts/backtest.py\<close> reports of a run: the trace of every fifth candle, the balances at market price
  and the net profit of the summary.
\<close>

section \<open>The trace\<close>

record trace_row =
  tr_ts :: int
  tr_mid :: real
  tr_vol :: real
  tr_agg :: real
  tr_skew :: real
  tr_fills :: nat
  tr_usd :: real
  tr_token :: real
  tr_mtm :: real

definition trace_row_of :: "candle \<Rightarrow> 'w backtest \<Rightarrow> trace_row" where
  "trace_row_of c s =
     (let vol = rolling_vol (bt_vol s)
      in \<lparr>tr_ts = py_int (cd_timestamp c), tr_mid = py_round_n 8 (cd_close c), tr_vol = py_round_n 8 vol,
          tr_agg = py_round_n 4 (compute_agg bt_vol_config vol), tr_skew = py_round_n 4 (skew_factor (bt_inventory s)),
          tr_fills = bs_total_fills (bt_stats s), tr_usd = py_round_n 4 (bt_usd s), tr_token = py_round_n 2 (bt_token s),
          tr_mtm = py_round_n 4 (bt_usd s + bt_token s * cd_close c)\<rparr>)"

text \<open>A candle before the warm-up is complete has no row.\<close>

definition bt_traced :: "'w env \<Rightarrow> depth_config \<Rightarrow> string \<Rightarrow> nat \<times> candle \<Rightarrow> ('w backtest, trace_row option) eff" where
  "bt_traced env depth ex = (\<lambda>(tick_id, c).
     seqE (bt_candle env depth ex (tick_id, c))
       (bindE (getsE id) (\<lambda>s.
          ret (if window_minutes bt_vol_config \<le> int (length (ve_closes (bt_vol s))) \<and> tick_id mod 5 = 0
               then Some (trace_row_of c s) else None))))"

section \<open>The result\<close>

definition at_market :: "real \<Rightarrow> real \<Rightarrow> real \<Rightarrow> real" where
  "at_market usd token mid = usd + token * mid"

record summary =
  su_initial_mtm :: real
  su_final_mtm :: real
  su_net :: real
  su_net_pct :: real
  su_stats :: backtest_stats
  su_rows :: "trace_row list"

definition summary_of :: "candle list \<Rightarrow> real \<Rightarrow> real \<Rightarrow> trace_row list \<Rightarrow> 'w backtest \<Rightarrow> summary" where
  "summary_of candles usd token rows s =
     (let final_mtm = at_market (bt_usd s) (bt_token s) (if candles = [] then 0 else cd_close (last candles));
          initial_mtm = at_market usd token (if candles = [] then 0 else cd_close (hd candles))
      in \<lparr>su_initial_mtm = initial_mtm, su_final_mtm = final_mtm, su_net = final_mtm - initial_mtm,
          su_net_pct = (final_mtm - initial_mtm) / max initial_mtm (1 / 10 ^ 9) * 100,
          su_stats = bt_stats s, su_rows = rows\<rparr>)"

text \<open>With an output file the rows are kept, without one there are none.\<close>

definition backtest_summary ::
  "'w env \<Rightarrow> candle list \<Rightarrow> string \<Rightarrow> real \<Rightarrow> real \<Rightarrow> bool \<Rightarrow> ('w backtest, summary) eff" where
  "backtest_summary env candles ex usd token csv =
     (if \<not> 0 < usd then raiseE (ValueError ''total_budget_usd'')
      else if ex \<notin> set exchange_names then raiseE (ValueError ''exchange'')
      else bindE (for_collect (bt_traced env (bt_depth_config usd) ex) (enumerate 0 candles)) (\<lambda>rows.
        bindE (getsE id) (\<lambda>s. ret (summary_of candles usd token (if csv then rows else []) s))))"

record backtest_cli =
  bk_exchange :: string
  bk_symbol :: string
  bk_days :: int
  bk_capital :: real
  bk_tokens :: real
  bk_out :: string

definition default_backtest_cli :: backtest_cli where
  "default_backtest_cli = \<lparr>bk_exchange = ''kucoin'', bk_symbol = ''ALKIMI/USDT'', bk_days = 30, bk_capital = 1000,
     bk_tokens = 10000, bk_out = ''backtest_trace.csv''\<rparr>"

text \<open>\<open>load\<close> is \<open>fetch_candles\<close>; without candles nothing is run.\<close>

definition backtest_main ::
  "'w env \<Rightarrow> (string \<Rightarrow> string \<Rightarrow> int \<Rightarrow> 'w \<Rightarrow> candle list result \<times> 'w) \<Rightarrow> backtest_cli \<Rightarrow> 'w \<Rightarrow> summary option result \<times> 'w"
where
  "backtest_main env load cli w =
     (case load (bk_exchange cli) (bk_symbol cli) (bk_days cli) w of
        (Inl e, w1) \<Rightarrow> (Inl e, w1)
      | (Inr candles, w1) \<Rightarrow>
          if candles = [] then (Inr None, w1)
          else (case backtest_summary env candles (bk_exchange cli) (bk_capital cli) (bk_tokens cli) (bk_out cli \<noteq> [])
                       (new_backtest (bk_capital cli) (bk_tokens cli) w1) of
                  (Inl e, s) \<Rightarrow> (Inl e, world s)
                | (Inr r, s) \<Rightarrow> (Inr (Some r), world s)))"

section \<open>What it shows\<close>

definition flat_row :: "real \<Rightarrow> real \<Rightarrow> trace_row \<Rightarrow> bool" where
  "flat_row usd token r \<longleftrightarrow> tr_fills r = 0 \<and> tr_usd r = py_round_n 4 usd \<and> tr_token r = py_round_n 2 token"

lemma traced_untouched:
  assumes "0 < cd_close (snd kc)" "untouched usd token s"
  shows "\<exists>r s'. bt_traced env depth ex kc s = (Inr r, s') \<and> untouched usd token s' \<and> (\<forall>row \<in> set_option r. flat_row usd token row)"
proof -
  obtain k c where kc: "kc = (k, c)" by fastforce
  obtain s' where run: "bt_candle env depth ex (k, c) s = (Inr (), s')" and u: "untouched usd token s'"
    using bt_candle_untouched [OF _ assms(2), of c env depth ex k] assms(1) kc by auto
  have "flat_row usd token (trace_row_of c s')"
    using u by (simp add: flat_row_def trace_row_of_def Let_def untouched_def no_stats_def)
  with u show ?thesis
    by (simp add: kc bt_traced_def seqE_def bindE_def run getsE_def ret_def)
qed

lemma trace_untouched:
  "(\<And>kc. kc \<in> set cs \<Longrightarrow> 0 < cd_close (snd kc)) \<Longrightarrow> untouched usd token s \<Longrightarrow>
   \<exists>rows s'. for_collect (bt_traced env depth ex) cs s = (Inr rows, s') \<and> untouched usd token s' \<and>
     (\<forall>row \<in> set rows. flat_row usd token row)"
proof (induction cs arbitrary: s)
  case Nil
  then show ?case by (simp add: ret_def)
next
  case (Cons kc cs)
  obtain r s1 where 1: "bt_traced env depth ex kc s = (Inr r, s1)" "untouched usd token s1" "\<forall>row \<in> set_option r. flat_row usd token row"
    using traced_untouched [of kc usd token s env depth ex] Cons.prems by (meson list.set_intros(1))
  obtain rows s' where "for_collect (bt_traced env depth ex) cs s1 = (Inr rows, s')" "untouched usd token s'"
    "\<forall>row \<in> set rows. flat_row usd token row"
    using Cons.IH [OF _ 1(2)] Cons.prems(1) by auto
  note IH = this
  show ?case
  proof (intro exI conjI)
    show "for_collect (bt_traced env depth ex) (kc # cs) s = (Inr (case r of None \<Rightarrow> rows | Some y \<Rightarrow> y # rows), s')"
      using 1(1) IH(1) by (simp add: bindE_def ret_def)
    show "\<forall>row \<in> set (case r of None \<Rightarrow> rows | Some y \<Rightarrow> y # rows). flat_row usd token row"
      using 1(3) IH(3) by (cases r) simp_all
  qed (rule IH(2))
qed

text \<open>
  C26. The profit a backtest reports says nothing about the strategy: it is the change of the market price on the
  starting tokens, whatever the candles are, and every row of the trace shows the starting balances.
\<close>

theorem backtest_profit_is_drift:
  assumes "0 < usd" "ex \<in> set exchange_names" "candles \<noteq> []" "\<forall>c \<in> set candles. 0 < cd_close c"
  shows "\<exists>r s'. backtest_summary env candles ex usd token csv (new_backtest usd token w) = (Inr r, s') \<and>
     su_net r = token * (cd_close (last candles) - cd_close (hd candles)) \<and>
     su_stats r = no_stats \<and> (\<forall>row \<in> set (su_rows r). flat_row usd token row)"
proof -
  have "untouched usd token (new_backtest usd token w)" by (simp add: untouched_def new_backtest_def)
  moreover have "0 < cd_close (snd kc)" if "kc \<in> set (enumerate 0 candles)" for kc
  proof -
    obtain k c where kc: "kc = (k, c)" by fastforce
    from that show ?thesis
      unfolding kc using assms(4) by (auto simp: in_set_enumerate_eq dest!: nth_mem)
  qed
  ultimately obtain rows s' where
    "for_collect (bt_traced env (bt_depth_config usd) ex) (enumerate 0 candles) (new_backtest usd token w) = (Inr rows, s')"
    "untouched usd token s'" "\<forall>row \<in> set rows. flat_row usd token row"
    using trace_untouched [of "enumerate 0 candles"] by blast
  with assms show ?thesis
    by (simp add: backtest_summary_def bindE_def getsE_def ret_def summary_of_def Let_def at_market_def untouched_def algebra_simps)
qed

lemma backtest_profit_is_drift_witness:
  "\<exists>r s'. backtest_summary sample_env [flat_candle, flat_candle\<lparr>cd_close := 2\<rparr>] ''kucoin'' 1000 10000 True (new_backtest 1000 10000 (0::nat)) = (Inr r, s') \<and>
     su_net r = 10000"
  using backtest_profit_is_drift [of 1000 "''kucoin''" "[flat_candle, flat_candle\<lparr>cd_close := 2\<rparr>]" sample_env 10000 True "0::nat"]
  by (auto simp: exchange_names_def flat_candle_def)

end
