(* ===== verification/DryRunDemo.thy ===== *)
theory DryRunDemo
  imports Volatility Spread Depth Aggressiveness Inventory TextFormat
begin

text \<open>
  \<open>scripts/dry_run_demo.py\<close>: the whole quant pipeline on a simulated price series, from prices to a grid of
  orders.  \<open>random.gauss\<close> is a parameter.  Of what is printed, the numbers are modelled.
\<close>

section \<open>Simulated market\<close>

definition fmt_price :: "real \<Rightarrow> string" where "fmt_price p = ''$'' @ fixed_point 6 p"
definition fmt_pct :: "real \<Rightarrow> string" where "fmt_pct p = signed_point 3 p @ ''%''"
definition fmt_usd :: "real \<Rightarrow> string" where "fmt_usd u = ''$'' @ fixed_point 2 u"

fun walk_prices :: "(real \<Rightarrow> 'g \<Rightarrow> real \<times> 'g) \<Rightarrow> real \<Rightarrow> nat \<Rightarrow> real \<Rightarrow> 'g \<Rightarrow> real list" where
  "walk_prices gauss volatility 0 p g = []"
| "walk_prices gauss volatility (Suc n) p g =
     (let (r, g') = gauss volatility g; p' = p * (1 + r) in p' # walk_prices gauss volatility n p' g')"

definition simulate_price_feed :: "(real \<Rightarrow> 'g \<Rightarrow> real \<times> 'g) \<Rightarrow> 'g \<Rightarrow> real \<Rightarrow> nat \<Rightarrow> real \<Rightarrow> real list" where
  "simulate_price_feed gauss g base minutes volatility = base # walk_prices gauss volatility (minutes * 60) base g"

definition candle_of :: "nat \<Rightarrow> real list \<Rightarrow> candle" where
  "candle_of i chunk =
     \<lparr>cd_timestamp = real i, cd_open = hd chunk, cd_high = Max (set chunk), cd_low = Min (set chunk),
      cd_close = last chunk, cd_volume = 10000\<rparr>"

text \<open>\<open>for i in range(0, len(prices) - period, period)\<close>; a last chunk that is only just full is left out.\<close>

definition chunk_starts :: "nat \<Rightarrow> nat \<Rightarrow> nat list" where
  "chunk_starts n period = map (\<lambda>k. k * period) [0 ..< (n - period + period - 1) div period]"

definition simulate_candles :: "real list \<Rightarrow> nat \<Rightarrow> candle list" where
  "simulate_candles prices period =
     map (\<lambda>i. candle_of i (take period (drop i prices))) (chunk_starts (length prices) period)"

section \<open>The pipeline\<close>

definition demo_vol :: volatility_config where
  "demo_vol = \<lparr>window_minutes = 10, low_threshold = 0.001, high_threshold = 0.003, vol_power = 2, base_aggressiveness = 1,
     trending_threshold = 0.0015, choppy_threshold = 0.0005, hmm = default_hmm_config\<rparr>"

definition demo_spread :: spread_config where
  "demo_spread = \<lparr>buy_min_pct = -5, buy_max_pct = -0.1, sell_min_pct = 0.3, sell_max_pct = 7, sp_curve_strength = 4,
     buy_levels = None, sell_levels = None, buy_curve_strength = None, sell_curve_strength = None,
     buy_min_step = 0, sell_min_step = 0, tick_size = 0\<rparr>"

definition demo_depth :: depth_config where
  "demo_depth = \<lparr>dp_levels = 5, total_budget_usd = 1000, dp_curve_strength = 4, min_order_usd = 5, min_step_usd = 0\<rparr>"

definition demo_inventory :: inventory where
  "demo_inventory =
     inv_update \<lparr>bal_usd = 650, bal_token = 4200, bal_quote_currency = ''USDT''\<rparr>
       (record_initial \<lparr>bal_usd = 500, bal_token = 5000, bal_quote_currency = ''USDT''\<rparr> (new_inventory 0 0 0))"

record demo =
  dm_mid :: real
  dm_vol :: real
  dm_zz :: "real \<times> string"
  dm_agg :: real
  dm_buy_agg :: real
  dm_sell_agg :: real
  dm_skew :: real
  dm_buy_spreads :: "real list"
  dm_sell_spreads :: "real list"
  dm_buy_prices :: "real list"
  dm_sell_prices :: "real list"
  dm_buy_usd :: "real list"
  dm_sell_usd :: "real list"
  dm_buy_tokens :: "real list"
  dm_sell_tokens :: "real list"

definition demo_engine :: "real \<Rightarrow> real list \<Rightarrow> vol_engine" where
  "demo_engine now prices =
     update_candles (simulate_candles prices 60) (fold (update_price now) prices (new_vol_engine demo_vol))"

definition demo_main :: "real \<Rightarrow> real list \<Rightarrow> demo" where
  "demo_main now prices =
     (let engine = demo_engine now prices; global_mid = last prices; vol = rolling_vol engine;
          zz = fst (zhang_zhang_vol engine); agg = compute_agg demo_vol vol;
          (buy_agg, sell_agg) = compute_with_regime demo_vol vol (snd zz);
          skew = skew_factor demo_inventory;
          (buy_spreads, sell_spreads) = compute_levels_dual (new_spread_engine demo_spread 0) buy_agg sell_agg 5;
          (buy_prices, sell_prices) = prices_from_spreads global_mid buy_spreads sell_spreads;
          buy_usd = compute_amounts demo_depth buy_agg 5 skew ''buy'' 0 1;
          sell_usd = compute_amounts demo_depth sell_agg 5 skew ''sell'' 0 1
      in \<lparr>dm_mid = global_mid, dm_vol = vol, dm_zz = zz, dm_agg = agg, dm_buy_agg = buy_agg, dm_sell_agg = sell_agg,
          dm_skew = skew, dm_buy_spreads = buy_spreads, dm_sell_spreads = sell_spreads,
          dm_buy_prices = buy_prices, dm_sell_prices = sell_prices, dm_buy_usd = buy_usd, dm_sell_usd = sell_usd,
          dm_buy_tokens = map2 usd_to_token_amount buy_usd buy_prices,
          dm_sell_tokens = map2 usd_to_token_amount sell_usd sell_prices\<rparr>)"

section \<open>Candles\<close>

lemma chunk_count: "0 < period \<Longrightarrow> length (chunk_starts n period) = (if n < period then 0 else (n - 1) div period)"
  by (auto simp: chunk_starts_def)

lemma chunk_inside:
  assumes "0 < period" "i \<in> set (chunk_starts n period)"
  shows "i + period < n"
proof -
  obtain k where k: "i = k * period" "k < (n - period + period - 1) div period"
    using assms(2) unfolding chunk_starts_def by (metis (no_types, lifting) atLeastLessThan_iff imageE set_map set_upt)
  have "Suc k * period \<le> n - period + period - 1"
    using k(2) assms(1) by (metis Suc_leI less_eq_div_iff_mult_less_eq)
  then show ?thesis using k(1) assms(1) by (cases "period \<le> n") auto
qed

text \<open>Ten minutes of prices, and the starting price, make ten candles; without that price the last one is lost.\<close>

lemma length_walk_prices [simp]: "length (walk_prices gauss v n p g) = n"
  by (induction n arbitrary: p g) (simp_all add: Let_def split: prod.split)

lemma demo_candle_count:
  "length (simulate_candles (simulate_price_feed gauss g base 10 volatility) 60) = 10"
  "length xs = 600 \<Longrightarrow> length (simulate_candles xs 60) = 9"
  by (simp_all add: simulate_candles_def chunk_count simulate_price_feed_def)

text \<open>A candle's open, close, high and low are of its own chunk.\<close>

lemma candle_bounds:
  assumes "0 < period" "c \<in> set (simulate_candles prices period)"
  shows "cd_low c \<le> cd_open c \<and> cd_open c \<le> cd_high c \<and> cd_low c \<le> cd_close c \<and> cd_close c \<le> cd_high c \<and>
     {cd_open c, cd_close c, cd_high c, cd_low c} \<subseteq> set prices"
proof -
  obtain i where i: "i \<in> set (chunk_starts (length prices) period)" "c = candle_of i (take period (drop i prices))"
    using assms(2) by (auto simp: simulate_candles_def)
  let ?chunk = "take period (drop i prices)"
  have ne: "?chunk \<noteq> []" using chunk_inside [OF assms(1) i(1)] assms(1) by simp
  have sub: "set ?chunk \<subseteq> set prices" by (meson order_trans set_drop_subset set_take_subset)
  have "Max (set ?chunk) \<in> set ?chunk" "Min (set ?chunk) \<in> set ?chunk"
    using ne by (auto intro!: Max_in Min_in)
  moreover have "hd ?chunk \<in> set ?chunk" "last ?chunk \<in> set ?chunk" using hd_in_set [OF ne] last_in_set [OF ne] by blast+
  ultimately show ?thesis using sub ne by (auto simp: i(2) candle_of_def intro: Min_le Max_ge)
qed

section \<open>The grid of the demo\<close>

lemma demo_skew: "skew_factor demo_inventory = 1.32"
  by (simp add: demo_inventory_def inv_update_def record_initial_def new_inventory_def skew_factor_def clip_def)

lemma demo_depth_ok: "depth_ok demo_depth"
  by (simp add: depth_ok_def demo_depth_def between_def)

lemma scaled_levels:
  assumes "0 < (m :: real)" "\<And>x. x \<in> set xs \<Longrightarrow> lo \<le> x \<and> x \<le> hi" "p \<in> set (map (\<lambda>x. m * (1 + x / 100)) xs)"
  shows "(1 + lo / 100) * m \<le> p \<and> p \<le> (1 + hi / 100) * m"
proof -
  obtain x where x: "x \<in> set xs" "p = m * (1 + x / 100)" using assms(3) by auto
  have "m * (1 + lo / 100) \<le> m * (1 + x / 100)" "m * (1 + x / 100) \<le> m * (1 + hi / 100)"
    using assms(1) assms(2) [OF x(1)] by (intro mult_left_mono; simp add: divide_right_mono)+
  with x(2) show ?thesis by (simp add: mult.commute)
qed

lemma demo_spreads:
  "x \<in> set (fst (compute_levels_dual (new_spread_engine demo_spread 0) a b n)) \<Longrightarrow> -5 \<le> x \<and> x \<le> -0.1"
  "x \<in> set (snd (compute_levels_dual (new_spread_engine demo_spread 0) a b n)) \<Longrightarrow> 0.3 \<le> x \<and> x \<le> 7"
proof -
  let ?e = "new_spread_engine demo_spread 0"
  assume "x \<in> set (fst (compute_levels_dual ?e a b n))"
  then have "x \<in> set (compute_side_levels ?e (-0.1) (-5) (clip a 0 1) n None)"
    by (simp add: compute_levels_dual_def) (simp add: new_spread_engine_def demo_spread_def)
  from side_level_between [OF this] show "-5 \<le> x \<and> x \<le> -0.1" by simp
next
  let ?e = "new_spread_engine demo_spread 0"
  assume "x \<in> set (snd (compute_levels_dual ?e a b n))"
  then have "x \<in> set (compute_side_levels ?e 0.3 7 (clip b 0 1) n None)"
    by (simp add: compute_levels_dual_def) (simp add: new_spread_engine_def demo_spread_def)
  from side_level_between [OF this] show "0.3 \<le> x \<and> x \<le> 7" by simp
qed

lemma tokens_times_price:
  assumes "length us = length ps" "\<And>p. p \<in> set ps \<Longrightarrow> 0 < p"
  shows "map2 (*) (map2 usd_to_token_amount us ps) ps = us"
  using assms by (induction us ps rule: list_induct2) (auto simp: usd_to_token_value)

lemma demo_amounts:
  "length (compute_amounts demo_depth agg 5 skew side 0 1) = 5"
  "u \<in> set (compute_amounts demo_depth agg 5 skew side 0 1) \<Longrightarrow> 5 \<le> u"
  "sorted_wrt (\<ge>) (compute_amounts demo_depth agg 5 skew side 0 1)"
  "sum_list (compute_amounts demo_depth agg 5 skew side 0 1) \<le> side_budget demo_depth skew side 1 + 25"
  using compute_amounts_spec [OF demo_depth_ok, of agg 5 skew side 0 1] by (auto simp: demo_depth_def)

lemma demo_budgets: "side_budget demo_depth 1.32 ''buy'' 1 = 660" "side_budget demo_depth 1.32 ''sell'' 1 = 340"
  by (simp_all add: side_budget_def demo_depth_def clip_def)

text \<open>
  Whatever prices the pipeline is fed, if the last one is positive the five levels of each side lie within the
  configured bands around it, every level is worth the minimum order, the amounts do not grow outward,
  and the tokens of a level at its price are its amount.
\<close>

theorem demo_grid_sound:
  assumes "0 < last prices"
  shows "case demo_main now prices of d \<Rightarrow>
     length (dm_buy_prices d) = 5 \<and> length (dm_sell_prices d) = 5 \<and>
     (\<forall>p \<in> set (dm_buy_prices d). 0.95 * dm_mid d \<le> p \<and> p \<le> 0.999 * dm_mid d) \<and>
     (\<forall>p \<in> set (dm_sell_prices d). 1.003 * dm_mid d \<le> p \<and> p \<le> 1.07 * dm_mid d) \<and>
     (\<forall>u \<in> set (dm_buy_usd d) \<union> set (dm_sell_usd d). 5 \<le> u) \<and>
     sorted_wrt (\<ge>) (dm_buy_usd d) \<and> sorted_wrt (\<ge>) (dm_sell_usd d) \<and>
     map2 (*) (dm_buy_tokens d) (dm_buy_prices d) = dm_buy_usd d \<and>
     map2 (*) (dm_sell_tokens d) (dm_sell_prices d) = dm_sell_usd d \<and>
     sum_list (dm_buy_usd d) \<le> 660 + 25 \<and> sum_list (dm_sell_usd d) \<le> 340 + 25"
proof -
  let ?mid = "last prices"
  obtain d where d: "demo_main now prices = d" by simp
  define bs ss where "bs = dm_buy_spreads d" and "ss = dm_sell_spreads d"
  obtain a b where ab: "compute_levels_dual (new_spread_engine demo_spread 0) a b 5 = (bs, ss)"
    and prices: "dm_mid d = ?mid" "dm_buy_prices d = map (\<lambda>x. ?mid * (1 + x / 100)) bs" "dm_sell_prices d = map (\<lambda>x. ?mid * (1 + x / 100)) ss"
    and usd: "dm_buy_usd d = compute_amounts demo_depth a 5 1.32 ''buy'' 0 1" "dm_sell_usd d = compute_amounts demo_depth b 5 1.32 ''sell'' 0 1"
    and tokens: "dm_buy_tokens d = map2 usd_to_token_amount (dm_buy_usd d) (dm_buy_prices d)"
      "dm_sell_tokens d = map2 usd_to_token_amount (dm_sell_usd d) (dm_sell_prices d)"
    using d by (auto simp: demo_main_def Let_def case_prod_unfold demo_skew bs_def ss_def prices_from_spreads_def)
  have len: "length bs = 5" "length ss = 5" using ab by (auto simp: compute_levels_dual_def)
  have buy: "(1 + -5 / 100) * ?mid \<le> p \<and> p \<le> (1 + -0.1 / 100) * ?mid" if "p \<in> set (dm_buy_prices d)" for p
    using scaled_levels [OF assms _ that [unfolded prices(2)], of "-5" "-0.1"] demo_spreads(1) [of _ a b 5] by (simp add: ab)
  have sell: "(1 + 0.3 / 100) * ?mid \<le> p \<and> p \<le> (1 + 7 / 100) * ?mid" if "p \<in> set (dm_sell_prices d)" for p
    using scaled_levels [OF assms _ that [unfolded prices(3)], of "0.3" "7"] demo_spreads(2) [of _ a b 5] by (simp add: ab)
  have pos: "0 < p" if "p \<in> set (dm_buy_prices d) \<union> set (dm_sell_prices d)" for p
    using buy [of p] sell [of p] that assms by (auto intro: less_le_trans [rotated])
  have "map2 (*) (dm_buy_tokens d) (dm_buy_prices d) = dm_buy_usd d" "map2 (*) (dm_sell_tokens d) (dm_sell_prices d) = dm_sell_usd d"
    unfolding tokens using pos len by (auto intro!: tokens_times_price simp: prices usd demo_amounts(1))
  moreover have "\<forall>u \<in> set (dm_buy_usd d) \<union> set (dm_sell_usd d). 5 \<le> u" by (auto simp: usd demo_amounts(2))
  moreover have "sorted_wrt (\<ge>) (dm_buy_usd d)" "sorted_wrt (\<ge>) (dm_sell_usd d)" unfolding usd by (rule demo_amounts(3))+
  moreover have "sum_list (dm_buy_usd d) \<le> 660 + 25" "sum_list (dm_sell_usd d) \<le> 340 + 25"
    using demo_amounts(4) [of a "1.32" "''buy''"] demo_amounts(4) [of b "1.32" "''sell''"] unfolding usd demo_budgets .
  ultimately show ?thesis
    using buy sell len unfolding d by (simp add: prices)
qed

lemma demo_grid_sound_witness:
  "sum_list (dm_buy_usd (demo_main 0 [0.015, 0.0151, 0.0149, 0.015])) \<le> 660 + 25"
  using demo_grid_sound [of "[0.015, 0.0151, 0.0149, 0.015]" 0] by simp

end
