(* ===== verification/GateWs.thy ===== *)
theory GateWs
  imports AbScript ConfigSchema TextFormat
begin

text \<open>
  \<open>scripts/gate_ws_raw.py\<close>: subscribe to channels of Gate.io's WebSocket and print every frame.  The
  WebSocket library, the JSON library, HMAC-SHA512 and Python's \<open>str\<close> and \<open>float\<close> of a JSON value are
  parameters; local time as text is one too.  What is printed outside the frames (the banner, the progress of
  the subscriptions) is left out.
\<close>

section \<open>Libraries and state\<close>

record 'w ws_dump_lib =
  wd_connect :: "'w \<Rightarrow> unit result \<times> 'w"
  wd_close :: "'w \<Rightarrow> 'w"
  wd_send :: "json \<Rightarrow> 'w \<Rightarrow> unit result \<times> 'w"
  wd_recv :: "'w \<Rightarrow> string option result \<times> 'w"  \<comment> \<open>None after five seconds without a frame\<close>
  wd_loads :: "string \<Rightarrow> json option"
  wd_indent :: "json \<Rightarrow> string"
  wd_hmac :: "string \<Rightarrow> string \<Rightarrow> string"
  wd_str :: "json \<Rightarrow> string"
  wd_float :: "json \<Rightarrow> real option"
  wd_stamp :: "'w \<Rightarrow> string \<times> 'w"

record 'w dump = "'w sys" +
  du_printed :: "string list"

definition say :: "string \<Rightarrow> (('w, 'z) dump_scheme, unit) eff" where
  "say line = modE (\<lambda>s. s\<lparr>du_printed := du_printed s @ [line]\<rparr>)"

definition say_all :: "string list \<Rightarrow> (('w, 'z) dump_scheme, unit) eff" where
  "say_all = for_each say"

definition AttributeError :: exn where
  "AttributeError = OtherError ''AttributeError''"

section \<open>Subscriptions\<close>

definition gate_symbol :: string where
  "gate_symbol = ''ALKIMI_USDT''"

definition ws_sign :: "'w ws_dump_lib \<Rightarrow> string \<Rightarrow> string \<Rightarrow> int \<Rightarrow> string" where
  "ws_sign lib secret channel ts =
     wd_hmac lib secret (''channel='' @ channel @ ''&event=subscribe&time='' @ str_int ts)"

definition full_channel :: "string \<Rightarrow> string" where
  "full_channel ch = (if ch = ''ticker'' then ''spot.'' @ ch @ ''s'' else ''spot.'' @ ch)"

definition subscription :: "'w ws_dump_lib \<Rightarrow> string \<Rightarrow> string \<Rightarrow> int \<Rightarrow> string \<Rightarrow> (string \<times> json) list" where
  "subscription lib api_key secret ts ch =
     [(''time'', JNum (of_int ts)), (''channel'', JStr (full_channel ch)), (''event'', JStr ''subscribe'')]
     @ (if ch \<in> {''orders'', ''balances''}
        then [(''payload'', JArr (if ch = ''orders'' then [JStr gate_symbol] else [])),
              (''auth'', JObj [(''method'', JStr ''api_key''), (''KEY'', JStr api_key),
                               (''SIGN'', JStr (ws_sign lib secret (full_channel ch) ts))])]
        else [(''payload'', JArr [JStr gate_symbol])])"

section \<open>Frames\<close>

text \<open>Truth of a JSON value, and \<open>.get\<close>, which only an object has.\<close>

fun truthy :: "json \<Rightarrow> bool" where
  "truthy JNull = False"
| "truthy (JBool b) = b"
| "truthy (JNum x) = (x \<noteq> 0)"
| "truthy (JStr s) = (s \<noteq> [])"
| "truthy (JArr xs) = (xs \<noteq> [])"
| "truthy (JObj d) = (d \<noteq> [])"

fun json_get :: "json \<Rightarrow> string \<Rightarrow> json \<Rightarrow> json result" where
  "json_get (JObj d) k dflt = Inr (case dict_get d k of Some v \<Rightarrow> v | None \<Rightarrow> dflt)"
| "json_get _ k dflt = Inl AttributeError"

fun_cases json_get_InrE: "json_get j k dflt = Inr v"

fun hashable :: "json \<Rightarrow> bool" where
  "hashable (JArr _) = False"
| "hashable (JObj _) = False"
| "hashable _ = True"

definition escape :: "string \<Rightarrow> string" where
  "escape code = char_of (27 :: nat) # code"

definition channel_colour :: "json \<Rightarrow> string" where
  "channel_colour ch =
     (case dict_get [(''spot.tickers'', ''[96m''), (''spot.orders'', ''[93m''), (''spot.balances'', ''[92m''),
                     (''spot.ping'', ''[90m''), (''spot.pong'', ''[90m'')]
            (case ch of JStr s \<Rightarrow> s | _ \<Rightarrow> []) of Some c \<Rightarrow> escape c | None \<Rightarrow> escape ''[37m'')"

definition in_red :: "string \<Rightarrow> string" where
  "in_red t = escape ''[91m'' @ t @ escape ''[0m''"

definition liftE :: "'a result \<Rightarrow> ('s, 'a) eff" where
  "liftE r s = (r, s)"

abbreviation unknown :: json where
  "unknown \<equiv> JStr ''?''"

definition spread_text :: "'w ws_dump_lib \<Rightarrow> json \<Rightarrow> json \<Rightarrow> json \<Rightarrow> string" where
  "spread_text lib bid ask last_price =
     (case (wd_float lib ask, wd_float lib bid, wd_float lib last_price) of
        (Some a, Some b, Some l) \<Rightarrow>
          if l = 0 then [] else ''  spread= '' @ fixed_point 8 (a - b) @ ''  ('' @ fixed_point 4 ((a - b) / l * 100) @ ''%)''
      | _ \<Rightarrow> [])"

definition show_ticker :: "'w ws_dump_lib \<Rightarrow> json \<Rightarrow> (('w, 'z) dump_scheme, unit) eff" where
  "show_ticker lib obj =
     bindE (liftE (json_get obj ''result'' (JObj []))) (\<lambda>r.
     bindE (liftE (json_get r ''highest_bid'' unknown)) (\<lambda>bid.
     bindE (liftE (json_get r ''lowest_ask'' unknown)) (\<lambda>ask.
     bindE (liftE (json_get r ''last'' unknown)) (\<lambda>last_price.
     bindE (liftE (json_get r ''base_volume'' unknown)) (\<lambda>vol.
       say_all [''  bid   = '' @ wd_str lib bid, ''  ask   = '' @ wd_str lib ask, ''  last  = '' @ wd_str lib last_price,
                ''  vol   = '' @ wd_str lib vol, spread_text lib bid ask last_price])))))"

definition show_order :: "'w ws_dump_lib \<Rightarrow> json \<Rightarrow> (('w, 'z) dump_scheme, unit) eff" where
  "show_order lib o' =
     bindE (liftE (json_get o' ''id'' unknown)) (\<lambda>i.
     bindE (liftE (json_get o' ''side'' unknown)) (\<lambda>side.
     bindE (liftE (json_get o' ''status'' unknown)) (\<lambda>status.
     bindE (liftE (json_get o' ''price'' unknown)) (\<lambda>price.
     bindE (liftE (json_get o' ''amount'' unknown)) (\<lambda>amount.
       say (''  id='' @ wd_str lib i @ ''  side='' @ wd_str lib side @ ''  status='' @ wd_str lib status @
            ''  price='' @ wd_str lib price @ ''  amount='' @ wd_str lib amount))))))"

definition show_orders :: "'w ws_dump_lib \<Rightarrow> json \<Rightarrow> (('w, 'z) dump_scheme, unit) eff" where
  "show_orders lib obj =
     bindE (liftE (json_get obj ''result'' (JArr []))) (\<lambda>r.
       case r of JArr xs \<Rightarrow> for_each (show_order lib) xs | _ \<Rightarrow> say (''  result: '' @ wd_str lib r))"

definition show_balances :: "'w ws_dump_lib \<Rightarrow> json \<Rightarrow> (('w, 'z) dump_scheme, unit) eff" where
  "show_balances lib obj =
     bindE (liftE (json_get obj ''result'' (JObj []))) (\<lambda>r.
     bindE (liftE (json_get r ''currency'' unknown)) (\<lambda>c.
     bindE (liftE (json_get r ''available'' unknown)) (\<lambda>a.
     bindE (liftE (json_get r ''total'' unknown)) (\<lambda>t.
       say_all [''  currency  = '' @ wd_str lib c, ''  available = '' @ wd_str lib a, ''  total     = '' @ wd_str lib t]))))"

definition pretty_json :: "'w ws_dump_lib \<Rightarrow> string \<Rightarrow> string" where
  "pretty_json lib raw = (case wd_loads lib raw of Some j \<Rightarrow> wd_indent lib j | None \<Rightarrow> raw)"

definition show_body :: "'w ws_dump_lib \<Rightarrow> string \<Rightarrow> json \<Rightarrow> json \<Rightarrow> json \<Rightarrow> json \<Rightarrow> (('w, 'z) dump_scheme, unit) eff" where
  "show_body lib raw obj channel event error =
     (if channel = JStr ''spot.tickers'' \<and> event = JStr ''update'' then show_ticker lib obj
      else if channel = JStr ''spot.orders'' \<and> event = JStr ''update'' then show_orders lib obj
      else if channel = JStr ''spot.balances'' \<and> event = JStr ''update'' then show_balances lib obj
      else if event = JStr ''subscribe''
      then say (if truthy error then ''  '' @ in_red (''Subscription FAILED for '' @ wd_str lib channel @ '': '' @ wd_str lib error)
                else ''  Subscription ACK for '' @ wd_str lib channel @ '' '' @ em_dash @ '' OK'')
      else if channel = JStr ''spot.ping'' \<or> channel = JStr ''spot.pong''
      then say (''  Heartbeat / pong '' @ em_dash @ '' connection alive'')
      else say (pretty_json lib raw))"

text \<open>Everything between receiving a frame and the next one; the number counts the frames.\<close>

definition frame_json :: "'w ws_dump_lib \<Rightarrow> string \<Rightarrow> json result" where
  "frame_json lib raw =
     (if raw = [] then Inr (JObj []) else case wd_loads lib raw of Some j \<Rightarrow> Inr j | None \<Rightarrow> Inl (ValueError ''JSONDecodeError''))"

definition show_frame :: "'w ws_dump_lib \<Rightarrow> nat \<Rightarrow> string \<Rightarrow> (('w, 'z) dump_scheme, unit) eff" where
  "show_frame lib count raw =
     bindE (liftE (frame_json lib raw)) (\<lambda>obj.
     bindE (liftE (json_get obj ''channel'' (JStr ''unknown''))) (\<lambda>channel.
     bindE (liftE (json_get obj ''event'' (JStr []))) (\<lambda>event.
     if \<not> hashable channel then raiseE (OtherError ''TypeError'') else
     bindE (liftE (json_get obj ''error'' JNull)) (\<lambda>error.
     bindE (envE (wd_stamp lib)) (\<lambda>stamp.
     (let colour = channel_colour channel; rule = colour @ concat (replicate 72 box_line) @ escape ''[0m'';
          tag = (if truthy error then ''  '' @ in_red (''ERROR: '' @ wd_str lib error) else [])
      in seqE (say_all [rule, colour @ ''  ['' @ stamp @ '']  #'' @ pad_zeros 4 (digits count) @ ''  channel='' @ wd_str lib channel @
                        ''  event='' @ wd_str lib event @ tag @ escape ''[0m'', rule])
           (seqE (show_body lib raw obj channel event error) (say []))))))))"

section \<open>The run\<close>

definition ping_frame :: "int \<Rightarrow> (string \<times> json) list" where
  "ping_frame ts = [(''time'', JNum (of_int ts)), (''channel'', JStr ''spot.ping'')]"

text \<open>At most \<open>n\<close> passes; the result is the number of frames.\<close>

fun receive_loop :: "nat \<Rightarrow> 'w env \<Rightarrow> 'w ws_dump_lib \<Rightarrow> real \<Rightarrow> nat \<Rightarrow> (('w, 'z) dump_scheme, nat) eff" where
  "receive_loop 0 env lib deadline count = ret count"
| "receive_loop (Suc n) env lib deadline count =
     bindE (now_s env) (\<lambda>now.
       if deadline \<le> now then ret count
       else bindE (callE (wd_recv lib)) (\<lambda>got. case got of
           None \<Rightarrow> bindE (now_s env) (\<lambda>t.
             seqE (callE (wd_send lib (JObj (ping_frame (py_int t))))) (receive_loop n env lib deadline count))
         | Some raw \<Rightarrow> seqE (show_frame lib (Suc count) raw) (receive_loop n env lib deadline (Suc count))))"

definition dump_session ::
  "nat \<Rightarrow> 'w env \<Rightarrow> 'w ws_dump_lib \<Rightarrow> string \<Rightarrow> string \<Rightarrow> string list \<Rightarrow> real \<Rightarrow> (('w, 'z) dump_scheme, nat) eff"
where
  "dump_session n env lib api_key secret channels deadline =
     bindE (now_s env) (\<lambda>t.
     seqE (for_each (\<lambda>ch. callE (wd_send lib (JObj (subscription lib api_key secret (py_int t) ch)))) channels)
       (receive_loop n env lib deadline 0))"

text \<open>\<open>async with\<close>: the connection is closed however the session ends.\<close>

definition closing :: "('w \<Rightarrow> 'w) \<Rightarrow> (('w, 'z) sys_scheme, 'a) eff \<Rightarrow> (('w, 'z) sys_scheme, 'a) eff" where
  "closing close m s = (case m s of (r, s') \<Rightarrow> (r, s'\<lparr>world := close (world s')\<rparr>))"

definition run_dump ::
  "nat \<Rightarrow> 'w env \<Rightarrow> 'w ws_dump_lib \<Rightarrow> (string \<times> string) list \<Rightarrow> string list \<Rightarrow> real \<Rightarrow> (('w, 'z) dump_scheme, nat) eff"
where
  "run_dump n env lib vars channels duration =
     (let api_key = env_var vars ''GATE_API_KEY''; secret = env_var vars ''GATE_API_SECRET''
      in if api_key = [] \<or> secret = [] then raiseE (OtherError ''SystemExit'')
         else bindE (now_s env) (\<lambda>t.
           seqE (callE (wd_connect lib))
             (closing (wd_close lib) (dump_session n env lib api_key secret channels (t + duration)))))"

definition dump_main ::
  "nat \<Rightarrow> 'w env \<Rightarrow> 'w ws_dump_lib \<Rightarrow> (string \<times> string) list \<Rightarrow> string \<Rightarrow> real \<Rightarrow> (('w, 'z) dump_scheme, nat) eff"
where
  "dump_main n env lib vars channels duration =
     (let channel_list = map strip (filter (\<lambda>c. strip c \<noteq> []) (split_commas channels))
      in if list_ex (\<lambda>c. c \<notin> {''ticker'', ''orders'', ''balances''}) channel_list then raiseE (OtherError ''SystemExit'')
         else run_dump n env lib vars channel_list duration)"

section \<open>Which frames the dump survives\<close>

fun is_object :: "json \<Rightarrow> bool" where
  "is_object (JObj _) = True"
| "is_object _ = False"

text \<open>The shape the printing code takes for granted.\<close>

fun frame_fine :: "json \<Rightarrow> bool" where
  "frame_fine (JObj d) \<longleftrightarrow>
     (let get = (\<lambda>k dflt. case dict_get d k of Some v \<Rightarrow> v | None \<Rightarrow> dflt);
          channel = get ''channel'' (JStr ''unknown''); upd = get ''event'' (JStr []) = JStr ''update''
      in hashable channel \<and>
         (if channel = JStr ''spot.tickers'' \<and> upd then is_object (get ''result'' (JObj []))
          else if channel = JStr ''spot.orders'' \<and> upd
          then (case get ''result'' (JArr []) of JArr xs \<Rightarrow> list_all is_object xs | _ \<Rightarrow> True)
          else if channel = JStr ''spot.balances'' \<and> upd then is_object (get ''result'' (JObj []))
          else True))"
| "frame_fine _ \<longleftrightarrow> False"

definition returns :: "('s, 'a) eff \<Rightarrow> 's \<Rightarrow> bool" where
  "returns m s \<longleftrightarrow> \<not> isl (fst (m s))"

lemma returns_say [simp]: "returns (say t) s"
  by (simp add: returns_def say_def modE_def)

lemma returns_basic [simp]:
  "returns (ret x) s" "\<not> returns (raiseE e) s" "returns (liftE r) s \<longleftrightarrow> \<not> isl r"
  by (simp_all add: returns_def ret_def raiseE_def liftE_def)

lemma returns_seq [simp]: "returns (seqE m n) s \<longleftrightarrow> returns m s \<and> returns n (snd (m s))"
  by (auto simp: returns_def seqE_def bindE_def split: sum.split prod.split)

lemma returns_bind_lift [simp]: "returns (bindE (liftE r) f) s \<longleftrightarrow> (case r of Inl _ \<Rightarrow> False | Inr x \<Rightarrow> returns (f x) s)"
  by (auto simp: returns_def bindE_def liftE_def split: sum.split)

lemma returns_bind_env [simp]: "returns (bindE (envE g) f) s \<longleftrightarrow> (case g (world s) of (x, w) \<Rightarrow> returns (f x) (s\<lparr>world := w\<rparr>))"
  by (simp add: returns_def bindE_def envE_def split: prod.split)

lemma returns_for_each: "(\<And>x s. returns (f x) s \<longleftrightarrow> P x) \<Longrightarrow> returns (for_each f xs) s \<longleftrightarrow> list_all P xs"
  by (induction xs arbitrary: s) auto

lemma returns_say_all [simp]: "returns (say_all ls) s"
  unfolding say_all_def by (subst returns_for_each [where P = "\<lambda>_. True"]) (simp_all add: list_all_iff)

lemma json_get_object: "json_get j k dflt = (if is_object j then json_get j k dflt else Inl AttributeError)"
  by (cases j) simp_all

lemma returns_show_ticker:
  "returns (show_ticker lib (JObj d)) s \<longleftrightarrow> is_object (case dict_get d ''result'' of Some v \<Rightarrow> v | None \<Rightarrow> JObj [])"
  by (cases "case dict_get d ''result'' of Some v \<Rightarrow> v | None \<Rightarrow> JObj []") (simp_all add: show_ticker_def)

lemma returns_show_order: "returns (show_order lib j) s \<longleftrightarrow> is_object j"
  by (cases j) (simp_all add: show_order_def)

lemma returns_show_balances:
  "returns (show_balances lib (JObj d)) s \<longleftrightarrow> is_object (case dict_get d ''result'' of Some v \<Rightarrow> v | None \<Rightarrow> JObj [])"
  by (cases "case dict_get d ''result'' of Some v \<Rightarrow> v | None \<Rightarrow> JObj []") (simp_all add: show_balances_def)

lemma returns_show_orders:
  "returns (show_orders lib (JObj d)) s \<longleftrightarrow>
     (case (case dict_get d ''result'' of Some v \<Rightarrow> v | None \<Rightarrow> JArr []) of JArr xs \<Rightarrow> list_all is_object xs | _ \<Rightarrow> True)"
  by (cases "case dict_get d ''result'' of Some v \<Rightarrow> v | None \<Rightarrow> JArr []")
    (simp_all add: show_orders_def returns_for_each [OF returns_show_order])

text \<open>
  Whatever is printed, a frame is survived exactly if it is empty or parses to an object of the expected
  shape.  Every other frame raises out of the receive loop and ends the dump.
\<close>

theorem dump_survives_iff:
  "(\<exists>s'. show_frame lib count raw s = (Inr (), s')) \<longleftrightarrow>
     raw = [] \<or> (case wd_loads lib raw of Some j \<Rightarrow> frame_fine j | None \<Rightarrow> False)"
proof -
  have "(\<exists>s'. show_frame lib count raw s = (Inr (), s')) \<longleftrightarrow> returns (show_frame lib count raw) s"
    by (cases "show_frame lib count raw s"; cases "fst (show_frame lib count raw s)") (auto simp: returns_def)
  moreover have "returns (show_frame lib count [] :: ('a, 'b) dump_scheme \<Rightarrow> _) s"
    by (simp add: show_frame_def frame_json_def Let_def show_body_def split: prod.split)
  moreover have "returns (show_frame lib count raw) s \<longleftrightarrow> frame_fine (JObj d)" if "raw \<noteq> []" "wd_loads lib raw = Some (JObj d)" for d
    using that
    by (simp add: show_frame_def frame_json_def Let_def show_body_def returns_show_ticker returns_show_orders
        returns_show_balances split: prod.split)
  moreover have "\<not> returns (show_frame lib count raw) s"
    if "raw \<noteq> []" "\<forall>d. wd_loads lib raw \<noteq> Some (JObj d)"
  proof (cases "wd_loads lib raw")
    case (Some j)
    with that show ?thesis by (cases j) (simp_all add: show_frame_def frame_json_def)
  qed (use that in \<open>simp add: show_frame_def frame_json_def\<close>)
  ultimately show ?thesis
    by (cases "raw = []"; cases "wd_loads lib raw"; cases "the (wd_loads lib raw)") auto
qed

section \<open>Consequences\<close>

text \<open>A balance update with an array of balances, which the C++ connector accepts, ends the dump.\<close>

lemma balance_array_ends_dump:
  assumes "read_clock env (world s) = (now, w1)" "now < deadline" "wd_recv lib w1 = (Inr (Some raw), w2)" "raw \<noteq> []"
    and "wd_loads lib raw = Some (JObj d)" "dict_get d ''channel'' = Some (JStr ''spot.balances'')"
        "dict_get d ''event'' = Some (JStr ''update'')" "dict_get d ''result'' = Some (JArr xs)"
  shows "isl (fst (receive_loop (Suc n) env lib deadline count s))"
proof -
  have "\<not> returns (show_frame lib (Suc count) raw) (s\<lparr>world := w2\<rparr>)"
    using dump_survives_iff [of lib "Suc count" raw "s\<lparr>world := w2\<rparr>"] assms(4-)
    by (auto simp: returns_def Let_def) (metis isl_def old.unit.exhaust prod.collapse sum.collapse(2))
  then have "\<not> returns (seqE (show_frame lib (Suc count) raw) (receive_loop n env lib deadline (Suc count))) (s\<lparr>world := w2\<rparr>)"
    by simp
  with assms(1-3) show ?thesis
    by (simp add: returns_def bindE_def now_s_def envE_def callE_def)
qed

text \<open>Only the subscriptions to private channels carry the key and a signature.\<close>

lemma private_channels_sign:
  "dict_get (subscription lib api_key secret ts ch) ''auth'' \<noteq> None \<longleftrightarrow> ch \<in> {''orders'', ''balances''}"
  by (simp add: subscription_def)

text \<open>After a connection was made it is closed however the session ends.\<close>

lemma connection_closed:
  assumes "env_var vars ''GATE_API_KEY'' \<noteq> []" "env_var vars ''GATE_API_SECRET'' \<noteq> []"
    and "read_clock env (world s) = (t, w1)" "wd_connect lib w1 = (Inr (), w2)"
  shows "\<exists>w. world (snd (run_dump n env lib vars channels duration s)) = wd_close lib w"
  using assms
  by (auto simp: run_dump_def bindE_def seqE_def now_s_def envE_def callE_def closing_def split: prod.split)

end
