(* ===== verification/GateDiag.thy ===== *)
theory GateDiag
  imports AbScript CppConnector TextFormat
begin

text \<open>
  \<open>scripts/diagnose_gate.py\<close>: poll the compiled Gate.io connector and print what it answers.  The connector is
  \<open>cpp_lib\<close>; local time as text is a parameter, which may raise on a time out of range.  An interrupt from the
  keyboard is not modelled.
\<close>

section \<open>State\<close>

record 'w diag = "'w sys" +
  di_tick :: nat
  di_prev_ts :: real
  di_stale :: nat
  di_printed :: "string list"

definition fresh_diag :: "'w \<Rightarrow> 'w diag" where
  "fresh_diag w = \<lparr>world = w, di_tick = 0, di_prev_ts = 0, di_stale = 0, di_printed = []\<rparr>"

definition diag_print :: "string list \<Rightarrow> ('w diag, unit) eff" where
  "diag_print ls = modE (\<lambda>s. s\<lparr>di_printed := di_printed s @ ls\<rparr>)"

text \<open>The text of an exception is a parameter too.\<close>

record texts =
  tx_time :: "real \<Rightarrow> string result"
  tx_error :: "exn \<Rightarrow> string"

definition fmt_price8 :: "real \<Rightarrow> string" where
  "fmt_price8 p = fixed_point 8 p"

definition separator_line :: string where
  "separator_line = concat (replicate 68 box_line)"

definition ellipsis :: string where "ellipsis = utf8 [0xE2, 0x80, 0xA6]"
definition warning_sign :: string where "warning_sign = utf8 [0xE2, 0x9A, 0xA0]"
definition micro_sign :: string where "micro_sign = utf8 [0xC2, 0xB5]"
definition right_arrow :: string where "right_arrow = utf8 [0xE2, 0x86, 0x92]"

section \<open>One pass\<close>

text \<open>A ticker with the timestamp of the one before it counts as stale.\<close>

definition mark_stale :: "real \<Rightarrow> 'w diag \<Rightarrow> 'w diag" where
  "mark_stale ts s = s\<lparr>di_stale := (if ts = di_prev_ts s then Suc (di_stale s) else 0), di_prev_ts := ts\<rparr>"

definition stale_label :: "nat \<Rightarrow> string" where
  "stale_label n = (if n = 0 then [] else ''  '' @ warning_sign @ '' STALE ('' @ digits n @ '' consecutive)'')"

definition balance_text :: "texts \<Rightarrow> 'w cpp_lib \<Rightarrow> ('w diag, string) eff" where
  "balance_text tx lib = catchE
     (bindE (callE (cp_fetch_balance lib)) (\<lambda>b.
        ret (''USDT '' @ fixed_point 4 (cb_usd b) @ ''  |  ALKIMI '' @ fixed_point 2 (cb_token b))))
     (\<lambda>e. ret (''ERROR: '' @ tx_error tx e))"

definition order_line :: "cpp_order \<Rightarrow> string" where
  "order_line o' =
     ''    id='' @ take 12 (co_id o') @ ellipsis @ ''  '' @ align_left 4 (co_side o') @ ''  price='' @ fmt_price8 (co_price o') @
     ''  amount='' @ fixed_point 2 (co_amount o') @ ''  status='' @ co_status o'"

definition orders_text :: "texts \<Rightarrow> 'w cpp_lib \<Rightarrow> ('w diag, string) eff" where
  "orders_text tx lib = catchE
     (bindE (callE (cp_fetch_open_orders lib)) (\<lambda>os.
        ret (if os = [] then ''none'' else newline @ join_lines (map order_line os))))
     (\<lambda>e. ret (''ERROR: '' @ tx_error tx e))"

definition spread_line :: "cpp_ticker \<Rightarrow> string" where
  "spread_line t =
     (if ct_mid t > 0
      then ''    spread= '' @ fmt_price8 (ct_ask t - ct_bid t) @ ''  ('' @ fixed_point 4 ((ct_ask t - ct_bid t) / ct_mid t * 100) @ ''%)''
      else [])"

definition liftR :: "'a result \<Rightarrow> ('s, 'a) eff" where
  "liftR r s = (r, s)"

definition print_pass :: "texts \<Rightarrow> real \<Rightarrow> real \<Rightarrow> cpp_ticker \<Rightarrow> string \<Rightarrow> string \<Rightarrow> ('w diag, unit) eff" where
  "print_pass tx now_wall fetch_us t bal_str orders_str =
     seqE (diag_print [separator_line])
     (bindE (liftR (tx_time tx now_wall)) (\<lambda>wall.
      bindE (getsE (\<lambda>s. (di_tick s, di_stale s))) (\<lambda>(tick, stale).
      seqE (diag_print [''  Tick #'' @ pad_zeros 4 (digits tick) @ ''  |  wall '' @ wall @ ''  |  fetch_ticker took '' @
                        fixed_point 1 fetch_us @ '' '' @ micro_sign @ ''s'' @ stale_label stale,
         separator_line, ''  Ticker (from WS cache via seqlock)'',
         ''    bid   = '' @ fmt_price8 (ct_bid t), ''    ask   = '' @ fmt_price8 (ct_ask t),
         ''    last  = '' @ fmt_price8 (ct_last t), ''    mid   = '' @ fmt_price8 (ct_mid t), spread_line t])
     (bindE (liftR (tx_time tx (ct_timestamp t))) (\<lambda>ws.
       diag_print [''    WS ts = '' @ ws @ ''  (age: '' @ fixed_point 1 ((now_wall - ct_timestamp t) * 1000) @ '' ms)'', [],
         ''  Balance (from atomic double buffer)'', ''    '' @ bal_str, [],
         ''  Open orders (from SPSC queue '' @ right_arrow @ '' consumer map)'', ''    '' @ orders_str, []])))))"

text \<open>The body of the loop; a failing \<open>fetch_ticker\<close> is reported and the pass ends.\<close>

definition diag_pass :: "texts \<Rightarrow> 'w env \<Rightarrow> 'w cpp_lib \<Rightarrow> real \<Rightarrow> ('w diag, unit) eff" where
  "diag_pass tx env lib interval =
     seqE (modE (\<lambda>s. s\<lparr>di_tick := Suc (di_tick s)\<rparr>))
     (bindE (now_s env) (\<lambda>now_wall.
      bindE (envE (read_monotonic env)) (\<lambda>t0.
      bindE (catchE (bindE (callE (cp_fetch_ticker lib)) (\<lambda>t. bindE (envE (read_monotonic env)) (\<lambda>t1. ret (Some (t, t1)))))
               (\<lambda>e. bindE (getsE di_tick) (\<lambda>k. seqE
                  (diag_print [''  [TICK '' @ pad_zeros 4 (digits k) @ ''] fetch_ticker ERROR: '' @ tx_error tx e]) (ret None)))) (\<lambda>r.
      seqE (case r of
          None \<Rightarrow> ret ()
        | Some (t, t1) \<Rightarrow>
            seqE (modE (mark_stale (ct_timestamp t)))
            (bindE (balance_text tx lib) (\<lambda>bal. bindE (orders_text tx lib) (\<lambda>os.
              print_pass tx now_wall ((t1 - t0) * 1000000) t bal os))))
        (envE (\<lambda>w. ((), do_sleep env interval w)))))))"

fun diag_loop :: "nat \<Rightarrow> texts \<Rightarrow> 'w env \<Rightarrow> 'w cpp_lib \<Rightarrow> real \<Rightarrow> real \<Rightarrow> ('w diag, unit) eff" where
  "diag_loop 0 tx env lib interval deadline = ret ()"
| "diag_loop (Suc n) tx env lib interval deadline =
     bindE (now_s env) (\<lambda>now. if deadline \<le> now then ret ()
       else seqE (diag_pass tx env lib interval) (diag_loop n tx env lib interval deadline))"

section \<open>The run\<close>

text \<open>\<open>finally\<close>: disconnect, and ignore what that raises.\<close>

definition finally_disconnect :: "'w cpp_lib \<Rightarrow> ('w diag, unit) eff \<Rightarrow> ('w diag, unit) eff" where
  "finally_disconnect lib m s =
     (case m s of (r, s') \<Rightarrow> (r, s'\<lparr>world := snd (cp_disconnect lib (world s'))\<rparr>))"

text \<open>\<open>mk\<close> builds the connector from key and secret; at most \<open>n\<close> passes.\<close>

definition diagnose ::
  "nat \<Rightarrow> texts \<Rightarrow> 'w env \<Rightarrow> (string \<Rightarrow> string \<Rightarrow> 'w \<Rightarrow> 'w cpp_lib result \<times> 'w) \<Rightarrow> (string \<times> string) list \<Rightarrow> real \<Rightarrow> real \<Rightarrow>
   ('w diag, unit) eff"
where
  "diagnose n tx env mk vars duration interval =
     (let api_key = env_var vars ''GATE_API_KEY''; secret = env_var vars ''GATE_API_SECRET''
      in if api_key = [] \<or> secret = [] then raiseE (OtherError ''SystemExit'')
         else bindE (catchE (bindE (callE (mk api_key secret)) (\<lambda>lib. seqE (callE (cp_connect lib)) (ret lib)))
                       (\<lambda>_. raiseE (OtherError ''SystemExit''))) (\<lambda>lib.
           bindE (now_s env) (\<lambda>t.
             finally_disconnect lib (diag_loop n tx env lib interval (t + duration)))))"

section \<open>What a diagnosis does\<close>

text \<open>The connector with other trading methods.\<close>

definition trading_as ::
  "(string \<Rightarrow> real \<Rightarrow> real \<Rightarrow> 'w \<Rightarrow> cpp_order result \<times> 'w) \<Rightarrow> (string \<Rightarrow> 'w \<Rightarrow> unit result \<times> 'w) \<Rightarrow> ('w \<Rightarrow> unit result \<times> 'w) \<Rightarrow>
   'w cpp_lib \<Rightarrow> 'w cpp_lib"
where
  "trading_as f g h lib = lib\<lparr>cp_create_limit_order := f, cp_cancel_order := g, cp_cancel_all_orders := h\<rparr>"

lemma trading_as_reads [simp]:
  "cp_fetch_ticker (trading_as f g h lib) = cp_fetch_ticker lib"
  "cp_fetch_balance (trading_as f g h lib) = cp_fetch_balance lib"
  "cp_fetch_open_orders (trading_as f g h lib) = cp_fetch_open_orders lib"
  "cp_connect (trading_as f g h lib) = cp_connect lib"
  "cp_disconnect (trading_as f g h lib) = cp_disconnect lib"
  by (simp_all add: trading_as_def)

lemma texts_trading [simp]:
  "balance_text tx (trading_as f g h lib) = balance_text tx lib"
  "orders_text tx (trading_as f g h lib) = orders_text tx lib"
  unfolding balance_text_def orders_text_def trading_as_reads by (rule refl)+

lemma diag_pass_trading [simp]: "diag_pass tx env (trading_as f g h lib) interval = diag_pass tx env lib interval"
  unfolding diag_pass_def trading_as_reads texts_trading by (rule refl)

lemma diag_loop_trading [simp]: "diag_loop n tx env (trading_as f g h lib) = diag_loop n tx env lib"
proof (intro ext)
  show "diag_loop n tx env (trading_as f g h lib) i d s = diag_loop n tx env lib i d s" for i d s
    by (induction n arbitrary: s) (simp_all add: bindE_def seqE_def split: prod.split sum.split)
qed

lemma finally_disconnect_trading [simp]: "finally_disconnect (trading_as f g h lib) m = finally_disconnect lib m"
  by (rule ext) (simp add: finally_disconnect_def)

text \<open>
  A diagnosis never trades: it does the same, step by step, with a connector whose order methods are
  replaced by any others.
\<close>

theorem diagnosis_never_trades:
  fixes mk :: "string \<Rightarrow> string \<Rightarrow> 'w \<Rightarrow> 'w cpp_lib result \<times> 'w"
  shows "diagnose n tx env (\<lambda>k sec w. map_prod (map_sum id (trading_as f g h)) id (mk k sec w)) vars duration interval =
   diagnose n tx env mk vars duration interval"
proof
  fix s :: "'w diag"
  let ?key = "env_var vars ''GATE_API_KEY''" and ?sec = "env_var vars ''GATE_API_SECRET''"
  obtain r w where "mk ?key ?sec (world s) = (r, w)" by fastforce
  then show "diagnose n tx env (\<lambda>k sec w. map_prod (map_sum id (trading_as f g h)) id (mk k sec w)) vars duration interval s =
     diagnose n tx env mk vars duration interval s"
    by (cases r) (simp_all add: diagnose_def Let_def bindE_def catchE_def callE_def seqE_def ret_def split: prod.split sum.split)
qed

text \<open>Once connected, the last thing a diagnosis does is to disconnect, whatever happened before.\<close>

lemma diagnosis_disconnects:
  assumes "env_var vars ''GATE_API_KEY'' \<noteq> []" "env_var vars ''GATE_API_SECRET'' \<noteq> []"
    and "mk (env_var vars ''GATE_API_KEY'') (env_var vars ''GATE_API_SECRET'') (world s) = (Inr lib, w1)"
    and "cp_connect lib w1 = (Inr (), w2)"
  shows "\<exists>w. world (snd (diagnose n tx env mk vars duration interval s)) = snd (cp_disconnect lib w)"
  using assms
  by (auto simp: diagnose_def bindE_def seqE_def catchE_def ret_def now_s_def envE_def callE_def finally_disconnect_def
      split: prod.split)

section \<open>Staleness\<close>

text \<open>How many of the last timestamps repeat the one before them.\<close>

definition trailing_repeats :: "real list \<Rightarrow> nat" where
  "trailing_repeats ts = length (takeWhile (\<lambda>t. t = last ts) (rev ts)) - 1"

lemma mark_stale_simps [simp]:
  "di_stale (mark_stale t s) = (if t = di_prev_ts s then Suc (di_stale s) else 0)"
  "di_prev_ts (mark_stale t s) = t"
  by (simp_all add: mark_stale_def)

lemma mark_stale_prev: "di_prev_ts (fold mark_stale ts (fresh_diag w)) = (if ts = [] then 0 else last ts)"
  by (induction ts rule: rev_induct) (simp_all add: fresh_diag_def)

text \<open>The label counts exactly the repetitions, passes without a ticker left aside.\<close>

lemma stale_counts_repeats:
  "0 \<notin> set ts \<Longrightarrow> di_stale (fold mark_stale ts (fresh_diag w)) = trailing_repeats ts"
proof (induction ts rule: rev_induct)
  case Nil
  show ?case by (simp add: fresh_diag_def trailing_repeats_def)
next
  case (snoc t ts)
  then have IH: "di_stale (fold mark_stale ts (fresh_diag w)) = trailing_repeats ts" by simp
  show ?case
  proof (cases ts rule: rev_cases)
    case Nil
    with snoc.prems show ?thesis by (simp add: fresh_diag_def trailing_repeats_def)
  next
    case (snoc us u)
    then show ?thesis
      using IH by (auto simp: mark_stale_prev trailing_repeats_def)
  qed
qed

text \<open>A first ticker with the timestamp zero is called stale.\<close>

lemma first_zero_is_stale: "di_stale (mark_stale 0 (fresh_diag w)) = 1"
  by (simp add: mark_stale_def fresh_diag_def)

end
