(* ===== verification/Alerts.thy ===== *)
theory Alerts
  imports SystemSafety Startup TextFormat
begin

text \<open>
  The webhook alert of \<open>safety/q_switch.py\<close>: its text, how it is posted, and when one is scheduled at all.  The
  HTTP client and how Python writes a float are parameters.
\<close>

section \<open>The alert\<close>

definition reason_text :: "(real \<Rightarrow> string) \<Rightarrow> q_reason \<Rightarrow> string" where
  "reason_text show r =
     (case r of
        UsdBelow x bound \<Rightarrow> ''USD balance '' @ fixed_point 2 x @ '' < threshold '' @ show bound
      | TokenBelow x bound \<Rightarrow> ''Token balance '' @ fixed_point 4 x @ '' < threshold '' @ show bound
      | Manual t \<Rightarrow> t)"

definition alert_text :: "(real \<Rightarrow> string) \<Rightarrow> q_switch_event \<Rightarrow> string" where
  "alert_text show e =
     '':rotating_light: *Q-Switch Triggered* '' @ em_dash @ '' `'' @ qe_exchange e @ ''`'' @ newline @
     ''Reason: '' @ reason_text show (qe_reason e) @ newline @
     ''Balance: '' @ fixed_point 2 (qe_balance_usd e) @ '' USD / '' @ fixed_point 4 (qe_balance_token e) @ '' ALKIMI''"

definition alert_payload :: "(real \<Rightarrow> string) \<Rightarrow> q_switch_event \<Rightarrow> json" where
  "alert_payload show e = JObj [(''text'', JStr (alert_text show e))]"

text \<open>
  \<open>send url body\<close> is the post with its timeout and \<open>raise_for_status\<close>; whatever it raises is logged and dropped,
  and so is the missing address.
\<close>

definition send_alert ::
  "(real \<Rightarrow> string) \<Rightarrow> (string \<Rightarrow> json \<Rightarrow> 'w \<Rightarrow> unit result \<times> 'w) \<Rightarrow> safety_config \<Rightarrow> q_switch_event \<Rightarrow> (('w, 'z) sys_scheme, unit) eff"
where
  "send_alert show send cfg e =
     catchE (case alert_webhook_url cfg of
               None \<Rightarrow> raiseE (OtherError ''TypeError'')
             | Some url \<Rightarrow> callE (send url (alert_payload show e)))
       (\<lambda>_. ret ())"

lemma send_alert_returns: "\<exists>w. send_alert show send cfg e s = (Inr (), s\<lparr>world := w\<rparr>)"
proof (cases "alert_webhook_url cfg")
  case None
  then show ?thesis by (intro exI [of _ "world s"]) (simp add: send_alert_def catchE_def raiseE_def ret_def)
next
  case (Some url)
  obtain r w where "send url (alert_payload show e) (world s) = (r, w)" by fastforce
  with Some show ?thesis
    by (intro exI [of _ w]) (cases r; simp add: send_alert_def catchE_def callE_def ret_def)
qed

section \<open>When an alert is scheduled\<close>

definition no_webhook :: "safety_config \<Rightarrow> bool" where
  "no_webhook cfg \<longleftrightarrow> (case alert_webhook_url cfg of None \<Rightarrow> True | Some u \<Rightarrow> u = [])"

lemma fire_alerts:
  "qs_alerts (qs_fire now r b q) =
     (if no_webhook (qs_config q) then qs_alerts q else qs_alerts q @ [the (qs_last_event (qs_fire now r b q))])"
  by (simp add: qs_fire_def Let_def no_webhook_def split: option.split)

text \<open>One alert at most from one reset to the next, however often balances are checked and triggers pulled.\<close>

definition resets :: "qs_op list \<Rightarrow> nat" where
  "resets es = length (filter (\<lambda>e. e = QReset) es)"

text \<open>The alerts scheduled so far, and one more that a switch not yet triggered may schedule.\<close>

definition alerts_due :: "q_switch \<Rightarrow> nat" where
  "alerts_due q = length (qs_alerts q) + (if qs_triggered q then 0 else 1)"

lemma alerts_due_step: "alerts_due (qs_step e q) \<le> alerts_due q + resets [e]"
  by (cases e)
    (auto simp: alerts_due_def resets_def qs_check_def qs_trigger_manually_def qs_reset_def fire_alerts split: option.split)

lemma alerts_due_run: "alerts_due (run_ops qs_step es q) \<le> alerts_due q + resets es"
proof (induction es arbitrary: q)
  case Nil
  then show ?case by simp
next
  case (Cons e es)
  have "resets (e # es) = resets [e] + resets es" by (simp add: resets_def)
  with Cons.IH [of "qs_step e q"] alerts_due_step [of e q] show ?case by simp
qed

lemma alerts_bounded: "length (qs_alerts (run_ops qs_step es (new_q_switch cfg ex))) \<le> Suc (resets es)"
  using alerts_due_run [of es "new_q_switch cfg ex"] by (simp add: alerts_due_def new_q_switch_def)

section \<open>Silent switches\<close>

definition mute_switch :: "q_switch \<Rightarrow> bool" where
  "mute_switch q \<longleftrightarrow> no_webhook (qs_config q) \<and> qs_alerts q = []"

definition mute :: "'w bot \<Rightarrow> bool" where
  "mute b \<longleftrightarrow> mute_switch (b_q_switch b)"

lemma mute_switch_step [simp]:
  "mute_switch q \<Longrightarrow> mute_switch (snd (qs_check now b q))"
  "mute_switch q \<Longrightarrow> mute_switch (qs_trigger_manually now r q)"
  "mute_switch q \<Longrightarrow> mute_switch (qs_reset q)"
  by (auto simp: mute_switch_def qs_check_def qs_trigger_manually_def qs_reset_def fire_alerts split: option.split)

lemma more_only_mute [keeps_intros]: "more_only mute"
proof (rule more_onlyI)
  fix s s' :: "'a bot"
  assume "om.more s = om.more s'" "mute s"
  then show "mute s'" by (cases s; cases s') (simp add: mute_def)
qed

lemma mute_free [keeps_intros]: "world_free mute" "limiter_free mute" "db_free mute" "feed_free mute"
  by (intro keeps_intros)+

lemma mute_upd [simp]:
  "mute (s\<lparr>b_balance := x1\<rparr>) = mute s" "mute (s\<lparr>b_balance_cached_at := x2\<rparr>) = mute s"
  "mute (s\<lparr>b_inventory := x3\<rparr>) = mute s" "mute (s\<lparr>b_last_global_state := x4\<rparr>) = mute s"
  "mute (s\<lparr>b_running := x5\<rparr>) = mute s" "mute (s\<lparr>b_heartbeat := x6\<rparr>) = mute s"
  "mute (s\<lparr>b_paper_orders := x7\<rparr>) = mute s" "mute (s\<lparr>b_last_fill_poll_at := x8\<rparr>) = mute s"
  "mute (s\<lparr>b_last_snapshot_at := x9\<rparr>) = mute s" "mute (s\<lparr>b_last_rl_at := x10\<rparr>) = mute s"
  "mute (s\<lparr>b_last_fill_ts := x11\<rparr>) = mute s" "mute (s\<lparr>b_breaker := x12\<rparr>) = mute s"
  "mute (s\<lparr>b_queue := x13\<rparr>) = mute s" "mute (drain_regime_queue s) = mute s"
  by (simp_all add: mute_def drain_regime_queue_def Let_def split: option.split prod.split)

lemma keeps_mute_q_check: "keeps mute (q_check env b)"
proof (rule keepsI)
  fix s :: "'a bot" assume s: "mute s"
  obtain now w where c: "read_clock env (world s) = (now, w)" by fastforce
  from s c show "mute (snd (q_check env b s))" by (auto simp: q_check_def eff_simps mute_def)
qed

lemma keeps_mute_trigger: "keeps mute (q_trigger env r)"
  unfolding q_trigger_def by (intro keeps_intros keeps_mod) (simp add: mute_def)

lemma keeps_mute_plan: "keeps mute (tick_plan_step env st)"
  unfolding tick_plan_step_def get_balance_def refresh_balance_def breaker_record_def case_prod_unfold
  by (intro keeps_intros keeps_mod keeps_mute_q_check) simp_all

lemma keeps_mute_beat: "keeps mute (beat env)"
  unfolding beat_def by (intro keeps_intros keeps_mod) simp_all

lemma keeps_mute_error: "keeps mute (on_error env e)"
  unfolding on_error_def try_reconnect_def by (intro keeps_intros keeps_mod keeps_mute_trigger) simp_all

lemma keeps_mute_trade: "keeps mute (tick_trade_step env st p)"
  unfolding trade_defs case_prod_unfold by (intro keeps_intros keeps_mod) (auto split: option.split)

interpretation silent: bot_property envs "\<lambda>n. mute" "\<lambda>_. True"
  for envs :: "string \<Rightarrow> 'w env"
proof (unfold_locales, goal_cases)
  case (1 n b w d f)
  then show ?case by (simp add: mute_def)
next
  case (2 n)
  show ?case by (intro keeps_loop_plan keeps_mute_plan keeps_mute_beat keeps_mute_error) simp
next
  case (4 n st p)
  show ?case by (intro keeps_loop_trade keeps_mute_trade keeps_mute_beat keeps_mute_error)
next
  case (5 n)
  show ?case
    unfolding bot_emergency_stop_def emit_emergency_stop_def
    by (intro keeps_intros keeps_mod keeps_mute_trigger) simp_all
next
  case (6 n reason)
  show ?case unfolding stop_one_def by (intro keeps_intros keeps_mute_trigger)
next
  case (7 n)
  show ?case unfolding pause_bot_def by (rule keeps_mute_trigger)
qed (simp_all add: mute_def reload_bot_def)

lemma keeps_mute_resume: "keeps mute resume_bot"
  unfolding resume_bot_def by (rule keeps_mod) (simp add: mute_def)

section \<open>From the start on\<close>

definition all_mute :: "('w, 'm) orch \<Rightarrow> bool" where
  "all_mute s \<longleftrightarrow> dict_wf (oc_bots s) \<and> (\<forall>(n, b) \<in> set (oc_bots s). mute b)"

lemma wire_mute:
  assumes "no_webhook (xc_safety ex)"
  shows "keeps all_mute (wire_exchange fa env ex)"
proof -
  have add: "all_mute (add_bot ex up now today paper s)" if "all_mute s" for up now today paper s
    using that assms
    by (auto simp: all_mute_def add_bot_def Let_def set_update_wf dict_wf_def update_keys new_bot_def mute_def mute_switch_def
        new_q_switch_def split: option.splits)
  have free: "world_free (all_mute :: ('a, 'b) orch \<Rightarrow> bool)" by (simp add: world_free_def all_mute_def)
  have lift: "keeps all_mute (liftR r)" for r :: "'c result" by (auto simp: keeps_def liftR_def)
  show ?thesis
    unfolding wire_exchange_def wire_paper_def Let_def
    by (intro keeps_intros keeps_mod free lift add) (simp_all add: all_mute_def)
qed

lemma started_mute:
  assumes run: "run_bot hmm0 fa env rs cfg s = (r, s')" and new: "oc_bots (ap_orch (pr_app s)) = []"
    and off: "\<forall>ex \<in> set (bc_exchanges cfg). no_webhook (xc_safety ex)"
  shows "all_mute (ap_orch (pr_app s'))"
proof -
  let ?o = "ap_orch (pr_app s)"
  obtain ok w p where c: "connect_db_with_retries env ?o = (Inr ok, ?o\<lparr>world := w, db := db ?o\<lparr>db_pool := p\<rparr>\<rparr>)"
    using connect_attempts_run [of 10 env ?o] unfolding connect_db_with_retries_def by blast
  let ?o2 = "init_orch hmm0 cfg (rs_live_mode rs) (?o\<lparr>world := w, db := db ?o\<lparr>db_pool := p\<rparr>\<rparr>)"
  have o2: "all_mute ?o2" "oc_config ?o2 = cfg" by (simp_all add: all_mute_def init_orch_def)
  obtain r1 o4 where start: "orch_start fa env ?o2 = (r1, o4)" by fastforce
  have "all_mute o4"
  proof -
    have "all_mute (?o2\<lparr>oc_running := True\<rparr>)" using o2(1) by (simp add: all_mute_def)
    moreover have "keeps all_mute (for_each (wire_exchange fa env) (enabled_exchanges cfg))"
      using off by (intro keeps_for_each wire_mute) (auto simp: enabled_exchanges_def)
    moreover obtain r3 o3 where f: "for_each (wire_exchange fa env) (enabled_exchanges cfg) (?o2\<lparr>oc_running := True\<rparr>) = (r3, o3)"
      by fastforce
    ultimately have "all_mute o3" by (metis keepsE)
    moreover have "oc_bots o4 = oc_bots o3"
      using f start o2(2) by (cases r3) (auto simp: orch_start_def seqE_def bindE_def modE_def getsE_def)
    ultimately show ?thesis by (simp add: all_mute_def)
  qed
  moreover have "all_mute ?o" "all_mute (?o\<lparr>world := w, db := db ?o\<lparr>db_pool := p\<rparr>\<rparr>)" using new by (simp_all add: all_mute_def)
  ultimately show ?thesis
    using run c start
    by (cases ok; cases r1)
      (auto simp: run_bot_def start_bot_def on_app_def on_orch_def catchE_def seqE_def bindE_def raiseE_def modE_def)
qed

text \<open>
  C22. The environment's \<open>ALERT_WEBHOOK_URL\<close> alerts nobody: whatever it is set to, if no exchange of the
  configuration has an address of its own in its safety settings, then whatever the started bots go
  through, stops, failures, resumes and reloads included, no switch ever schedules an alert.
\<close>

theorem alert_setting_is_ignored:
  fixes S T :: "('w, 'm) system"
  assumes "run_bot hmm0 fa env (rs\<lparr>rs_alert_webhook_url := Some url\<rparr>) cfg s = (r, s')" and "oc_bots (ap_orch (pr_app s)) = []"
    and "\<forall>ex \<in> set (bc_exchanges cfg). no_webhook (xc_safety ex)"
    and "sy_orch S = ap_orch (pr_app s')" and "run envs env lib hmm0 as S T"
  shows "\<forall>(n, b) \<in> set (oc_bots (sy_orch T)). qs_alerts (b_q_switch b) = []"
proof -
  let ?ks = "dict_keys (oc_bots (sy_orch S))"
  have "all_bots (\<lambda>n. mute) ?ks (sy_orch S)"
    using started_mute [OF assms(1-3)] assms(4) by (auto simp: all_mute_def all_bots_def dict_wf_def)
  from silent.run_all [OF assms(5) this] keeps_mute_resume have "all_bots (\<lambda>n. mute) ?ks (sy_orch T)" by simp
  then show ?thesis by (auto simp: all_bots_def mute_def mute_switch_def)
qed

text \<open>A bot that is started and paused, which triggers its switch: no alert, although the variable is set.\<close>

theorem alert_setting_is_ignored_witness:
  "case run_bot None (bot_factory sample_surroundings) sample_env (live_settings\<lparr>rs_alert_webhook_url := Some ''https://hooks''\<rparr>)
     small_config (sample_process False) of (r, s') \<Rightarrow>
     \<forall>(n, b) \<in> set (oc_bots (snd (on_bot ''kucoin'' (pause_bot sample_env) (ap_orch (pr_app s'))))). qs_alerts (b_q_switch b) = []"
proof -
  let ?x = "run_bot None (bot_factory sample_surroundings) sample_env (live_settings\<lparr>rs_alert_webhook_url := Some ''https://hooks''\<rparr>)
     small_config (sample_process False)"
  let ?S = "\<lparr>sy_orch = ap_orch (pr_app (snd ?x)), sy_flight = []\<rparr> :: (nat, unit) system"
  let ?t = "snd (on_bot ''kucoin'' (pause_bot sample_env) (sy_orch ?S))"
  have new: "oc_bots (ap_orch (pr_app (sample_process False))) = []" by (simp add: sample_process_def)
  have off: "\<forall>ex \<in> set (bc_exchanges small_config). no_webhook (xc_safety ex)"
    by (simp add: small_config_def sample_exchange_def sample_safety_def no_webhook_def)
  have "run (\<lambda>_. sample_env) sample_env sample_hmm_lib None [Pause ''kucoin''] ?S (?S\<lparr>sy_orch := ?t\<rparr>)"
    by (rule run.cons [OF step.pause run.nil]) (rule prod.collapse [symmetric])
  from alert_setting_is_ignored [OF prod.collapse [of ?x, symmetric] new off _ this] show ?thesis
    by (simp add: case_prod_unfold)
qed

end
