(* ===== verification/Spec2Isabelle.thy ===== *)
theory Spec2Isabelle
  imports SystemSafety Startup Rebalancer Sessions Agents RegimeFiles BotFills ApiModels AbRun BenchReport BacktestReport
    DryRunDemo GateWs GateDiag Alerts
begin

text \<open>
  A verification of Meridian, a market-making bot.

  \<^bold>\<open>The program.\<close>  One \<open>ExchangeBot\<close> per exchange quotes a grid of limit orders around a global mid
  price.  The \<open>Orchestrator\<close> fetches tickers, averages them and pushes the state into the bounded
  queue of every bot; the \<open>RegimeMaster\<close> classifies the market and pushes its regime the same way.
  A tick of a bot checks the \<open>QSwitch\<close> and the \<open>CircuitBreaker\<close>, plans prices and amounts with the quant
  engines, and lets the \<open>OrderManager\<close> cancel and place orders, really or in dry run; fills, snapshots and
  features go to a Postgres wrapper and events to the \<open>LiveFeed\<close>.  A \<open>PaperTrader\<close> fills dry-run orders
  against a streamed book.  A FastAPI application controls and configures the bots; \<open>main.py\<close> starts and
  stops everything.

  \<^bold>\<open>How code is rendered.\<close>  A method with effects is a function from the object's state to a result and the
  new state (\<open>eff\<close> in \<open>Prelude\<close>); exceptions are values of \<open>exn\<close>, and what was assigned before a raise stays
  assigned.  Objects are records; a class that holds other objects extends or contains their records:
  \<open>sys\<close> (the outside world) is extended by the rate limiter, the database, the feed, the order manager
  and the bot, in this order, so a method of an inner object is also a method of the outer one.  Dicts are
  association lists in insertion order, deques are lists with a bound, asyncio queues are \<open>aqueue\<close>.
  Floats are real numbers; \<open>round\<close> is to even, \<open>int\<close> cuts towards zero, Python ints are \<open>int\<close> or \<open>nat\<close>.
  JSON, and what pydantic makes of it, is a datatype and a parameter \<open>coercions\<close>.

  \<^bold>\<open>What is a parameter.\<close>  The exchange, the clocks, \<open>uuid4\<close>, \<open>sleep\<close> and whether a database statement fails are
  the fields of \<open>env\<close>, functions on an arbitrary world \<open>'w\<close>; ccxt, ccxt.pro, the compiled connectors and
  hmmlearn are records of functions.  A theorem about a definition with an \<open>env\<close> holds for every
  exchange, every clock and every failure of the database; only where a theorem needs something of them is it a premise.

  \<^bold>\<open>Theories and sources.\<close>
  \<^item> \<open>Prelude\<close>: exceptions, the monad and its rules \<open>keeps_intros\<close>, \<open>agree_intros\<close>, dicts, deques, rounding.
    \<open>AsyncQueue\<close>: asyncio queues; locale \<open>bounded_channel\<close> (interpretation \<open>aq\<close>).
  \<^item> \<open>MathUtils\<close>, \<open>Spread\<close>, \<open>Depth\<close>, \<open>Aggressiveness\<close>, \<open>Inventory\<close>, \<open>Volatility\<close>: \<open>utils/\<close>, \<open>quant/\<close> and
    \<open>core/inventory_tracker.py\<close>.  Locale \<open>distribution\<close> (\<open>geo\<close>, \<open>eqd\<close>) for the two ways to split a budget.
  \<^item> \<open>RegimeDetector\<close>, \<open>HmmRegime\<close>, \<open>RegimeFiles\<close>, \<open>RegimeMaster\<close>: the discrete hidden Markov model with
    its Baum-Welch training (locale \<open>hmm_model\<close>, interpreted on the default parameters), the Gaussian one with
    its fallback rules, their parameters on disk and at the start, and the reconciliation of both.
  \<^item> \<open>ConfigSchema\<close>, \<open>Settings\<close>: \<open>config/\<close>; every model as a record, every constraint and validator; locale
    \<open>codec\<close> relates writing and validating a model and is interpreted for all eight of them.
  \<^item> \<open>ExchangeBase\<close>, \<open>CcxtConnector\<close>, \<open>CppConnector\<close>, \<open>WsConnector\<close>, \<open>Factory\<close>: \<open>exchange/\<close>; locale \<open>connection\<close>
    (\<open>rest\<close>, \<open>native\<close>) for what both connectors promise of their connection flag.
  \<^item> \<open>RateLimiter\<close>, \<open>Latch\<close>, \<open>QSwitch\<close>, \<open>CircuitBreaker\<close>, \<open>Heartbeat\<close>: \<open>safety/\<close>; locale \<open>latch\<close> (\<open>qs\<close>, \<open>cb\<close>).
  \<^item> \<open>Database\<close>: \<open>db/\<close>; a statement is what it does to the tables; locale \<open>order_store\<close> (\<open>orders\<close>).
  \<^item> \<open>LiveFeed\<close>, \<open>Sessions\<close>, \<open>Metrics\<close>, \<open>Api\<close>, \<open>ApiModels\<close>: \<open>api/\<close>.  \<open>Sessions\<close> interleaves the WebSocket sessions with the
    broadcasts (\<open>ws_reach\<close>), \<open>Metrics\<close> the threads under the lock (\<open>mc_reach\<close>).
  \<^item> \<open>OrderManager\<close>, \<open>ExchangeBot\<close>, \<open>BotSafety\<close>, \<open>BotFills\<close>: the order manager, the tick in two halves and the
    bot's lifecycle, what they guarantee together, and the watermark of the ingested fills.
  \<^item> \<open>FillSimulator\<close>, \<open>PaperTrader\<close>: the paper fills; locales \<open>book_walk\<close> and \<open>side_filler\<close>, interpreted for both sides.
  \<^item> \<open>Orchestrator\<close>, \<open>System\<close>, \<open>SystemSafety\<close>, \<open>Startup\<close>: the bots together (locale \<open>bot_round\<close> for the loops over
    all bots), the step relation \<open>step\<close> and its runs \<open>run\<close>, the invariants of all reachable states (locale
    \<open>bot_property\<close>, interpretations \<open>sound\<close> and \<open>halted\<close>), and \<open>main.py\<close>.
    \<open>Alerts\<close>: the webhook alert of the Q-Switch, and when one is scheduled (interpretation \<open>silent\<close>).
  \<^item> \<open>AbComparator\<close>, \<open>Rebalancer\<close>, \<open>Agents\<close>: the comparator, the rebalancer and the feature collector.
  \<^item> \<open>TextFormat\<close>: Python's alignment, grouped and signed numbers and durations.  \<open>AbReport\<close>: the reports of the
    comparator, character by character; \<open>AbScript\<close> and \<open>AbRun\<close>: \<open>scripts/ab_paper_trade.py\<close>.
  \<^item> \<open>Backtest\<close>, \<open>BacktestReport\<close>: \<open>scripts/backtest.py\<close>.  \<open>Benchmark\<close>, \<open>BenchReport\<close>: \<open>scripts/latency_benchmark.py\<close>.
    \<open>DryRunDemo\<close>: the quant pipeline of \<open>scripts/dry_run_demo.py\<close>.  \<open>GateWs\<close>, \<open>GateDiag\<close>: \<open>scripts/gate_ws_raw.py\<close>
    and \<open>diagnose_gate.py\<close>, which print what Gate.io and the compiled connector answer.

  \<^bold>\<open>What is shown.\<close>
  \<^item> Safety of trading: no order activity without a sufficient balance, an untriggered switch and a closed
    breaker; a dry run never depends on the exchange; a real order needs the live-mode gate; once halted, no
    interleaving of tasks places an order until a resume; the exact exceptions to this (a tick already under way).
  \<^item> Order management: reposting leaves no stale order but what the exchange has just answered and, dry,
    covers the grid; cancelling closes everything or changes nothing; retries are bounded, and lost answers
    duplicate an order up to four times; no fill below the watermark is lost, but for fills
    of one millisecond; when the benchmark script places orders.
  \<^item> Quoting: bounds of prices, spreads and amounts, what the minimum order value does to the budget,
    regimes that are always one of the named ones with probabilities as confidence.
  \<^item> Components against a specification: the live feed refines mailboxes, the sessions deliver a prefix of
    the broadcasts, the metrics under threads refine the calls made in sequence, a pass of the run
    loop is its two halves, and the simulator conserves liquidity.
  \<^item> Errors: when a failed tick makes the run loop reconnect or stop; what is left behind when one of the bots fails while all are stopped, when the configuration is updated or
    read back, when a stream gives up, when an exchange has no credentials, and which frames end the dump.
  \<^item> Answers and reports: every answer of the API conforms to its response model or is one of its error bodies; the
    two arms of a comparison differ only through failed requests; a
    backtest only ever reports the drift of the price; with equal outages the comparison fails
    the C++ connector, one exchange that is skipped loses the reports of the others, and the environment's
    webhook address alerts nobody.

  \<^bold>\<open>Interleaving.\<close>  Asyncio tasks switch only at an \<open>await\<close>.  A tick is split where it matters, between the
    checks and the orders (\<open>tick_plan_step\<close>, \<open>tick_trade_step\<close>), so that a stop can fall between them; the other
  steps of \<open>System\<close> are whole handlers.  Threads of \<open>Metrics\<close> are split at each read and store.

  \<^bold>\<open>Loops and fuel.\<close>  Loops over data are structural.  \<open>fetch_pages\<close> ends because every page moves the cursor.  A
  retry has its number of attempts.  The endless loops (\<open>watch_loop\<close>, \<open>poll_loop\<close>, \<open>strategy_loop\<close>) take a number
  of rounds, and their theorems hold for every number; that a watch loop ends is proved as such.  The loops
  of the bots are steps of \<open>System\<close> and may be taken any number of times.

  \<^bold>\<open>Not modelled.\<close>  The configuration of structlog and the text of log messages, which no code reads; SQL text; uvicorn,
  signals, CORS, static files and path matching; the compiled connectors; argparse (the arguments are
  records with their defaults), banners and progress lines of the scripts, the printed tables of the backtest and the
  demo (their numbers are modelled); \<open>scripts/test_order_roundtrip.py\<close>, a test.  Failures of the file system: opening,
  reading and writing the configuration file succeed when the file is there.  Rounding errors of floats, NaN and
  infinities.  Interrupts from the keyboard.
\<close>

end
